(* ===== verification/Smbios_Prelude.thy ===== *)
theory Smbios_Prelude
  imports Main "HOL-Library.Word" "HOL-Library.Monad_Syntax"
begin

text \<open>
  Shared vocabulary of the development: the machine integers of the C++ code, byte memories
  with checked reads, pointers that may be null, little-endian fields, and the generic lemmas
  on lists, options and words that the component theories use.

  A C++ pointer into the SMBIOS storage is an offset into a byte list (\<open>At p\<close>) or null. Every
  read goes through \<open>rd8\<close> or one of its wider forms and has a result of type
  \<open>'a checked\<close>, where \<^const>\<open>None\<close> means that the code dereferenced memory outside of the
  storage, which C++ leaves undefined. Memory safety of a routine is the theorem that its
  result is not \<^const>\<open>None\<close>. Multi-byte fields are little-endian and plain \<open>char\<close> is
  unsigned, as on the ARM targets of OpenBMC.
\<close>

unbundle bit_operations_syntax

named_theorems smbios_defs \<open>definitions unfolded when a concrete table is evaluated\<close>
named_theorems field_defs \<open>fields of the packed structures\<close>

type_synonym u8 = "8 word"
type_synonym u16 = "16 word"
type_synonym u32 = "32 word"
type_synonym u64 = "64 word"

type_synonym memory = "u8 list"

type_synonym 'a checked = "'a option"

datatype ptr = Null | At nat

lemma checked_bind_cong [fundef_cong]:
  assumes "x = y" and "\<And>a. y = Some a \<Longrightarrow> f a = g a"
  shows "Option.bind x f = Option.bind y g"
  using assms by (cases y) auto

subsection \<open>Checked reads\<close>

definition rd8 :: "memory \<Rightarrow> nat \<Rightarrow> u8 checked" where
  "rd8 m p = (if p < length m then Some (m ! p) else None)"

definition rd_bytes :: "nat \<Rightarrow> memory \<Rightarrow> nat \<Rightarrow> u8 list checked" where
  "rd_bytes n m p = (if p + n \<le> length m then Some (take n (drop p m)) else None)"

fun le_nat :: "u8 list \<Rightarrow> nat" where
  "le_nat [] = 0"
| "le_nat (b # bs) = unat b + 256 * le_nat bs"

definition le_word :: "u8 list \<Rightarrow> 'a::len word" where
  "le_word bs = word_of_nat (le_nat bs)"

definition rd16 :: "memory \<Rightarrow> nat \<Rightarrow> u16 checked" where
  "rd16 m p = map_option le_word (rd_bytes 2 m p)"

definition rd32 :: "memory \<Rightarrow> nat \<Rightarrow> u32 checked" where
  "rd32 m p = map_option le_word (rd_bytes 4 m p)"

definition rd64 :: "memory \<Rightarrow> nat \<Rightarrow> u64 checked" where
  "rd64 m p = map_option le_word (rd_bytes 8 m p)"

fun le_bytes :: "nat \<Rightarrow> nat \<Rightarrow> u8 list" where
  "le_bytes 0 k = []"
| "le_bytes (Suc n) k = word_of_nat (k mod 256) # le_bytes n (k div 256)"

definition word_bytes :: "nat \<Rightarrow> 'a::len word \<Rightarrow> u8 list" where
  "word_bytes n w = le_bytes n (unat w)"

lemmas rd_defs = rd8_def rd_bytes_def rd16_def rd32_def rd64_def le_word_def

lemma rd8_Some_iff: "rd8 m p = Some b \<longleftrightarrow> p < length m \<and> b = m ! p"
  by (auto simp: rd8_def)

lemma rd8_None_iff: "rd8 m p = None \<longleftrightarrow> length m \<le> p"
  by (auto simp: rd8_def)

lemma rd8_ok: "p < length m \<Longrightarrow> rd8 m p = Some (m ! p)"
  by (simp add: rd8_def)

lemma rd_bytes_ok: "p + n \<le> length m \<Longrightarrow> rd_bytes n m p = Some (take n (drop p m))"
  by (simp add: rd_bytes_def)

lemma rd_wide_safe:
  "p + 2 \<le> length m \<Longrightarrow> rd16 m p \<noteq> None"
  "p + 4 \<le> length m \<Longrightarrow> rd32 m p \<noteq> None"
  "p + 8 \<le> length m \<Longrightarrow> rd64 m p \<noteq> None"
  by (simp_all add: rd_defs)

subsection \<open>Little-endian encoding\<close>

lemma length_le_bytes [simp]: "length (le_bytes n k) = n"
  by (induction n k rule: le_bytes.induct) auto

lemma length_word_bytes [simp]: "length (word_bytes n w) = n"
  by (simp add: word_bytes_def)

lemma le_nat_le_bytes: "le_nat (le_bytes n k) = k mod 256 ^ n"
proof (induction n k rule: le_bytes.induct)
  case (1 k)
  then show ?case by simp
next
  case (2 n k)
  have "unat (word_of_nat (k mod 256) :: u8) = k mod 256"
    by (simp add: unat_of_nat)
  then show ?case
    using 2 by (simp add: mod_mult2_eq)
qed

lemma le_word_bytes:
  fixes w :: "'a::len word"
  assumes "LENGTH('a) \<le> 8 * n"
  shows "le_word (word_bytes n w) = w"
proof -
  have "unat w < 2 ^ LENGTH('a)"
    by (rule unsigned_less)
  also have "(2 :: nat) ^ LENGTH('a) \<le> 2 ^ (8 * n)"
    using assms by (intro power_increasing) simp_all
  finally have "unat w < 2 ^ (8 * n)" .
  moreover have "(2 :: nat) ^ (8 * n) = 256 ^ n"
    by (simp add: power_mult)
  ultimately show ?thesis
    by (simp add: le_word_def word_bytes_def le_nat_le_bytes)
qed

lemma le_nat_less: "le_nat bs < 256 ^ length bs"
proof (induction bs)
  case Nil
  then show ?case by simp
next
  case (Cons b bs)
  have "unat b < 256"
    using unsigned_less [of b] by simp
  then show ?case using Cons by simp
qed

lemma unat_ucast_up:
  fixes x :: "'a::len word"
  assumes "LENGTH('a) \<le> LENGTH('b::len)"
  shows "unat (ucast x :: 'b word) = unat x"
proof -
  have "unat x < 2 ^ LENGTH('a)" by (rule unsigned_less)
  also have "(2 :: nat) ^ LENGTH('a) \<le> 2 ^ LENGTH('b)" using assms by simp
  finally show ?thesis by (simp add: unsigned_ucast_eq take_bit_nat_eq_self)
qed

lemma ucast_u8_u32: "ucast (ucast (x :: u8) :: u32) = x"
  by (rule bit_word_eqI) (simp add: bit_unsigned_iff)

subsection \<open>Lists and prefixes of a memory\<close>

text \<open>\<open>holds m p bs\<close>: the bytes \<open>bs\<close> stand in \<open>m\<close> at offset \<open>p\<close>.\<close>

definition holds :: "memory \<Rightarrow> nat \<Rightarrow> u8 list \<Rightarrow> bool" where
  "holds m p bs \<longleftrightarrow> p + length bs \<le> length m \<and> take (length bs) (drop p m) = bs"

lemma holds_length: "holds m p bs \<Longrightarrow> p + length bs \<le> length m"
  by (simp add: holds_def)

lemma holds_nth: "holds m p bs \<Longrightarrow> i < length bs \<Longrightarrow> m ! (p + i) = bs ! i"
  by (metis holds_def nth_drop nth_take add_leD1)

lemma holds_append: "holds m p (xs @ ys) \<longleftrightarrow> holds m p xs \<and> holds m (p + length xs) ys"
  by (auto simp: holds_def take_add add.commute append_eq_append_conv)

lemma holds_Cons: "holds m p (x # xs) \<longleftrightarrow> p < length m \<and> m ! p = x \<and> holds m (p + 1) xs"
proof -
  have "holds m p [x] \<longleftrightarrow> p < length m \<and> m ! p = x"
    by (auto simp: holds_def take_Suc_conv_app_nth hd_drop_conv_nth take_Suc)
  then show ?thesis
    using holds_append [of m p "[x]" xs] by simp
qed

lemma holds_Nil [simp]: "holds m p [] \<longleftrightarrow> p \<le> length m"
  by (simp add: holds_def)

lemma holds_rd8: "holds m p bs \<Longrightarrow> i < length bs \<Longrightarrow> rd8 m (p + i) = Some (bs ! i)"
  using holds_nth holds_length by (fastforce simp: rd8_def)

lemma holds_rd_bytes: "holds m p bs \<Longrightarrow> rd_bytes (length bs) m p = Some bs"
  by (simp add: holds_def rd_bytes_def)

lemma holds_rd_bytes_at:
  assumes "holds m p bs" and "i + n \<le> length bs"
  shows "rd_bytes n m (p + i) = Some (take n (drop i bs))"
proof -
  have "bs = take i bs @ take n (drop i bs) @ drop (i + n) bs"
    by (metis append_take_drop_id drop_drop add.commute)
  then have "holds m (p + i) (take n (drop i bs))"
    using assms holds_append [of m p "take i bs"] holds_append [of m "p + i" "take n (drop i bs)"]
    by (metis add_leD1 length_take min.absorb2)
  then show ?thesis
    using holds_rd_bytes [of m "p + i" "take n (drop i bs)"] assms(2) by simp
qed

lemma holds_self: "holds (pre @ bs @ post) (length pre) bs"
  by (simp add: holds_def)

subsection \<open>Ordered keys\<close>

text \<open>A table whose keys are listed in ascending order has no key twice.\<close>

fun ascending :: "'a::linorder list \<Rightarrow> bool" where
  "ascending (x # y # zs) \<longleftrightarrow> x < y \<and> ascending (y # zs)"
| "ascending xs \<longleftrightarrow> True"

lemma ascending_Cons: "ascending (x # xs) \<Longrightarrow> ascending xs \<and> (\<forall>y \<in> set xs. x < y)"
  by (induction xs arbitrary: x) (auto dest: less_trans)

lemma ascending_distinct: "ascending xs \<Longrightarrow> distinct xs"
  by (induction xs) (auto dest: ascending_Cons)

subsection \<open>Searching and printing\<close>

text \<open>\<open>std::search\<close> and \<open>std::string::find\<close>: the offset of the first occurrence.\<close>

fun search :: "'a list \<Rightarrow> 'a list \<Rightarrow> nat option" where
  "search pat [] = (if pat = [] then Some 0 else None)"
| "search pat (b # buf) =
     (if take (length pat) (b # buf) = pat then Some 0 else map_option Suc (search pat buf))"

lemma search_Some_iff:
  assumes "pat \<noteq> []"
  shows "search pat buf = Some i \<longleftrightarrow>
    take (length pat) (drop i buf) = pat \<and> (\<forall>j < i. take (length pat) (drop j buf) \<noteq> pat)"
  using assms
proof (induction buf arbitrary: i)
  case Nil
  then show ?case by (auto simp: take_Nil)
next
  case (Cons b buf)
  show ?case
  proof (cases i)
    case 0
    then show ?thesis by simp
  next
    case (Suc k)
    have "(\<forall>j < Suc k. take (length pat) (drop j (b # buf)) \<noteq> pat) \<longleftrightarrow>
        take (length pat) (b # buf) \<noteq> pat \<and> (\<forall>j < k. take (length pat) (drop j buf) \<noteq> pat)"
      by (simp add: All_less_Suc2)
    then show ?thesis using Suc Cons by auto
  qed
qed

lemma search_None_iff:
  assumes "pat \<noteq> []"
  shows "search pat buf = None \<longleftrightarrow> (\<forall>i. take (length pat) (drop i buf) \<noteq> pat)"
proof -
  have "search pat buf \<noteq> None" if "take (length pat) (drop i buf) = pat" for i
    using search_Some_iff [OF assms, of buf "LEAST i. take (length pat) (drop i buf) = pat"]
      LeastI [of "\<lambda>i. take (length pat) (drop i buf) = pat", OF that] not_less_Least by fastforce
  then show ?thesis
    using search_Some_iff [OF assms, of buf] by fastforce
qed

text \<open>\<open>std::to_string\<close> of a non-negative number.\<close>

fun digit :: "nat \<Rightarrow> char" where
  "digit n = char_of (48 + n)"

fun dec :: "nat \<Rightarrow> string" where
  "dec n = (if n < 10 then [digit n] else dec (n div 10) @ [digit (n mod 10)])"

declare dec.simps [simp del] digit.simps [simp del]

lemma digit_inj: "a < 10 \<Longrightarrow> b < 10 \<Longrightarrow> digit a = digit b \<Longrightarrow> a = b"
  using arg_cong [of "digit a" "digit b" "of_char :: char \<Rightarrow> nat"] by (simp add: digit.simps)

lemma dec_inj: "dec a = dec b \<Longrightarrow> a = b"
proof (induction a arbitrary: b rule: less_induct)
  case (less a)
  have ne: "dec n \<noteq> []" for n by (subst dec.simps) simp
  show ?case
  proof (cases "a < 10 \<or> b < 10")
    case True
    then show ?thesis
      using less.prems ne [of "a div 10"] ne [of "b div 10"]
      by (subst (asm) (1 2) dec.simps)
         (auto dest: digit_inj simp: append_eq_Cons_conv Cons_eq_append_conv split: if_splits)
  next
    case False
    then have "dec (a div 10) = dec (b div 10)" "digit (a mod 10) = digit (b mod 10)"
      using less.prems by (subst (asm) (1 2) dec.simps, simp)+
    then have "a div 10 = b div 10" "a mod 10 = b mod 10"
      using less.IH [of "a div 10" "b div 10"] False digit_inj by auto
    then show ?thesis by (metis div_mult_mod_eq)
  qed
qed

text \<open>C++ exceptions that the code can let out.\<close>

datatype exn = Invalid_argument | Out_of_range | Runtime_error | Bus_error

type_synonym 'a throwing = "(exn + 'a) checked"

subsection \<open>State machines\<close>

text \<open>
  The states a machine reaches from its initial states, and what a component has to show for
  an invariant of them.
\<close>

inductive reachable :: "('s \<Rightarrow> bool) \<Rightarrow> ('s \<Rightarrow> 's \<Rightarrow> bool) \<Rightarrow> 's \<Rightarrow> bool"
  for init :: "'s \<Rightarrow> bool" and step :: "'s \<Rightarrow> 's \<Rightarrow> bool"
where
  reach_init: "init s \<Longrightarrow> reachable init step s"
| reach_step: "reachable init step s \<Longrightarrow> step s t \<Longrightarrow> reachable init step t"

locale machine_invariant =
  fixes init :: "'s \<Rightarrow> bool" and step :: "'s \<Rightarrow> 's \<Rightarrow> bool" and inv :: "'s \<Rightarrow> bool"
  assumes init_inv: "init s \<Longrightarrow> inv s"
    and step_inv: "inv s \<Longrightarrow> step s t \<Longrightarrow> inv t"
begin

lemma reachable_inv: "reachable init step s \<Longrightarrow> inv s"
  by (induction rule: reachable.induct) (blast intro: init_inv step_inv)+

end

end
