(* ===== verification/Event_Runs.thy ===== *)
theory Event_Runs
  imports Smbios_Prelude
begin

text \<open>
  Daemons that run on events: a step takes an event and a state and is undefined where the code
  is. The locale \<open>typed_process\<close> is what a daemon has to show for all its runs to be defined; the
  lemmas on traces carry the liveness properties.
\<close>

subsection \<open>Finite runs\<close>

fun run_events :: "('e \<Rightarrow> 's \<Rightarrow> 's checked) \<Rightarrow> 'e list \<Rightarrow> 's \<Rightarrow> 's checked" where
  "run_events step [] s = Some s"
| "run_events step (e # es) s = Option.bind (step e s) (run_events step es)"

lemma run_events_append:
  "run_events step (es @ es') s = Option.bind (run_events step es s) (run_events step es')"
  by (induction es arbitrary: s) (simp_all cong: bind_option_cong)

lemma run_events_repeat:
  assumes "\<And>s. P s \<Longrightarrow> \<exists>s'. run_events step es s = Some s' \<and> P s'" and "P s"
  shows "\<exists>s'. run_events step (concat (replicate n es)) s = Some s' \<and> P s'"
  using assms(2)
proof (induction n arbitrary: s)
  case (Suc n)
  then obtain s1 where "run_events step es s = Some s1" "P s1" using assms(1) by blast
  then show ?case using Suc.IH by (simp add: run_events_append)
qed simp

subsection \<open>Infinite runs\<close>

definition trace :: "('e \<Rightarrow> 's \<Rightarrow> 's checked) \<Rightarrow> (nat \<Rightarrow> 'e) \<Rightarrow> (nat \<Rightarrow> 's) \<Rightarrow> bool" where
  "trace step ev r \<longleftrightarrow> (\<forall>n. step (ev n) (r n) = Some (r (Suc n)))"

lemma traceD: "trace step ev r \<Longrightarrow> step (ev n) (r n) = Some (r (Suc n))"
  by (simp add: trace_def)

lemma trace_stable:
  assumes "trace step ev r" and "P (r n)"
    and "\<And>k s'. n \<le> k \<Longrightarrow> P (r k) \<Longrightarrow> step (ev k) (r k) = Some s' \<Longrightarrow> P s'"
    and "n \<le> k"
  shows "P (r k)"
  using assms(4)
proof (induction k rule: dec_induct)
  case (step k)
  show ?case by (rule assms(3) [OF step.hyps(1) step.IH traceD [OF assms(1)]])
qed (rule assms(2))

text \<open>
  A phase \<open>P\<close> that every step keeps or ends in \<open>Q\<close>, and that a trigger ends, leads to \<open>Q\<close> where
  the trigger comes.
\<close>

lemma trace_leads_to:
  assumes "trace step ev r" and "P (r n)"
    and "\<And>k s'. n \<le> k \<Longrightarrow> P (r k) \<Longrightarrow> step (ev k) (r k) = Some s' \<Longrightarrow> P s' \<or> Q s'"
    and "\<And>k s'. n \<le> k \<Longrightarrow> P (r k) \<Longrightarrow> trigger k \<Longrightarrow> step (ev k) (r k) = Some s' \<Longrightarrow> Q s'"
    and "P (r n) \<Longrightarrow> \<exists>j \<ge> n. trigger j"
  shows "\<exists>k \<ge> n. Q (r k)"
proof (rule ccontr)
  assume no: "\<not> (\<exists>k \<ge> n. Q (r k))"
  have P: "P (r k)" if "n \<le> k" for k
    using that
  proof (induction k rule: dec_induct)
    case (step k)
    from assms(3) [OF step.hyps(1) step.IH traceD [OF assms(1)]] show ?case
      using no step.hyps(1) by (meson le_Suc_eq)
  qed (rule assms(2))
  obtain j where j: "n \<le> j" "trigger j" using assms(5) [OF assms(2)] by blast
  have "Q (r (Suc j))" by (rule assms(4) [OF j(1) P [OF j(1)] j(2) traceD [OF assms(1)]])
  then show False using no j(1) by (meson le_Suc_eq)
qed

subsection \<open>Processes whose states are typed\<close>

locale typed_process =
  fixes step :: "'e \<Rightarrow> 's \<Rightarrow> 's checked" and ok :: "'e \<Rightarrow> bool" and good :: "'s \<Rightarrow> bool"
  assumes progress: "good s \<Longrightarrow> ok e \<Longrightarrow> \<exists>s'. step e s = Some s' \<and> good s'"
begin

lemma step_good: "good s \<Longrightarrow> ok e \<Longrightarrow> step e s = Some s' \<Longrightarrow> good s'"
  using progress by fastforce

lemma run_good: "good s \<Longrightarrow> list_all ok es \<Longrightarrow> \<exists>s'. run_events step es s = Some s' \<and> good s'"
proof (induction es arbitrary: s)
  case (Cons e es)
  then obtain s1 where "step e s = Some s1" "good s1" using progress [of s e] by auto
  then show ?case using Cons by simp
qed simp

lemma trace_good:
  assumes "trace step ev r" and "good (r 0)" and "\<forall>n. ok (ev n)"
  shows "good (r n)"
  by (rule trace_stable [OF assms(1), where n = 0 and P = good]) (use assms(2,3) step_good in auto)

lemma trace_exists:
  assumes "good s" and "\<forall>n. ok (ev n)"
  shows "\<exists>r. r 0 = s \<and> trace step ev r"
proof -
  let ?r = "rec_nat s (\<lambda>n x. the (step (ev n) x))"
  have "good (?r n) \<and> step (ev n) (?r n) = Some (?r (Suc n))" for n
  proof (induction n)
    case 0
    then show ?case using progress [OF assms(1), of "ev 0"] assms by auto
  next
    case (Suc n)
    then have "good (?r (Suc n))" using step_good assms(2) by blast
    then show ?case using progress [of "?r (Suc n)" "ev (Suc n)"] assms(2) by auto
  qed
  then show ?thesis by (intro exI [of _ ?r]) (simp add: trace_def)
qed

end

end
