(* ===== verification/Smbios_Parse.thy ===== *)
theory Smbios_Parse
  imports Smbios_Prelude
begin

text \<open>
  The SMBIOS table parser of \<open>include/smbios_mdrv2.hpp\<close>: skipping the entry point, moving to
  the next structure, looking a structure up by type, by type and index and by handle, and
  reading a numbered string of a structure. Plain \<open>char\<close> is unsigned, as it is on the ARM targets
  of the firmware: the type and length bytes that \<open>getSMBIOSTypePtr\<close> reads through a \<open>char*\<close> are the
  bytes themselves. (With a signed \<open>char\<close> a length byte of 128 or more would be sign-extended.)
\<close>

subsection \<open>Constants\<close>

definition mdrSMBIOSSize :: nat where [smbios_defs]: "mdrSMBIOSSize = 32768"

definition smbiosTableStorageSize :: nat where "smbiosTableStorageSize = 65536"

definition separateLen :: nat where [smbios_defs]: "separateLen = 2"

definition structureHeaderSize :: nat where [smbios_defs]: "structureHeaderSize = 4"

text \<open>The characters of \<open>"_SM_"\<close> and of \<open>"_SM3_"\<close>.\<close>

definition anchorString21 :: "u8 list" where [smbios_defs]:
  "anchorString21 = [0x5F, 0x53, 0x4D, 0x5F]"

definition anchorString30 :: "u8 list" where [smbios_defs]:
  "anchorString30 = [0x5F, 0x53, 0x4D, 0x33, 0x5F]"

lemma length_anchorString30 [simp]: "length anchorString30 = 5"
  by (simp add: anchorString30_def)

datatype SmbiosType =
    biosType | systemType | baseboardType | chassisType | processorsType
  | memoryControllerType | memoryModuleInformationType | cacheType | portConnectorType
  | systemSlots | onBoardDevicesType | oemStringsType | systemCconfigurationOptionsType
  | biosLanguageType | groupAssociatonsType | systemEventLogType | physicalMemoryArrayType
  | memoryDeviceType | systemPowerSupply | onboardDevicesExtended | tpmDeviceType
  | firmwareInventoryInformationType

fun type_code :: "SmbiosType \<Rightarrow> u8" where
  "type_code biosType = 0"
| "type_code systemType = 1"
| "type_code baseboardType = 2"
| "type_code chassisType = 3"
| "type_code processorsType = 4"
| "type_code memoryControllerType = 5"
| "type_code memoryModuleInformationType = 6"
| "type_code cacheType = 7"
| "type_code portConnectorType = 8"
| "type_code systemSlots = 9"
| "type_code onBoardDevicesType = 10"
| "type_code oemStringsType = 11"
| "type_code systemCconfigurationOptionsType = 12"
| "type_code biosLanguageType = 13"
| "type_code groupAssociatonsType = 14"
| "type_code systemEventLogType = 15"
| "type_code physicalMemoryArrayType = 16"
| "type_code memoryDeviceType = 17"
| "type_code systemPowerSupply = 39"
| "type_code onboardDevicesExtended = 41"
| "type_code tpmDeviceType = 43"
| "type_code firmwareInventoryInformationType = 45"

subsection \<open>Skipping the entry point\<close>

text \<open>
  \<open>EntryPointStructure30\<close> is packed: its \<open>structTableAddr\<close> is the 64-bit field at offset 16.
  The address is an offset from the entry point and is used only when it is below
  \<open>mdrSMBIOSSize\<close>.
\<close>

definition skip_entry_point_at :: "memory \<Rightarrow> nat \<Rightarrow> nat checked" where
  "skip_entry_point_at m p = do {
     anchor \<leftarrow> rd_bytes (length anchorString30) m p;
     if anchor = anchorString30 then do {
       structTableAddr \<leftarrow> rd64 m (p + 16);
       Some (if unat structTableAddr < mdrSMBIOSSize then p + unat structTableAddr else p)
     } else Some p }"

definition smbiosSkipEntryPoint :: "memory \<Rightarrow> ptr \<Rightarrow> ptr checked" where
  "smbiosSkipEntryPoint m dataIn =
     (case dataIn of
        Null \<Rightarrow> Some Null
      | At p \<Rightarrow> map_option At (skip_entry_point_at m p))"

subsection \<open>The next structure\<close>

text \<open>
  The loop of \<open>smbiosNextPtr\<close> reads both bytes of the candidate terminator on every round
  (the operator is a bitwise or) and gives up after \<open>mdrSMBIOSSize\<close> rounds.
\<close>

function next_scan :: "memory \<Rightarrow> nat \<Rightarrow> nat \<Rightarrow> ptr checked" where
  "next_scan m p len = do {
     a \<leftarrow> rd8 m p;
     b \<leftarrow> rd8 m (p + 1);
     if a OR b \<noteq> 0
     then (if mdrSMBIOSSize \<le> len + 1 then Some Null else next_scan m (p + 1) (len + 1))
     else Some (At (p + separateLen)) }"
  by pat_completeness auto
termination
  by (relation "measure (\<lambda>(m, p, len). mdrSMBIOSSize - len)") auto

definition smbiosNextPtr :: "memory \<Rightarrow> ptr \<Rightarrow> ptr checked" where
  "smbiosNextPtr m dataIn =
     (case dataIn of
        Null \<Rightarrow> Some Null
      | At p \<Rightarrow> do { len \<leftarrow> rd8 m (p + 1); next_scan m (p + unat len) 0 })"

subsection \<open>Lookup by type\<close>

text \<open>
  \<open>getSMBIOSTypePtr\<close> uses a logical or, so the second byte is read only when the first one is
  zero, and its inner loop counts from the length of the structure it skips.
\<close>

definition not_terminator :: "memory \<Rightarrow> nat \<Rightarrow> bool checked" where
  "not_terminator m p = do {
     a \<leftarrow> rd8 m p;
     if a \<noteq> 0 then Some True else do { b \<leftarrow> rd8 m (p + 1); Some (b \<noteq> 0) } }"

function type_scan :: "memory \<Rightarrow> nat \<Rightarrow> nat \<Rightarrow> ptr checked" where
  "type_scan m p len = do {
     more \<leftarrow> not_terminator m p;
     if more
     then (if mdrSMBIOSSize \<le> len + 1 then Some Null else type_scan m (p + 1) (len + 1))
     else Some (At (p + separateLen)) }"
  by pat_completeness auto
termination
  by (relation "measure (\<lambda>(m, p, len). mdrSMBIOSSize - len)") auto

declare next_scan.simps [simp del] type_scan.simps [simp del]

lemma next_scan_progress: "next_scan m p len = Some (At q) \<Longrightarrow> p + separateLen \<le> q"
proof (induction m p len rule: next_scan.induct)
  case (1 m p len)
  from "1.prems" show ?case
    by (subst (asm) next_scan.simps)
       (auto split: bind_splits if_splits dest: "1.IH")
qed

lemma type_scan_progress: "type_scan m p len = Some (At q) \<Longrightarrow> p + separateLen \<le> q"
proof (induction m p len rule: type_scan.induct)
  case (1 m p len)
  from "1.prems" show ?case
    by (subst (asm) type_scan.simps)
       (auto split: bind_splits if_splits dest: "1.IH")
qed

lemma not_terminator_inside: "not_terminator m p = Some c \<Longrightarrow> p < length m"
  by (auto simp: not_terminator_def rd8_def split: if_splits)

function type_loop :: "memory \<Rightarrow> nat \<Rightarrow> u8 \<Rightarrow> nat \<Rightarrow> ptr checked" where
  "type_loop m p typeId sz = do {
     more \<leftarrow> not_terminator m p;
     if \<not> more then Some Null else do {
       ty \<leftarrow> rd8 m p;
       len \<leftarrow> rd8 m (p + 1);
       if ty \<noteq> typeId then do {
         nx \<leftarrow> type_scan m (p + unat len) (unat len);
         (case nx of Null \<Rightarrow> Some Null | At q \<Rightarrow> type_loop m q typeId sz)
       } else if unat len < sz then Some Null
       else Some (At p) } }"
  by pat_completeness auto
termination
proof (relation "measure (\<lambda>(m, p, typeId, sz). length m - p)")
  show "wf (measure (\<lambda>(m, p, typeId, sz). length m - p))" by simp
next
  fix m p typeId sz more ty len nx q
  assume "not_terminator m p = Some more" and "type_scan m (p + unat len) (unat len) = Some nx"
    and "nx = At q"
  then show "((m, q, typeId, sz), m, p, typeId, sz)
      \<in> measure (\<lambda>(m, p, typeId, sz). length m - p)"
    using type_scan_progress [of m "p + unat len" "unat len" q] not_terminator_inside [of m p more]
    by (auto simp: separateLen_def)
qed

declare type_loop.simps [simp del]

definition getSMBIOSTypePtr :: "memory \<Rightarrow> ptr \<Rightarrow> u8 \<Rightarrow> nat \<Rightarrow> ptr checked" where
  "getSMBIOSTypePtr m dataIn typeId sz =
     (case dataIn of
        Null \<Rightarrow> Some Null
      | At p \<Rightarrow> do { q \<leftarrow> skip_entry_point_at m p; type_loop m q typeId sz })"

subsection \<open>Lookup by type and index\<close>

text \<open>
  The loop that repeats "next structure, then next structure of the type" a given number of
  times. The code writes it out in \<open>getSMBIOSTypeIndexPtr\<close> and again in the \<open>infoUpdate\<close>
  methods of the processor and memory objects.
\<close>

fun index_walk :: "(ptr \<Rightarrow> ptr checked) \<Rightarrow> (ptr \<Rightarrow> ptr checked) \<Rightarrow> nat \<Rightarrow> ptr \<Rightarrow> ptr checked" where
  "index_walk findp nextp 0 dataIn = Some dataIn"
| "index_walk findp nextp (Suc n) dataIn = do {
     nx \<leftarrow> nextp dataIn;
     if nx = Null then Some Null else do {
       hit \<leftarrow> findp nx;
       if hit = Null then Some Null else index_walk findp nextp n hit } }"

definition type_index_walk :: "memory \<Rightarrow> u8 \<Rightarrow> nat \<Rightarrow> ptr \<Rightarrow> ptr checked" where
  "type_index_walk m typeId =
     index_walk (\<lambda>dataIn. getSMBIOSTypePtr m dataIn typeId 0) (smbiosNextPtr m)"

definition getSMBIOSTypeIndexPtr :: "memory \<Rightarrow> ptr \<Rightarrow> u8 \<Rightarrow> u8 \<Rightarrow> ptr checked" where
  "getSMBIOSTypeIndexPtr m dataIn typeId targetIndex = do {
     hit \<leftarrow> getSMBIOSTypePtr m dataIn typeId 0;
     if hit = Null then Some Null else type_index_walk m typeId (unat targetIndex) hit }"

subsection \<open>Lookup by handle\<close>

lemma smbiosNextPtr_progress: "smbiosNextPtr m (At p) = Some (At q) \<Longrightarrow> p < q"
  by (auto simp: smbiosNextPtr_def separateLen_def dest!: next_scan_progress split: bind_splits)

function handle_loop :: "memory \<Rightarrow> nat \<Rightarrow> u16 \<Rightarrow> ptr checked" where
  "handle_loop m p handle = do {
     len \<leftarrow> rd8 m (p + 1);
     if unat len < structureHeaderSize then Some Null else do {
       h \<leftarrow> rd16 m (p + 2);
       if h = handle then Some (At p) else do {
         nx \<leftarrow> smbiosNextPtr m (At p);
         (case nx of Null \<Rightarrow> Some Null | At q \<Rightarrow> handle_loop m q handle) } } }"
  by pat_completeness auto
termination
proof (relation "measure (\<lambda>(m, p, handle). length m - p)")
  show "wf (measure (\<lambda>(m, p, handle). length m - p))" by simp
next
  fix m p handle len h nx q
  assume "rd8 m (p + 1) = Some len" and "smbiosNextPtr m (At p) = Some nx" and "nx = At q"
  then show "((m, q, handle), m, p, handle) \<in> measure (\<lambda>(m, p, handle). length m - p)"
    using smbiosNextPtr_progress [of m p q] by (auto simp: rd8_Some_iff)
qed

declare handle_loop.simps [simp del]

definition smbiosHandlePtr :: "memory \<Rightarrow> ptr \<Rightarrow> u16 \<Rightarrow> ptr checked" where
  "smbiosHandlePtr m dataIn handle = do {
     start \<leftarrow> smbiosSkipEntryPoint m dataIn;
     (case start of Null \<Rightarrow> Some Null | At p \<Rightarrow> handle_loop m p handle) }"

subsection \<open>Numbered strings\<close>

definition char_of_byte :: "u8 \<Rightarrow> char" where
  "char_of_byte b = Char (bit b 0) (bit b 1) (bit b 2) (bit b 3)
     (bit b 4) (bit b 5) (bit b 6) (bit b 7)"

definition byte_of_char :: "char \<Rightarrow> u8" where
  "byte_of_char c = word_of_nat (of_char c)"

lemma char_of_byte_eq: "char_of_byte b = char_of (unat b)"
  by (simp add: char_of_byte_def char_of_def bit_unsigned_iff flip: bit_0)

lemma char_of_byte_of_char [simp]: "char_of_byte (byte_of_char c) = c"
proof -
  have "unat (word_of_nat (of_char c) :: u8) = of_char c"
    by (simp add: unat_of_nat)
  then show ?thesis by (simp add: char_of_byte_eq byte_of_char_def)
qed

lemma byte_of_char_of_byte [simp]: "byte_of_char (char_of_byte b) = b"
proof -
  have "unat b < 256"
    using unsigned_less [of b] by simp
  then show ?thesis by (simp add: char_of_byte_eq byte_of_char_def)
qed

text \<open>
  \<open>skip_string\<close> is the inner loop of \<open>positionToString\<close>: it stops at the terminator of the
  current string, with what is left of the limit, or gives up (\<open>Some None\<close>) when the limit
  reaches zero.
\<close>

function skip_string :: "memory \<Rightarrow> nat \<Rightarrow> nat \<Rightarrow> (nat \<times> nat) option checked" where
  "skip_string m target limit = do {
     c \<leftarrow> rd8 m target;
     if c \<noteq> 0
     then (if limit - 1 < 1 then Some None else skip_string m (target + 1) (limit - 1))
     else Some (Some (target, limit)) }"
  by pat_completeness auto
termination
  by (relation "measure (\<lambda>(m, target, limit). limit)") auto

fun string_walk :: "memory \<Rightarrow> nat \<Rightarrow> nat \<Rightarrow> nat \<Rightarrow> nat option checked" where
  "string_walk m target limit 0 = Some (Some target)"
| "string_walk m target limit (Suc n) = do {
     r \<leftarrow> skip_string m target limit;
     (case r of
        None \<Rightarrow> Some None
      | Some (t, limit') \<Rightarrow> do {
          c \<leftarrow> rd8 m (t + 1);
          if c = 0 then Some None else string_walk m (t + 1) limit' n }) }"

function cstring :: "memory \<Rightarrow> nat \<Rightarrow> string checked" where
  "cstring m target = do {
     c \<leftarrow> rd8 m target;
     if c = 0 then Some [] else do {
       cs \<leftarrow> cstring m (target + 1);
       Some (char_of_byte c # cs) } }"
  by pat_completeness auto
termination
  by (relation "measure (\<lambda>(m, target). length m - target)") (auto simp: rd8_Some_iff)

declare skip_string.simps [simp del] cstring.simps [simp del]

definition positionToString :: "u8 \<Rightarrow> u8 \<Rightarrow> memory \<Rightarrow> ptr \<Rightarrow> string checked" where
  "positionToString positionNum structLen m dataIn =
     (case dataIn of
        Null \<Rightarrow> Some []
      | At p \<Rightarrow>
          if positionNum = 0 then Some [] else do {
            target \<leftarrow> string_walk m (p + unat structLen) mdrSMBIOSSize (unat positionNum - 1);
            (case target of None \<Rightarrow> Some [] | Some t \<Rightarrow> cstring m t) })"

lemmas parse_defs =
  smbiosSkipEntryPoint_def skip_entry_point_at_def smbiosNextPtr_def getSMBIOSTypePtr_def
  getSMBIOSTypeIndexPtr_def type_index_walk_def smbiosHandlePtr_def positionToString_def not_terminator_def

lemmas parse_loops =
  next_scan.simps type_scan.simps type_loop.simps handle_loop.simps skip_string.simps
  cstring.simps

end
