(* ===== verification/Smbios_Table.thy ===== *)
theory Smbios_Table
  imports Smbios_Parse
begin

text \<open>
  What an SMBIOS structure table is, independently of the parser: a list of structures, each
  with a type, a handle, the rest of its formatted area and its strings, and the bytes that
  encode them. \<open>at_table m p ss\<close> says that the memory \<open>m\<close> holds the encoding of the structures
  \<open>ss\<close> from offset \<open>p\<close> on. The lemmas relate every lookup of the parser to the list of
  structures.
\<close>

record smb_struct =
  s_type :: u8
  s_handle :: u16
  s_body :: "u8 list"
  s_strings :: "string list"

definition s_length :: "smb_struct \<Rightarrow> nat" where
  "s_length s = structureHeaderSize + length (s_body s)"

definition encode_string :: "string \<Rightarrow> u8 list" where
  "encode_string s = map byte_of_char s @ [0]"

definition encode_strings :: "string list \<Rightarrow> u8 list" where
  "encode_strings ss = (if ss = [] then [0, 0] else concat (map encode_string ss) @ [0])"

definition encode_struct :: "smb_struct \<Rightarrow> u8 list" where
  "encode_struct s = [s_type s, word_of_nat (s_length s)] @ word_bytes 2 (s_handle s)
     @ s_body s @ encode_strings (s_strings s)"

definition encode_table :: "smb_struct list \<Rightarrow> u8 list" where
  "encode_table ss = concat (map encode_struct ss) @ [0, 0]"

definition wf_string :: "string \<Rightarrow> bool" where
  "wf_string s \<longleftrightarrow> s \<noteq> [] \<and> list_all (\<lambda>c. byte_of_char c \<noteq> 0) s"

text \<open>
  A structure is well formed when its length fits its length byte, its strings are non-empty
  and contain no terminator, it is short enough for the parser's loop limit, and its type is
  not the first character of the entry point anchor (type 95 is not assigned by the SMBIOS
  specification).
\<close>

definition wf_struct :: "smb_struct \<Rightarrow> bool" where
  "wf_struct s \<longleftrightarrow> s_length s \<le> 255 \<and> list_all wf_string (s_strings s)
     \<and> s_length s + length (encode_strings (s_strings s)) < mdrSMBIOSSize
     \<and> s_type s \<noteq> 0x5F"

definition at_table :: "memory \<Rightarrow> nat \<Rightarrow> smb_struct list \<Rightarrow> bool" where
  "at_table m p ss \<longleftrightarrow> list_all wf_struct ss \<and> holds m p (encode_table ss)
     \<and> p + length (encode_table ss) + 3 \<le> length m"

definition enc_len :: "smb_struct list \<Rightarrow> nat" where
  "enc_len ss = length (concat (map encode_struct ss))"

text \<open>The pointer to a suffix of the structures: null when the suffix is empty.\<close>

definition table_ptr :: "nat \<Rightarrow> smb_struct list \<Rightarrow> smb_struct list \<Rightarrow> ptr" where
  "table_ptr p ss sfx = (if sfx = [] then Null else At (p + (enc_len ss - enc_len sfx)))"

text \<open>The structures from the first one of type \<open>t\<close> on, and from the \<open>n\<close>-th one on.\<close>

fun from_type :: "u8 \<Rightarrow> smb_struct list \<Rightarrow> smb_struct list" where
  "from_type t [] = []"
| "from_type t (s # ss) = (if s_type s = t then s # ss else from_type t ss)"

fun suffix_of_type :: "u8 \<Rightarrow> nat \<Rightarrow> smb_struct list \<Rightarrow> smb_struct list" where
  "suffix_of_type t 0 ss = from_type t ss"
| "suffix_of_type t (Suc n) ss =
     (case from_type t ss of [] \<Rightarrow> [] | s # rest \<Rightarrow> suffix_of_type t n rest)"

definition struct_string :: "smb_struct \<Rightarrow> u8 \<Rightarrow> string" where
  "struct_string s k =
     (if k = 0 \<or> length (s_strings s) < unat k then [] else s_strings s ! (unat k - 1))"

subsection \<open>Shape of the encoding\<close>

lemma length_encode_string [simp]: "length (encode_string s) = length s + 1"
  by (simp add: encode_string_def)

lemma enc_len_Nil [simp]: "enc_len [] = 0"
  by (simp add: enc_len_def)

lemma enc_len_Cons [simp]: "enc_len (s # ss) = length (encode_struct s) + enc_len ss"
  by (simp add: enc_len_def)

lemma encode_table_Cons: "encode_table (s # ss) = encode_struct s @ encode_table ss"
  by (simp add: encode_table_def)

lemma length_encode_struct:
  "length (encode_struct s) = s_length s + length (encode_strings (s_strings s))"
  by (simp add: encode_struct_def s_length_def structureHeaderSize_def)

lemma length_encode_strings_ge: "2 \<le> length (encode_strings ss)"
  by (cases ss) (auto simp: encode_strings_def encode_string_def)

lemma at_tableD:
  assumes "at_table m p (s # ss)"
  shows "wf_struct s" and "holds m p (encode_struct s)"
    and "at_table m (p + length (encode_struct s)) ss"
    and "p + length (encode_struct s) + 5 \<le> length m"
  using assms by (auto simp: at_table_def encode_table_Cons holds_append)
    (auto simp: encode_table_def)

lemma wf_struct_len: "wf_struct s \<Longrightarrow> unat (word_of_nat (s_length s) :: u8) = s_length s"
  by (simp add: wf_struct_def unat_of_nat)

lemma at_table_header:
  assumes "at_table m p (s # ss)"
  shows "rd8 m p = Some (s_type s)"
    and "rd8 m (p + 1) = Some (word_of_nat (s_length s))"
    and "rd16 m (p + 2) = Some (s_handle s)"
proof -
  note h = at_tableD(2) [OF assms]
  show "rd8 m p = Some (s_type s)"
    using holds_rd8 [OF h, of 0] by (simp add: encode_struct_def)
  show "rd8 m (p + 1) = Some (word_of_nat (s_length s))"
    using holds_rd8 [OF h, of 1] by (simp add: encode_struct_def)
  have "rd_bytes 2 m (p + 2) = Some (take 2 (drop 2 (encode_struct s)))"
    by (rule holds_rd_bytes_at [OF h]) (simp add: encode_struct_def)
  also have "take 2 (drop 2 (encode_struct s)) = word_bytes 2 (s_handle s)"
    by (simp add: encode_struct_def)
  finally show "rd16 m (p + 2) = Some (s_handle s)"
    by (simp add: rd16_def le_word_bytes)
qed

lemma at_table_end:
  assumes "at_table m p []"
  shows "rd8 m p = Some 0" and "rd8 m (p + 1) = Some 0" and "p + 5 \<le> length m"
  using assms by (auto simp: at_table_def encode_table_def holds_Cons rd8_def)

lemma skip_entry_point_at_table:
  assumes "at_table m p ss"
  shows "skip_entry_point_at m p = Some p"
proof -
  obtain b where b: "rd8 m p = Some b" "b \<noteq> 0x5F" and len: "p + 5 \<le> length m"
  proof (cases ss)
    case Nil
    then show ?thesis using that [of 0] at_table_end [of m p] assms by simp
  next
    case (Cons s ss')
    then have "wf_struct s" "rd8 m p = Some (s_type s)"
      using assms at_tableD(1) at_table_header(1) by blast+
    moreover have "p + 5 \<le> length m"
      using assms Cons at_tableD(4) by fastforce
    ultimately show ?thesis using that by (auto simp: wf_struct_def)
  qed
  have "take 5 (drop p m) \<noteq> anchorString30"
  proof
    assume "take 5 (drop p m) = anchorString30"
    then have "take 5 (drop p m) ! 0 = 0x5F" by (simp add: anchorString30_def)
    then show False using b len by (simp add: rd8_Some_iff)
  qed
  then show ?thesis
    using len by (simp add: skip_entry_point_at_def rd_bytes_def)
qed

subsection \<open>Finding the end of a structure\<close>

text \<open>
  \<open>no_gap xs\<close>: within \<open>xs\<close>, followed by two zero bytes, the first two adjacent zero bytes are
  those two.
\<close>

fun no_gap :: "u8 list \<Rightarrow> bool" where
  "no_gap [] = True"
| "no_gap [x] = (x \<noteq> 0)"
| "no_gap (x # y # zs) = ((x \<noteq> 0 \<or> y \<noteq> 0) \<and> no_gap (y # zs))"

lemma not_terminator_holds:
  "holds m p (a # b # bs) \<Longrightarrow> not_terminator m p = Some (a \<noteq> 0 \<or> b \<noteq> 0)"
  by (auto simp: holds_Cons not_terminator_def rd8_def)

lemma type_scan_end: "holds m p [0, 0] \<Longrightarrow> type_scan m p len = Some (At (p + 2))"
  by (subst type_scan.simps) (simp add: not_terminator_holds [of m p 0 0 "[]"] separateLen_def)

lemma next_scan_end: "holds m p [0, 0] \<Longrightarrow> next_scan m p len = Some (At (p + 2))"
  by (subst next_scan.simps) (simp add: holds_Cons rd8_def separateLen_def)

lemma type_scan_no_gap:
  "no_gap xs \<Longrightarrow> holds m p (xs @ [0, 0]) \<Longrightarrow> len + length xs < mdrSMBIOSSize \<Longrightarrow>
   type_scan m p len = Some (At (p + length xs + 2))"
proof (induction xs arbitrary: p len rule: no_gap.induct)
  case 1
  then show ?case by (simp add: type_scan_end)
next
  case (2 x)
  then have "holds m (p + 1) [0, 0]" "not_terminator m p = Some True"
    by (auto simp: holds_Cons not_terminator_def rd8_def)
  then show ?case
    using 2 type_scan_end [of m "p + 1" "len + 1"] by (subst type_scan.simps) simp
next
  case (3 x y zs)
  then have "holds m (p + 1) ((y # zs) @ [0, 0])" "not_terminator m p = Some True"
    by (auto simp: holds_Cons not_terminator_holds [of m p x y "zs @ [0, 0]"])
  moreover have "type_scan m (p + 1) (len + 1) = Some (At (p + 1 + length (y # zs) + 2))"
    using 3 calculation(1) by (intro "3.IH") auto
  ultimately show ?case
    using 3 by (subst type_scan.simps) simp
qed

lemma next_scan_no_gap:
  "no_gap xs \<Longrightarrow> holds m p (xs @ [0, 0]) \<Longrightarrow> len + length xs < mdrSMBIOSSize \<Longrightarrow>
   next_scan m p len = Some (At (p + length xs + 2))"
proof (induction xs arbitrary: p len rule: no_gap.induct)
  case 1
  then show ?case by (simp add: next_scan_end)
next
  case (2 x)
  then have "holds m (p + 1) [0, 0]"
    by (simp add: holds_Cons)
  then show ?case
    using 2 next_scan_end [of m "p + 1" "len + 1"]
    by (subst next_scan.simps) (simp add: holds_Cons rd8_def)
next
  case (3 x y zs)
  then have h: "holds m (p + 1) ((y # zs) @ [0, 0])" and xy: "x OR y \<noteq> 0"
    by (auto simp: holds_Cons or_eq_0_iff)
  have "next_scan m (p + 1) (len + 1) = Some (At (p + 1 + length (y # zs) + 2))"
    using 3 h by (intro "3.IH") auto
  then show ?case
    using 3 xy by (subst next_scan.simps) (simp add: holds_Cons rd8_def)
qed

lemma no_gap_append:
  "no_gap xs \<Longrightarrow> no_gap ys \<Longrightarrow> ys \<noteq> [] \<Longrightarrow> hd ys \<noteq> 0 \<Longrightarrow> no_gap (xs @ 0 # ys)"
proof (induction xs rule: no_gap.induct)
  case 1
  then show ?case by (cases ys) auto
next
  case (2 x)
  then show ?case by (cases ys) auto
qed auto

lemma no_gap_nonzero: "list_all (\<lambda>x. x \<noteq> 0) xs \<Longrightarrow> no_gap xs"
  by (induction xs rule: no_gap.induct) auto

lemma encode_strings_split:
  "list_all wf_string ss \<Longrightarrow>
   \<exists>xs. encode_strings ss = xs @ [0, 0] \<and> no_gap xs \<and> (ss \<noteq> [] \<longrightarrow> xs \<noteq> [] \<and> hd xs \<noteq> 0)"
proof (induction ss)
  case Nil
  then show ?case by (simp add: encode_strings_def)
next
  case (Cons s ss)
  let ?b = "map byte_of_char s"
  have b: "?b \<noteq> []" "hd ?b \<noteq> 0" "no_gap ?b"
    using Cons.prems by (auto simp: wf_string_def hd_map list_all_iff intro: no_gap_nonzero)
  show ?case
  proof (cases "ss = []")
    case True
    then show ?thesis using b by (auto simp: encode_strings_def encode_string_def)
  next
    case False
    then obtain xs where xs: "encode_strings ss = xs @ [0, 0]" "no_gap xs" "xs \<noteq> []" "hd xs \<noteq> 0"
      using Cons by auto
    then have "encode_strings (s # ss) = (?b @ 0 # xs) @ [0, 0]"
      using False by (simp add: encode_strings_def encode_string_def)
    then show ?thesis using b xs by (auto intro!: no_gap_append)
  qed
qed

lemma at_table_strings:
  assumes "at_table m p (s # ss)"
  shows "holds m (p + s_length s) (encode_strings (s_strings s))"
proof -
  let ?fmt = "s_type s # word_of_nat (s_length s) # word_bytes 2 (s_handle s) @ s_body s"
  have "encode_struct s = ?fmt @ encode_strings (s_strings s)"
    by (simp add: encode_struct_def)
  moreover have "length ?fmt = s_length s"
    by (simp add: s_length_def structureHeaderSize_def)
  ultimately show ?thesis
    using at_tableD(2) [OF assms] holds_append [of m p ?fmt] by simp
qed

lemma at_table_scan:
  assumes "at_table m p (s # ss)"
  shows "type_scan m (p + s_length s) (s_length s) = Some (At (p + length (encode_struct s)))"
    and "next_scan m (p + s_length s) 0 = Some (At (p + length (encode_struct s)))"
proof -
  have wf: "list_all wf_string (s_strings s)"
    and short: "s_length s + length (encode_strings (s_strings s)) < mdrSMBIOSSize"
    using at_tableD(1) [OF assms] by (auto simp: wf_struct_def)
  from encode_strings_split [OF wf] obtain xs
    where xs: "encode_strings (s_strings s) = xs @ [0, 0]" "no_gap xs" by blast
  note h = at_table_strings [OF assms, unfolded xs(1)]
  show "type_scan m (p + s_length s) (s_length s) = Some (At (p + length (encode_struct s)))"
    using type_scan_no_gap [OF xs(2) h, of "s_length s"] short xs(1)
    by (simp add: length_encode_struct add.assoc)
  show "next_scan m (p + s_length s) 0 = Some (At (p + length (encode_struct s)))"
    using next_scan_no_gap [OF xs(2) h, of 0] short xs(1)
    by (simp add: length_encode_struct add.assoc)
qed

lemma wf_struct_not_terminator:
  assumes "at_table m p (s # ss)"
  shows "not_terminator m p = Some True"
proof -
  have "word_of_nat (s_length s) \<noteq> (0 :: u8)"
    using wf_struct_len [OF at_tableD(1) [OF assms]]
    by (auto simp: s_length_def structureHeaderSize_def)
  then show ?thesis
    using at_table_header(1,2) [OF assms] by (simp add: not_terminator_def)
qed

subsection \<open>The lookups on an encoded table\<close>

lemma smbiosNextPtr_table:
  assumes "at_table m p (s # ss)"
  shows "smbiosNextPtr m (At p) = Some (At (p + length (encode_struct s)))"
  using at_table_scan(2) [OF assms] at_table_header(2) [OF assms]
    wf_struct_len [OF at_tableD(1) [OF assms]]
  by (simp add: smbiosNextPtr_def)

lemma enc_len_append [simp]: "enc_len (xs @ ys) = enc_len xs + enc_len ys"
  by (simp add: enc_len_def)

lemma from_type_suffix: "\<exists>pre. ss = pre @ from_type t ss \<and> (\<forall>s \<in> set pre. s_type s \<noteq> t)"
proof (induction ss)
  case Nil
  then show ?case by simp
next
  case (Cons s ss)
  then obtain pre where "ss = pre @ from_type t ss" "\<forall>s \<in> set pre. s_type s \<noteq> t" by blast
  then have "s # ss = (if s_type s = t then [] else s # pre) @ from_type t (s # ss)
      \<and> (\<forall>x \<in> set (if s_type s = t then [] else s # pre). s_type x \<noteq> t)"
    by simp
  then show ?case by blast
qed

lemma from_type_Cons: "from_type t ss = s # rest \<Longrightarrow> s_type s = t"
  by (induction ss) (auto split: if_splits)

lemma enc_len_from_type_le: "enc_len (from_type t ss) \<le> enc_len ss"
  using from_type_suffix [of ss t] by (metis enc_len_append le_add2)

lemma type_loop_table:
  "at_table m p ss \<Longrightarrow> type_loop m p t sz =
     Some (case from_type t ss of
             [] \<Rightarrow> Null
           | s # rest \<Rightarrow> if s_length s < sz then Null
                        else At (p + (enc_len ss - enc_len (s # rest))))"
proof (induction ss arbitrary: p)
  case Nil
  then show ?case
    using at_table_end [OF Nil] by (subst type_loop.simps) (simp add: not_terminator_def)
next
  case (Cons s ss)
  note hdr = at_table_header [OF Cons.prems] wf_struct_not_terminator [OF Cons.prems]
    wf_struct_len [OF at_tableD(1) [OF Cons.prems]]
  show ?case
  proof (cases "s_type s = t")
    case True
    then show ?thesis
      using hdr by (subst type_loop.simps) simp
  next
    case False
    have IH: "type_loop m (p + length (encode_struct s)) t sz =
        Some (case from_type t ss of [] \<Rightarrow> Null
              | x # rest \<Rightarrow> if s_length x < sz then Null
                  else At (p + length (encode_struct s) + (enc_len ss - enc_len (x # rest))))"
      by (rule Cons.IH) (rule at_tableD(3) [OF Cons.prems])
    have "type_loop m p t sz = type_loop m (p + length (encode_struct s)) t sz"
      using hdr False at_table_scan(1) [OF Cons.prems] by (subst type_loop.simps) simp
    moreover have "enc_len (x # rest) \<le> enc_len ss"
      if "from_type t ss = x # rest" for x rest
      using enc_len_from_type_le [of t ss] that by simp
    ultimately show ?thesis
      using IH False by (auto split: list.splits)
  qed
qed

lemma at_table_drop:
  assumes "at_table m p ss" and "ss = pre @ sfx"
  shows "at_table m (p + enc_len pre) sfx"
  using assms
proof (induction pre arbitrary: p ss)
  case Nil
  then show ?case by simp
next
  case (Cons s pre)
  then have "at_table m (p + length (encode_struct s)) (pre @ sfx)"
    using at_tableD(3) by (metis append_Cons)
  then show ?case
    using Cons.IH [of "p + length (encode_struct s)" "pre @ sfx"] by (simp add: add.assoc)
qed

lemma getSMBIOSTypePtr_table:
  assumes "at_table m p ss"
  shows "getSMBIOSTypePtr m (At p) t 0 =
    Some (table_ptr p ss (from_type t ss))"
  using type_loop_table [OF assms, of t 0] skip_entry_point_at_table [OF assms]
  by (auto simp: getSMBIOSTypePtr_def table_ptr_def split: list.splits)

lemma at_table_suffix:
  assumes "at_table m p ss" and "ss = pre @ sfx"
  shows "at_table m (p + (enc_len ss - enc_len sfx)) sfx"
  using at_table_drop [OF assms] assms(2) by simp

lemma at_table_from_type:
  assumes "at_table m p ss" and "from_type t ss = sfx"
  shows "at_table m (p + (enc_len ss - enc_len sfx)) sfx"
  using at_table_suffix [OF assms(1)] from_type_suffix [of ss t] assms(2) by metis

lemma suffix_of_type_suffix: "\<exists>pre. ss = pre @ suffix_of_type t n ss"
proof (induction t n ss rule: suffix_of_type.induct)
  case (1 t ss)
  then show ?case using from_type_suffix [of ss t] by auto
next
  case (2 t n ss)
  show ?case
  proof (cases "from_type t ss")
    case Nil
    then show ?thesis by simp
  next
    case (Cons s rest)
    then obtain pre where "rest = pre @ suffix_of_type t n rest"
      using 2 by blast
    moreover obtain pre' where "ss = pre' @ s # rest"
      using from_type_suffix [of ss t] Cons by auto
    ultimately have "ss = (pre' @ s # pre) @ suffix_of_type t (Suc n) ss"
      using Cons by simp
    then show ?thesis by blast
  qed
qed

lemma type_index_walk_table:
  "at_table m p (s # ss) \<Longrightarrow> s_type s = t \<Longrightarrow>
   type_index_walk m t n (At p) = Some (table_ptr p (s # ss) (suffix_of_type t n (s # ss)))"
proof (induction n arbitrary: p s ss)
  case 0
  then show ?case by (simp add: table_ptr_def type_index_walk_def)
next
  case (Suc n)
  let ?q = "p + length (encode_struct s)" and ?d = "from_type t ss"
  note tail = at_tableD(3) [OF Suc.prems(1)]
  note step = smbiosNextPtr_table [OF Suc.prems(1)] getSMBIOSTypePtr_table [OF tail, of t]
  show ?case
  proof (cases ?d)
    case Nil
    then have "suffix_of_type t (Suc n) (s # ss) = []"
      using Suc.prems(2) by (cases n) auto
    then show ?thesis using step Nil by (simp add: table_ptr_def type_index_walk_def)
  next
    case (Cons x rest)
    have x: "s_type x = t"
      using Cons by (rule from_type_Cons)
    have at: "at_table m (?q + (enc_len ss - enc_len (x # rest))) (x # rest)"
      by (rule at_table_from_type [OF tail Cons])
    have sfx: "suffix_of_type t (Suc n) (s # ss) = suffix_of_type t n (x # rest)"
      using Suc.prems(2) Cons x by (cases n) auto
    have "enc_len (x # rest) \<le> enc_len ss"
      using enc_len_from_type_le [of t ss] Cons by simp
    moreover obtain pre where "x # rest = pre @ suffix_of_type t n (x # rest)"
      using suffix_of_type_suffix by blast
    then have "enc_len (suffix_of_type t n (x # rest)) \<le> enc_len (x # rest)"
      by (metis enc_len_append le_add2)
    ultimately show ?thesis
      using step Cons Suc.IH [OF at x] sfx
      by (simp add: table_ptr_def type_index_walk_def add.assoc)
  qed
qed

lemma getSMBIOSTypeIndexPtr_table:
  assumes "at_table m p ss"
  shows "getSMBIOSTypeIndexPtr m (At p) t k =
    Some (table_ptr p ss (suffix_of_type t (unat k) ss))"
proof (cases "from_type t ss")
  case Nil
  then have "suffix_of_type t (unat k) ss = []"
    by (cases "unat k") auto
  then show ?thesis
    using getSMBIOSTypePtr_table [OF assms, of t] Nil
    by (simp add: getSMBIOSTypeIndexPtr_def table_ptr_def)
next
  case (Cons x rest)
  have x: "s_type x = t"
    using Cons by (rule from_type_Cons)
  note at = at_table_from_type [OF assms Cons]
  have sfx: "suffix_of_type t (unat k) ss = suffix_of_type t (unat k) (x # rest)"
    using Cons x by (cases "unat k") auto
  obtain pre where "x # rest = pre @ suffix_of_type t (unat k) (x # rest)"
    using suffix_of_type_suffix by blast
  then have "enc_len (suffix_of_type t (unat k) (x # rest)) \<le> enc_len (x # rest)"
    by (metis enc_len_append le_add2)
  moreover have "enc_len (x # rest) \<le> enc_len ss"
    using enc_len_from_type_le [of t ss] Cons by simp
  ultimately show ?thesis
    using getSMBIOSTypePtr_table [OF assms, of t] Cons sfx type_index_walk_table [OF at x]
    by (simp add: getSMBIOSTypeIndexPtr_def table_ptr_def)
qed

text \<open>The structure a lookup finds is the \<open>n\<close>-th one of its type in the list.\<close>

abbreviation of_type :: "u8 \<Rightarrow> smb_struct list \<Rightarrow> smb_struct list" where
  "of_type t ss \<equiv> filter (\<lambda>s. s_type s = t) ss"

lemma nth_of_type:
  assumes "k < length (of_type t ss)"
  shows "of_type t ss ! k \<in> set ss \<and> s_type (of_type t ss ! k) = t"
  using nth_mem [OF assms] by simp

lemma of_type_from_type:
  "of_type t ss = (case from_type t ss of [] \<Rightarrow> [] | s # rest \<Rightarrow> s # of_type t rest)"
  by (induction ss) auto

lemma suffix_of_type_Nil_iff: "suffix_of_type t n ss = [] \<longleftrightarrow> length (of_type t ss) \<le> n"
proof (induction t n ss rule: suffix_of_type.induct)
  case (1 t ss)
  then show ?case
    by (subst of_type_from_type) (simp split: list.splits)
next
  case (2 t n ss)
  then show ?case
    by (subst of_type_from_type) (simp split: list.splits)
qed

lemma suffix_of_type_hd:
  "n < length (of_type t ss) \<Longrightarrow> hd (suffix_of_type t n ss) = of_type t ss ! n"
proof (induction t n ss rule: suffix_of_type.induct)
  case (1 t ss)
  then show ?case
    by (subst of_type_from_type, subst (asm) of_type_from_type) (simp split: list.splits)
next
  case (2 t n ss)
  then show ?case
    by (subst of_type_from_type, subst (asm) (2) of_type_from_type) (simp split: list.splits)
qed

subsection \<open>Lookup by handle\<close>

fun from_handle :: "u16 \<Rightarrow> smb_struct list \<Rightarrow> smb_struct list" where
  "from_handle h [] = []"
| "from_handle h (s # ss) = (if s_handle s = h then s # ss else from_handle h ss)"

lemma from_handle_suffix: "\<exists>pre. ss = pre @ from_handle h ss"
proof (induction ss)
  case Nil
  then show ?case by simp
next
  case (Cons s ss)
  then show ?case by (metis append_Cons append_Nil from_handle.simps(2))
qed

lemma handle_loop_table:
  "at_table m p ss \<Longrightarrow> handle_loop m p h = Some (table_ptr p ss (from_handle h ss))"
proof (induction ss arbitrary: p)
  case Nil
  then show ?case
    using at_table_end [OF Nil]
    by (subst handle_loop.simps) (simp add: structureHeaderSize_def table_ptr_def)
next
  case (Cons s ss)
  note hdr = at_table_header [OF Cons.prems] wf_struct_len [OF at_tableD(1) [OF Cons.prems]]
    smbiosNextPtr_table [OF Cons.prems]
  have len: "\<not> s_length s < structureHeaderSize"
    by (simp add: s_length_def)
  show ?case
  proof (cases "s_handle s = h")
    case True
    then show ?thesis
      using hdr len by (subst handle_loop.simps) (simp add: table_ptr_def)
  next
    case False
    have "handle_loop m p h = handle_loop m (p + length (encode_struct s)) h"
      using hdr len False by (subst handle_loop.simps) simp
    moreover have "enc_len (from_handle h ss) \<le> enc_len ss"
      using from_handle_suffix [of ss h] by (metis enc_len_append le_add2)
    ultimately show ?thesis
      using Cons.IH [OF at_tableD(3) [OF Cons.prems]] False
      by (simp add: table_ptr_def add.assoc)
  qed
qed

lemma smbiosHandlePtr_table:
  assumes "at_table m p ss"
  shows "smbiosHandlePtr m (At p) h = Some (table_ptr p ss (from_handle h ss))"
  using handle_loop_table [OF assms] skip_entry_point_at_table [OF assms]
  by (simp add: smbiosHandlePtr_def smbiosSkipEntryPoint_def)

subsection \<open>Strings of a structure\<close>

lemma skip_string_holds:
  "holds m t (map byte_of_char s @ [0]) \<Longrightarrow> list_all (\<lambda>c. byte_of_char c \<noteq> 0) s \<Longrightarrow>
   length s < limit \<Longrightarrow> skip_string m t limit = Some (Some (t + length s, limit - length s))"
proof (induction s arbitrary: t limit)
  case Nil
  then show ?case by (subst skip_string.simps) (simp add: holds_Cons rd8_def)
next
  case (Cons c s)
  then have "skip_string m (t + 1) (limit - 1) =
      Some (Some (t + 1 + length s, limit - 1 - length s))"
    by (intro Cons.IH) (auto simp: holds_Cons)
  then show ?case
    using Cons.prems by (subst skip_string.simps) (simp add: holds_Cons rd8_def)
qed

lemma cstring_holds:
  "holds m t (map byte_of_char s @ [0]) \<Longrightarrow> list_all (\<lambda>c. byte_of_char c \<noteq> 0) s \<Longrightarrow>
   cstring m t = Some s"
proof (induction s arbitrary: t)
  case Nil
  then show ?case by (subst cstring.simps) (simp add: holds_Cons rd8_def)
next
  case (Cons c s)
  then have "cstring m (t + 1) = Some s"
    by (intro Cons.IH) (auto simp: holds_Cons)
  then show ?case
    using Cons.prems by (subst cstring.simps) (simp add: holds_Cons rd8_def)
qed

lemma string_walk_holds:
  assumes "holds m t (concat (map encode_string ss) @ [0])" and "list_all wf_string ss"
    and "length (concat (map encode_string ss)) < limit" and "ss \<noteq> []"
  shows "string_walk m t limit n =
    Some (if n < length ss then Some (t + length (concat (map encode_string (take n ss)))) else None)"
  using assms
proof (induction n arbitrary: t limit ss)
  case 0
  then show ?case by simp
next
  case (Suc n)
  then obtain s rest where ss: "ss = s # rest" by (cases ss) auto
  have wf: "list_all (\<lambda>c. byte_of_char c \<noteq> 0) s" "list_all wf_string rest"
    using Suc.prems(2) ss by (simp_all add: wf_string_def [of s])
  let ?t = "t + length s + 1"
  have h: "holds m t (encode_string s)" "holds m ?t (concat (map encode_string rest) @ [0])"
    using Suc.prems(1) ss
      holds_append [of m t "encode_string s" "concat (map encode_string rest) @ [0]"]
    by simp_all
  have sk: "skip_string m t limit = Some (Some (t + length s, limit - length s))"
    using h(1) wf(1) Suc.prems(3) ss
    by (intro skip_string_holds) (simp_all add: encode_string_def [of s])
  show ?case
  proof (cases rest)
    case Nil
    then have "rd8 m ?t = Some 0" using h(2) by (simp add: holds_Cons rd8_def)
    then show ?thesis using sk ss Nil by simp
  next
    case (Cons r rs)
    then obtain c where c: "rd8 m ?t = Some c" "c \<noteq> 0"
      using h(2) wf(2) by (cases r) (auto simp: wf_string_def encode_string_def holds_Cons rd8_def)
    have "string_walk m ?t (limit - length s) n = Some (if n < length rest
        then Some (?t + length (concat (map encode_string (take n rest)))) else None)"
      using Suc.prems(3) ss h(2) wf(2) Cons
      by (intro Suc.IH) simp_all
    then show ?thesis
      using sk c ss by simp
  qed
qed

lemma holds_nth_string:
  assumes "holds m t (concat (map encode_string ss) @ [0])" and "n < length ss"
  shows "holds m (t + length (concat (map encode_string (take n ss)))) (encode_string (ss ! n))"
proof -
  have "ss = take n ss @ ss ! n # drop (Suc n) ss"
    using assms(2) by (rule id_take_nth_drop)
  then have "concat (map encode_string ss) = concat (map encode_string (take n ss))
      @ encode_string (ss ! n) @ concat (map encode_string (drop (Suc n) ss))"
    by (metis append_assoc concat.simps(2) concat_append list.simps(9) map_append)
  then show ?thesis
    using assms(1) by (metis append_assoc holds_append)
qed

lemma positionToString_table:
  assumes "at_table m p (s # ss)"
  shows "positionToString k (word_of_nat (s_length s)) m (At p) = Some (struct_string s k)"
proof (cases "k = 0")
  case True
  then show ?thesis by (simp add: positionToString_def struct_string_def)
next
  case False
  then have k: "0 < unat k" by (simp add: word_neq_0_conv [symmetric] unat_gt_0)
  note wf = at_tableD(1) [OF assms]
  note h = at_table_strings [OF assms]
  let ?t = "p + s_length s"
  show ?thesis
  proof (cases "s_strings s = []")
    case True
    then have b: "rd8 m ?t = Some 0" "rd8 m (?t + 1) = Some 0"
      using h by (auto simp: encode_strings_def holds_Cons rd8_def)
    have "string_walk m ?t mdrSMBIOSSize n = Some (if n = 0 then Some ?t else None)" for n
      using b by (cases n) (simp_all add: skip_string.simps)
    then show ?thesis
      using False True k b wf_struct_len [OF wf]
      by (simp add: positionToString_def struct_string_def cstring.simps)
  next
    case ne: False
    let ?strs = "s_strings s"
    have hs: "holds m ?t (concat (map encode_string ?strs) @ [0])"
      using h ne by (simp add: encode_strings_def)
    have w: "list_all wf_string ?strs" "length (concat (map encode_string ?strs)) < mdrSMBIOSSize"
      using wf ne by (auto simp: wf_struct_def encode_strings_def)
    have walk: "string_walk m ?t mdrSMBIOSSize (unat k - 1) = Some (if unat k - 1 < length ?strs
        then Some (?t + length (concat (map encode_string (take (unat k - 1) ?strs)))) else None)"
      by (rule string_walk_holds [OF hs w ne])
    have "cstring m (?t + length (concat (map encode_string (take n ?strs)))) = Some (?strs ! n)"
      if "n < length ?strs" for n
      using holds_nth_string [OF hs that] w(1) that
      by (intro cstring_holds) (auto simp: encode_string_def wf_string_def list_all_length)
    then show ?thesis
      using False k walk wf_struct_len [OF wf]
      by (auto simp: positionToString_def struct_string_def)
  qed
qed

text \<open>A byte of the formatted area of a structure.\<close>

lemma at_table_field:
  assumes "at_table m p (s # ss)" and "4 \<le> i" and "i < s_length s"
  shows "rd8 m (p + i) = Some (s_body s ! (i - 4))"
proof -
  have "rd8 m (p + i) = Some (encode_struct s ! i)"
    using assms(3) by (intro holds_rd8 [OF at_tableD(2) [OF assms(1)]]) (simp add: length_encode_struct)
  moreover have "encode_struct s ! i = s_body s ! (i - 4)"
  proof -
    let ?hdr = "s_type s # word_of_nat (s_length s) # word_bytes 2 (s_handle s)"
    have "encode_struct s = ?hdr @ s_body s @ encode_strings (s_strings s)" and "length ?hdr = 4"
      by (simp_all add: encode_struct_def)
    then show ?thesis
      using assms(2,3) nth_append [of ?hdr _ i]
      by (auto simp: nth_append s_length_def structureHeaderSize_def)
  qed
  ultimately show ?thesis by simp
qed

text \<open>Wider fields of the formatted area.\<close>

definition sf8 :: "smb_struct \<Rightarrow> nat \<Rightarrow> u8" where
  "sf8 s i = s_body s ! (i - 4)"

definition sf16 :: "smb_struct \<Rightarrow> nat \<Rightarrow> u16" where
  "sf16 s i = le_word (take 2 (drop (i - 4) (s_body s)))"

definition sf32 :: "smb_struct \<Rightarrow> nat \<Rightarrow> u32" where
  "sf32 s i = le_word (take 4 (drop (i - 4) (s_body s)))"

definition sf64 :: "smb_struct \<Rightarrow> nat \<Rightarrow> u64" where
  "sf64 s i = le_word (take 8 (drop (i - 4) (s_body s)))"

lemma at_table_bytes:
  assumes "at_table m p (s # ss)" and "4 \<le> i" and "i + n \<le> s_length s"
  shows "rd_bytes n m (p + i) = Some (take n (drop (i - 4) (s_body s)))"
proof -
  obtain hdr where "encode_struct s = hdr @ s_body s @ encode_strings (s_strings s)" "length hdr = 4"
  proof
    let ?hdr = "s_type s # word_of_nat (s_length s) # word_bytes 2 (s_handle s)"
    show "encode_struct s = ?hdr @ s_body s @ encode_strings (s_strings s)" "length ?hdr = 4"
      by (simp_all add: encode_struct_def)
  qed
  then have "drop i (encode_struct s) = drop (i - 4) (s_body s @ encode_strings (s_strings s))"
    using assms(2) by simp
  moreover have "i - 4 + n \<le> length (s_body s)"
    using assms(2,3) by (simp add: s_length_def structureHeaderSize_def)
  ultimately show ?thesis
    using holds_rd_bytes_at [OF at_tableD(2) [OF assms(1)], of i n] assms(3)
    by (simp add: length_encode_struct)
qed

lemma at_table_fields:
  assumes "at_table m p (s # ss)" and "4 \<le> i"
  shows "i + 1 \<le> s_length s \<Longrightarrow> rd8 m (p + i) = Some (sf8 s i)"
    and "i + 2 \<le> s_length s \<Longrightarrow> rd16 m (p + i) = Some (sf16 s i)"
    and "i + 4 \<le> s_length s \<Longrightarrow> rd32 m (p + i) = Some (sf32 s i)"
    and "i + 8 \<le> s_length s \<Longrightarrow> rd64 m (p + i) = Some (sf64 s i)"
  using assms at_table_field [OF assms] at_table_bytes [OF assms]
  by (auto simp: sf8_def sf16_def sf32_def sf64_def rd16_def rd32_def rd64_def)

end
