(* ===== verification/Smbios_Safety.thy ===== *)
theory Smbios_Safety
  imports Smbios_Parse
begin

text \<open>
  Memory safety of the parser on arbitrary bytes. The storage of the service is 64 KiB and is
  cleared before a table is copied into it, and every loop of the parser is limited to
  32 KiB. \<open>safe_table m\<close> says that the data ends (only zero bytes follow) at least 32 KiB before
  the end of the storage. On such a storage no parser routine reads outside of it, whatever
  the bytes are.
\<close>

definition data_end :: "memory \<Rightarrow> nat" where
  "data_end m = length (dropWhile (\<lambda>b. b = 0) (rev m))"

definition safe_table :: "memory \<Rightarrow> bool" where
  "safe_table m \<longleftrightarrow> data_end m + mdrSMBIOSSize \<le> length m"

text \<open>Where lookups may point, and where moving to the next structure may point.\<close>

definition inside :: "memory \<Rightarrow> nat \<Rightarrow> bool" where
  "inside m q \<longleftrightarrow> safe_table m \<and> q < data_end m"

definition edge :: "memory \<Rightarrow> nat \<Rightarrow> bool" where
  "edge m p \<longleftrightarrow> safe_table m \<and> p \<le> data_end m + 257"

lemma data_end_le: "data_end m \<le> length m"
  by (metis data_end_def length_dropWhile_le length_rev)

lemma data_end_zero:
  assumes "data_end m \<le> i" and "i < length m"
  shows "m ! i = 0"
proof -
  let ?t = "takeWhile (\<lambda>b. b = 0) (rev m)"
  have "length ?t + data_end m = length m"
    unfolding data_end_def
    by (metis length_append length_rev takeWhile_dropWhile_id)
  then have j: "length m - Suc i < length ?t"
    using assms by linarith
  then have "rev m ! (length m - Suc i) \<in> set ?t"
    by (metis nth_mem takeWhile_nth)
  then have "rev m ! (length m - Suc i) = 0"
    using set_takeWhileD by fastforce
  then show ?thesis
    using assms(2) by (simp add: rev_nth)
qed

lemma data_end_append_zeros:
  "data_end (xs @ replicate n 0) \<le> length xs"
proof -
  have "dropWhile (\<lambda>b. b = 0) (replicate n 0 @ rev xs) = dropWhile (\<lambda>b. b = 0) (rev xs)"
    by (induction n) auto
  then show ?thesis
    by (metis data_end_def length_dropWhile_le length_rev rev_append rev_replicate)
qed

lemma inside_edge: "inside m q \<Longrightarrow> edge m q"
  by (simp add: inside_def edge_def)

lemma edge_rd8: "edge m p \<Longrightarrow> i \<le> 32000 \<Longrightarrow> rd8 m (p + i) = Some (m ! (p + i))"
  by (simp add: edge_def safe_table_def mdrSMBIOSSize_def rd8_def)

lemma inside_rd8: "inside m q \<Longrightarrow> i \<le> 32000 \<Longrightarrow> rd8 m (q + i) = Some (m ! (q + i))"
  by (blast intro: edge_rd8 inside_edge)

lemma inside_rd_wide:
  assumes "inside m q" and "i \<le> 32000"
  shows "rd16 m (q + i) \<noteq> None" and "rd32 m (q + i) \<noteq> None" and "rd64 m (q + i) \<noteq> None"
  using assms rd_wide_safe [of "q + i" m]
  by (simp_all add: inside_def safe_table_def mdrSMBIOSSize_def)

subsection \<open>The scanning loops\<close>

text \<open>A scan that starts at most a structure's length behind the data stops right there.\<close>

lemma next_scan_safe:
  assumes "safe_table m" and "p \<le> data_end m + 255"
  shows "\<exists>r. next_scan m p len = Some r \<and> (\<forall>q. r = At q \<longrightarrow> edge m q \<and> q \<le> max p (data_end m) + 2)"
  using assms
proof (induction m p len rule: next_scan.induct)
  case (1 m p len)
  have inb: "p + 1 < length m"
    using "1.prems" by (simp add: safe_table_def mdrSMBIOSSize_def)
  show ?case
  proof (cases "m ! p OR m ! (p + 1) = 0")
    case True
    then show ?thesis
      using inb "1.prems"
      by (subst next_scan.simps) (auto simp: rd8_def separateLen_def edge_def)
  next
    case False
    then have "p < data_end m"
      using inb data_end_zero [of m p] data_end_zero [of m "p + 1"]
      by (metis Suc_eq_plus1 Suc_leD not_less or.right_neutral Suc_lessD le_SucI)
    then show ?thesis
      using inb False "1.prems" "1.IH" [of "m ! p" "m ! (p + 1)"]
      by (subst next_scan.simps) (auto simp: rd8_def)
  qed
qed

lemma not_terminator_end:
  assumes "data_end m \<le> p" and "p + 1 < length m"
  shows "not_terminator m p = Some False"
  using assms data_end_zero [of m p] data_end_zero [of m "p + 1"]
  by (simp add: not_terminator_def rd8_def)

lemma type_scan_safe:
  assumes "safe_table m" and "p \<le> data_end m + 255"
  shows "\<exists>r. type_scan m p len = Some r \<and> (\<forall>q. r = At q \<longrightarrow> edge m q)"
  using assms
proof (induction m p len rule: type_scan.induct)
  case (1 m p len)
  have inb: "p + 1 < length m"
    using "1.prems" by (simp add: safe_table_def mdrSMBIOSSize_def)
  show ?case
  proof (cases "not_terminator m p = Some False")
    case True
    then show ?thesis
      using "1.prems" inb
      by (subst type_scan.simps)
         (auto simp: separateLen_def edge_def not_terminator_def rd8_def split: if_splits)
  next
    case False
    then have nt: "not_terminator m p = Some True"
      using inb by (auto simp: not_terminator_def rd8_def split: if_splits)
    then have "p < data_end m"
      using inb not_terminator_end [of m p] by (cases "data_end m \<le> p") auto
    then show ?thesis
      using nt "1.prems" "1.IH" [of True] by (subst type_scan.simps) auto
  qed
qed

lemma smbiosNextPtr_safe:
  assumes "inside m q"
  shows "\<exists>r. smbiosNextPtr m (At q) = Some r \<and> (\<forall>p. r = At p \<longrightarrow> edge m p)"
proof -
  let ?len = "m ! (q + 1)"
  have len: "rd8 m (q + 1) = Some ?len"
    by (rule inside_rd8 [OF assms]) simp
  have "unat ?len < 256"
    using unsigned_less [of ?len] by simp
  then have "q + unat ?len \<le> data_end m + 255"
    using assms by (simp add: inside_def)
  then show ?thesis
    using next_scan_safe [of m "q + unat ?len" 0] assms len
    by (auto simp: smbiosNextPtr_def inside_def)
qed

lemma type_loop_safe:
  assumes "safe_table m" and "p + 1 < length m"
  shows "\<exists>r. type_loop m p t sz = Some r \<and> (\<forall>q. r = At q \<longrightarrow> inside m q)"
  using assms
proof (induction m p t sz rule: type_loop.induct)
  case (1 m p t sz)
  show ?case
  proof (cases "data_end m \<le> p")
    case True
    then show ?thesis
      using not_terminator_end [of m p] "1.prems" by (subst type_loop.simps) auto
  next
    case False
    then have ins: "inside m p" using "1.prems" by (simp add: inside_def)
    have rds: "rd8 m p = Some (m ! p)" "rd8 m (p + 1) = Some (m ! (p + 1))"
      using inside_rd8 [OF ins, of 0] inside_rd8 [OF ins, of 1] by simp_all
    let ?len = "m ! (p + 1)"
    have "unat ?len < 256"
      using unsigned_less [of ?len] by simp
    then have "p + unat ?len \<le> data_end m + 255" using False by simp
    from type_scan_safe [OF "1.prems"(1) this, of "unat ?len"]
    obtain r where r: "type_scan m (p + unat ?len) (unat ?len) = Some r"
      and rq: "\<And>q. r = At q \<Longrightarrow> edge m q" by blast
    obtain c where c: "not_terminator m p = Some c"
      using rds by (cases "m ! p = 0") (simp_all add: not_terminator_def)
    have IH: "\<exists>r'. type_loop m q t sz = Some r' \<and> (\<forall>q'. r' = At q' \<longrightarrow> inside m q')"
      if "c" "m ! p \<noteq> t" "r = At q" for q
      using rq [OF that(3)] that rds r "1.prems"
      by (intro "1.IH" [OF c _ _ _ _ r that(3)])
         (auto simp: edge_def safe_table_def mdrSMBIOSSize_def)
    show ?thesis
      using c rds r ins IH by (subst type_loop.simps) (auto split: ptr.splits)
  qed
qed

lemma skip_entry_point_safe:
  assumes "edge m p"
  shows "\<exists>r. skip_entry_point_at m p = Some r \<and> r + 1 < length m"
proof -
  have len: "p + 5 \<le> length m" "p + 1 < length m"
    using assms by (auto simp: edge_def safe_table_def mdrSMBIOSSize_def)
  show ?thesis
  proof (cases "take 5 (drop p m) = anchorString30")
    case False
    then show ?thesis using len by (simp add: skip_entry_point_at_def rd_bytes_def)
  next
    case True
    then have "take 5 (drop p m) ! 4 = 0x5F" by (simp add: anchorString30_def)
    then have "m ! (p + 4) \<noteq> 0" using len by simp
    then have lt: "p + 4 < data_end m"
      using data_end_zero [of m "p + 4"] len by fastforce
    then have "inside m p" using assms by (simp add: edge_def inside_def)
    then obtain addr where "rd64 m (p + 16) = Some addr"
      using inside_rd_wide(3) [of m p 16] by auto
    then show ?thesis
      using True len lt assms
      by (auto simp: skip_entry_point_at_def rd_bytes_def edge_def safe_table_def mdrSMBIOSSize_def)
  qed
qed

lemma getSMBIOSTypePtr_safe:
  assumes "edge m p"
  shows "\<exists>r. getSMBIOSTypePtr m (At p) t sz = Some r \<and> (\<forall>q. r = At q \<longrightarrow> inside m q)"
proof -
  obtain r where "skip_entry_point_at m p = Some r" "r + 1 < length m"
    using skip_entry_point_safe [OF assms] by blast
  then show ?thesis
    using type_loop_safe [of m r t sz] assms by (auto simp: getSMBIOSTypePtr_def edge_def)
qed

subsection \<open>Lookup by handle\<close>

lemma handle_loop_safe:
  assumes "safe_table m" and "p + 1 < length m"
  shows "\<exists>r. handle_loop m p h = Some r \<and> (\<forall>q. r = At q \<longrightarrow> inside m q)"
  using assms
proof (induction m p h rule: handle_loop.induct)
  case (1 m p h)
  let ?len = "m ! (p + 1)"
  have len: "rd8 m (p + 1) = Some ?len"
    using "1.prems" by (simp add: rd8_def)
  show ?case
  proof (cases "unat ?len < structureHeaderSize")
    case True
    then show ?thesis using len by (subst handle_loop.simps) simp
  next
    case False
    then have "?len \<noteq> 0" by (auto simp: structureHeaderSize_def)
    then have "p + 1 < data_end m"
      using data_end_zero [of m "p + 1"] "1.prems"(2) by fastforce
    then have ins: "inside m p" using "1.prems"(1) by (simp add: inside_def)
    obtain hh where hh: "rd16 m (p + 2) = Some hh"
      using inside_rd_wide(1) [OF ins, of 2] by auto
    obtain r where r: "smbiosNextPtr m (At p) = Some r"
      and rq: "\<And>q. r = At q \<Longrightarrow> edge m q"
      using smbiosNextPtr_safe [OF ins] by blast
    have IH: "\<exists>r'. handle_loop m q h = Some r' \<and> (\<forall>q'. r' = At q' \<longrightarrow> inside m q')"
      if "hh \<noteq> h" "r = At q" for q
      using rq [OF that(2)] that False "1.prems"(1)
      by (intro "1.IH" [OF len _ hh _ r])
         (auto simp: edge_def safe_table_def mdrSMBIOSSize_def)
    show ?thesis
      using len False hh r ins IH by (subst handle_loop.simps) (auto split: ptr.splits)
  qed
qed

lemma smbiosHandlePtr_safe:
  assumes "edge m p"
  shows "\<exists>r. smbiosHandlePtr m (At p) h = Some r \<and> (\<forall>q. r = At q \<longrightarrow> inside m q)"
proof -
  obtain r where "skip_entry_point_at m p = Some r" "r + 1 < length m"
    using skip_entry_point_safe [OF assms] by blast
  then show ?thesis
    using handle_loop_safe [of m r h] assms
    by (auto simp: smbiosHandlePtr_def smbiosSkipEntryPoint_def edge_def)
qed

subsection \<open>Numbered strings\<close>

lemma skip_string_safe:
  assumes "safe_table m" and "t \<le> data_end m + 255"
  shows "\<exists>r. skip_string m t limit = Some r
    \<and> (\<forall>t' l. r = Some (t', l) \<longrightarrow> t' \<le> data_end m + 255)"
  using assms
proof (induction m t limit rule: skip_string.induct)
  case (1 m t limit)
  have c: "rd8 m t = Some (m ! t)"
    using "1.prems" by (simp add: rd8_def safe_table_def mdrSMBIOSSize_def)
  show ?case
  proof (cases "m ! t = 0")
    case True
    then show ?thesis using c "1.prems"(2) by (subst skip_string.simps) simp
  next
    case False
    then have "t < data_end m"
      using data_end_zero [of m t] c by (cases "data_end m \<le> t") (auto simp: rd8_Some_iff)
    then show ?thesis
      using c False "1.prems" "1.IH" [of "m ! t"] by (subst skip_string.simps) auto
  qed
qed

lemma string_walk_safe:
  assumes "safe_table m" and "t \<le> data_end m + 255"
  shows "\<exists>r. string_walk m t limit n = Some r \<and> (\<forall>t'. r = Some t' \<longrightarrow> t' \<le> data_end m + 255)"
  using assms
proof (induction n arbitrary: t limit)
  case 0
  then show ?case by simp
next
  case (Suc n)
  obtain r where r: "skip_string m t limit = Some r"
    and rt: "\<And>t' l. r = Some (t', l) \<Longrightarrow> t' \<le> data_end m + 255"
    using skip_string_safe [OF Suc.prems] by blast
  show ?case
  proof (cases r)
    case None
    then show ?thesis using r by simp
  next
    case (Some tl)
    obtain t' l where tl: "tl = (t', l)" by (cases tl)
    have t': "t' + 1 < length m"
      using rt [of t' l] Some tl Suc.prems(1) by (simp add: safe_table_def mdrSMBIOSSize_def)
    have "t' + 1 \<le> data_end m + 255" if "m ! (t' + 1) \<noteq> 0"
      using that data_end_zero [of m "t' + 1"] t' by (cases "data_end m \<le> t' + 1") auto
    then show ?thesis
      using r Some tl t' Suc.IH [OF Suc.prems(1), of "t' + 1" l] by (auto simp: rd8_def)
  qed
qed

lemma cstring_safe:
  assumes "m ! j = 0" and "j < length m" and "t \<le> j"
  shows "cstring m t \<noteq> None"
  using assms
proof (induction m t rule: cstring.induct)
  case (1 m t)
  have c: "rd8 m t = Some (m ! t)" using "1.prems" by (simp add: rd8_def)
  have "cstring m (t + 1) \<noteq> None" if "m ! t \<noteq> 0"
  proof -
    have "t \<noteq> j" using that "1.prems"(1) by auto
    then show ?thesis using c that "1.prems" by (intro "1.IH") auto
  qed
  then show ?case using c by (subst cstring.simps) auto
qed

lemma positionToString_safe:
  assumes "inside m q"
  shows "positionToString k len m (At q) \<noteq> None"
proof -
  have safe: "safe_table m" and q: "q < data_end m"
    using assms by (auto simp: inside_def)
  have "unat len < 256"
    using unsigned_less [of len] by simp
  then obtain r where r: "string_walk m (q + unat len) mdrSMBIOSSize (unat k - 1) = Some r"
    and rt: "\<And>t'. r = Some t' \<Longrightarrow> t' \<le> data_end m + 255"
    using string_walk_safe [OF safe, of "q + unat len"] q by fastforce
  have j: "data_end m + 255 < length m"
    using safe by (simp add: safe_table_def mdrSMBIOSSize_def)
  have "cstring m t' \<noteq> None" if "r = Some t'" for t'
    using rt [OF that] j data_end_zero [of m "data_end m + 255"]
    by (intro cstring_safe [of m "data_end m + 255"]) auto
  then show ?thesis
    using r by (auto simp: positionToString_def split: option.splits)
qed

subsection \<open>Walking to the n-th structure\<close>

text \<open>
  What a client that repeats "next structure, next structure of the type" needs of the two
  routines it alternates: a lookup started at an \<open>edge\<close> position answers with an \<open>inside\<close>
  position, and a move from an \<open>inside\<close> position answers with an \<open>edge\<close> position.
\<close>

locale struct_cursor =
  fixes edge_pos inside_pos :: "nat \<Rightarrow> bool"
    and findp nextp :: "ptr \<Rightarrow> ptr checked"
  assumes find_ok: "edge_pos p \<Longrightarrow> \<exists>r. findp (At p) = Some r \<and> (\<forall>q. r = At q \<longrightarrow> inside_pos q)"
    and next_ok: "inside_pos q \<Longrightarrow> \<exists>r. nextp (At q) = Some r \<and> (\<forall>p. r = At p \<longrightarrow> edge_pos p)"
begin

lemma walk_ok:
  "inside_pos q \<Longrightarrow>
   \<exists>r. index_walk findp nextp n (At q) = Some r \<and> (\<forall>q'. r = At q' \<longrightarrow> inside_pos q')"
proof (induction n arbitrary: q)
  case 0
  then show ?case by simp
next
  case (Suc n)
  obtain r where r: "nextp (At q) = Some r" "\<And>p. r = At p \<Longrightarrow> edge_pos p"
    using next_ok [OF Suc.prems] by blast
  show ?case
  proof (cases r)
    case Null
    then show ?thesis using r by simp
  next
    case (At p)
    obtain h where h: "findp (At p) = Some h" "\<And>x. h = At x \<Longrightarrow> inside_pos x"
      using find_ok r(2) At by blast
    then show ?thesis
      using r At Suc.IH by (cases h) auto
  qed
qed

lemma find_walk_ok:
  assumes "edge_pos p"
  shows "\<exists>r. Option.bind (findp (At p)) (\<lambda>hit. if hit = Null then Some Null
      else index_walk findp nextp n hit) = Some r \<and> (\<forall>q. r = At q \<longrightarrow> inside_pos q)"
proof -
  obtain h where h: "findp (At p) = Some h" "\<And>x. h = At x \<Longrightarrow> inside_pos x"
    using find_ok [OF assms] by blast
  then show ?thesis using walk_ok by (cases h) auto
qed

end

interpretation table_cursor:
  struct_cursor "edge m" "inside m" "\<lambda>dataIn. getSMBIOSTypePtr m dataIn t sz" "smbiosNextPtr m"
  for m t sz
  by unfold_locales (rule getSMBIOSTypePtr_safe smbiosNextPtr_safe, assumption)+

lemma getSMBIOSTypeIndexPtr_safe:
  assumes "edge m p"
  shows "\<exists>r. getSMBIOSTypeIndexPtr m (At p) t k = Some r \<and> (\<forall>q. r = At q \<longrightarrow> inside m q)"
  unfolding getSMBIOSTypeIndexPtr_def type_index_walk_def
  by (rule table_cursor.find_walk_ok [OF assms])

subsection \<open>Properties\<close>

text \<open>
  C5. Memory safety on arbitrary bytes. When the data ends at least 32 KiB before the end of the
  storage, then from the start of the storage the lookups by type, by type and index and by
  handle return without reading outside of the storage, and so do the move to the next structure
  and the reading of any string from wherever a lookup points.
\<close>

theorem parser_memory_safe:
  assumes "safe_table m"
  shows "getSMBIOSTypePtr m (At 0) t sz \<noteq> None
    \<and> getSMBIOSTypeIndexPtr m (At 0) t k \<noteq> None
    \<and> smbiosHandlePtr m (At 0) h \<noteq> None
    \<and> (\<forall>q. getSMBIOSTypePtr m (At 0) t sz = Some (At q)
           \<or> getSMBIOSTypeIndexPtr m (At 0) t k = Some (At q)
           \<or> smbiosHandlePtr m (At 0) h = Some (At q)
         \<longrightarrow> smbiosNextPtr m (At q) \<noteq> None \<and> positionToString pos len m (At q) \<noteq> None)"
proof -
  have e: "edge m 0" using assms by (simp add: edge_def)
  note ok = getSMBIOSTypePtr_safe [OF e, of t sz] getSMBIOSTypeIndexPtr_safe [OF e, of t k]
    smbiosHandlePtr_safe [OF e, of h]
  have "smbiosNextPtr m (At q) \<noteq> None \<and> positionToString pos len m (At q) \<noteq> None"
    if "inside m q" for q
    using smbiosNextPtr_safe [OF that] positionToString_safe [OF that] by auto
  then show ?thesis using ok by auto
qed

lemma safe_table_padded: "mdrSMBIOSSize \<le> n \<Longrightarrow> safe_table (xs @ replicate n 0)"
  using data_end_append_zeros [of xs n] by (simp add: safe_table_def)

theorem parser_memory_safe_witness:
  "getSMBIOSTypePtr ([1, 200, 7, 7] @ replicate 40000 0) (At 0) 2 0 \<noteq> None
   \<and> smbiosHandlePtr ([1, 200, 7, 7] @ replicate 40000 0) (At 0) 9 \<noteq> None"
proof -
  have "safe_table ([1, 200, 7, 7] @ replicate 40000 0)"
    by (rule safe_table_padded) (simp add: mdrSMBIOSSize_def)
  from parser_memory_safe [OF this, of 2 0 0 9] show ?thesis by blast
qed

text \<open>
  Data that fills the whole storage: short structures of type 1 up to a tail without terminator.
\<close>

definition overlong :: "nat \<Rightarrow> memory" where
  "overlong n = concat (replicate n [1, 2, 0, 0]) @ [1, 1, 1, 1]"

lemma length_overlong [simp]: "length (overlong n) = 4 * n + 4"
  by (induction n) (auto simp: overlong_def)

lemma overlong_Suc: "overlong (Suc n) = [1, 2, 0, 0] @ overlong n"
  by (simp add: overlong_def)

lemma overlong_nth:
  "i < n \<Longrightarrow> j < 4 \<Longrightarrow> overlong n ! (4 * i + j) = [1, 2, 0, 0] ! j"
  "j < 4 \<Longrightarrow> overlong n ! (4 * n + j) = 1"
proof -
  show "i < n \<Longrightarrow> j < 4 \<Longrightarrow> overlong n ! (4 * i + j) = [1, 2, 0, 0] ! j"
  proof (induction n arbitrary: i)
    case 0
    then show ?case by simp
  next
    case (Suc n)
    then show ?case
      by (cases i) (auto simp: overlong_Suc nth_append simp del: append_Cons)
  qed
  show "j < 4 \<Longrightarrow> overlong n ! (4 * n + j) = 1"
  proof (induction n)
    case 0
    then show ?case by (auto simp: overlong_def less_Suc_eq numeral_eq_Suc)
  next
    case (Suc n)
    then show ?case by (simp add: overlong_Suc nth_append del: append_Cons)
  qed
qed

lemma overlong_tail: "type_loop (overlong n) (4 * n) 2 sz = None"
proof -
  let ?m = "overlong n" and ?p = "4 * n"
  have b: "rd8 ?m (?p + j) = Some 1" if "j < 4" for j
    using that overlong_nth(2) [OF that, of n] by (simp add: rd8_def)
  have nt: "not_terminator ?m (?p + j) = Some True" if "j < 4" for j
    using b [OF that] by (simp add: not_terminator_def)
  have stop: "not_terminator ?m (?p + 4) = None"
    by (simp add: not_terminator_def rd8_def)
  have go: "type_scan ?m (?p + j) j = type_scan ?m (?p + (j + 1)) (j + 1)" if "j < 4" for j
    using nt [OF that] that by (subst type_scan.simps) (simp add: mdrSMBIOSSize_def add.assoc)
  have "type_scan ?m (?p + 4) 4 = None"
    using stop by (subst type_scan.simps) simp
  then have "type_scan ?m (?p + 1) 1 = None"
    using go [of 1] go [of 2] go [of 3] by (simp only: one_add_one numeral_plus_one add_num_simps)
  then show ?thesis
    using b [of 0] b [of 1] nt [of 0] by (subst type_loop.simps) simp
qed

lemma overlong_walk:
  "i \<le> n \<Longrightarrow> type_loop (overlong n) (4 * i) 2 sz = type_loop (overlong n) (4 * n) 2 sz"
proof (induction "n - i" arbitrary: i)
  case 0
  then show ?case by simp
next
  case (Suc d)
  let ?m = "overlong n" and ?p = "4 * i"
  have b: "rd8 ?m (?p + j) = Some ([1, 2, 0, 0] ! j)" if "j < 4" for j
    using that Suc overlong_nth(1) [of i n j] by (simp add: rd8_def)
  have r: "rd8 ?m ?p = Some 1" "rd8 ?m (?p + 1) = Some 2" "rd8 ?m (?p + 2) = Some 0"
    "rd8 ?m (?p + 2 + 1) = Some 0"
    using b [of 0] b [of 1] b [of 2] b [of 3] by (simp_all add: numeral_eq_Suc)
  have "type_scan ?m (?p + 2) 2 = Some (At (4 * (i + 1)))"
    using r by (subst type_scan.simps) (simp add: not_terminator_def separateLen_def)
  then have "type_loop ?m ?p 2 sz = type_loop ?m (4 * (i + 1)) 2 sz"
    using r by (subst type_loop.simps) (simp add: not_terminator_def)
  then show ?case
    using Suc by (metis Suc_diff_Suc Suc_leI add.commute diff_Suc_1 diff_diff_left
        plus_1_eq_Suc zero_less_Suc zero_less_diff)
qed

text \<open>
  C38. The bound of 32 KiB is needed although the storage has 64 KiB and the agent accepts up to
  64 KiB: the loop limit of the parser counts within one structure, so on a storage that is filled
  with data the search for a type that is not in the table reads past the end of the storage.
\<close>

theorem full_storage_overrun:
  "length (overlong 16383) = smbiosTableStorageSize
   \<and> getSMBIOSTypePtr (overlong 16383) (At 0) 2 0 = None"
proof -
  have "take 5 (overlong 16383) ! 0 \<noteq> anchorString30 ! 0"
    using overlong_nth(1) [of 0 16383 0] by (simp add: anchorString30_def)
  then have "take 5 (overlong 16383) \<noteq> anchorString30" by metis
  then have sk: "skip_entry_point_at (overlong 16383) 0 = Some 0"
    by (simp add: skip_entry_point_at_def rd_bytes_def)
  show ?thesis
    using sk overlong_walk [of 0 16383 0] overlong_tail [of 16383 0]
    by (simp add: getSMBIOSTypePtr_def smbiosTableStorageSize_def)
qed

end
