(* ===== verification/Mdrv2_Agent.thy ===== *)
theory Mdrv2_Agent
  imports Smbios_Table Smbios_Safety
begin

text \<open>
  The SMBIOS agent \<open>MDRV2\<close> of \<open>src/mdrv2.cpp\<close> and \<open>include/mdrv2.hpp\<close>: its directory of data
  sets, the D-Bus methods that read and change the directory, and the synchronisation of the
  table storage with the flash file. Methods that throw have a result of a sum type; undefined
  behaviour (an index outside of the directory, a null storage) is \<^const>\<open>None\<close>.
\<close>

subsection \<open>Constants and data\<close>

definition maxDirEntries :: nat where "maxDirEntries = 4"

definition mdr2Version :: u8 where "mdr2Version = 2"

definition smbiosAgentVersion :: u8 where "smbiosAgentVersion = 1"

definition smbiosDirVersion :: u8 where "smbiosDirVersion = 1"

definition smbiosDirIndex :: nat where "smbiosDirIndex = 0"

definition sizeof_DataIdStruct :: nat where "sizeof_DataIdStruct = 16"

definition sizeof_MDRSMBIOSHeader :: nat where "sizeof_MDRSMBIOSHeader = 10"

definition sizeof_EntryPointStructure21 :: nat where "sizeof_EntryPointStructure21 = 31"

definition sizeof_EntryPointStructure30 :: nat where "sizeof_EntryPointStructure30 = 24"

definition smbiosTableId :: "u8 list" where
  "smbiosTableId = [40, 41, 42, 43, 44, 45, 46, 47, 48, 49, 50, 51, 52, 53, 54, 0x42]"

datatype MDR2SMBIOSStatusEnum = mdr2Init | mdr2Loaded | mdr2Updated | mdr2Updating

datatype MDR2DirLockEnum = mdr2DirUnlock | mdr2DirLock

datatype FlagStatus = flagIsInvalid | flagIsValid | flagIsLocked

fun flag_code :: "FlagStatus \<Rightarrow> u8" where
  "flag_code flagIsInvalid = 0"
| "flag_code flagIsValid = 1"
| "flag_code flagIsLocked = 2"

record Mdr2DirEntry =
  dataInfo :: "u8 list"
  dsize :: u32
  dataSetSize :: u32
  dataVersion :: u8
  timestamp :: u32

record Mdr2DirLocalStruct =
  common :: Mdr2DirEntry
  stage :: MDR2SMBIOSStatusEnum
  lock :: MDR2DirLockEnum
  lockHandle :: u16
  xferBuff :: u32
  xferSize :: u32
  maxDataSize :: u32
  dataStorage :: ptr

record Mdr2DirStruct =
  agentVersion :: u8
  dirVersion :: u8
  dirEntries :: u8
  status :: u8
  remoteDirVersion :: u8
  sessionHandle :: u16
  dir :: "Mdr2DirLocalStruct list"

record MDRSMBIOSHeader =
  dirVer :: u8
  mdrType :: u8
  hdr_timestamp :: u32
  dataSize :: u32

record SMBIOSVersion =
  majorVersion :: u8
  minorVersion :: u8

definition supportedSMBIOSVersions :: "SMBIOSVersion list" where
  "supportedSMBIOSVersions =
     [\<lparr>majorVersion = 3, minorVersion = 0\<rparr>, \<lparr>majorVersion = 3, minorVersion = 2\<rparr>,
      \<lparr>majorVersion = 3, minorVersion = 3\<rparr>, \<lparr>majorVersion = 3, minorVersion = 5\<rparr>,
      \<lparr>majorVersion = 3, minorVersion = 6\<rparr>]"

text \<open>
  The timer runs at most one deferred action: \<open>expires_after\<close> cancels the previous wait, whose
  handler then only logs.
\<close>

datatype deferred = DeferSystemInfoUpdate | DeferAgentSynchronizeData

record MDRV2 =
  smbiosDir :: Mdr2DirStruct
  smbiosTableStorage :: memory
  timer :: "deferred option"
  directoryEntries_prop :: u8

datatype mdr_error = InvalidParameter | UpdateInProgress | InvalidId

type_synonym 'a reply = "(mdr_error + 'a) checked"

text \<open>The flash file: \<^const>\<open>None\<close> when it cannot be opened.\<close>

type_synonym flash = "u8 list option"

subsection \<open>Access to the directory\<close>

definition dir_at :: "Mdr2DirStruct \<Rightarrow> nat \<Rightarrow> Mdr2DirLocalStruct checked" where
  "dir_at d i = (if i < length (dir d) then Some (dir d ! i) else None)"

definition dir_put ::
  "nat \<Rightarrow> (Mdr2DirLocalStruct \<Rightarrow> Mdr2DirLocalStruct) \<Rightarrow> Mdr2DirStruct \<Rightarrow> Mdr2DirStruct checked"
where
  "dir_put i f d =
     (if i < length (dir d) then Some (d\<lparr>dir := (dir d)[i := f (dir d ! i)]\<rparr>) else None)"

definition set_common :: "(Mdr2DirEntry \<Rightarrow> Mdr2DirEntry) \<Rightarrow> Mdr2DirLocalStruct \<Rightarrow> Mdr2DirLocalStruct"
where
  "set_common f e = e\<lparr>common := f (common e)\<rparr>"

text \<open>
  The type invariant of the agent: a directory of four entries with 16-byte identifiers and a
  storage of 64 KiB, which only the first entry refers to.
\<close>

definition wf_dir :: "Mdr2DirStruct \<Rightarrow> bool" where
  "wf_dir d \<longleftrightarrow> length (dir d) = maxDirEntries
     \<and> list_all (\<lambda>e. length (dataInfo (common e)) = sizeof_DataIdStruct) (dir d)
     \<and> dataStorage (dir d ! smbiosDirIndex) = At 0"

definition wf_agent :: "MDRV2 \<Rightarrow> bool" where
  "wf_agent a \<longleftrightarrow> wf_dir (smbiosDir a) \<and> length (smbiosTableStorage a) = smbiosTableStorageSize"

text \<open>All entries the directory claims to have exist.\<close>

definition entries_ok :: "MDRV2 \<Rightarrow> bool" where
  "entries_ok a \<longleftrightarrow> unat (dirEntries (smbiosDir a)) \<le> maxDirEntries"

subsection \<open>Reading the directory\<close>

definition getDirectoryInformation :: "flash \<Rightarrow> MDRV2 \<Rightarrow> u8 \<Rightarrow> u8 list reply" where
  "getDirectoryInformation f a dirIndex =
     (let d = smbiosDir a in
      if f = None then Some (Inl InvalidParameter)
      else if dirEntries d < dirIndex then Some (Inl InvalidParameter)
      else let returnedEntries = dirEntries d - dirIndex;
               remaining = (if unat (dirEntries d) \<le> unat dirIndex + unat returnedEntries then 0
                            else dirEntries d - dirIndex - returnedEntries)
           in do {
             es \<leftarrow> those (map (dir_at d) [unat dirIndex ..< unat (dirEntries d)]);
             Some (Inr ([mdr2Version, dirVersion d, returnedEntries, remaining]
                        @ concat (map (\<lambda>e. dataInfo (common e)) es))) })"

definition smbiosIsAvailForUpdate :: "MDRV2 \<Rightarrow> nat \<Rightarrow> bool checked" where
  "smbiosIsAvailForUpdate a index =
     (if maxDirEntries \<le> index then Some False
      else do {
        e \<leftarrow> dir_at (smbiosDir a) index;
        Some (case stage e of
                mdr2Updating \<Rightarrow> False
              | mdr2Init \<Rightarrow> lock e \<noteq> mdr2DirLock
              | mdr2Loaded \<Rightarrow> lock e \<noteq> mdr2DirLock
              | mdr2Updated \<Rightarrow> lock e \<noteq> mdr2DirLock) })"

definition getDataOffer :: "MDRV2 \<Rightarrow> u8 list reply" where
  "getDataOffer a = do {
     avail \<leftarrow> smbiosIsAvailForUpdate a 0;
     if avail then do {
       e \<leftarrow> dir_at (smbiosDir a) 0;
       Some (Inr (dataInfo (common e)))
     } else Some (Inl UpdateInProgress) }"

definition smbiosValidFlag :: "MDRV2 \<Rightarrow> nat \<Rightarrow> u8 checked" where
  "smbiosValidFlag a index = do {
     e \<leftarrow> dir_at (smbiosDir a) index;
     Some (flag_code (case stage e of
         mdr2Loaded \<Rightarrow> if lock e = mdr2DirLock then flagIsLocked else flagIsValid
       | mdr2Updated \<Rightarrow> if lock e = mdr2DirLock then flagIsLocked else flagIsValid
       | mdr2Updating \<Rightarrow> flagIsInvalid
       | mdr2Init \<Rightarrow> flagIsInvalid)) }"

text \<open>The object representation of a 32-bit value is little-endian, so the copy is big-endian.\<close>

definition appendReversed :: "u8 list \<Rightarrow> u32 \<Rightarrow> u8 list" where
  "appendReversed v x = v @ rev (word_bytes 4 x)"

definition getDataInformation :: "MDRV2 \<Rightarrow> u8 \<Rightarrow> u8 list reply" where
  "getDataInformation a idIndex =
     (if maxDirEntries \<le> unat idIndex then Some (Inl InvalidParameter)
      else do {
        e \<leftarrow> dir_at (smbiosDir a) (unat idIndex);
        flag \<leftarrow> smbiosValidFlag a (unat idIndex);
        let r1 = [mdr2Version] @ dataInfo (common e) @ [flag];
            r2 = appendReversed r1 (dsize (common e)) @ [dataVersion (common e)]
        in Some (Inr (appendReversed r2 (timestamp (common e)))) })"

fun match_len :: "u8 list \<Rightarrow> u8 list \<Rightarrow> nat" where
  "match_len (x # xs) (y # ys) = (if x \<noteq> y then 0 else Suc (match_len xs ys))"
| "match_len xs ys = 0"

function find_loop :: "Mdr2DirStruct \<Rightarrow> u8 list \<Rightarrow> nat \<Rightarrow> nat reply" where
  "find_loop d arrayDataInfo index =
     (if index < unat (dirEntries d) then do {
        e \<leftarrow> dir_at d index;
        if match_len arrayDataInfo (dataInfo (common e)) = sizeof_DataIdStruct
        then Some (Inr index)
        else find_loop d arrayDataInfo (index + 1)
      } else Some (Inl InvalidId))"
  by pat_completeness auto
termination
  by (relation "measure (\<lambda>(d, i, index). unat (dirEntries d) - index)") auto

declare find_loop.simps [simp del]

definition findIdIndex :: "MDRV2 \<Rightarrow> u8 list \<Rightarrow> nat reply" where
  "findIdIndex a info =
     (if length info \<noteq> sizeof_DataIdStruct then Some (Inl InvalidId)
      else find_loop (smbiosDir a) info 0)"

text \<open>
  The inherited property setter stores the number it is given; the override replaces the
  argument by the number of entries, or by zero when the file cannot be opened.
\<close>

definition directoryEntries :: "flash \<Rightarrow> u8 \<Rightarrow> MDRV2 \<Rightarrow> u8 \<times> MDRV2" where
  "directoryEntries f x a =
     (let v = (if f = None then 0 else dirEntries (smbiosDir a))
      in (v, a\<lparr>directoryEntries_prop := v\<rparr>))"

subsection \<open>Changing the directory\<close>

text \<open>
  The copy loop writes \<open>dir[idIndex + index]\<close> for every returned entry. Nothing in the code
  bounds \<open>idIndex + index\<close>: a write outside of the array is undefined.
\<close>

definition put_id :: "u8 list \<Rightarrow> nat \<Rightarrow> nat \<Rightarrow> Mdr2DirStruct \<Rightarrow> Mdr2DirStruct checked" where
  "put_id dirEntry idIndex index d =
     dir_put (idIndex + index)
       (set_common (\<lambda>c. c\<lparr>dataInfo := take sizeof_DataIdStruct
          (drop (sizeof_DataIdStruct * index) dirEntry)\<rparr>)) d"

fun copy_ids :: "u8 list \<Rightarrow> nat \<Rightarrow> nat list \<Rightarrow> Mdr2DirStruct \<Rightarrow> Mdr2DirStruct checked" where
  "copy_ids dirEntry idIndex [] d = Some d"
| "copy_ids dirEntry idIndex (index # is) d =
     Option.bind (put_id dirEntry idIndex index d) (copy_ids dirEntry idIndex is)"

definition sendDirectoryInformation ::
  "MDRV2 \<Rightarrow> u8 \<Rightarrow> u8 \<Rightarrow> u8 \<Rightarrow> u8 \<Rightarrow> u8 list \<Rightarrow> (bool \<times> MDRV2) reply"
where
  "sendDirectoryInformation a dirVer' dirIndex returnedEntries remainingEntries dirEntry =
     (let d = smbiosDir a in
      if maxDirEntries \<le> unat dirIndex \<or> returnedEntries < 1 then Some (Inl InvalidParameter)
      else if unat returnedEntries * sizeof_DataIdStruct \<noteq> length dirEntry
      then Some (Inl InvalidParameter)
      else if dirVer' = dirVersion d then Some (Inr (True, a))
      else do {
        let terminate = (\<not> 0 < remainingEntries);
        let d1 = (if 0 < remainingEntries then d else d\<lparr>dirVersion := dirVer'\<rparr>);
        let d2 = d1\<lparr>dirEntries := returnedEntries\<rparr>;
        d3 \<leftarrow> copy_ids dirEntry (unat dirIndex) [0 ..< unat returnedEntries] d2;
        Some (Inr (terminate, a\<lparr>smbiosDir := d3\<rparr>)) })"

text \<open>
  The version field of an entry has 8 bits and the argument has 32: the comparison is made at
  32 bits, the assignment truncates.
\<close>

definition sendDataInformation ::
  "MDRV2 \<Rightarrow> u8 \<Rightarrow> u8 \<Rightarrow> u32 \<Rightarrow> u32 \<Rightarrow> u32 \<Rightarrow> (bool \<times> MDRV2) reply"
where
  "sendDataInformation a idIndex flag dataLen dataVer timeStamp =
     (if maxDirEntries \<le> unat idIndex then Some (Inl InvalidParameter)
      else do {
        e \<leftarrow> dir_at (smbiosDir a) (unat idIndex);
        let c = common e;
        let n1 = (if dataSetSize c \<noteq> dataLen then 1 else 0 :: nat);
        let c1 = (if dataSetSize c \<noteq> dataLen then c\<lparr>dataSetSize := dataLen\<rparr> else c);
        let n2 = (if ucast (dataVersion c1) \<noteq> dataVer then n1 + 1 else n1);
        let c2 = (if ucast (dataVersion c1) \<noteq> dataVer
              then c1\<lparr>dataVersion := ucast dataVer\<rparr> else c1);
        let n3 = (if timestamp c2 \<noteq> timeStamp then n2 + 1 else n2);
        let c3 = (if timestamp c2 \<noteq> timeStamp then c2\<lparr>timestamp := timeStamp\<rparr> else c2);
        d' \<leftarrow> dir_put (unat idIndex) (\<lambda>e. e\<lparr>common := c3\<rparr>) (smbiosDir a);
        Some (Inr (n3 \<noteq> 0, a\<lparr>smbiosDir := d'\<rparr>)) })"

subsection \<open>Reading the flash file\<close>

definition wr_bytes :: "nat \<Rightarrow> u8 list \<Rightarrow> memory \<Rightarrow> memory checked" where
  "wr_bytes p bs m =
     (if p + length bs \<le> length m then Some (take p m @ bs @ drop (p + length bs) m) else None)"

definition decode_header :: "u8 list \<Rightarrow> MDRSMBIOSHeader" where
  "decode_header bs =
     \<lparr>dirVer = bs ! 0, mdrType = bs ! 1, hdr_timestamp = le_word (take 4 (drop 2 bs)),
      dataSize = le_word (take 4 (drop 6 bs))\<rparr>"

text \<open>
  The result is the header and the storage on success and \<^const>\<open>None\<close> (within the checked
  result) when the method returns false. The caller passes the address of a local header, so
  the first null check never fires.
\<close>

definition readDataFromFlash ::
  "flash \<Rightarrow> ptr \<Rightarrow> memory \<Rightarrow> (MDRSMBIOSHeader \<times> memory) option checked"
where
  "readDataFromFlash f data m =
     (case data of
        Null \<Rightarrow> Some None
      | At p \<Rightarrow>
         (case f of
            None \<Rightarrow> Some None
          | Some bytes \<Rightarrow>
              if length bytes < sizeof_MDRSMBIOSHeader then Some None
              else let mdrHdr = decode_header (take sizeof_MDRSMBIOSHeader bytes);
                       fileLength = length bytes - sizeof_MDRSMBIOSHeader;
                       rest = drop sizeof_MDRSMBIOSHeader bytes
                   in if smbiosTableStorageSize < unat (dataSize mdrHdr) then Some None
                      else do {
                        m' \<leftarrow> (if fileLength < unat (dataSize mdrHdr)
                               then wr_bytes p (take fileLength rest) m
                               else wr_bytes p (take (unat (dataSize mdrHdr)) rest) m);
                        Some (Some (mdrHdr, m')) }))"

subsection \<open>The version check\<close>

definition checkSMBIOSVersion :: "memory \<Rightarrow> nat \<Rightarrow> bool checked" where
  "checkSMBIOSVersion m p = do {
     buffer \<leftarrow> rd_bytes smbiosTableStorageSize m p;
     (case search anchorString21 buffer of
        Some pos \<Rightarrow>
          if smbiosTableStorageSize - pos < sizeof_EntryPointStructure21 then Some False
          else do {
            foundMajorVersion \<leftarrow> rd8 m (p + pos + 6);
            foundMinorVersion \<leftarrow> rd8 m (p + pos + 7);
            Some (\<lparr>majorVersion = foundMajorVersion, minorVersion = foundMinorVersion\<rparr>
                    \<in> set supportedSMBIOSVersions) }
      | None \<Rightarrow>
         (case search anchorString30 buffer of
            None \<Rightarrow> Some False
          | Some pos \<Rightarrow>
              if smbiosTableStorageSize - pos < sizeof_EntryPointStructure30 then Some False
              else do {
                foundMajorVersion \<leftarrow> rd8 m (p + pos + 7);
                foundMinorVersion \<leftarrow> rd8 m (p + pos + 8);
                Some (\<lparr>majorVersion = foundMajorVersion, minorVersion = foundMinorVersion\<rparr>
                        \<in> set supportedSMBIOSVersions) })) }"

subsection \<open>Synchronisation\<close>

definition loaded_entry :: "MDRSMBIOSHeader \<Rightarrow> Mdr2DirLocalStruct \<Rightarrow> Mdr2DirLocalStruct" where
  "loaded_entry h e = e\<lparr>
     common := (common e)\<lparr>dataVersion := dirVer h, timestamp := hdr_timestamp h,
                          dsize := dataSize h\<rparr>,
     stage := mdr2Loaded, lock := mdr2DirUnlock\<rparr>"

definition agentSynchronizeData :: "flash \<Rightarrow> MDRV2 \<Rightarrow> (bool \<times> MDRV2) checked" where
  "agentSynchronizeData f a = do {
     e \<leftarrow> dir_at (smbiosDir a) smbiosDirIndex;
     p \<leftarrow> (case dataStorage e of Null \<Rightarrow> None | At p \<Rightarrow> Some p);
     cleared \<leftarrow> wr_bytes p (replicate smbiosTableStorageSize 0) (smbiosTableStorage a);
     let a1 = a\<lparr>smbiosTableStorage := cleared\<rparr>;
     rd \<leftarrow> readDataFromFlash f (dataStorage e) cleared;
     (case rd of
        None \<Rightarrow> Some (False, a1)
      | Some (mdr2SMBIOS, m) \<Rightarrow> do {
          let a2 = a1\<lparr>smbiosTableStorage := m\<rparr>;
          supported \<leftarrow> checkSMBIOSVersion m p;
          if \<not> supported then Some (False, a2)
          else do {
            d \<leftarrow> dir_put smbiosDirIndex (loaded_entry mdr2SMBIOS) (smbiosDir a2);
            Some (True, a2\<lparr>smbiosDir := d, timer := Some DeferSystemInfoUpdate\<rparr>) } }) }"

definition synchronizeDirectoryCommonData ::
  "MDRV2 \<Rightarrow> u8 \<Rightarrow> u32 \<Rightarrow> (u32 list \<times> MDRV2) checked"
where
  "synchronizeDirectoryCommonData a idIndex sz = do {
     d \<leftarrow> dir_put (unat idIndex) (set_common (\<lambda>c. c\<lparr>dsize := sz\<rparr>)) (smbiosDir a);
     e \<leftarrow> dir_at d (unat idIndex);
     Some ([dataSetSize (common e), ucast (dataVersion (common e)), timestamp (common e)],
           a\<lparr>smbiosDir := d, timer := Some DeferAgentSynchronizeData\<rparr>) }"

text \<open>
  The constructor. The members of \<open>smbiosDir\<close> it does not assign start with indeterminate
  contents, which the model takes from \<open>raw\<close>; the storage is zero-initialised. The value of
  \<open>agentSynchronizeData\<close> is ignored.
\<close>

definition MDRV2_init :: "Mdr2DirStruct \<Rightarrow> flash \<Rightarrow> MDRV2 checked" where
  "MDRV2_init raw f = do {
     let d0 = raw\<lparr>agentVersion := smbiosAgentVersion, dirVersion := smbiosDirVersion,
                  dirEntries := 1\<rparr>;
     let a0 = \<lparr>smbiosDir = d0, smbiosTableStorage = replicate smbiosTableStorageSize 0,
               timer = None, directoryEntries_prop = 0\<rparr>;
     let a1 = snd (directoryEntries f 1 a0);
     let d1 = d0\<lparr>status := 1, remoteDirVersion := 0\<rparr>;
     d2 \<leftarrow> dir_put smbiosDirIndex
            (\<lambda>e. (set_common (\<lambda>c. c\<lparr>dataInfo := smbiosTableId\<rparr>) e)\<lparr>dataStorage := At 0\<rparr>) d1;
     r \<leftarrow> agentSynchronizeData f (a1\<lparr>smbiosDir := d2\<rparr>);
     Some (snd r) }"

subsection \<open>Basic facts\<close>

lemmas dir_size_defs = maxDirEntries_def smbiosDirIndex_def sizeof_DataIdStruct_def

lemma dir_at_ok [simp]: "i < length (dir d) \<Longrightarrow> dir_at d i = Some (dir d ! i)"
  by (simp add: dir_at_def)

lemma dir_put_ok [simp]:
  "i < length (dir d) \<Longrightarrow> dir_put i f d = Some (d\<lparr>dir := (dir d)[i := f (dir d ! i)]\<rparr>)"
  by (simp add: dir_put_def)

lemma dir_put_Some_iff:
  "dir_put i f d = Some d' \<longleftrightarrow> i < length (dir d) \<and> d' = d\<lparr>dir := (dir d)[i := f (dir d ! i)]\<rparr>"
  by (auto simp: dir_put_def)

lemma wf_dirD:
  assumes "wf_dir d"
  shows "length (dir d) = 4" and "\<And>i. i < 4 \<Longrightarrow> length (dataInfo (common (dir d ! i))) = 16"
    and "dataStorage (dir d ! 0) = At 0"
  using assms by (auto simp: wf_dir_def dir_size_defs list_all_length)

lemma wf_agentD:
  assumes "wf_agent a"
  shows "length (dir (smbiosDir a)) = 4"
    and "\<And>i. i < 4 \<Longrightarrow> length (dataInfo (common (dir (smbiosDir a) ! i))) = 16"
    and "length (smbiosTableStorage a) = smbiosTableStorageSize"
    and "dataStorage (dir (smbiosDir a) ! 0) = At 0"
  using assms wf_dirD [of "smbiosDir a"] by (auto simp: wf_agent_def)

lemma wf_dir_cong: "wf_dir d \<Longrightarrow> dir d' = dir d \<Longrightarrow> wf_dir d'"
  by (simp add: wf_dir_def)

lemma wf_dir_put:
  assumes "wf_dir d" and "dir_put i f d = Some d'"
    and "\<And>e. length (dataInfo (common e)) = 16 \<Longrightarrow> length (dataInfo (common (f e))) = 16"
    and "\<And>e. dataStorage (f e) = dataStorage e"
  shows "wf_dir d'"
  using wf_dirD [OF assms(1)] assms(2-)
  by (auto simp: wf_dir_def dir_size_defs list_all_length dir_put_Some_iff nth_list_update)

lemma those_map_Some: "those (map (\<lambda>x. Some (g x)) xs) = Some (map g xs)"
  by (induction xs) auto

lemma those_map_cong: "(\<And>x. x \<in> set xs \<Longrightarrow> f x = Some (g x)) \<Longrightarrow> those (map f xs) = Some (map g xs)"
  using those_map_Some [of g xs] by (metis (no_types, lifting) map_cong)

lemma those_map_None: "x \<in> set xs \<Longrightarrow> f x = None \<Longrightarrow> those (map f xs) = None"
  by (induction xs) (auto split: option.splits)

lemma match_len_full:
  "length xs = length ys \<Longrightarrow> match_len xs ys = length ys \<longleftrightarrow> xs = ys"
  by (induction xs ys rule: match_len.induct) auto

subsection \<open>What the readers return\<close>

lemma getDirectoryInformation_ok:
  assumes "wf_agent a" and "entries_ok a" and "dirIndex \<le> dirEntries (smbiosDir a)"
  shows "getDirectoryInformation (Some f) a dirIndex =
    Some (Inr ([2, dirVersion (smbiosDir a), dirEntries (smbiosDir a) - dirIndex, 0]
      @ concat (map (\<lambda>e. dataInfo (common e))
          (drop (unat dirIndex) (take (unat (dirEntries (smbiosDir a))) (dir (smbiosDir a)))))))"
proof -
  let ?d = "smbiosDir a" and ?n = "unat (dirEntries (smbiosDir a))" and ?i = "unat dirIndex"
  have len: "length (dir ?d) = 4" and n: "?n \<le> 4"
    using wf_agentD(1) [OF assms(1)] assms(2) by (auto simp: entries_ok_def maxDirEntries_def)
  have es: "those (map (dir_at ?d) [?i ..< ?n]) = Some (map ((!) (dir ?d)) [?i ..< ?n])"
    using len n by (intro those_map_cong) simp
  have "map ((!) (dir ?d)) [?i ..< ?n] = drop ?i (take ?n (dir ?d))"
    using len n by (intro nth_equalityI) simp_all
  moreover have "unat (dirEntries ?d - dirIndex) = ?n - ?i"
    using assms(3) by (simp add: unat_sub)
  ultimately show ?thesis
    using assms(3) es by (simp add: getDirectoryInformation_def Let_def mdr2Version_def)
qed

lemma getDirectoryInformation_length:
  assumes "wf_agent a" and "entries_ok a" and "dirIndex \<le> dirEntries (smbiosDir a)"
    and "getDirectoryInformation (Some f) a dirIndex = Some (Inr r)"
  shows "length r = 4 + 16 * unat (r ! 2)"
proof -
  let ?es = "drop (unat dirIndex) (take (unat (dirEntries (smbiosDir a))) (dir (smbiosDir a)))"
  have n: "unat (dirEntries (smbiosDir a)) \<le> 4"
    using assms(2) by (simp add: entries_ok_def maxDirEntries_def)
  have "\<forall>e \<in> set ?es. length (dataInfo (common e)) = 16"
    using assms(1) by (auto simp: wf_agent_def wf_dir_def list_all_iff sizeof_DataIdStruct_def
        dest!: in_set_dropD in_set_takeD)
  then have "length (concat (map (\<lambda>e. dataInfo (common e)) ?es)) = 16 * length ?es"
    by (induction ?es arbitrary: dirIndex) (simp_all add: length_concat sum_list_triv o_def cong: map_cong)
  then show ?thesis
    using getDirectoryInformation_ok [OF assms(1-3), of f] assms(3,4) n wf_agentD(1) [OF assms(1)]
    by (auto simp: unat_sub)
qed

lemma avail_iff:
  assumes "wf_agent a"
  shows "smbiosIsAvailForUpdate a 0 =
    Some (stage (dir (smbiosDir a) ! 0) \<noteq> mdr2Updating \<and> lock (dir (smbiosDir a) ! 0) = mdr2DirUnlock)"
  using wf_agentD(1) [OF assms]
  by (cases "lock (dir (smbiosDir a) ! 0)")
     (auto simp: smbiosIsAvailForUpdate_def maxDirEntries_def split: MDR2SMBIOSStatusEnum.splits)

lemma getDataOffer_spec:
  assumes "wf_agent a"
  shows "getDataOffer a =
    Some (if stage (dir (smbiosDir a) ! 0) \<noteq> mdr2Updating \<and> lock (dir (smbiosDir a) ! 0) = mdr2DirUnlock
          then Inr (dataInfo (common (dir (smbiosDir a) ! 0))) else Inl UpdateInProgress)"
  using avail_iff [OF assms] wf_agentD(1) [OF assms] by (simp add: getDataOffer_def)

definition valid_flag :: "Mdr2DirLocalStruct \<Rightarrow> u8" where
  "valid_flag e = (if stage e \<in> {mdr2Loaded, mdr2Updated}
     then (if lock e = mdr2DirLock then 2 else 1) else 0)"

lemma getDataInformation_ok:
  assumes "wf_agent a" and "unat i < 4"
  shows "getDataInformation a i = Some (Inr (let e = dir (smbiosDir a) ! unat i; c = common e in
    [2] @ dataInfo c @ [valid_flag e] @ rev (word_bytes 4 (dsize c)) @ [dataVersion c]
      @ rev (word_bytes 4 (timestamp c))))"
  using wf_agentD(1) [OF assms(1)] assms(2)
  by (auto simp: getDataInformation_def smbiosValidFlag_def maxDirEntries_def appendReversed_def
      mdr2Version_def valid_flag_def Let_def split: MDR2SMBIOSStatusEnum.splits)

lemma find_loop_spec:
  assumes "length info = 16" and "length (dir d) = 4"
    and "\<forall>i < 4. length (dataInfo (common (dir d ! i))) = 16"
    and "unat (dirEntries d) \<le> 4" and "\<forall>j < i. dataInfo (common (dir d ! j)) \<noteq> info"
  shows "(\<exists>k. find_loop d info i = Some (Inr k) \<and> k < unat (dirEntries d)
            \<and> dataInfo (common (dir d ! k)) = info \<and> (\<forall>j < k. dataInfo (common (dir d ! j)) \<noteq> info))
    \<or> (find_loop d info i = Some (Inl InvalidId)
        \<and> (\<forall>j < unat (dirEntries d). dataInfo (common (dir d ! j)) \<noteq> info))"
  using assms
proof (induction d info i rule: find_loop.induct)
  case (1 d info i)
  show ?case
  proof (cases "i < unat (dirEntries d)")
    case False
    then show ?thesis using "1.prems"(5) by (subst (1 2) find_loop.simps) auto
  next
    case True
    then have at: "dir_at d i = Some (dir d ! i)" and i4: "i < 4"
      using "1.prems" by auto
    have m: "match_len info (dataInfo (common (dir d ! i))) = sizeof_DataIdStruct
        \<longleftrightarrow> dataInfo (common (dir d ! i)) = info"
      using match_len_full [of info "dataInfo (common (dir d ! i))"] "1.prems"(1,3) i4
      by (auto simp: sizeof_DataIdStruct_def)
    show ?thesis
    proof (cases "dataInfo (common (dir d ! i)) = info")
      case eq: True
      then have "find_loop d info i = Some (Inr i)"
        using True at m by (subst find_loop.simps) simp
      then show ?thesis using True eq "1.prems"(5) by blast
    next
      case ne: False
      have step: "find_loop d info i = find_loop d info (i + 1)"
        using True at m ne by (subst find_loop.simps) simp
      have "\<forall>j < i + 1. dataInfo (common (dir d ! j)) \<noteq> info"
        using "1.prems"(5) ne by (auto simp: less_Suc_eq)
      then show ?thesis
        unfolding step using "1.IH" [OF True at] m ne "1.prems" by blast
    qed
  qed
qed

end
