(* ===== verification/Mdrv2_Sync.thy ===== *)
theory Mdrv2_Sync
  imports Mdrv2_Agent
begin

text \<open>
  The agent's synchronisation and its life as a state machine: what a synchronisation leaves in
  the storage and in the directory, which directory updates are defined, and the invariant of
  the states that the constructor, the D-Bus methods and the timer can reach.
\<close>

subsection \<open>The flash file\<close>

text \<open>
  What a flash file means: a header and the data it announces, as far as the file has it.
\<close>

definition payload :: "flash \<Rightarrow> (MDRSMBIOSHeader \<times> u8 list) option" where
  "payload f = (case f of
      None \<Rightarrow> None
    | Some bytes \<Rightarrow>
        let h = decode_header (take 10 bytes) in
        if length bytes < 10 \<or> smbiosTableStorageSize < unat (dataSize h) then None
        else Some (h, take (unat (dataSize h)) (drop 10 bytes)))"

definition table_image :: "u8 list \<Rightarrow> memory" where
  "table_image bs = bs @ replicate (smbiosTableStorageSize - length bs) 0"

lemma payload_length:
  "payload f = Some (h, bs) \<Longrightarrow> length bs \<le> unat (dataSize h) \<and> length bs \<le> smbiosTableStorageSize"
  by (auto simp: payload_def Let_def split: option.splits if_splits)

lemma length_table_image [simp]:
  "length bs \<le> smbiosTableStorageSize \<Longrightarrow> length (table_image bs) = smbiosTableStorageSize"
  by (simp add: table_image_def)

lemma safe_table_image:
  assumes "length bs \<le> mdrSMBIOSSize"
  shows "safe_table (table_image bs)"
  using data_end_append_zeros [of bs "smbiosTableStorageSize - length bs"] assms
  by (simp add: safe_table_def table_image_def smbiosTableStorageSize_def mdrSMBIOSSize_def)

lemma wr_zeros: "length m = smbiosTableStorageSize \<Longrightarrow>
  wr_bytes 0 (replicate smbiosTableStorageSize 0) m = Some (table_image [])"
  by (simp add: wr_bytes_def table_image_def)

lemma wr_image: "length bs \<le> smbiosTableStorageSize \<Longrightarrow>
  wr_bytes 0 bs (table_image []) = Some (table_image bs)"
  by (simp add: wr_bytes_def table_image_def)

lemma readDataFromFlash_spec:
  "readDataFromFlash f (At 0) (table_image []) =
     Some (map_option (\<lambda>(h, bs). (h, table_image bs)) (payload f))"
proof (cases f)
  case None
  then show ?thesis by (simp add: readDataFromFlash_def payload_def)
next
  case (Some bytes)
  let ?h = "decode_header (take 10 bytes)" and ?rest = "drop 10 bytes"
  have *: "take (length bytes - 10) ?rest = take (unat (dataSize ?h)) ?rest"
    if "length bytes - 10 < unat (dataSize ?h)"
    using that by simp
  have "wr_bytes 0 (take (unat (dataSize ?h)) ?rest) (table_image []) =
      Some (table_image (take (unat (dataSize ?h)) ?rest))"
    if "unat (dataSize ?h) \<le> smbiosTableStorageSize"
    using that by (intro wr_image) simp
  then show ?thesis
    using Some *
    by (auto simp: readDataFromFlash_def payload_def sizeof_MDRSMBIOSHeader_def Let_def not_less)
qed

text \<open>
  The same without the decoder of the code: a file is read as ten bytes of header, whose bytes 6 to
  9 are the little-endian size, and the table after it. A file that is missing, is shorter than the
  header or announces more than 64 KiB has no table. The image of a file is its table
  and zero bytes up to 64 KiB.
\<close>

definition le32 :: "u8 list \<Rightarrow> nat \<Rightarrow> nat" where
  "le32 bs i = unat (bs ! i) + 256 * unat (bs ! (i + 1)) + 65536 * unat (bs ! (i + 2))
     + 16777216 * unat (bs ! (i + 3))"

definition file_table :: "flash \<Rightarrow> u8 list" where
  "file_table f = (case f of
      None \<Rightarrow> []
    | Some bs \<Rightarrow> if length bs < 10 \<or> 65536 < le32 bs 6 then [] else take (le32 bs 6) (drop 10 bs))"

definition flash_image :: "flash \<Rightarrow> memory" where
  "flash_image f = file_table f @ replicate (65536 - length (file_table f)) 0"

lemma le_word_take4:
  assumes "i + 4 \<le> length bs"
  shows "le_nat (take 4 (drop i bs)) = le32 bs i"
proof -
  have nth: "bs ! (i + k) = drop i bs ! k" for k
    using assms by simp
  have "Suc (Suc (Suc (Suc 0))) \<le> length (drop i bs)" using assms by simp
  then obtain a b c d zs where "drop i bs = a # b # c # d # zs"
    by (auto simp: Suc_le_length_iff simp del: length_drop)
  then show ?thesis
    using nth [of 0] nth [of 1] nth [of 2] nth [of 3] by (simp add: le32_def)
qed

lemma le32_less: "le32 bs i < 4294967296"
  using unsigned_less [of "bs ! i", where ?'a = nat] unsigned_less [of "bs ! (i + 1)", where ?'a = nat]
    unsigned_less [of "bs ! (i + 2)", where ?'a = nat] unsigned_less [of "bs ! (i + 3)", where ?'a = nat]
  by (simp add: le32_def)

lemma decode_header_fields:
  assumes "10 \<le> length bs"
  shows "decode_header (take 10 bs) = \<lparr>dirVer = bs ! 0, mdrType = bs ! 1,
    hdr_timestamp = word_of_nat (le32 bs 2), dataSize = word_of_nat (le32 bs 6)\<rparr>"
  using assms le_word_take4 [of 2 bs] le_word_take4 [of 6 bs]
  by (simp add: decode_header_def le_word_def drop_take)

lemma payload_fields:
  "payload f = (case f of
      None \<Rightarrow> None
    | Some bs \<Rightarrow> if length bs < 10 \<or> 65536 < le32 bs 6 then None
        else Some (\<lparr>dirVer = bs ! 0, mdrType = bs ! 1, hdr_timestamp = word_of_nat (le32 bs 2),
               dataSize = word_of_nat (le32 bs 6)\<rparr>, file_table f))"
  using le32_less [of _ 6]
  by (auto simp: payload_def Let_def decode_header_fields file_table_def unat_of_nat
      smbiosTableStorageSize_def split: option.split)

lemma table_image_file: "table_image (file_table f) = flash_image f"
  by (simp add: table_image_def flash_image_def smbiosTableStorageSize_def)

lemma length_file_table: "length (file_table f) \<le> 65536"
  by (auto simp: file_table_def split: option.split)

lemma length_flash_image [simp]: "length (flash_image f) = smbiosTableStorageSize"
  using length_file_table [of f] by (simp add: flash_image_def smbiosTableStorageSize_def)

subsection \<open>The version check\<close>

lemma checkSMBIOSVersion_defined:
  assumes "length m = smbiosTableStorageSize"
  shows "checkSMBIOSVersion m 0 \<noteq> None"
proof -
  have "rd8 m (pos + i) \<noteq> None"
    if "\<not> smbiosTableStorageSize - pos < n" "0 < n" "i < n" for pos n i
    using that assms by (simp add: rd8_def)
  then show ?thesis
    using assms
    by (auto simp: checkSMBIOSVersion_def rd_bytes_def sizeof_EntryPointStructure21_def
        sizeof_EntryPointStructure30_def rd8_def split: option.splits)
qed

definition supported_table :: "u8 list \<Rightarrow> bool" where
  "supported_table bs \<longleftrightarrow> checkSMBIOSVersion (table_image bs) 0 = Some True"

lemma checkSMBIOSVersion_image:
  "length bs \<le> smbiosTableStorageSize \<Longrightarrow>
   checkSMBIOSVersion (table_image bs) 0 = Some (supported_table bs)"
  using checkSMBIOSVersion_defined [of "table_image bs"] by (auto simp: supported_table_def)

lemma supported_anchor21:
  assumes "take 4 bs = anchorString21" and "31 \<le> length bs" and "length bs \<le> smbiosTableStorageSize"
    and "\<lparr>majorVersion = bs ! 6, minorVersion = bs ! 7\<rparr> \<in> set supportedSMBIOSVersions"
  shows "supported_table bs"
proof -
  let ?m = "table_image bs"
  have len: "length ?m = smbiosTableStorageSize" using assms(3) by simp
  have "take (length anchorString21) (drop 0 ?m) = anchorString21"
    using assms(1,2) by (simp add: table_image_def anchorString21_def numeral_eq_Suc)
  then have s: "search anchorString21 ?m = Some 0"
    using search_Some_iff [of anchorString21 ?m 0] by (simp add: anchorString21_def)
  have "rd8 ?m 6 = Some (bs ! 6)" "rd8 ?m 7 = Some (bs ! 7)"
    using len assms(2) by (simp_all add: rd8_def table_image_def nth_append smbiosTableStorageSize_def)
  then show ?thesis
    using len s assms(4)
    by (simp add: supported_table_def checkSMBIOSVersion_def rd_bytes_def
        smbiosTableStorageSize_def sizeof_EntryPointStructure21_def)
qed

text \<open>
  The version a storage announces: bytes 6 and 7 after the first \<open>_SM_\<close> anchor or, without such an
  anchor, bytes 7 and 8 after the first \<open>_SM3_\<close> anchor, if the entry point fits the storage.
\<close>

definition first_at :: "u8 list \<Rightarrow> u8 list \<Rightarrow> nat \<Rightarrow> bool" where
  "first_at pat xs i \<longleftrightarrow> take (length pat) (drop i xs) = pat
     \<and> (\<forall>j < i. take (length pat) (drop j xs) \<noteq> pat)"

definition announces :: "memory \<Rightarrow> u8 \<times> u8 \<Rightarrow> bool" where
  "announces m v \<longleftrightarrow>
     (\<exists>i. first_at [0x5F, 0x53, 0x4D, 0x5F] m i \<and> i + 31 \<le> length m \<and> v = (m ! (i + 6), m ! (i + 7)))
   \<or> (\<nexists>i. first_at [0x5F, 0x53, 0x4D, 0x5F] m i)
     \<and> (\<exists>i. first_at [0x5F, 0x53, 0x4D, 0x33, 0x5F] m i \<and> i + 24 \<le> length m
          \<and> v = (m ! (i + 7), m ! (i + 8)))"

lemma first_at_search: "pat \<noteq> [] \<Longrightarrow> search pat xs = Some i \<longleftrightarrow> first_at pat xs i"
  by (simp add: search_Some_iff first_at_def)

lemma first_at_none: "pat \<noteq> [] \<Longrightarrow> search pat xs = None \<longleftrightarrow> (\<nexists>i. first_at pat xs i)"
  by (metis first_at_search not_None_eq option.discI)

lemma checkSMBIOSVersion_announces:
  assumes "length m = smbiosTableStorageSize"
  shows "checkSMBIOSVersion m 0 =
    Some (\<exists>v \<in> {(3, 0), (3, 2), (3, 3), (3, 5), (3, 6)}. announces m v)"
proof -
  have rd: "rd_bytes smbiosTableStorageSize m 0 = Some m"
    using assms by (simp add: rd_bytes_def)
  have anchors: "anchorString21 \<noteq> []" "anchorString30 \<noteq> []"
    by (simp_all add: anchorString21_def anchorString30_def)
  note search21 = first_at_search [OF anchors(1)] first_at_none [OF anchors(1)]
  note search30 = first_at_search [OF anchors(2)] first_at_none [OF anchors(2)]
  have uniq: "first_at p m i \<Longrightarrow> first_at p m j \<Longrightarrow> i = j" for p i j
    by (metis first_at_def linorder_neqE_nat)
  have sup: "\<lparr>majorVersion = x, minorVersion = y\<rparr> \<in> set supportedSMBIOSVersions \<longleftrightarrow>
      (x, y) \<in> {(3, 0), (3, 2), (3, 3), (3, 5), (3, 6)}" for x y
    by (simp add: supportedSMBIOSVersions_def)
  show ?thesis
  proof (cases "search anchorString21 m")
    case (Some i)
    then have i: "first_at anchorString21 m i" by (simp add: search21)
    have "announces m v \<longleftrightarrow> i + 31 \<le> length m \<and> v = (m ! (i + 6), m ! (i + 7))" for v
      using i uniq unfolding announces_def anchorString21_def by blast
    then show ?thesis
      using Some assms rd
      by (auto simp: checkSMBIOSVersion_def rd8_def sizeof_EntryPointStructure21_def sup not_less)
  next
    case none21: None
    then have no: "\<nexists>i. first_at anchorString21 m i" by (simp add: search21)
    show ?thesis
    proof (cases "search anchorString30 m")
      case (Some i)
      then have i: "first_at anchorString30 m i" by (simp add: search30)
      have "announces m v \<longleftrightarrow> i + 24 \<le> length m \<and> v = (m ! (i + 7), m ! (i + 8))" for v
        using i no uniq unfolding announces_def anchorString21_def anchorString30_def by blast
      then show ?thesis
        using Some none21 assms rd
        by (auto simp: checkSMBIOSVersion_def rd8_def sizeof_EntryPointStructure30_def sup not_less)
    next
      case None
      then have "\<nexists>i. first_at anchorString30 m i" by (simp add: search30)
      then have "\<not> announces m v" for v
        using no unfolding announces_def anchorString21_def anchorString30_def by blast
      then show ?thesis
        using None none21 rd by (simp add: checkSMBIOSVersion_def)
    qed
  qed
qed


subsection \<open>The synchronisation\<close>

definition sync_result :: "flash \<Rightarrow> MDRV2 \<Rightarrow> bool \<times> MDRV2" where
  "sync_result f a = (case payload f of
      None \<Rightarrow> (False, a\<lparr>smbiosTableStorage := table_image []\<rparr>)
    | Some (h, bs) \<Rightarrow>
        if supported_table bs
        then (True, a\<lparr>smbiosTableStorage := table_image bs,
                      smbiosDir := (smbiosDir a)\<lparr>dir := (dir (smbiosDir a))
                        [0 := loaded_entry h (dir (smbiosDir a) ! 0)]\<rparr>,
                      timer := Some DeferSystemInfoUpdate\<rparr>)
        else (False, a\<lparr>smbiosTableStorage := table_image bs\<rparr>))"

lemma agentSynchronizeData_result:
  assumes "wf_agent a"
  shows "agentSynchronizeData f a = Some (sync_result f a)"
proof -
  note a = wf_agentD [OF assms]
  have z: "wr_bytes 0 (replicate smbiosTableStorageSize 0) (smbiosTableStorage a)
      = Some (table_image [])"
    using a(3) by (rule wr_zeros)
  show ?thesis
  proof (cases "payload f")
    case None
    then show ?thesis
      using a z readDataFromFlash_spec [of f]
      by (simp add: agentSynchronizeData_def sync_result_def smbiosDirIndex_def)
  next
    case (Some hb)
    obtain h bs where hb: "hb = (h, bs)" by (cases hb)
    have "length bs \<le> smbiosTableStorageSize"
      using Some hb payload_length by blast
    then show ?thesis
      using a z readDataFromFlash_spec [of f] Some hb checkSMBIOSVersion_image [of bs]
      by (simp add: agentSynchronizeData_def sync_result_def smbiosDirIndex_def)
  qed
qed

lemma wf_dir_loaded: "wf_dir d \<Longrightarrow> wf_dir (d\<lparr>dir := (dir d)[0 := loaded_entry h (dir d ! 0)]\<rparr>)"
  using wf_dir_put [of d 0 "loaded_entry h"] wf_dirD(1) [of d]
  by (simp add: loaded_entry_def)

lemma wf_sync_result: "wf_agent a \<Longrightarrow> wf_agent (snd (sync_result f a))"
  using payload_length [of f]
  by (auto simp: sync_result_def wf_agent_def wf_dir_loaded split: option.splits)

lemma storage_sync_result:
  "\<exists>bs. length bs \<le> smbiosTableStorageSize \<and>
     smbiosTableStorage (snd (sync_result f a)) = table_image bs"
  using payload_length [of f]
  by (auto simp: sync_result_def split: option.splits intro: exI [of _ "[]"])

lemma sync_result_exact:
  assumes "wf_agent a"
  shows "sync_result f a =
    (if \<exists>v \<in> {(3, 0), (3, 2), (3, 3), (3, 5), (3, 6)}. announces (flash_image f) v
     then (True, a\<lparr>
       smbiosTableStorage := flash_image f,
       smbiosDir := (smbiosDir a)\<lparr>dir := (dir (smbiosDir a))[0 := (dir (smbiosDir a) ! 0)\<lparr>
         common := (common (dir (smbiosDir a) ! 0))\<lparr>
           dataVersion := the f ! 0,
           timestamp := word_of_nat (le32 (the f) 2),
           dsize := word_of_nat (le32 (the f) 6)\<rparr>,
         stage := mdr2Loaded, lock := mdr2DirUnlock\<rparr>]\<rparr>,
       timer := Some DeferSystemInfoUpdate\<rparr>)
     else (False, a\<lparr>smbiosTableStorage := flash_image f\<rparr>))"
proof (cases "payload f")
  case None
  then have "file_table f = []"
    by (auto simp: payload_fields file_table_def split: option.splits if_splits)
  then have zeros: "flash_image f = table_image []" by (simp add: table_image_file [symmetric])
  have blank: "\<not> first_at pat (table_image []) i" if "x \<in> set pat" "x \<noteq> 0" for pat i x
    using that by (metis append_Nil first_at_def in_set_dropD in_set_replicate in_set_takeD table_image_def)
  have "\<not> announces (flash_image f) v" for v
    using blank [of "0x5F" "[0x5F, 0x53, 0x4D, 0x5F]"] blank [of "0x5F" "[0x5F, 0x53, 0x4D, 0x33, 0x5F]"]
    by (simp add: zeros announces_def)
  then show ?thesis using None zeros by (simp add: sync_result_def)
next
  case (Some hb)
  then have "hb = (\<lparr>dirVer = the f ! 0, mdrType = the f ! 1, hdr_timestamp = word_of_nat (le32 (the f) 2),
      dataSize = word_of_nat (le32 (the f) 6)\<rparr>, file_table f)"
    by (auto simp: payload_fields split: option.splits if_splits)
  moreover have "supported_table (file_table f) \<longleftrightarrow>
      (\<exists>v \<in> {(3, 0), (3, 2), (3, 3), (3, 5), (3, 6)}. announces (flash_image f) v)"
    by (simp add: supported_table_def table_image_file checkSMBIOSVersion_announces)
  ultimately show ?thesis
    using Some by (simp add: sync_result_def loaded_entry_def table_image_file)
qed

lemma storage_sync_file:
  "smbiosTableStorage (snd (sync_result f a)) = flash_image f"
proof -
  have "payload f = None \<Longrightarrow> file_table f = []"
    "payload f = Some (h, bs) \<Longrightarrow> bs = file_table f" for h bs
    by (auto simp: payload_fields file_table_def split: option.splits if_splits)
  then show ?thesis
    by (auto simp: sync_result_def table_image_file [symmetric] split: option.split)
qed

lemma flash_image_cases:
  "\<exists>bs. length bs \<le> smbiosTableStorageSize \<and> flash_image f = table_image bs"
  using table_image_file [of f] length_file_table [of f] by (metis smbiosTableStorageSize_def)

lemma dirEntries_sync_result [simp]:
  "dirEntries (smbiosDir (snd (sync_result f a))) = dirEntries (smbiosDir a)"
  by (auto simp: sync_result_def split: option.splits)

subsection \<open>Directory updates\<close>

lemma copy_ids_dir:
  assumes "length (dir d) = 4" and "k + n \<le> 4"
  shows "\<exists>d'. copy_ids es k [0 ..< n] d = Some d' \<and> length (dir d') = 4
    \<and> dirEntries d' = dirEntries d \<and> dirVersion d' = dirVersion d
    \<and> (\<forall>i < 4. dir d' ! i = (if k \<le> i \<and> i < k + n
          then set_common (\<lambda>c. c\<lparr>dataInfo := take 16 (drop (16 * (i - k)) es)\<rparr>) (dir d ! i)
          else dir d ! i))"
  using assms
proof (induction n)
  case 0
  then show ?case by auto
next
  case (Suc n)
  have app: "copy_ids es k (xs @ [j]) d = Option.bind (copy_ids es k xs d) (put_id es k j)" for xs j
    by (induction xs arbitrary: d) (auto simp: Option.bind_assoc split: bind_split)
  obtain d' where d': "copy_ids es k [0 ..< n] d = Some d'" "length (dir d') = 4"
    "dirEntries d' = dirEntries d" "dirVersion d' = dirVersion d"
    "\<forall>i < 4. dir d' ! i = (if k \<le> i \<and> i < k + n
          then set_common (\<lambda>c. c\<lparr>dataInfo := take 16 (drop (16 * (i - k)) es)\<rparr>) (dir d ! i)
          else dir d ! i)"
    using Suc by auto
  have "copy_ids es k [0 ..< Suc n] d = put_id es k n d'"
    using app [of "[0 ..< n]" n] d'(1) by simp
  then show ?case
    using d'(2-) Suc.prems(2)
    by (auto simp: put_id_def sizeof_DataIdStruct_def nth_list_update)
qed

lemma copy_ids_overflow:
  assumes "length (dir d) = 4" and "k < 4" and "4 < k + n"
  shows "copy_ids es k [0 ..< n] d = None"
proof -
  have app: "copy_ids es k (xs @ ys) d = Option.bind (copy_ids es k xs d) (copy_ids es k ys)" for xs ys
    by (induction xs arbitrary: d) (auto simp: Option.bind_assoc split: bind_split)
  obtain d' where "copy_ids es k [0 ..< 4 - k] d = Some d'" "length (dir d') = 4"
    using copy_ids_dir [OF assms(1), of k "4 - k" es] assms(2) by auto
  moreover have "[0 ..< n] = [0 ..< 4 - k] @ (4 - k) # [Suc (4 - k) ..< n]"
    using assms(2,3) upt_add_eq_append [of 0 "4 - k" "n - (4 - k)"] upt_conv_Cons [of "4 - k" n]
    by simp
  ultimately show ?thesis
    using assms(2) by (simp add: app put_id_def dir_put_def)
qed

lemma sendDirectoryInformation_ok:
  assumes "wf_agent a" and "0 < n" and "length es = 16 * unat n"
    and "dv \<noteq> dirVersion (smbiosDir a)" and "unat k < 4" and "unat k + unat n \<le> 4"
  shows "\<exists>a'. sendDirectoryInformation a dv k n r es = Some (Inr (r = 0, a'))
    \<and> wf_agent a' \<and> smbiosTableStorage a' = smbiosTableStorage a
    \<and> dirEntries (smbiosDir a') = n
    \<and> dirVersion (smbiosDir a') = (if r = 0 then dv else dirVersion (smbiosDir a))
    \<and> (\<forall>i < 4. dataInfo (common (dir (smbiosDir a') ! i)) =
          (if unat k \<le> i \<and> i < unat k + unat n then take 16 (drop (16 * (i - unat k)) es)
           else dataInfo (common (dir (smbiosDir a) ! i))))"
proof -
  let ?d = "smbiosDir a"
  let ?d2 = "(if 0 < r then ?d else ?d\<lparr>dirVersion := dv\<rparr>)\<lparr>dirEntries := n\<rparr>"
  have r: "(0 < r) = (r \<noteq> 0)" by (simp add: word_neq_0_conv)
  have len: "length (dir ?d2) = 4" and dd: "dir ?d2 = dir ?d"
    using wf_agentD(1) [OF assms(1)] by auto
  from copy_ids_dir [OF len assms(6), of es] obtain d' where
    d': "copy_ids es (unat k) [0 ..< unat n] ?d2 = Some d'" "length (dir d') = 4"
    "dirEntries d' = dirEntries ?d2" "dirVersion d' = dirVersion ?d2"
    and di2: "\<forall>i < 4. dir d' ! i = (if unat k \<le> i \<and> i < unat k + unat n
          then set_common (\<lambda>c. c\<lparr>dataInfo := take 16 (drop (16 * (i - unat k)) es)\<rparr>) (dir ?d2 ! i)
          else dir ?d2 ! i)"
    by blast
  note di = di2 [unfolded dd]
  have chunk: "length (take 16 (drop (16 * (i - unat k)) es)) = 16" if "i < unat k + unat n" "unat k \<le> i" for i
    using that assms(3) by auto
  have "wf_dir d'"
    using d'(2) di chunk wf_agentD [OF assms(1)]
    by (auto simp: wf_dir_def dir_size_defs list_all_length set_common_def)
  moreover have "sendDirectoryInformation a dv k n r es =
      Some (Inr (r = 0, a\<lparr>smbiosDir := d'\<rparr>))"
    using d'(1) assms(2-5) r
    by (cases "r = 0") (auto simp: sendDirectoryInformation_def Let_def dir_size_defs word_less_1)
  ultimately show ?thesis
    using d'(3,4) di assms(1) r by (auto simp: wf_agent_def set_common_def)
qed

lemma sendDirectoryInformation_overflow:
  assumes "wf_agent a" and "0 < n" and "length es = 16 * unat n"
    and "dv \<noteq> dirVersion (smbiosDir a)" and "unat k < 4" and "4 < unat k + unat n"
  shows "sendDirectoryInformation a dv k n r es = None"
  using copy_ids_overflow [of _ "unat k" "unat n" es] wf_agentD(1) [OF assms(1)] assms(2-)
  by (auto simp: sendDirectoryInformation_def Let_def dir_size_defs word_less_1)

lemma sendDirectoryInformation_inv:
  assumes "wf_agent a" and "sendDirectoryInformation a dv k n r es = Some (Inr (b, a'))"
  shows "a' = a \<or> wf_agent a' \<and> 0 < n \<and> unat n \<le> 4 \<and> dirEntries (smbiosDir a') = n
    \<and> smbiosTableStorage a' = smbiosTableStorage a"
proof (cases "dv = dirVersion (smbiosDir a)")
  case True
  then show ?thesis using assms(2) by (auto simp: sendDirectoryInformation_def Let_def split: if_splits)
next
  case False
  then have pre: "0 < n" "length es = 16 * unat n" "unat k < 4"
    using assms(2)
    by (auto simp: sendDirectoryInformation_def Let_def dir_size_defs word_less_1 word_neq_0_conv
        split: if_splits)
  have "unat k + unat n \<le> 4"
    using sendDirectoryInformation_overflow [OF assms(1) pre(1,2) False pre(3), of r] assms(2)
    by (cases "4 < unat k + unat n") auto
  then show ?thesis
    using sendDirectoryInformation_ok [OF assms(1) pre(1,2) False pre(3), of r] assms(2) pre(1)
    by auto
qed

lemma sendDataInformation_spec:
  assumes "wf_agent a" and "unat i < 4"
  defines "c \<equiv> common (dir (smbiosDir a) ! unat i)"
  shows "sendDataInformation a i flag len ver ts = Some (Inr
    (dataSetSize c \<noteq> len \<or> ucast (dataVersion c) \<noteq> ver \<or> timestamp c \<noteq> ts,
     a\<lparr>smbiosDir := (smbiosDir a)\<lparr>dir := (dir (smbiosDir a))[unat i :=
       (dir (smbiosDir a) ! unat i)\<lparr>common := c\<lparr>dataSetSize := len, dataVersion := ucast ver,
                                              timestamp := ts\<rparr>\<rparr>]\<rparr>\<rparr>))"
proof -
  have u: "dataVersion c = ucast ver" if "ucast (dataVersion c) = ver"
    using that ucast_u8_u32 [of "dataVersion c"] by simp
  show ?thesis
    using wf_agentD(1) [OF assms(1)] assms(2) u
    by (auto simp: sendDataInformation_def Let_def maxDirEntries_def c_def
        intro!: arg_cong [of _ _ "\<lambda>e. a\<lparr>smbiosDir := (smbiosDir a)\<lparr>dir := (dir (smbiosDir a))[unat i := e]\<rparr>\<rparr>"])
qed

lemma wf_agent_sendData:
  assumes "wf_agent a" and "sendDataInformation a i flag len ver ts = Some (Inr (b, a'))"
  shows "wf_agent a' \<and> smbiosTableStorage a' = smbiosTableStorage a
    \<and> dirEntries (smbiosDir a') = dirEntries (smbiosDir a)"
proof -
  have i: "unat i < 4"
    using assms(2) by (auto simp: sendDataInformation_def maxDirEntries_def split: if_splits)
  let ?e = "dir (smbiosDir a) ! unat i"
  let ?f = "\<lambda>e. e\<lparr>common := (common ?e)\<lparr>dataSetSize := len, dataVersion := ucast ver, timestamp := ts\<rparr>\<rparr>"
  have wf: "wf_dir (smbiosDir a)" using assms(1) by (simp add: wf_agent_def)
  have put: "dir_put (unat i) ?f (smbiosDir a) =
      Some ((smbiosDir a)\<lparr>dir := (dir (smbiosDir a))[unat i := ?f ?e]\<rparr>)"
    using i wf_dirD(1) [OF wf] by simp
  have "wf_dir ((smbiosDir a)\<lparr>dir := (dir (smbiosDir a))[unat i := ?f ?e]\<rparr>)"
    by (rule wf_dir_put [OF wf put]) (simp_all add: wf_dirD(2) [OF wf i])
  moreover have "a' = a\<lparr>smbiosDir := (smbiosDir a)\<lparr>dir := (dir (smbiosDir a))[unat i := ?f ?e]\<rparr>\<rparr>"
    using assms(2) sendDataInformation_spec [OF assms(1) i, of flag len ver ts] by simp
  ultimately show ?thesis
    using assms(1) by (simp add: wf_agent_def)
qed

lemma wf_agent_syncCommon:
  assumes "wf_agent a" and "synchronizeDirectoryCommonData a i sz = Some (r, a')"
  shows "wf_agent a' \<and> smbiosTableStorage a' = smbiosTableStorage a
    \<and> dirEntries (smbiosDir a') = dirEntries (smbiosDir a)"
proof -
  obtain d where d: "dir_put (unat i) (set_common (\<lambda>c. c\<lparr>dsize := sz\<rparr>)) (smbiosDir a) = Some d"
    and a': "a' = a\<lparr>smbiosDir := d, timer := Some DeferAgentSynchronizeData\<rparr>"
    using assms(2) by (auto simp: synchronizeDirectoryCommonData_def split: bind_splits)
  have "wf_dir d"
    using assms(1) by (intro wf_dir_put [OF _ d]) (auto simp: wf_agent_def set_common_def)
  then show ?thesis
    using a' d assms(1) by (auto simp: wf_agent_def dir_put_Some_iff)
qed

subsection \<open>The agent as a state machine\<close>

text \<open>
  A state is the flash file and the agent. The file may be replaced at any time; a step of the
  agent is a D-Bus method call or the timer. Calls that throw leave the state alone.
\<close>

inductive agent_step :: "flash \<times> MDRV2 \<Rightarrow> flash \<times> MDRV2 \<Rightarrow> bool" where
  step_flash: "agent_step (f, a) (f', a)"
| step_sendDirectoryInformation:
    "sendDirectoryInformation a dv k n r es = Some (Inr (b, a')) \<Longrightarrow> agent_step (f, a) (f, a')"
| step_sendDataInformation:
    "sendDataInformation a i flag len ver ts = Some (Inr (b, a')) \<Longrightarrow> agent_step (f, a) (f, a')"
| step_directoryEntries:
    "directoryEntries f x a = (y, a') \<Longrightarrow> agent_step (f, a) (f, a')"
| step_agentSynchronizeData:
    "agentSynchronizeData f a = Some (b, a') \<Longrightarrow> agent_step (f, a) (f, a')"
| step_synchronizeDirectoryCommonData:
    "synchronizeDirectoryCommonData a i sz = Some (rs, a') \<Longrightarrow> agent_step (f, a) (f, a')"
| step_timer_info:
    "timer a = Some DeferSystemInfoUpdate \<Longrightarrow> agent_step (f, a) (f, a\<lparr>timer := None\<rparr>)"
| step_timer_sync:
    "timer a = Some DeferAgentSynchronizeData \<Longrightarrow>
     agentSynchronizeData f (a\<lparr>timer := None\<rparr>) = Some (b, a') \<Longrightarrow> agent_step (f, a) (f, a')"

inductive_cases agent_stepE: "agent_step s t"

text \<open>The indeterminate directory a constructor starts from still has the array sizes of the type.\<close>

definition raw_dir :: "Mdr2DirStruct \<Rightarrow> bool" where
  "raw_dir d \<longleftrightarrow> length (dir d) = maxDirEntries
     \<and> list_all (\<lambda>e. length (dataInfo (common e)) = sizeof_DataIdStruct) (dir d)"

definition agent_init :: "flash \<times> MDRV2 \<Rightarrow> bool" where
  "agent_init s \<longleftrightarrow> (\<exists>raw. raw_dir raw \<and> MDRV2_init raw (fst s) = Some (snd s))"

definition agent_inv :: "flash \<times> MDRV2 \<Rightarrow> bool" where
  "agent_inv s \<longleftrightarrow> wf_agent (snd s) \<and> entries_ok (snd s) \<and> 0 < dirEntries (smbiosDir (snd s))
     \<and> (\<exists>bs. length bs \<le> smbiosTableStorageSize \<and> smbiosTableStorage (snd s) = table_image bs)"

lemma MDRV2_init_defined:
  assumes "raw_dir raw"
  shows "\<exists>a0 a. MDRV2_init raw f = Some a \<and> a = snd (sync_result f a0) \<and> wf_agent a0
    \<and> dirEntries (smbiosDir a0) = 1
    \<and> dataInfo (common (dir (smbiosDir a0) ! 0)) = smbiosTableId"
proof -
  let ?f = "\<lambda>e. (set_common (\<lambda>c. c\<lparr>dataInfo := smbiosTableId\<rparr>) e)\<lparr>dataStorage := At 0\<rparr>"
  let ?d1 = "raw\<lparr>agentVersion := smbiosAgentVersion, dirVersion := smbiosDirVersion, dirEntries := 1,
      status := 1, remoteDirVersion := 0\<rparr>"
  let ?d2 = "?d1\<lparr>dir := (dir raw)[0 := ?f (dir raw ! 0)]\<rparr>"
  let ?a0 = "\<lparr>smbiosDir = ?d2, smbiosTableStorage = replicate smbiosTableStorageSize 0,
      timer = None, directoryEntries_prop = (if f = None then 0 else 1)\<rparr>"
  have len: "length (dir raw) = 4"
    using assms by (simp add: raw_dir_def maxDirEntries_def)
  have wf: "wf_agent ?a0"
    using assms len
    by (auto simp: raw_dir_def wf_agent_def wf_dir_def dir_size_defs list_all_length nth_list_update
        set_common_def smbiosTableId_def)
  have "MDRV2_init raw f = Some (snd (sync_result f ?a0))"
    using len agentSynchronizeData_result [OF wf, of f]
    by (cases f) (simp_all add: MDRV2_init_def directoryEntries_def smbiosDirIndex_def)
  moreover have "dataInfo (common (dir (smbiosDir ?a0) ! 0)) = smbiosTableId"
    using len by (simp add: set_common_def)
  ultimately show ?thesis using wf by force
qed

lemma agent_init_inv: "agent_init s \<Longrightarrow> agent_inv s"
proof -
  assume "agent_init s"
  then obtain raw where raw: "raw_dir raw" "MDRV2_init raw (fst s) = Some (snd s)"
    by (auto simp: agent_init_def)
  then obtain a0 where "snd s = snd (sync_result (fst s) a0)" "wf_agent a0"
    "dirEntries (smbiosDir a0) = 1"
    using MDRV2_init_defined [OF raw(1), of "fst s"] by auto
  then show ?thesis
    using storage_sync_result [of "fst s" a0] wf_sync_result [of a0 "fst s"]
    by (simp add: agent_inv_def entries_ok_def maxDirEntries_def)
qed

lemma agent_inv_sync:
  assumes "agent_inv (f, a)"
  shows "agent_inv (f, snd (sync_result f (a\<lparr>timer := t\<rparr>)))"
proof -
  have "wf_agent (a\<lparr>timer := t\<rparr>)" using assms by (simp add: agent_inv_def wf_agent_def)
  then show ?thesis
    using assms wf_sync_result [of "a\<lparr>timer := t\<rparr>" f] storage_sync_result [of f "a\<lparr>timer := t\<rparr>"]
    by (auto simp: agent_inv_def entries_ok_def)
qed

lemma agent_step_inv:
  assumes "agent_inv s" and "agent_step s t"
  shows "agent_inv t"
  using assms(2)
proof (cases rule: agent_step.cases)
  case (step_sendDirectoryInformation a dv k n r es b a' f)
  then show ?thesis
    using assms(1) sendDirectoryInformation_inv [of a dv k n r es b a']
    by (auto simp: agent_inv_def entries_ok_def maxDirEntries_def)
next
  case (step_sendDataInformation a i flag len ver ts b a' f)
  then show ?thesis
    using assms(1) wf_agent_sendData [of a i flag len ver ts b a']
    by (auto simp: agent_inv_def entries_ok_def)
next
  case (step_synchronizeDirectoryCommonData a i sz rs a' f)
  then show ?thesis
    using assms(1) wf_agent_syncCommon [of a i sz rs a']
    by (auto simp: agent_inv_def entries_ok_def)
next
  case (step_agentSynchronizeData f a b a')
  moreover have "wf_agent a"
    using assms(1) step_agentSynchronizeData(1) by (simp add: agent_inv_def)
  then have "a' = snd (sync_result f a)"
    using agentSynchronizeData_result [of a f] step_agentSynchronizeData(3) by (metis option.inject snd_conv)
  ultimately show ?thesis
    using assms(1) agent_inv_sync [of f a "timer a"] by simp
next
  case (step_timer_sync a f b a')
  moreover have "wf_agent (a\<lparr>timer := None\<rparr>)"
    using assms(1) step_timer_sync(1) by (simp add: agent_inv_def wf_agent_def)
  then have "a' = snd (sync_result f (a\<lparr>timer := None\<rparr>))"
    using agentSynchronizeData_result [of "a\<lparr>timer := None\<rparr>" f] step_timer_sync(4)
    by (metis option.inject snd_conv)
  ultimately show ?thesis
    using assms(1) agent_inv_sync [of f a None] by simp
qed (use assms(1) in \<open>auto simp: agent_inv_def entries_ok_def wf_agent_def directoryEntries_def Let_def\<close>)

text \<open>
  The storage remembers the file: when only files of a set are ever in the flash, the storage is
  the image of one of them.
\<close>

definition agent_files_inv :: "flash set \<Rightarrow> flash \<times> MDRV2 \<Rightarrow> bool" where
  "agent_files_inv Fs s \<longleftrightarrow> agent_inv s \<and> fst s \<in> Fs
     \<and> (\<exists>g \<in> Fs. smbiosTableStorage (snd s) = flash_image g)"

lemma agent_init_storage: "agent_init s \<Longrightarrow> smbiosTableStorage (snd s) = flash_image (fst s)"
  by (metis MDRV2_init_defined agent_init_def option.inject storage_sync_file)

lemma agent_step_storage:
  assumes "wf_agent (snd s)" and "agent_step s t"
  shows "smbiosTableStorage (snd t) = smbiosTableStorage (snd s)
    \<or> smbiosTableStorage (snd t) = flash_image (fst s)"
  using assms(2)
proof (cases rule: agent_step.cases)
  case (step_sendDirectoryInformation a dv k n r es b a' f)
  then show ?thesis
    using assms(1) sendDirectoryInformation_inv [of a dv k n r es b a'] by auto
next
  case (step_sendDataInformation a i flag len ver ts b a' f)
  then show ?thesis
    using assms(1) wf_agent_sendData [of a i flag len ver ts b a'] by auto
next
  case (step_synchronizeDirectoryCommonData a i sz rs a' f)
  then show ?thesis
    using assms(1) wf_agent_syncCommon [of a i sz rs a'] by auto
next
  case (step_agentSynchronizeData f a b a')
  then show ?thesis
    using assms(1) agentSynchronizeData_result [of a f] storage_sync_file [of f a]
    by (metis fst_conv option.inject snd_conv)
next
  case (step_timer_sync a f b a')
  then show ?thesis
    using assms(1) agentSynchronizeData_result [of "a\<lparr>timer := None\<rparr>" f]
      storage_sync_file [of f "a\<lparr>timer := None\<rparr>"]
    by (simp add: wf_agent_def) (metis snd_conv)
qed (auto simp: directoryEntries_def Let_def)

interpretation agent_files: machine_invariant
  "\<lambda>s. agent_init s \<and> fst s \<in> Fs" "\<lambda>s t. agent_step s t \<and> fst t \<in> Fs" "agent_files_inv Fs" for Fs
proof unfold_locales
  show "agent_files_inv Fs s" if "agent_init s \<and> fst s \<in> Fs" for s
    using that agent_init_inv agent_init_storage by (auto simp: agent_files_inv_def)
  show "agent_files_inv Fs t" if "agent_files_inv Fs s" "agent_step s t \<and> fst t \<in> Fs" for s t
    using that agent_step_inv [of s t] agent_step_storage [of s t]
    unfolding agent_files_inv_def agent_inv_def by metis
qed

subsection \<open>An agent for the examples\<close>

definition blank_entry :: Mdr2DirLocalStruct where
  "blank_entry = \<lparr>common = \<lparr>dataInfo = replicate 16 0, dsize = 0, dataSetSize = 0, dataVersion = 0,
     timestamp = 0\<rparr>, stage = mdr2Init, lock = mdr2DirUnlock, lockHandle = 0, xferBuff = 0,
     xferSize = 0, maxDataSize = 0, dataStorage = At 0\<rparr>"

definition example_agent :: MDRV2 where
  "example_agent = \<lparr>smbiosDir = \<lparr>agentVersion = 1, dirVersion = 1, dirEntries = 1, status = 1,
     remoteDirVersion = 0, sessionHandle = 0, dir = replicate 4 blank_entry\<rparr>,
     smbiosTableStorage = table_image [], timer = None, directoryEntries_prop = 1\<rparr>"

lemma example_agent_wf: "wf_agent example_agent"
  by (simp add: example_agent_def blank_entry_def wf_agent_def wf_dir_def dir_size_defs
      list_all_iff)

lemma raw_dir_blank: "raw_dir (smbiosDir example_agent)"
  by (simp add: example_agent_def blank_entry_def raw_dir_def dir_size_defs list_all_iff)

definition example_data :: "u8 list" where
  "example_data = [0x5F, 0x53, 0x4D, 0x5F, 0, 31, 3, 0] @ replicate 23 0"

definition example_file :: "u8 list" where
  "example_file = [1, 2, 5, 0, 0, 0, 31, 0, 0, 0] @ example_data"

subsection \<open>Properties\<close>

text \<open>
  C9. The exact effect of a synchronisation on a well-formed agent. The storage becomes the image of the
  flash file: its table and zero bytes up to 64 KiB, and only zero bytes for a file that is missing,
  is shorter than the header or announces more than 64 KiB. It succeeds if and
  only if that storage announces one of the versions 3.0, 3.2, 3.3, 3.5 and 3.6. Then the first
  directory entry takes its version, time and size from the file header and is loaded and
  unlocked, everything else of the directory stays, and the inventory update is scheduled;
  otherwise nothing but the storage changes.
\<close>

theorem agentSynchronizeData_correct:
  assumes "wf_agent a"
  shows "agentSynchronizeData f a = Some
    (if \<exists>v \<in> {(3, 0), (3, 2), (3, 3), (3, 5), (3, 6)}. announces (flash_image f) v
     then (True, a\<lparr>
       smbiosTableStorage := flash_image f,
       smbiosDir := (smbiosDir a)\<lparr>dir := (dir (smbiosDir a))[0 := (dir (smbiosDir a) ! 0)\<lparr>
         common := (common (dir (smbiosDir a) ! 0))\<lparr>
           dataVersion := the f ! 0,
           timestamp := word_of_nat (le32 (the f) 2),
           dsize := word_of_nat (le32 (the f) 6)\<rparr>,
         stage := mdr2Loaded, lock := mdr2DirUnlock\<rparr>]\<rparr>,
       timer := Some DeferSystemInfoUpdate\<rparr>)
     else (False, a\<lparr>smbiosTableStorage := flash_image f\<rparr>))"
  using agentSynchronizeData_result [OF assms, of f] sync_result_exact [OF assms, of f] by simp

lemma example_announces: "announces (flash_image (Some example_file)) (3, 0)"
proof -
  have "flash_image (Some example_file) = example_data @ replicate (65536 - 31) 0"
    by (simp add: flash_image_def file_table_def le32_def example_file_def example_data_def)
  moreover have "first_at [0x5F, 0x53, 0x4D, 0x5F] (example_data @ xs) 0" for xs
    by (simp add: first_at_def example_data_def)
  ultimately show ?thesis
    by (force simp: announces_def example_data_def)
qed

theorem agentSynchronizeData_correct_witness:
  "agentSynchronizeData (Some example_file) example_agent = Some (True, example_agent\<lparr>
     smbiosTableStorage := flash_image (Some example_file),
     smbiosDir := (smbiosDir example_agent)\<lparr>dir := (replicate 4 blank_entry)[0 := blank_entry\<lparr>
       common := (common blank_entry)\<lparr>dataVersion := 1, timestamp := 5, dsize := 31\<rparr>,
       stage := mdr2Loaded, lock := mdr2DirUnlock\<rparr>]\<rparr>,
     timer := Some DeferSystemInfoUpdate\<rparr>)"
proof -
  have "\<exists>v \<in> {(3, 0), (3, 2), (3, 3), (3, 5), (3, 6)}. announces (flash_image (Some example_file)) v"
    using example_announces by blast
  moreover have "example_file ! 0 = 1" "le32 example_file 2 = 5" "le32 example_file 6 = 31"
    by (simp_all add: example_file_def le32_def)
  moreover have "dir (smbiosDir example_agent) = replicate 4 blank_entry"
    by (simp add: example_agent_def)
  ultimately show ?thesis
    using agentSynchronizeData_correct [OF example_agent_wf, of "Some example_file"] by simp
qed

text \<open>
  C10. Every state of the agent that the constructor, the D-Bus methods, the timer and changes of
  the file can reach by calls that stay within the directory array (the others have no next state)
  is well formed: the directory has its four entries with 16-byte identifiers,
  between one and four of them are in use, and the storage is the image of one
  of the files that were in the flash: the table of that file and zero bytes up to 64 KiB, with
  nothing left of any other. The set of the files that may be in the flash is arbitrary.
\<close>

theorem agent_reachable_invariant:
  assumes "reachable (\<lambda>s. agent_init s \<and> fst s \<in> Fs) (\<lambda>s t. agent_step s t \<and> fst t \<in> Fs) (f, a)"
  shows "wf_agent a \<and> 1 \<le> unat (dirEntries (smbiosDir a)) \<and> unat (dirEntries (smbiosDir a)) \<le> 4
    \<and> (\<exists>g \<in> Fs. smbiosTableStorage a = flash_image g)"
proof -
  have "agent_files_inv Fs (f, a)" by (rule agent_files.reachable_inv [OF assms])
  then show ?thesis
    by (auto simp: agent_files_inv_def agent_inv_def entries_ok_def maxDirEntries_def Suc_le_eq
        unat_gt_0 word_neq_0_conv)
qed

lemma example_reachable:
  "\<exists>a. reachable (\<lambda>s. agent_init s \<and> fst s \<in> {None, Some example_file})
     (\<lambda>s t. agent_step s t \<and> fst t \<in> {None, Some example_file}) (Some example_file, a)"
proof -
  obtain a where "MDRV2_init (smbiosDir example_agent) None = Some a"
    using MDRV2_init_defined [OF raw_dir_blank, of None] by blast
  then have "agent_init (None, a)" using raw_dir_blank by (auto simp: agent_init_def)
  then have "reachable (\<lambda>s. agent_init s \<and> fst s \<in> {None, Some example_file})
     (\<lambda>s t. agent_step s t \<and> fst t \<in> {None, Some example_file}) (None, a)"
    by (intro reach_init) simp
  from reach_step [OF this, of "(Some example_file, a)"] show ?thesis
    using step_flash [of None a "Some example_file"] by auto
qed

theorem agent_reachable_invariant_witness:
  "\<exists>a. reachable (\<lambda>s. agent_init s \<and> fst s \<in> {None, Some example_file})
     (\<lambda>s t. agent_step s t \<and> fst t \<in> {None, Some example_file}) (Some example_file, a)
    \<and> wf_agent a \<and> smbiosTableStorage a \<in> {flash_image None, flash_image (Some example_file)}"
  using example_reachable agent_reachable_invariant by fast
text \<open>
  In every state of the invariant the methods that read the directory and the synchronisation are
  defined for all arguments: they return or throw, and never index outside of the directory.
\<close>

lemma agent_readers_defined:
  assumes "agent_inv (f, a)"
  shows "getDirectoryInformation f a i \<noteq> None \<and> getDataOffer a \<noteq> None \<and> getDataInformation a i \<noteq> None
    \<and> findIdIndex a info \<noteq> None \<and> sendDataInformation a i flag len ver ts \<noteq> None
    \<and> agentSynchronizeData f a \<noteq> None"
proof -
  from assms have wf: "wf_agent a" and ok: "entries_ok a" by (simp_all add: agent_inv_def)
  note d = wf_agentD [OF wf]
  have "getDirectoryInformation f a i \<noteq> None"
  proof (cases "f = None \<or> dirEntries (smbiosDir a) < i")
    case True
    then show ?thesis by (auto simp: getDirectoryInformation_def Let_def)
  next
    case False
    then obtain x where "f = Some x" by auto
    then show ?thesis using False getDirectoryInformation_ok [OF wf ok, of i x] by (simp add: not_less)
  qed
  moreover have "getDataInformation a i \<noteq> None"
    using getDataInformation_ok [OF wf, of i]
    by (cases "unat i < 4") (auto simp: getDataInformation_def maxDirEntries_def)
  moreover have "findIdIndex a info \<noteq> None"
    using find_loop_spec [of info "smbiosDir a" 0] d(1,2) ok
    by (auto simp: findIdIndex_def entries_ok_def dir_size_defs)
  moreover have "sendDataInformation a i flag len ver ts \<noteq> None"
    using sendDataInformation_spec [OF wf, of i flag len ver ts]
    by (cases "unat i < 4") (auto simp: sendDataInformation_def maxDirEntries_def)
  ultimately show ?thesis
    using getDataOffer_spec [OF wf] agentSynchronizeData_result [OF wf] by simp
qed

text \<open>The methods that change the directory leave the storage and the timer alone.\<close>

lemma agent_calls_frame:
  "sendDirectoryInformation a dv k n r es = Some (Inr (b, a')) \<Longrightarrow>
    timer a' = timer a \<and> smbiosTableStorage a' = smbiosTableStorage a"
  "sendDataInformation a i flag len ver ts = Some (Inr (b, a')) \<Longrightarrow>
    timer a' = timer a \<and> smbiosTableStorage a' = smbiosTableStorage a"
  by (auto simp: sendDirectoryInformation_def sendDataInformation_def Let_def bind_eq_Some_conv split: if_splits)

lemma sendDirectoryInformation_defined:
  assumes "wf_agent a" and "unat k + unat n \<le> 4"
  shows "sendDirectoryInformation a dv k n r es \<noteq> None"
proof (cases "0 < n \<and> length es = 16 * unat n \<and> dv \<noteq> dirVersion (smbiosDir a) \<and> unat k < 4")
  case True
  then show ?thesis using sendDirectoryInformation_ok [OF assms(1) _ _ _ _ assms(2)] by fastforce
next
  case False
  then show ?thesis
    by (auto simp: sendDirectoryInformation_def Let_def dir_size_defs word_less_1 word_neq_0_conv)
qed

text \<open>
  After a successful synchronisation the agent offers its data, and the information it gives
  about the first entry is the format version, the identifier, the flag valid, the size of the
  file header in big-endian order, the version of the header and its time in big-endian order.
\<close>

theorem sync_then_getDataInformation:
  assumes "wf_agent a" and "payload f = Some (h, bs)"
    and "agentSynchronizeData f a = Some (True, a')"
  shows "getDataOffer a' = Some (Inr (dataInfo (common (dir (smbiosDir a) ! 0))))
    \<and> getDataInformation a' 0 = Some (Inr ([2] @ dataInfo (common (dir (smbiosDir a) ! 0)) @ [1]
        @ rev (word_bytes 4 (dataSize h)) @ [dirVer h] @ rev (word_bytes 4 (hdr_timestamp h))))"
proof -
  have res: "(True, a') = sync_result f a"
    using agentSynchronizeData_result [OF assms(1), of f] assms(3) by simp
  then have sup: "supported_table bs" using assms(2) by (auto simp: sync_result_def split: if_splits)
  have wf: "wf_agent a'" using wf_sync_result [OF assms(1), of f] res [symmetric] by simp
  have e: "dir (smbiosDir a') ! 0 = loaded_entry h (dir (smbiosDir a) ! 0)"
    using res sup assms(2) wf_agentD(1) [OF assms(1)] by (simp add: sync_result_def)
  show ?thesis
    using getDataOffer_spec [OF wf] getDataInformation_ok [OF wf, of 0] e
    by (simp add: loaded_entry_def Let_def valid_flag_def)
qed

theorem sync_then_getDataInformation_witness:
  "\<exists>a'. agentSynchronizeData (Some example_file) example_agent = Some (True, a')
    \<and> getDataOffer a' = Some (Inr (replicate 16 0))"
proof -
  have len: "length example_data = 31" and nil: "10 \<le> length example_file"
    and hdr: "take 10 example_file = [1, 2, 5, 0, 0, 0, 31, 0, 0, 0]"
    and body: "drop 10 example_file = example_data"
    by (simp_all add: example_file_def example_data_def)
  have "decode_header [1, 2, 5, 0, 0, 0, 31, 0, 0, 0] =
      \<lparr>dirVer = 1, mdrType = 2, hdr_timestamp = 5, dataSize = 31\<rparr>"
    by (simp add: decode_header_def le_word_def)
  then have pl: "payload (Some example_file) = Some
      (\<lparr>dirVer = 1, mdrType = 2, hdr_timestamp = 5, dataSize = 31\<rparr>, example_data)"
    using len nil hdr body by (simp add: payload_def smbiosTableStorageSize_def)
  moreover have "supported_table example_data"
    by (rule supported_anchor21)
       (simp_all add: len, simp_all add: example_data_def anchorString21_def smbiosTableStorageSize_def
         supportedSMBIOSVersions_def)
  ultimately obtain a' where a': "agentSynchronizeData (Some example_file) example_agent = Some (True, a')"
    using agentSynchronizeData_result [OF example_agent_wf, of "Some example_file"]
    by (simp add: sync_result_def)
  have "dataInfo (common (dir (smbiosDir example_agent) ! 0)) = replicate 16 0"
    by (simp add: example_agent_def blank_entry_def)
  then show ?thesis
    using sync_then_getDataInformation [OF example_agent_wf pl a'] a' by simp
qed

text \<open>
  C36. A directory that is sent completely and fits the four entries is what the agent then
  reports: the directory information has the new version, the number of entries, nothing
  remaining, and exactly the identifiers that were sent.
\<close>

theorem directory_round_trip:
  assumes "wf_agent a" and "0 < n" and "unat n \<le> 4" and "length es = 16 * unat n"
    and "dv \<noteq> dirVersion (smbiosDir a)"
  shows "\<exists>a'. sendDirectoryInformation a dv 0 n 0 es = Some (Inr (True, a'))
    \<and> getDirectoryInformation (Some f) a' 0 = Some (Inr ([2, dv, n, 0] @ es))"
proof -
  obtain a' where a': "sendDirectoryInformation a dv 0 n 0 es = Some (Inr (True, a'))" "wf_agent a'"
    "dirEntries (smbiosDir a') = n" "dirVersion (smbiosDir a') = dv"
    and ids: "\<forall>i < 4. dataInfo (common (dir (smbiosDir a') ! i)) =
        (if i < unat n then take 16 (drop (16 * i) es) else dataInfo (common (dir (smbiosDir a) ! i)))"
    using sendDirectoryInformation_ok [OF assms(1,2,4,5), of 0 0] assms(3) by auto
  have ok: "entries_ok a'" using a'(3) assms(3) by (simp add: entries_ok_def maxDirEntries_def)
  have len: "length (dir (smbiosDir a')) = 4" using wf_agentD(1) [OF a'(2)] .
  have chunks: "concat (map (\<lambda>i. take 16 (drop (16 * i) es)) [0 ..< k]) = take (16 * k) es" for k
    by (induction k) (simp_all add: take_add [of "16 * k" 16 for k, symmetric] add.commute)
  have "map (\<lambda>e. dataInfo (common e)) (take (unat n) (dir (smbiosDir a'))) =
      map (\<lambda>i. take 16 (drop (16 * i) es)) [0 ..< unat n]"
    using ids assms(3) len by (intro nth_equalityI) simp_all
  then have "concat (map (\<lambda>e. dataInfo (common e)) (take (unat n) (dir (smbiosDir a')))) = es"
    using chunks [of "unat n"] assms(4) by simp
  then show ?thesis
    using a' getDirectoryInformation_ok [OF a'(2) ok, of 0 f] by simp
qed

theorem directory_round_trip_witness:
  "\<exists>a'. sendDirectoryInformation example_agent 7 0 2 0 (replicate 16 1 @ replicate 16 2) =
       Some (Inr (True, a'))
    \<and> getDirectoryInformation (Some []) a' 0 =
       Some (Inr ([2, 7, 2, 0] @ replicate 16 1 @ replicate 16 2))"
  using directory_round_trip [OF example_agent_wf, of 2 "replicate 16 1 @ replicate 16 2" 7 "[]"]
  by (simp add: example_agent_def)

text \<open>
  C39. Nothing bounds the number of entries a directory update may carry: an update that starts
  at a valid index but runs past the fourth entry writes outside of the directory array.
\<close>

theorem sendDirectoryInformation_out_of_bounds:
  assumes "wf_agent a" and "0 < n" and "length es = 16 * unat n"
    and "dv \<noteq> dirVersion (smbiosDir a)" and "unat k < 4" and "4 < unat k + unat n"
  shows "sendDirectoryInformation a dv k n r es = None"
  by (rule sendDirectoryInformation_overflow [OF assms])

theorem sendDirectoryInformation_out_of_bounds_witness:
  "sendDirectoryInformation example_agent 7 3 2 0 (replicate 32 1) = None"
  using sendDirectoryInformation_out_of_bounds [OF example_agent_wf, of 2 "replicate 32 1" 7 3 0]
  by (simp add: example_agent_def)

text \<open>
  Sending the same data information twice: the second call reports no change exactly when
  the version fits the eight bits of the field; a larger version is truncated when it is stored and
  is reported as a change every time.
\<close>

theorem sendDataInformation_twice:
  assumes "wf_agent a" and "unat i < 4"
  shows "\<exists>b a'. sendDataInformation a i flag len ver ts = Some (Inr (b, a'))
    \<and> (\<exists>a''. sendDataInformation a' i flag len ver ts = Some (Inr (\<not> unat ver < 256, a'')))"
proof -
  obtain b a' where s1: "sendDataInformation a i flag len ver ts = Some (Inr (b, a'))"
    using sendDataInformation_spec [OF assms, of flag len ver ts] by blast
  have wf: "wf_agent a'" using wf_agent_sendData [OF assms(1) s1] by blast
  let ?c = "common (dir (smbiosDir a') ! unat i)"
  have c: "dataSetSize ?c = len" "dataVersion ?c = ucast ver" "timestamp ?c = ts"
    using s1 sendDataInformation_spec [OF assms, of flag len ver ts] wf_agentD(1) [OF assms(1)] assms(2)
    by auto
  have "ucast (ucast ver :: u8) = ver \<longleftrightarrow> unat ver < 256"
    by (simp add: word_unat_eq_iff unsigned_ucast_eq unsigned_take_bit_eq take_bit_nat_eq_self_iff)
  then show ?thesis
    using s1 sendDataInformation_spec [OF wf assms(2), of flag len ver ts] c by auto
qed

theorem sendDataInformation_twice_witness:
  "\<exists>b a'. sendDataInformation example_agent 0 0 5 300 9 = Some (Inr (b, a'))
    \<and> (\<exists>a''. sendDataInformation a' 0 0 5 300 9 = Some (Inr (True, a'')))"
  using sendDataInformation_twice [OF example_agent_wf, of 0 0 5 300 9] by simp

text \<open>
  \<open>findIdIndex\<close> returns the first directory entry with the identifier, and throws exactly
  when no entry in use has it or the identifier does not have 16 bytes.
\<close>

theorem findIdIndex_first:
  assumes "wf_agent a" and "entries_ok a"
  shows "case findIdIndex a info of
      Some (Inr k) \<Rightarrow> k < unat (dirEntries (smbiosDir a)) \<and> dataInfo (common (dir (smbiosDir a) ! k)) = info
        \<and> (\<forall>j < k. dataInfo (common (dir (smbiosDir a) ! j)) \<noteq> info)
    | Some (Inl e) \<Rightarrow> e = InvalidId \<and> (length info \<noteq> 16
        \<or> (\<forall>j < unat (dirEntries (smbiosDir a)). dataInfo (common (dir (smbiosDir a) ! j)) \<noteq> info))
    | None \<Rightarrow> False"
  using find_loop_spec [of info "smbiosDir a" 0] wf_agentD(1,2) [OF assms(1)] assms(2)
  by (auto simp: findIdIndex_def entries_ok_def dir_size_defs)

theorem findIdIndex_first_witness:
  "case findIdIndex example_agent (replicate 16 0) of
      Some (Inr k) \<Rightarrow> k < 1 | Some (Inl e) \<Rightarrow> e = InvalidId | None \<Rightarrow> False"
  using findIdIndex_first [OF example_agent_wf, of "replicate 16 0"]
  by (auto simp: example_agent_def entries_ok_def maxDirEntries_def split: option.splits sum.splits)

end
