(* ===== verification/Blob_Handler.thy ===== *)
theory Blob_Handler
  imports Mdrv2_Sync
begin

text \<open>
  The IPMI blob handler of \<open>src/smbios-ipmi-blobs/handler.cpp\<close>, through which the host uploads a
  new table: one open blob with a staging buffer of at most 64 KiB, whose commit writes the
  flash file and asks the agent to synchronise. The flag constants come from the blob framework
  and are a parameter; the outcome of the file system calls is an environment.
\<close>

subsection \<open>Flags, blob and environment\<close>

record blob_flags =
  of_read :: u16
  of_write :: u16
  sf_open_write :: u16
  sf_committing :: u16
  sf_committed :: u16
  sf_commit_error :: u16

text \<open>
  What the handler relies on: the four state flags are four different bits. Documented for the
  framework's \<open>StateFlags\<close>.
\<close>

definition distinct_flags :: "blob_flags \<Rightarrow> bool" where
  "distinct_flags F \<longleftrightarrow> (\<exists>i j k l. i < 16 \<and> j < 16 \<and> k < 16 \<and> l < 16 \<and> distinct [i, j, k, l]
     \<and> sf_open_write F = push_bit i 1 \<and> sf_committing F = push_bit j 1
     \<and> sf_committed F = push_bit k 1 \<and> sf_commit_error F = push_bit l 1)"

record SmbiosBlob =
  sessionId :: u16
  blobPath :: string
  state :: u16
  buffer :: "u8 list"

type_synonym handler = "SmbiosBlob option"

record BlobMeta =
  meta_size :: nat
  blobState :: u16

definition blobId :: string where "blobId = ''/smbios''"

definition maxBufferSize :: nat where "maxBufferSize = 64 * 1024"

definition mdrDirVersion :: u8 where "mdrDirVersion = 1"

definition mdrTypeII :: u8 where "mdrTypeII = 2"

text \<open>
  The environment of a commit: whether the directory exists or can be made, whether the file
  can be opened for writing, the number of bytes after which a write fails (if it does), and
  the time.
\<close>

record commit_env =
  dir_exists :: bool
  mkdir_ok :: bool
  open_ok :: bool
  write_fails_at :: "nat option"
  now :: u32

subsection \<open>The operations\<close>

definition SmbiosBlob_new :: "blob_flags \<Rightarrow> u16 \<Rightarrow> string \<Rightarrow> u16 \<Rightarrow> SmbiosBlob" where
  "SmbiosBlob_new F session path flags =
     \<lparr>sessionId = session, blobPath = path,
      state = (if flags AND of_write F \<noteq> 0 then 0 OR sf_open_write F else 0), buffer = []\<rparr>"

definition canHandleBlob :: "string \<Rightarrow> bool" where
  "canHandleBlob path \<longleftrightarrow> path = blobId"

definition getBlobIds :: "string list" where
  "getBlobIds = replicate 1 blobId"

definition deleteBlob :: "string \<Rightarrow> bool" where
  "deleteBlob path = False"

definition stat_path :: "handler \<Rightarrow> string \<Rightarrow> BlobMeta option" where
  "stat_path h path = (case h of
      None \<Rightarrow> None
    | Some b \<Rightarrow> if blobPath b \<noteq> path then None
               else Some \<lparr>meta_size = length (buffer b), blobState = state b\<rparr>)"

definition blob_open :: "blob_flags \<Rightarrow> u16 \<Rightarrow> u16 \<Rightarrow> string \<Rightarrow> handler \<Rightarrow> bool \<times> handler" where
  "blob_open F session flags path h =
     (if flags AND of_read F \<noteq> 0 then (False, h)
      else if h \<noteq> None then (False, h)
      else (True, Some (SmbiosBlob_new F session path flags)))"

definition blob_read :: "handler \<Rightarrow> u16 \<Rightarrow> u32 \<Rightarrow> u32 \<Rightarrow> u8 list" where
  "blob_read h session offset requestedSize = []"

text \<open>\<open>resize\<close> appends zero bytes; \<open>memcpy\<close> overwrites from the offset on.\<close>

definition resize :: "nat \<Rightarrow> u8 list \<Rightarrow> u8 list" where
  "resize n xs = take n xs @ replicate (n - length xs) 0"

definition blob_write :: "blob_flags \<Rightarrow> u16 \<Rightarrow> u32 \<Rightarrow> u8 list \<Rightarrow> handler \<Rightarrow> bool \<times> handler" where
  "blob_write F session offset data h = (case h of
      None \<Rightarrow> (False, h)
    | Some b \<Rightarrow>
        if sessionId b \<noteq> session then (False, h)
        else if state b AND sf_open_write F = 0 then (False, h)
        else if maxBufferSize \<le> unat offset then (False, h)
        else let remain = maxBufferSize - unat offset in
          if remain < length data then (False, h)
          else let newBufferSize = length data + unat offset;
                   buf = (if length (buffer b) < newBufferSize then resize newBufferSize (buffer b)
                          else buffer b)
               in (True, Some (b\<lparr>buffer := take (unat offset) buf @ data
                                    @ drop (unat offset + length data) buf\<rparr>)))"

definition writeMeta :: "u16 \<Rightarrow> u32 \<Rightarrow> u8 list \<Rightarrow> bool" where
  "writeMeta session offset data = False"

definition encode_header :: "MDRSMBIOSHeader \<Rightarrow> u8 list" where
  "encode_header h = [dirVer h, mdrType h] @ word_bytes 4 (hdr_timestamp h) @ word_bytes 4 (dataSize h)"

definition file_image :: "u32 \<Rightarrow> u8 list \<Rightarrow> u8 list" where
  "file_image t buf = encode_header
     \<lparr>dirVer = mdrDirVersion, mdrType = mdrTypeII, hdr_timestamp = t, dataSize = word_of_nat (length buf)\<rparr>
     @ buf"

text \<open>
  \<open>syncSmbiosData\<close> calls the agent over D-Bus. The call takes the file and the state of the
  service and answers with a status, or with nothing when it ends in an exception.
\<close>

type_synonym 's sync_call = "flash \<Rightarrow> 's \<Rightarrow> bool option \<times> 's"

definition syncSmbiosData :: "'s sync_call \<Rightarrow> flash \<Rightarrow> 's \<Rightarrow> bool \<times> 's" where
  "syncSmbiosData call f s =
     (case call f s of
        (None, s') \<Rightarrow> (False, s')
      | (Some ok, s') \<Rightarrow> if \<not> ok then (False, s') else (True, s'))"

definition set_flag :: "u16 \<Rightarrow> SmbiosBlob \<Rightarrow> SmbiosBlob" where
  "set_flag m b = b\<lparr>state := state b OR m\<rparr>"

definition clear_flag :: "u16 \<Rightarrow> SmbiosBlob \<Rightarrow> SmbiosBlob" where
  "clear_flag m b = b\<lparr>state := state b AND NOT m\<rparr>"

definition blob_commit ::
  "blob_flags \<Rightarrow> commit_env \<Rightarrow> 's sync_call \<Rightarrow> u16 \<Rightarrow> u8 list \<Rightarrow>
   handler \<times> flash \<times> 's \<Rightarrow> bool \<times> handler \<times> flash \<times> 's"
where
  "blob_commit F env call session data w = (case w of (h, f, s) \<Rightarrow>
     if data \<noteq> [] then (False, w)
     else (case h of
       None \<Rightarrow> (False, w)
     | Some b \<Rightarrow>
        if sessionId b \<noteq> session then (False, w)
        else if state b AND (sf_committing F OR sf_committed F) \<noteq> 0 then (True, w)
        else let b1 = clear_flag (sf_commit_error F) b;
                 bytes = file_image (now env) (buffer b)
             in if \<not> dir_exists env \<and> \<not> mkdir_ok env
                then (False, Some (set_flag (sf_commit_error F) b1), f, s)
                else if \<not> open_ok env
                then (False, Some (set_flag (sf_commit_error F) b1), f, s)
                else (case write_fails_at env of
                  Some n \<Rightarrow>
                    (False, Some (set_flag (sf_commit_error F) b1), Some (take n bytes), s)
                | None \<Rightarrow>
                    let b2 = set_flag (sf_committing F) b1 in
                    (case syncSmbiosData call (Some bytes) s of (synced, s') \<Rightarrow>
                       if \<not> synced
                       then (False, Some (set_flag (sf_commit_error F)
                                           (clear_flag (sf_committing F) b2)), Some bytes, s')
                       else (True, Some (set_flag (sf_committed F)
                                           (clear_flag (sf_committing F) b2)), Some bytes, s')))))"

definition blob_close :: "u16 \<Rightarrow> handler \<Rightarrow> bool \<times> handler" where
  "blob_close session h = (case h of
      None \<Rightarrow> (False, h)
    | Some b \<Rightarrow> if sessionId b \<noteq> session then (False, h) else (True, None))"

definition stat_session :: "handler \<Rightarrow> u16 \<Rightarrow> BlobMeta option" where
  "stat_session h session = (case h of
      None \<Rightarrow> None
    | Some b \<Rightarrow> if sessionId b \<noteq> session then None
               else Some \<lparr>meta_size = length (buffer b), blobState = state b\<rparr>)"

definition blob_expire :: "u16 \<Rightarrow> handler \<Rightarrow> bool \<times> handler" where
  "blob_expire session h = blob_close session h"

subsection \<open>The staging buffer\<close>

lemma length_resize [simp]: "length (resize n xs) = n"
  by (simp add: resize_def)

lemma nth_resize: "i < n \<Longrightarrow> resize n xs ! i = (if i < length xs then xs ! i else 0)"
  by (auto simp: resize_def nth_append)

text \<open>A write that is accepted: its conditions and its effect on the buffer.\<close>

definition write_accepted :: "blob_flags \<Rightarrow> SmbiosBlob \<Rightarrow> u16 \<Rightarrow> nat \<Rightarrow> nat \<Rightarrow> bool" where
  "write_accepted F b session off len \<longleftrightarrow> sessionId b = session \<and> state b AND sf_open_write F \<noteq> 0
     \<and> off < maxBufferSize \<and> off + len \<le> maxBufferSize"

definition staged :: "u8 list \<Rightarrow> nat \<Rightarrow> u8 list \<Rightarrow> u8 list" where
  "staged buf off data = map (\<lambda>i. if off \<le> i \<and> i < off + length data then data ! (i - off)
     else if i < length buf then buf ! i else 0) [0 ..< max (length buf) (off + length data)]"

lemma memcpy_staged:
  assumes "buf' = (if length buf < length data + off then resize (length data + off) buf else buf)"
  shows "take off buf' @ data @ drop (off + length data) buf' = staged buf off data"
proof (rule nth_equalityI)
  have len: "length buf' = max (length buf) (off + length data)"
    using assms by (simp add: max_def)
  then show "length (take off buf' @ data @ drop (off + length data) buf') = length (staged buf off data)"
    by (simp add: staged_def)
  fix i
  assume i: "i < length (take off buf' @ data @ drop (off + length data) buf')"
  have buf': "buf' ! j = (if j < length buf then buf ! j else 0)" if "j < length buf'" for j
    using that assms by (auto simp: nth_resize)
  have pad: "off + length data \<le> length buf'" using len by simp
  consider "i < off" | "off \<le> i" "i < off + length data" | "off + length data \<le> i" by linarith
  then show "(take off buf' @ data @ drop (off + length data) buf') ! i = staged buf off data ! i"
  proof cases
    case 1
    then show ?thesis
      using pad len buf' [of i] by (simp add: nth_append staged_def)
  next
    case 2
    then have "i - off < length data" by linarith
    then show ?thesis
      using 2 pad len by (simp add: nth_append staged_def)
  next
    case 3
    moreover have "i < length buf'" using i pad by simp
    ultimately show ?thesis
      using pad len buf' [of i] by (auto simp: nth_append staged_def)
  qed
qed

lemma blob_write_spec:
  "blob_write F session offset data h = (case h of
      None \<Rightarrow> (False, h)
    | Some b \<Rightarrow> if write_accepted F b session (unat offset) (length data)
               then (True, Some (b\<lparr>buffer := staged (buffer b) (unat offset) data\<rparr>))
               else (False, h))"
proof (cases h)
  case None
  then show ?thesis by (simp add: blob_write_def)
next
  case (Some b)
  have acc: "write_accepted F b session (unat offset) (length data) \<longleftrightarrow>
      sessionId b = session \<and> state b AND sf_open_write F \<noteq> 0 \<and> \<not> maxBufferSize \<le> unat offset
      \<and> \<not> maxBufferSize - unat offset < length data"
    by (auto simp: write_accepted_def)
  show ?thesis
    unfolding Some blob_write_def Let_def option.case acc memcpy_staged [OF refl] by auto
qed

lemma length_staged: "length (staged buf off data) = max (length buf) (off + length data)"
  by (simp add: staged_def)

lemma staged_append: "staged buf (length buf) data = buf @ data"
  by (intro nth_equalityI) (auto simp: staged_def nth_append)

text \<open>The host uploads a table in consecutive chunks.\<close>

fun upload :: "blob_flags \<Rightarrow> u16 \<Rightarrow> u8 list list \<Rightarrow> nat \<Rightarrow> handler \<Rightarrow> bool \<times> handler" where
  "upload F session [] off h = (True, h)"
| "upload F session (c # cs) off h =
     (case blob_write F session (word_of_nat off) c h of
        (ok, h') \<Rightarrow> if ok then upload F session cs (off + length c) h' else (False, h'))"

lemma upload_concat:
  assumes "sessionId b = session" and "state b AND sf_open_write F \<noteq> 0"
    and "list_all (\<lambda>c. c \<noteq> []) cs" and "length (buffer b) + length (concat cs) \<le> maxBufferSize"
  shows "upload F session cs (length (buffer b)) (Some b) =
    (True, Some (b\<lparr>buffer := buffer b @ concat cs\<rparr>))"
  using assms
proof (induction cs arbitrary: b)
  case Nil
  then show ?case by simp
next
  case (Cons c cs)
  let ?b = "b\<lparr>buffer := buffer b @ c\<rparr>"
  have off: "unat (word_of_nat (length (buffer b)) :: u32) = length (buffer b)"
    using Cons.prems(4) by (simp add: unat_of_nat maxBufferSize_def)
  have "0 < length c" using Cons.prems(3) by simp
  moreover have "length (buffer b) + (length c + length (concat cs)) \<le> maxBufferSize"
    using Cons.prems(4) by simp
  ultimately have "length (buffer b) < maxBufferSize" by linarith
  then have "write_accepted F b session (length (buffer b)) (length c)"
    using Cons.prems by (auto simp: write_accepted_def)
  then have "blob_write F session (word_of_nat (length (buffer b))) c (Some b) = (True, Some ?b)"
    by (simp add: blob_write_spec off staged_append)
  moreover have "upload F session cs (length (buffer ?b)) (Some ?b) =
      (True, Some (?b\<lparr>buffer := buffer ?b @ concat cs\<rparr>))"
    using Cons.prems by (intro Cons.IH) auto
  ultimately show ?case by simp
qed

subsection \<open>State flags\<close>

definition has_flag :: "SmbiosBlob \<Rightarrow> u16 \<Rightarrow> bool" where
  "has_flag b m \<longleftrightarrow> state b AND m \<noteq> 0"

lemma has_flag_or: "state b AND (m OR n) \<noteq> 0 \<longleftrightarrow> has_flag b m \<or> has_flag b n"
  by (simp add: has_flag_def bit.conj_disj_distrib or_eq_0_iff)

lemma has_flag_bit: "has_flag b (2 ^ i) \<longleftrightarrow> bit (state b) i"
  by (simp add: has_flag_def bit_iff_and_push_bit_not_eq_0)

lemma flag_bit_inj:
  assumes "i < 16" and "j < 16"
  shows "push_bit i 1 = (push_bit j 1 :: u16) \<longleftrightarrow> i = j"
proof
  assume "push_bit i 1 = (push_bit j 1 :: u16)"
  then have "bit (push_bit i 1 :: u16) j = bit (push_bit j 1 :: u16) j" by (simp only:)
  then show "i = j" using assms by (simp add: bit_exp_iff)
qed simp

lemma flag_updates:
  assumes "distinct_flags F"
    and "m \<in> {sf_open_write F, sf_committing F, sf_committed F, sf_commit_error F}"
    and "n \<in> {sf_open_write F, sf_committing F, sf_committed F, sf_commit_error F}"
  shows "has_flag (set_flag m b) n \<longleftrightarrow> m = n \<or> has_flag b n"
    and "has_flag (clear_flag m b) n \<longleftrightarrow> m \<noteq> n \<and> has_flag b n"
proof -
  obtain i j where m: "i < 16" "m = push_bit i 1" and n: "j < 16" "n = push_bit j 1"
    using assms unfolding distinct_flags_def by blast
  have eq: "m = n \<longleftrightarrow> i = j"
    using m n flag_bit_inj by simp
  show "has_flag (set_flag m b) n \<longleftrightarrow> m = n \<or> has_flag b n"
    unfolding eq using m n
    by (auto simp: set_flag_def has_flag_bit bit_or_iff bit_exp_iff)
  show "has_flag (clear_flag m b) n \<longleftrightarrow> m \<noteq> n \<and> has_flag b n"
    unfolding eq using m n
    by (auto simp: clear_flag_def has_flag_bit bit_and_iff bit_not_iff bit_exp_iff)
qed

lemma flags_distinct:
  assumes "distinct_flags F"
  shows "distinct [sf_open_write F, sf_committing F, sf_committed F, sf_commit_error F]"
proof -
  obtain i j k l where "i < 16" "j < 16" "k < 16" "l < 16" "distinct [i, j, k, l]"
    "sf_open_write F = push_bit i 1" "sf_committing F = push_bit j 1"
    "sf_committed F = push_bit k 1" "sf_commit_error F = push_bit l 1"
    using assms unfolding distinct_flags_def by blast
  then show ?thesis by (simp add: flag_bit_inj del: push_bit_of_1)
qed

lemma open_write_nonzero: "distinct_flags F \<Longrightarrow> sf_open_write F \<noteq> 0"
  unfolding distinct_flags_def by (auto simp: bit_eq_iff bit_exp_iff)

lemma buffer_flag [simp]:
  "buffer (set_flag m b) = buffer b" "buffer (clear_flag m b) = buffer b"
  "sessionId (set_flag m b) = sessionId b" "sessionId (clear_flag m b) = sessionId b"
  by (simp_all add: set_flag_def clear_flag_def)

subsection \<open>Commit\<close>

lemma decode_encode_header [simp]: "decode_header (encode_header h @ rest) = h"
proof -
  have "le_word (word_bytes 4 (w :: u32)) = w" for w
    by (rule le_word_bytes) simp
  then show ?thesis
    by (cases h) (simp add: decode_header_def encode_header_def)
qed

lemma length_encode_header [simp]: "length (encode_header h) = 10"
  by (simp add: encode_header_def)

lemma payload_file_image:
  assumes "length bs \<le> smbiosTableStorageSize"
  shows "payload (Some (file_image t bs)) =
    Some (\<lparr>dirVer = 1, mdrType = 2, hdr_timestamp = t, dataSize = word_of_nat (length bs)\<rparr>, bs)"
proof -
  have "unat (word_of_nat (length bs) :: u32) = length bs"
    using assms by (simp add: unat_of_nat smbiosTableStorageSize_def)
  then show ?thesis
    using assms decode_encode_header [of _ "[]"]
    by (simp add: payload_def file_image_def Let_def mdrDirVersion_def mdrTypeII_def)
qed

text \<open>The environment lets the file be written.\<close>

definition env_writable :: "commit_env \<Rightarrow> bool" where
  "env_writable env \<longleftrightarrow> (dir_exists env \<or> mkdir_ok env) \<and> open_ok env \<and> write_fails_at env = None"

lemma commit_written:
  assumes "env_writable env" and "sessionId b = session"
    and "\<not> has_flag b (sf_committing F)" and "\<not> has_flag b (sf_committed F)"
  shows "blob_commit F env call session [] (Some b, f, s) =
    (let b2 = set_flag (sf_committing F) (clear_flag (sf_commit_error F) b);
         bytes = file_image (now env) (buffer b)
     in case syncSmbiosData call (Some bytes) s of
          (True, s') \<Rightarrow> (True, Some (set_flag (sf_committed F) (clear_flag (sf_committing F) b2)),
                        Some bytes, s')
        | (False, s') \<Rightarrow> (False, Some (set_flag (sf_commit_error F) (clear_flag (sf_committing F) b2)),
                        Some bytes, s'))"
  using assms has_flag_or [of b "sf_committing F" "sf_committed F"]
  by (auto simp: blob_commit_def Let_def env_writable_def split: prod.splits bool.splits)

lemma commit_unwritten:
  assumes "\<not> env_writable env" and "sessionId b = session"
    and "\<not> has_flag b (sf_committing F)" and "\<not> has_flag b (sf_committed F)"
  shows "blob_commit F env call session [] (Some b, f, s) =
    (False, Some (set_flag (sf_commit_error F) (clear_flag (sf_commit_error F) b)),
     if \<not> ((dir_exists env \<or> mkdir_ok env) \<and> open_ok env) then f
     else Some (take (the (write_fails_at env)) (file_image (now env) (buffer b))), s)"
  using assms has_flag_or [of b "sf_committing F" "sf_committed F"]
  by (auto simp: blob_commit_def Let_def env_writable_def split: option.splits)

lemma clear_committing:
  assumes "\<not> has_flag b m"
  shows "clear_flag m (set_flag m (clear_flag n b)) = clear_flag n b"
proof -
  have "\<not> (bit (state b) i \<and> bit m i)" for i
    using assms bit_and_iff [of "state b" m i] by (simp add: has_flag_def)
  then have "((state b AND NOT n) OR m) AND NOT m = state b AND NOT n"
    by (intro bit_eqI) (auto simp: bit_simps)
  then show ?thesis by (simp add: clear_flag_def set_flag_def)
qed

lemma image_bytes:
  "file_image t buf = [1, 2] @ word_bytes 4 t @ word_bytes 4 (word_of_nat (length buf) :: u32) @ buf"
  by (simp add: file_image_def encode_header_def mdrDirVersion_def mdrTypeII_def)

lemma commit_again:
  assumes "sessionId b = session" and "has_flag b (sf_committing F) \<or> has_flag b (sf_committed F)"
  shows "blob_commit F env call session [] (Some b, w) = (True, Some b, w)"
  using assms has_flag_or [of b "sf_committing F" "sf_committed F"]
  by (cases w) (auto simp: blob_commit_def)

lemma commit_refused:
  assumes "data \<noteq> [] \<or> h = None \<or> sessionId (the h) \<noteq> session"
  shows "blob_commit F env call session data (h, w) = (False, h, w)"
  using assms by (cases w) (auto simp: blob_commit_def split: option.splits)

subsection \<open>The handler as a state machine\<close>

inductive blob_step ::
  "blob_flags \<Rightarrow> 's sync_call \<Rightarrow> handler \<times> flash \<times> 's \<Rightarrow> handler \<times> flash \<times> 's \<Rightarrow> bool"
  for F :: blob_flags and call :: "'s sync_call"
where
  step_open: "blob_open F session flags path h = (r, h') \<Longrightarrow> blob_step F call (h, w) (h', w)"
| step_write: "blob_write F session offset data h = (r, h') \<Longrightarrow> blob_step F call (h, w) (h', w)"
| step_commit: "blob_commit F env call session data x = (r, x') \<Longrightarrow> blob_step F call x x'"
| step_close: "blob_close session h = (r, h') \<Longrightarrow> blob_step F call (h, w) (h', w)"
| step_expire: "blob_expire session h = (r, h') \<Longrightarrow> blob_step F call (h, w) (h', w)"

text \<open>The entry point of the library gives the framework a handler without a blob.\<close>

definition createHandler :: handler where "createHandler = None"

definition blob_init :: "handler \<times> flash \<times> 's \<Rightarrow> bool" where
  "blob_init x \<longleftrightarrow> fst x = createHandler"

text \<open>
  Between calls a blob is never left in the committing state, is never both committed and in
  error, and its buffer fits the storage of the agent.
\<close>

definition wf_blob :: "blob_flags \<Rightarrow> SmbiosBlob \<Rightarrow> bool" where
  "wf_blob F b \<longleftrightarrow> length (buffer b) \<le> maxBufferSize \<and> \<not> has_flag b (sf_committing F)
     \<and> \<not> (has_flag b (sf_committed F) \<and> has_flag b (sf_commit_error F))"

definition blob_inv :: "blob_flags \<Rightarrow> handler \<times> flash \<times> 's \<Rightarrow> bool" where
  "blob_inv F x \<longleftrightarrow> distinct_flags F \<longrightarrow> pred_option (wf_blob F) (fst x)"

lemma wf_blob_new:
  assumes "distinct_flags F"
  shows "wf_blob F (SmbiosBlob_new F session path flags)"
proof -
  let ?b0 = "\<lparr>sessionId = session, blobPath = path, state = 0, buffer = []\<rparr>"
  have "SmbiosBlob_new F session path flags =
      (if flags AND of_write F \<noteq> 0 then set_flag (sf_open_write F) ?b0 else ?b0)"
    by (simp add: SmbiosBlob_new_def set_flag_def)
  moreover have "\<not> has_flag ?b0 m" for m by (simp add: has_flag_def)
  ultimately show ?thesis
    using flags_distinct [OF assms] by (auto simp: wf_blob_def flag_updates [OF assms])
qed

lemma wf_blob_write:
  assumes "wf_blob F b" and "write_accepted F b session off (length data)"
  shows "wf_blob F (b\<lparr>buffer := staged (buffer b) off data\<rparr>)"
  using assms by (simp add: wf_blob_def write_accepted_def length_staged has_flag_def)

lemma wf_blob_commit:
  assumes "distinct_flags F" and "wf_blob F b"
    and "blob_commit F env call session data (Some b, f, s) = (r, h', f', s')"
  shows "pred_option (wf_blob F) h'"
proof (cases "data = [] \<and> sessionId b = session \<and> \<not> has_flag b (sf_committed F)")
  case False
  then have "h' = Some b"
    using assms(3) commit_refused [of data "Some b" session F env call "(f, s)"]
      commit_again [of b session F env call "(f, s)"]
    by (cases "data = [] \<and> sessionId b = session") auto
  then show ?thesis using assms(2) by simp
next
  case True
  have nc: "\<not> has_flag b (sf_committing F)" using assms(2) by (simp add: wf_blob_def)
  note upd = flag_updates [OF assms(1)] and dist = flags_distinct [OF assms(1)]
  show ?thesis
  proof (cases "env_writable env")
    case w: True
    show ?thesis
      using commit_written [OF w, of b session F call f s] True nc assms(2,3) dist
      by (auto simp: Let_def wf_blob_def upd split: prod.splits bool.splits)
  next
    case w: False
    show ?thesis
      using commit_unwritten [OF w, of b session F call f s] True nc assms(2,3) dist
      by (auto simp: wf_blob_def upd)
  qed
qed

lemma blob_step_inv:
  assumes "blob_inv F x" and "blob_step F call x y"
  shows "blob_inv F y"
  using assms(2)
proof (cases rule: blob_step.cases)
  case (step_open session flags path h r h' w)
  then show ?thesis
    using assms(1) wf_blob_new [of F]
    by (auto simp: blob_inv_def blob_open_def split: if_splits)
next
  case (step_write session offset data h r h' w)
  then show ?thesis
    using assms(1) wf_blob_write [of F]
    by (auto simp: blob_inv_def blob_write_spec split: option.splits if_splits)
next
  case (step_commit env session data r)
  obtain h f s where x: "x = (h, f, s)" by (cases x)
  obtain h' f' s' where y: "y = (h', f', s')" by (cases y)
  show ?thesis
  proof (cases h)
    case None
    then show ?thesis
      using step_commit x y by (auto simp: blob_commit_def blob_inv_def split: if_splits)
  next
    case (Some b)
    then show ?thesis
      using assms(1) step_commit x y wf_blob_commit [of F b env call session data f s r h' f' s']
      by (auto simp: blob_inv_def)
  qed
qed (use assms(1) in \<open>auto simp: blob_inv_def blob_close_def blob_expire_def
      split: option.splits if_splits\<close>)

interpretation blob: machine_invariant blob_init "blob_step F call" "blob_inv F" for F call
proof unfold_locales
  show "blob_inv F x" if "blob_init x" for x :: "handler \<times> flash \<times> 'a"
    using that by (simp add: blob_inv_def blob_init_def createHandler_def)
qed (rule blob_step_inv)

subsection \<open>Properties of the handler\<close>

text \<open>
  C35. A write is accepted exactly when it comes from the session of an open writable blob and ends
  within 64 KiB. An accepted write puts the data at the offset, keeps the other bytes and fills
  a gap with zero bytes; a refused write changes nothing.
\<close>

theorem blob_write_bytes:
  "case blob_write F session offset data (Some b) of (ok, h) \<Rightarrow>
     ok = (sessionId b = session \<and> state b AND sf_open_write F \<noteq> 0
            \<and> unat offset < 65536 \<and> unat offset + length data \<le> 65536)
     \<and> (if ok then \<exists>buf. h = Some (b\<lparr>buffer := buf\<rparr>)
            \<and> length buf = max (length (buffer b)) (unat offset + length data)
            \<and> (\<forall>i < length buf. buf ! i =
                 (if unat offset \<le> i \<and> i < unat offset + length data then data ! (i - unat offset)
                  else if i < length (buffer b) then buffer b ! i else 0))
        else h = Some b)"
  by (auto simp: blob_write_spec write_accepted_def maxBufferSize_def length_staged staged_def)

text \<open>An instance of the framework's flags, and an open blob.\<close>

definition example_flags :: blob_flags where
  "example_flags = \<lparr>of_read = 1, of_write = 2, sf_open_write = 2, sf_committing = 4,
     sf_committed = 8, sf_commit_error = 16\<rparr>"

lemma example_flags_distinct: "distinct_flags example_flags"
  unfolding distinct_flags_def
  by (intro exI [of _ "1::nat"] exI [of _ "2::nat"] exI [of _ "3::nat"] exI [of _ "4::nat"])
     (simp add: example_flags_def)

definition example_blob :: SmbiosBlob where
  "example_blob = \<lparr>sessionId = 7, blobPath = ''/smbios'', state = 2, buffer = [9]\<rparr>"

definition example_env :: commit_env where
  "example_env = \<lparr>dir_exists = False, mkdir_ok = True, open_ok = True, write_fails_at = None, now = 5\<rparr>"

lemma example_blob_wf: "wf_blob example_flags example_blob"
  by (simp add: wf_blob_def example_blob_def example_flags_def has_flag_def maxBufferSize_def)

theorem blob_write_bytes_witness:
  "\<exists>buf. blob_write example_flags 7 3 [1, 2] (Some example_blob) =
     (True, Some (example_blob\<lparr>buffer := buf\<rparr>)) \<and> length buf = 5
     \<and> buf ! 0 = 9 \<and> buf ! 1 = 0 \<and> buf ! 2 = 0 \<and> buf ! 3 = 1 \<and> buf ! 4 = 2"
proof -
  obtain ok h where w: "blob_write example_flags 7 3 [1, 2] (Some example_blob) = (ok, h)"
    by fastforce
  note spec = blob_write_bytes [where F = example_flags and session = 7 and offset = 3
      and data = "[1, 2]" and b = example_blob]
  have ok: "ok" using spec w by (simp add: example_blob_def example_flags_def)
  then obtain buf where "h = Some (example_blob\<lparr>buffer := buf\<rparr>)" "length buf = 5"
    "\<forall>i < 5. buf ! i = (if 3 \<le> i \<and> i < 5 then [1, 2] ! (i - 3)
        else if i < length (buffer example_blob) then buffer example_blob ! i else 0)"
    using spec w by (auto simp: example_blob_def)
  then show ?thesis
    using w ok by (intro exI [of _ buf]) (simp add: example_blob_def)
qed

text \<open>
  A table that is written in consecutive non-empty chunks of at most 64 KiB in total ends up in
  the staging buffer of a freshly opened blob as the concatenation of the chunks.
\<close>

theorem chunked_upload_assembles:
  assumes "distinct_flags F" and "flags AND of_read F = 0" and "flags AND of_write F \<noteq> 0"
    and "list_all (\<lambda>c. c \<noteq> []) cs" and "length (concat cs) \<le> 65536"
  shows "\<exists>b h. blob_open F session flags path None = (True, Some b)
    \<and> upload F session cs 0 (Some b) = (True, Some h)
    \<and> stat_session (Some h) session =
        Some \<lparr>meta_size = length (concat cs), blobState = sf_open_write F\<rparr>
    \<and> buffer h = concat cs"
proof -
  let ?b = "SmbiosBlob_new F session path flags"
  have "sf_open_write F \<noteq> 0" by (rule open_write_nonzero [OF assms(1)])
  then have "upload F session cs 0 (Some ?b) = (True, Some (?b\<lparr>buffer := concat cs\<rparr>))"
    using upload_concat [of ?b session F cs] assms(3-5) by (simp add: SmbiosBlob_new_def maxBufferSize_def)
  then show ?thesis
    using assms(2,3) by (simp add: blob_open_def stat_session_def SmbiosBlob_new_def)
qed

theorem chunked_upload_assembles_witness:
  "\<exists>b h. blob_open example_flags 7 2 ''/smbios'' None = (True, Some b)
    \<and> upload example_flags 7 [[1, 2], [3]] 0 (Some b) = (True, Some h) \<and> buffer h = [1, 2, 3]"
  using chunked_upload_assembles [OF example_flags_distinct, of 2 "[[1, 2], [3]]" 7 "''/smbios''"]
  by (auto simp: example_flags_def)

text \<open>
  C11. Whatever sequence of calls the framework makes, between calls a blob is never left in the
  committing state, is never both committed and in error, and holds at most 64 KiB.
\<close>

theorem blob_reachable_invariant:
  assumes "reachable blob_init (blob_step F call) (h, f, s)" and "distinct_flags F"
  shows "case h of None \<Rightarrow> True
    | Some b \<Rightarrow> length (buffer b) \<le> 65536 \<and> state b AND sf_committing F = 0
        \<and> (state b AND sf_committed F = 0 \<or> state b AND sf_commit_error F = 0)"
proof -
  have "blob_inv F (h, f, s)" by (rule blob.reachable_inv [OF assms(1)])
  then show ?thesis
    using assms(2) by (auto simp: blob_inv_def wf_blob_def has_flag_def maxBufferSize_def split: option.splits)
qed

theorem blob_reachable_invariant_witness:
  "\<exists>h. reachable blob_init (blob_step example_flags (\<lambda>f s. (Some True, s))) (h, None, ())
     \<and> h \<noteq> None \<and> length (buffer (the h)) \<le> 65536"
proof -
  let ?step = "blob_step example_flags (\<lambda>f s. (Some True, s))"
  obtain h where o: "blob_open example_flags 7 2 ''/smbios'' None = (True, h)" "h \<noteq> None"
    by (simp add: blob_open_def example_flags_def)
  have "reachable blob_init ?step (None, None, ())"
    by (rule reachable.intros(1)) (simp add: blob_init_def createHandler_def)
  then have r: "reachable blob_init ?step (h, None, ())"
    using step_open [OF o(1)] by (rule reachable.intros(2))
  show ?thesis
    using blob_reachable_invariant [OF r example_flags_distinct] r o(2) by (intro exI [of _ h]) auto
qed

text \<open>
  C12. The outcome of a commit that is not a repetition, for any service, with nothing left open. It
  succeeds exactly when the file could be written and the service answered true. The session, the
  path and the buffer stay; of the state flags, the error flag is cleared and then committed is set
  on success and error on failure, so the open flags stay and a failed blob can be committed again.
  The file is untouched when the directory or the file cannot be made, holds the bytes written so
  far when a write fails, and otherwise the header (version 1, type 2, the time and the length of
  the buffer, little-endian) followed by the buffer; the service is called on that file
  only in the last case, and its state is what the call leaves, also when it fails.
\<close>

theorem commit_outcome:
  assumes "distinct_flags F" and "wf_blob F b" and "sessionId b = session"
    and "\<not> has_flag b (sf_committed F)"
  shows "let image = [1, 2] @ word_bytes 4 (now env)
               @ word_bytes 4 (word_of_nat (length (buffer b)) :: u32) @ buffer b;
             opened = ((dir_exists env \<or> mkdir_ok env) \<and> open_ok env);
             written = (opened \<and> write_fails_at env = None);
             ok = (written \<and> fst (call (Some image) s) = Some True);
             b' = b\<lparr>state := (state b AND NOT (sf_commit_error F))
                              OR (if ok then sf_committed F else sf_commit_error F)\<rparr>
    in blob_commit F env call session [] (Some b, f, s) =
         (ok, Some b',
          if \<not> opened then f
          else case write_fails_at env of None \<Rightarrow> Some image | Some n \<Rightarrow> Some (take n image),
          if written then snd (call (Some image) s) else s)
      \<and> wf_blob F b' \<and> has_flag b' (sf_open_write F) = has_flag b (sf_open_write F)
      \<and> has_flag b' (sf_committed F) = ok \<and> has_flag b' (sf_commit_error F) = (\<not> ok)"
proof -
  have nc: "\<not> has_flag b (sf_committing F)" and len: "length (buffer b) \<le> maxBufferSize"
    using assms(2) by (simp_all add: wf_blob_def)
  note upd = flag_updates [OF assms(1)] and dist = flags_distinct [OF assms(1)]
  define image where "image = [1, 2] @ word_bytes 4 (now env)
      @ word_bytes 4 (word_of_nat (length (buffer b)) :: u32) @ buffer b"
  define ok where "ok \<longleftrightarrow> env_writable env \<and> fst (call (Some image) s) = Some True"
  let ?b = "set_flag (if ok then sf_committed F else sf_commit_error F) (clear_flag (sf_commit_error F) b)"
  have "blob_commit F env call session [] (Some b, f, s) = (ok, Some ?b,
      if \<not> ((dir_exists env \<or> mkdir_ok env) \<and> open_ok env) then f
      else case write_fails_at env of None \<Rightarrow> Some image | Some n \<Rightarrow> Some (take n image),
      if env_writable env then snd (call (Some image) s) else s)"
  proof (cases "env_writable env")
    case True
    obtain r s' where "call (Some image) s = (r, s')" by fastforce
    then show ?thesis
      using True commit_written [OF True assms(3) nc assms(4), of call f s] clear_committing [OF nc]
      by (auto simp: Let_def syncSmbiosData_def env_writable_def ok_def image_bytes image_def
          split: option.splits bool.splits)
  next
    case False
    then show ?thesis
      using commit_unwritten [OF False assms(3) nc assms(4), of call f s]
      by (auto simp: ok_def env_writable_def image_bytes image_def split: option.splits)
  qed
  moreover have "wf_blob F ?b" "has_flag ?b (sf_open_write F) = has_flag b (sf_open_write F)"
    "has_flag ?b (sf_committed F) = ok" "has_flag ?b (sf_commit_error F) = (\<not> ok)"
    using nc len assms(4) dist by (auto simp: wf_blob_def upd)
  moreover have "?b = b\<lparr>state := (state b AND NOT (sf_commit_error F))
      OR (if ok then sf_committed F else sf_commit_error F)\<rparr>"
    by (simp add: set_flag_def clear_flag_def)
  ultimately show ?thesis
    by (simp only: Let_def ok_def image_def env_writable_def conj_assoc simp_thms)
qed

theorem commit_outcome_witness:
  "blob_commit example_flags example_env (\<lambda>f s. (Some (s = 0), s + 1)) 7 []
       (Some example_blob, None, 0 :: nat) =
     (True, Some (example_blob\<lparr>state := 10\<rparr>), Some [1, 2, 5, 0, 0, 0, 1, 0, 0, 0, 9], 1)"
proof -
  have "word_bytes 4 (5 :: u32) = [5, 0, 0, 0]" "word_bytes 4 (1 :: u32) = [1, 0, 0, 0]"
    by code_simp+
  then show ?thesis
    using commit_outcome [OF example_flags_distinct example_blob_wf, of 7 example_env
        "\<lambda>f s. (Some (s = 0), s + 1)" "0 :: nat" None]
    by (simp add: Let_def example_env_def example_blob_def has_flag_def example_flags_def)
qed

text \<open>
  A write after a successful commit is still accepted, but the next commit answers true at once
  and leaves the file and the service as they are: the new contents are not stored.
\<close>

theorem late_write_not_stored:
  assumes "sessionId b = session" and "state b AND sf_committed F \<noteq> 0"
    and "state b AND sf_open_write F \<noteq> 0"
    and "unat offset < 65536" and "unat offset + length data \<le> 65536"
  shows "\<exists>b'. blob_write F session offset data (Some b) = (True, Some b')
    \<and> buffer b' = staged (buffer b) (unat offset) data
    \<and> blob_commit F env call session [] (Some b', f, s) = (True, Some b', f, s)"
  using assms commit_again [of "b\<lparr>buffer := staged (buffer b) (unat offset) data\<rparr>" session F env call "(f, s)"]
  by (simp add: blob_write_spec write_accepted_def maxBufferSize_def has_flag_def)

theorem late_write_not_stored_witness:
  "\<exists>b'. blob_write example_flags 7 0 [1] (Some (example_blob\<lparr>state := 10\<rparr>)) = (True, Some b')
    \<and> blob_commit example_flags example_env (\<lambda>f s. (None, s)) 7 [] (Some b', None, ()) =
        (True, Some b', None, ())"
  using late_write_not_stored [of "example_blob\<lparr>state := 10\<rparr>" 7 example_flags 0 "[1]" example_env
      "\<lambda>f s. (None, s)" None "()"]
  by (auto simp: example_blob_def example_flags_def)

text \<open>
  Only the session that opened the blob can use it: with another session, write, commit, close,
  expire and stat fail and change nothing, and no second blob can be opened.
\<close>

theorem one_session_only:
  assumes "sessionId b \<noteq> session"
  shows "blob_write F session offset data (Some b) = (False, Some b)
    \<and> blob_commit F env call session cdata (Some b, f, s) = (False, Some b, f, s)
    \<and> blob_close session (Some b) = (False, Some b) \<and> blob_expire session (Some b) = (False, Some b)
    \<and> stat_session (Some b) session = None
    \<and> blob_open F session' flags path (Some b) = (False, Some b)"
  using assms commit_refused [of cdata "Some b" session F env call "(f, s)"]
  by (simp add: blob_write_def blob_close_def blob_expire_def stat_session_def blob_open_def)

theorem one_session_only_witness:
  "blob_write example_flags 8 0 [1] (Some example_blob) = (False, Some example_blob)"
  by (rule one_session_only [THEN conjunct1]) (simp add: example_blob_def)

end
