(* ===== verification/Smbios_Lookup.thy ===== *)
theory Smbios_Lookup
  imports Smbios_Table Smbios_Safety
begin

text \<open>
  The interface through which the inventory objects and the agent read the table: a storage
  that starts with an entry point or directly with the structures, the lookup of the \<open>k\<close>-th
  structure of a type with its fields and strings, and the loops that count the structures of
  a type.
\<close>

subsection \<open>A storage with an entry point\<close>

text \<open>\<open>table_from m p q ss\<close>: the storage at \<open>p\<close> leads to the structures \<open>ss\<close>, which start at \<open>q\<close>.\<close>

definition table_from :: "memory \<Rightarrow> nat \<Rightarrow> nat \<Rightarrow> smb_struct list \<Rightarrow> bool" where
  "table_from m p q ss \<longleftrightarrow> skip_entry_point_at m p = Some q \<and> at_table m q ss"

lemma table_from_table: "at_table m p ss \<Longrightarrow> table_from m p p ss"
  by (simp add: table_from_def skip_entry_point_at_table)

lemma getSMBIOSTypePtr_from:
  assumes "table_from m p q ss"
  shows "getSMBIOSTypePtr m (At p) t sz = getSMBIOSTypePtr m (At q) t sz"
  using assms skip_entry_point_at_table [of m q ss]
  by (simp add: table_from_def getSMBIOSTypePtr_def)

lemma getSMBIOSTypeIndexPtr_from:
  assumes "table_from m p q ss"
  shows "getSMBIOSTypeIndexPtr m (At p) t k = Some (table_ptr q ss (suffix_of_type t (unat k) ss))"
  using assms getSMBIOSTypePtr_from [OF assms, of t 0] getSMBIOSTypeIndexPtr_table [of m q ss t k]
  by (simp add: table_from_def getSMBIOSTypeIndexPtr_def)

lemma smbiosHandlePtr_from:
  assumes "table_from m p q ss"
  shows "smbiosHandlePtr m (At p) h = Some (table_ptr q ss (from_handle h ss))"
  using assms handle_loop_table [of m q ss h]
  by (simp add: table_from_def smbiosHandlePtr_def smbiosSkipEntryPoint_def)

text \<open>A 3.x entry point, with the offset of the structures in its address field.\<close>

definition entry_point30 :: "u8 \<Rightarrow> u8 \<Rightarrow> u32 \<Rightarrow> u64 \<Rightarrow> u8 list" where
  "entry_point30 major minor maxSize addr =
     anchorString30 @ [0, 24, major, minor, 0, 1, 0] @ word_bytes 4 maxSize @ word_bytes 8 addr"

lemma length_entry_point30 [simp]: "length (entry_point30 major minor maxSize addr) = 24"
  by (simp add: entry_point30_def)

lemma skip_entry_point30:
  assumes "holds m p (entry_point30 major minor maxSize addr)" and "unat addr < mdrSMBIOSSize"
  shows "skip_entry_point_at m p = Some (p + unat addr)"
proof -
  let ?ep = "entry_point30 major minor maxSize addr"
  have "rd_bytes 5 m (p + 0) = Some (take 5 (drop 0 ?ep))"
    by (rule holds_rd_bytes_at [OF assms(1)]) simp
  moreover have "take 5 ?ep = anchorString30"
    by (simp add: entry_point30_def)
  moreover have "rd_bytes 8 m (p + 16) = Some (take 8 (drop 16 ?ep))"
    by (rule holds_rd_bytes_at [OF assms(1)]) simp
  moreover have "drop 16 ?ep = word_bytes 8 addr"
    by (simp add: entry_point30_def)
  ultimately show ?thesis
    using assms(2) by (simp add: skip_entry_point_at_def rd64_def le_word_bytes)
qed

subsection \<open>The lookup interface\<close>

text \<open>
  What a client needs of the parser: the lookup of the \<open>k\<close>-th structure of a type finds it when
  there is one and answers null otherwise, and a numbered string is the string of the structure.
\<close>

locale structure_source =
  fixes repr :: "memory \<Rightarrow> nat \<Rightarrow> smb_struct list \<Rightarrow> bool"
    and lookup :: "memory \<Rightarrow> ptr \<Rightarrow> u8 \<Rightarrow> u8 \<Rightarrow> ptr checked"
    and str :: "u8 \<Rightarrow> u8 \<Rightarrow> memory \<Rightarrow> ptr \<Rightarrow> string checked"
  assumes lookup_hit: "repr m p ss \<Longrightarrow> unat k < length (of_type t ss) \<Longrightarrow>
      \<exists>q rest. lookup m (At p) t k = Some (At q) \<and> at_table m q ((of_type t ss ! unat k) # rest)"
    and lookup_miss: "repr m p ss \<Longrightarrow> length (of_type t ss) \<le> unat k \<Longrightarrow>
      lookup m (At p) t k = Some Null"
    and str_ok: "at_table m q (s # rest) \<Longrightarrow>
      str pos (word_of_nat (s_length s)) m (At q) = Some (struct_string s pos)"
begin

lemma lookup_null_iff:
  assumes "repr m p ss"
  shows "lookup m (At p) t k = Some Null \<longleftrightarrow> length (of_type t ss) \<le> unat k"
  using lookup_hit [OF assms, of k t] lookup_miss [OF assms, of t k]
  by (cases "unat k < length (of_type t ss)") auto

lemma nth_byte:
  assumes "repr m p ss" and "unat k < length (of_type t ss)"
    and "4 \<le> off" and "off < s_length (of_type t ss ! unat k)"
  shows "\<exists>q. lookup m (At p) t k = Some (At q) \<and>
    rd8 m (q + off) = Some (s_body (of_type t ss ! unat k) ! (off - 4))"
  using lookup_hit [OF assms(1,2)] at_table_field [OF _ assms(3,4)] by blast

lemma nth_string:
  assumes "repr m p ss" and "unat k < length (of_type t ss)"
    and "4 \<le> off" and "off < s_length (of_type t ss ! unat k)"
  shows "\<exists>q pos len. lookup m (At p) t k = Some (At q) \<and> rd8 m (q + off) = Some pos
    \<and> rd8 m (q + 1) = Some len
    \<and> str pos len m (At q) = Some (struct_string (of_type t ss ! unat k)
        (s_body (of_type t ss ! unat k) ! (off - 4)))"
proof -
  obtain q rest where q: "lookup m (At p) t k = Some (At q)"
    "at_table m q ((of_type t ss ! unat k) # rest)"
    using lookup_hit [OF assms(1,2)] by blast
  then show ?thesis
    using at_table_field [OF q(2) assms(3,4)] at_table_header(2) [OF q(2)] str_ok [OF q(2)] by blast
qed

end

definition table_repr :: "memory \<Rightarrow> nat \<Rightarrow> smb_struct list \<Rightarrow> bool" where
  "table_repr m p ss \<longleftrightarrow> (\<exists>q. table_from m p q ss)"

lemma suffix_of_type_Cons:
  assumes "k < length (of_type t ss)"
  shows "\<exists>pre rest. suffix_of_type t k ss = (of_type t ss ! k) # rest \<and> ss = pre @ suffix_of_type t k ss"
proof -
  have "suffix_of_type t k ss \<noteq> []"
    using assms by (simp add: suffix_of_type_Nil_iff not_le)
  then show ?thesis
    using suffix_of_type_hd [OF assms] suffix_of_type_suffix [of ss t k]
    by (metis list.collapse)
qed

lemma getSMBIOSTypeIndexPtr_hit:
  assumes "table_from m p q ss" and "unat k < length (of_type t ss)"
  shows "\<exists>r rest. getSMBIOSTypeIndexPtr m (At p) t k = Some (At r)
    \<and> at_table m r ((of_type t ss ! unat k) # rest)"
proof -
  obtain pre rest where sfx: "suffix_of_type t (unat k) ss = (of_type t ss ! unat k) # rest"
    and ss: "ss = pre @ suffix_of_type t (unat k) ss"
    using suffix_of_type_Cons [OF assms(2)] by blast
  have "at_table m q ss" using assms(1) by (simp add: table_from_def)
  from at_table_suffix [OF this ss] show ?thesis
    using getSMBIOSTypeIndexPtr_from [OF assms(1), of t k] sfx
    by (auto simp: table_ptr_def)
qed

interpretation smbios: structure_source table_repr getSMBIOSTypeIndexPtr positionToString
proof unfold_locales
  show "\<exists>q rest. getSMBIOSTypeIndexPtr m (At p) t k = Some (At q)
      \<and> at_table m q ((of_type t ss ! unat k) # rest)"
    if "table_repr m p ss" "unat k < length (of_type t ss)" for m p ss k t
    using that getSMBIOSTypeIndexPtr_hit by (auto simp: table_repr_def)
  show "getSMBIOSTypeIndexPtr m (At p) t k = Some Null"
    if "table_repr m p ss" "length (of_type t ss) \<le> unat k" for m p ss t k
    using that getSMBIOSTypeIndexPtr_from suffix_of_type_Nil_iff [of t "unat k" ss]
    by (auto simp: table_repr_def table_ptr_def)
qed (rule positionToString_table)

subsection \<open>Counting structures\<close>

definition limitEntryLen :: nat where "limitEntryLen = 255"

lemma type_loop_ge: "type_loop m p t sz = Some (At q) \<Longrightarrow> p \<le> q \<and> q < length m"
proof (induction m p t sz rule: type_loop.induct)
  case (1 m p t sz)
  show ?case
  proof (cases "\<exists>r. type_scan m (p + unat (m ! (p + 1))) (unat (m ! (p + 1))) = Some (At r) \<and> m ! p \<noteq> t")
    case False
    then show ?thesis
      using "1.prems"
      by (subst (asm) type_loop.simps)
         (auto simp: rd8_Some_iff split: bind_splits if_splits ptr.splits)
  next
    case True
    then obtain r where r: "type_scan m (p + unat (m ! (p + 1))) (unat (m ! (p + 1))) = Some (At r)"
      "m ! p \<noteq> t" by blast
    show ?thesis
    proof -
      obtain c where nt: "not_terminator m p = Some c" and c: c
        and rds: "rd8 m p = Some (m ! p)" "rd8 m (p + 1) = Some (m ! (p + 1))"
        and rec: "type_loop m r t sz = Some (At q)"
        using "1.prems" r
        by (subst (asm) type_loop.simps)
           (auto simp: rd8_Some_iff rd8_def split: bind_splits if_splits)
      have "r \<le> q \<and> q < length m"
        using "1.IH" [OF nt _ rds _ r(1) refl rec] c r(2) by blast
      moreover have "p \<le> r"
        using type_scan_progress [OF r(1)] by simp
      ultimately show ?thesis by simp
    qed
  qed
qed

lemma getSMBIOSTypePtr_ge:
  assumes "getSMBIOSTypePtr m (At p) t sz = Some (At q)"
  shows "p \<le> q \<and> q < length m"
proof -
  obtain r where r: "skip_entry_point_at m p = Some r" "type_loop m r t sz = Some (At q)"
    using assms by (auto simp: getSMBIOSTypePtr_def split: bind_splits)
  have "p \<le> r"
    using r(1) by (auto simp: skip_entry_point_at_def split: bind_splits if_splits)
  then show ?thesis using type_loop_ge [OF r(2)] by simp
qed

lemma walk_decreases:
  assumes "getSMBIOSTypePtr m (At p) t sz = Some (At q)" and "smbiosNextPtr m (At q) = Some (At r)"
  shows "length m - r < length m - p"
  using getSMBIOSTypePtr_ge [OF assms(1)] smbiosNextPtr_progress [OF assms(2)] by linarith

text \<open>
  The loop of the four \<open>getTotal\<close> methods: find the next structure of the type, count it if it
  is wanted, move on, and stop at the end or when the limit is reached.
\<close>

function count_loop ::
  "(memory \<Rightarrow> nat \<Rightarrow> bool checked) \<Rightarrow> memory \<Rightarrow> u8 \<Rightarrow> nat \<Rightarrow> nat \<Rightarrow> nat \<Rightarrow> nat checked"
where
  "count_loop keep m typeId sz p num = do {
     hit \<leftarrow> getSMBIOSTypePtr m (At p) typeId sz;
     (case hit of
        Null \<Rightarrow> Some num
      | At q \<Rightarrow> do {
          wanted \<leftarrow> keep m q;
          let num' = (if wanted then num + 1 else num);
          nx \<leftarrow> smbiosNextPtr m (At q);
          (case nx of
             Null \<Rightarrow> Some num'
           | At r \<Rightarrow> if limitEntryLen \<le> num' then Some num'
                    else count_loop keep m typeId sz r num') }) }"
  by pat_completeness auto
termination
proof (relation "measure (\<lambda>(keep, m, typeId, sz, p, num). length m - p)")
  show "wf (measure (\<lambda>(keep, m, typeId, sz, p, num). length m - p))" by simp
next
  fix keep :: "memory \<Rightarrow> nat \<Rightarrow> bool checked" and m typeId sz p and num x :: nat and hit q wanted nx r
  assume "getSMBIOSTypePtr m (At p) typeId sz = Some hit" "hit = At q"
    "smbiosNextPtr m (At q) = Some nx" "nx = At r"
  then show "((keep, m, typeId, sz, r, x), keep, m, typeId, sz, p, num)
      \<in> measure (\<lambda>(keep, m, typeId, sz, p, num). length m - p)"
    using walk_decreases by simp
qed

declare count_loop.simps [simp del]

definition getTotalNum :: "memory \<Rightarrow> ptr \<Rightarrow> u8 \<Rightarrow> nat \<Rightarrow> nat option checked" where
  "getTotalNum m dataIn typeId minSize = (case dataIn of
      Null \<Rightarrow> Some None
    | At p \<Rightarrow> map_option Some (count_loop (\<lambda>m q. Some True) m typeId minSize p 0))"

definition getTotalCpuSlot :: "memory \<Rightarrow> ptr \<Rightarrow> nat option checked" where
  "getTotalCpuSlot m dataIn = (case dataIn of
      Null \<Rightarrow> Some None
    | At p \<Rightarrow> map_option Some
        (count_loop (\<lambda>m q. Some True) m (type_code processorsType) 0 p 0))"

definition getTotalDimmSlot :: "memory \<Rightarrow> ptr \<Rightarrow> nat option checked" where
  "getTotalDimmSlot m dataIn = (case dataIn of
      Null \<Rightarrow> Some None
    | At p \<Rightarrow> map_option Some
        (count_loop (\<lambda>m q. Some True) m (type_code memoryDeviceType) 0 p 0))"

subsection \<open>The counts on an encoded table\<close>

lemma count_loop_table:
  assumes "at_table m p ss" and "num < limitEntryLen"
    and "\<And>q s rest. at_table m q (s # rest) \<Longrightarrow> s \<in> set ss \<Longrightarrow> s_type s = t \<Longrightarrow> keep m q = Some (K s)"
  shows "count_loop keep m t 0 p num =
    Some (min limitEntryLen (num + length (filter K (of_type t ss))))"
  using assms
proof (induction "length ss" arbitrary: p ss num rule: less_induct)
  case less
  show ?case
  proof (cases "from_type t ss")
    case Nil
    then have "of_type t ss = []" by (subst of_type_from_type) simp
    then show ?thesis
      using less.prems(2) getSMBIOSTypePtr_table [OF less.prems(1), of t] Nil
      by (subst count_loop.simps) (simp add: table_ptr_def)
  next
    case (Cons s rest)
    let ?q = "p + (enc_len ss - enc_len (s # rest))"
    let ?n = "if K s then num + 1 else num"
    have at: "at_table m ?q (s # rest)" by (rule at_table_from_type [OF less.prems(1) Cons])
    note tail = at_tableD(3) [OF at] and st = from_type_Cons [OF Cons]
    have hit: "getSMBIOSTypePtr m (At p) t 0 = Some (At ?q)"
      using getSMBIOSTypePtr_table [OF less.prems(1), of t] Cons by (simp add: table_ptr_def)
    have sub: "set (s # rest) \<subseteq> set ss" using from_type_suffix [of ss t] Cons by auto
    then have keep: "keep m ?q = Some (K s)" using less.prems(3) [OF at _ st] by simp
    have unroll: "count_loop keep m t 0 p num = (if limitEntryLen \<le> ?n then Some ?n
        else count_loop keep m t 0 (?q + length (encode_struct s)) ?n)"
      using hit keep smbiosNextPtr_table [OF at]
      by (subst count_loop.simps) simp
    have of: "of_type t ss = s # of_type t rest"
      using Cons by (subst of_type_from_type) simp
    have shorter: "length rest < length ss"
      using from_type_suffix [of ss t] Cons by auto
    have IH: "count_loop keep m t 0 (?q + length (encode_struct s)) n =
        Some (min limitEntryLen (n + length (filter K (of_type t rest))))" if "n < limitEntryLen" for n
      by (rule less.hyps [OF shorter tail that]) (use sub less.prems(3) in auto)
    show ?thesis
      using unroll IH [of ?n] less.prems(2) of by (auto simp: min_def)
  qed
qed

lemma count_loop_from:
  assumes "table_from m p q ss"
  shows "count_loop keep m t 0 p num = count_loop keep m t 0 q num"
  using getSMBIOSTypePtr_from [OF assms, of t 0] by (subst (1 2) count_loop.simps) simp

lemma count_all_from:
  assumes "table_from m p q ss"
  shows "count_loop (\<lambda>m q. Some True) m t 0 p 0 = Some (min 255 (length (of_type t ss)))"
proof -
  have "at_table m q ss" using assms by (simp add: table_from_def)
  then show ?thesis
    using count_loop_table [of m q ss 0 t "\<lambda>m q. Some True" "\<lambda>s. True"] count_loop_from [OF assms]
    by (simp add: limitEntryLen_def)
qed

lemma count_loop_safe:
  assumes "edge m p" and "\<And>q. inside m q \<Longrightarrow> keep m q \<noteq> None"
  shows "count_loop keep m t sz p num \<noteq> None"
  using assms
proof (induction keep m t sz p num rule: count_loop.induct)
  case (1 keep m t sz p num)
  obtain hit where hit: "getSMBIOSTypePtr m (At p) t sz = Some hit"
    and hq: "\<And>q. hit = At q \<Longrightarrow> inside m q"
    using getSMBIOSTypePtr_safe [OF "1.prems"(1)] by blast
  show ?case
  proof (cases hit)
    case Null
    then show ?thesis using hit by (subst count_loop.simps) simp
  next
    case (At q)
    note ins = hq [OF At]
    obtain w where w: "keep m q = Some w" using "1.prems"(2) [OF ins] by blast
    obtain nx where nx: "smbiosNextPtr m (At q) = Some nx" and nq: "\<And>r. nx = At r \<Longrightarrow> edge m r"
      using smbiosNextPtr_safe [OF ins] by blast
    show ?thesis
      using hit At w nx nq "1.IH" [OF hit At w refl nx] "1.prems"(2)
      by (subst count_loop.simps) (auto split: ptr.splits)
  qed
qed

subsection \<open>A small table\<close>

text \<open>
  A table with a BIOS, a system, a processor, a memory array, a memory device and two system
  slots, on which the examples of the theories are evaluated.
\<close>

definition example_bios :: smb_struct where
  "example_bios = \<lparr>s_type = 0, s_handle = 1, s_body = [1, 2], s_strings = [''Vendor'', ''1.02'']\<rparr>"

definition example_system :: smb_struct where
  "example_system = \<lparr>s_type = 1, s_handle = 2,
     s_body = [1, 0, 0, 0] @ [0x78, 0x56, 0x34, 0x12, 0xbc, 0x9a, 0xf0, 0xde, 1, 2, 3, 4, 5, 6, 7, 8],
     s_strings = [''Maker'']\<rparr>"

definition example_cpu :: smb_struct where
  "example_cpu = \<lparr>s_type = 4, s_handle = 4,
     s_body = [1, 3, 0xb3, 2] @ [0x57, 0x06, 0x05, 0, 0, 0, 0, 0] @ [3, 0, 0, 0, 0xa0, 0x0f, 0, 0, 0x41]
       @ replicate 23 0,
     s_strings = [''CPU0'', ''Intel'', ''Xeon'']\<rparr>"

definition example_array :: smb_struct where
  "example_array = \<lparr>s_type = 16, s_handle = 0x10, s_body = [3, 3, 6] @ replicate 16 0, s_strings = []\<rparr>"

definition example_dimm :: smb_struct where
  "example_dimm = \<lparr>s_type = 17, s_handle = 0x11,
     s_body = [0x10, 0, 0xfe, 0xff, 72, 0, 64, 0, 0, 0x40, 9, 0, 1, 2, 0x1a, 0x80, 0, 0x80, 0x0c,
               3, 4, 0, 5, 2] @ [0, 0, 0, 0] @ [0x80, 0x0c] @ replicate 50 0,
     s_strings = [''CPU0_DIMM_A'', ''BANK 0'', ''Samsung'', ''S1'', ''P1 '']\<rparr>"

definition example_slot :: "u8 \<Rightarrow> string \<Rightarrow> smb_struct" where
  "example_slot ty nm = \<lparr>s_type = 9, s_handle = 0x20, s_body = [1, ty, 0x0d, 3, 4, 0, 0, 0, 2],
     s_strings = [nm]\<rparr>"

definition example_table :: "smb_struct list" where
  "example_table = [example_bios, example_system, example_cpu, example_array, example_dimm,
     example_slot 0xb6 ''PCIE1'', example_slot 0xb6 ''PCIE2'']"

definition example_memory :: memory where
  "example_memory = encode_table example_table @ [0, 0, 0]"

lemmas example_defs = example_table_def example_bios_def example_system_def example_cpu_def
  example_array_def example_dimm_def example_slot_def

lemma example_wf: "list_all wf_struct example_table"
  by (simp add: example_defs wf_struct_def s_length_def structureHeaderSize_def wf_string_def
      encode_strings_def encode_string_def mdrSMBIOSSize_def byte_of_char_def)

lemma example_from: "table_from example_memory 0 0 example_table"
proof (rule table_from_table)
  have "holds example_memory 0 (encode_table example_table)"
    using holds_self [of "[]" "encode_table example_table" "[0, 0, 0]"] by (simp add: example_memory_def)
  then show "at_table example_memory 0 example_table"
    using example_wf by (simp add: at_table_def example_memory_def)
qed

subsection \<open>Properties of the lookups\<close>

text \<open>
  C1. On a storage that holds an encoded table, with or without an entry point, the lookup by type
  and index returns a pointer to exactly the \<open>k\<close>-th structure of the type, and null when the
  table has no more than \<open>k\<close> structures of the type.
\<close>

theorem lookup_by_type_and_index:
  assumes "table_from m p q ss"
  shows "if unat k < length (of_type t ss)
    then \<exists>r rest. getSMBIOSTypeIndexPtr m (At p) t k = Some (At r)
           \<and> at_table m r ((of_type t ss ! unat k) # rest)
    else getSMBIOSTypeIndexPtr m (At p) t k = Some Null"
proof -
  have "table_repr m p ss" using assms by (auto simp: table_repr_def)
  then show ?thesis
    using smbios.lookup_hit smbios.lookup_miss by (simp add: not_less)
qed

theorem lookup_by_type_and_index_witness:
  "(\<exists>r rest. getSMBIOSTypeIndexPtr example_memory (At 0) 9 1 = Some (At r)
      \<and> at_table example_memory r (example_slot 0xb6 ''PCIE2'' # rest))
   \<and> getSMBIOSTypeIndexPtr example_memory (At 0) 9 2 = Some Null"
  using lookup_by_type_and_index [OF example_from, of 1 9] lookup_by_type_and_index [OF example_from, of 2 9]
  by (simp add: example_defs)

text \<open>
  C34. The lookup by handle returns a pointer to the first structure with the handle, and null when
  no structure of the table has it.
\<close>

theorem lookup_by_handle:
  assumes "table_from m p q ss"
  shows "case List.find (\<lambda>s. s_handle s = h) ss of
      None \<Rightarrow> smbiosHandlePtr m (At p) h = Some Null
    | Some s \<Rightarrow> \<exists>r rest. smbiosHandlePtr m (At p) h = Some (At r) \<and> at_table m r (s # rest)"
proof -
  have at: "at_table m q ss" using assms by (simp add: table_from_def)
  have find: "List.find (\<lambda>s. s_handle s = h) xs =
      (case from_handle h xs of [] \<Rightarrow> None | s # rest \<Rightarrow> Some s)" for xs
    by (induction xs) auto
  show ?thesis
  proof (cases "from_handle h ss")
    case Nil
    then show ?thesis
      using find [of ss] smbiosHandlePtr_from [OF assms, of h] by (simp add: table_ptr_def)
  next
    case (Cons s rest)
    obtain pre where "ss = pre @ s # rest"
      using from_handle_suffix [of ss h] Cons by auto
    from at_table_suffix [OF at this] show ?thesis
      using find [of ss] smbiosHandlePtr_from [OF assms, of h] Cons by (auto simp: table_ptr_def)
  qed
qed

theorem lookup_by_handle_witness:
  "\<exists>r rest. smbiosHandlePtr example_memory (At 0) 0x10 = Some (At r)
     \<and> at_table example_memory r (example_array # rest)"
  using lookup_by_handle [OF example_from, of "0x10"] by (simp add: example_defs)

text \<open>
  A string field of the \<open>k\<close>-th structure of a type, read the way the inventory objects read it
  (lookup, string number from the field, \<open>positionToString\<close> with the length byte), is the
  string of that number of the structure, and the empty string when the number is zero or larger
  than the number of strings.
\<close>

theorem string_of_nth_structure:
  assumes "table_from m p q ss" and "unat k < length (of_type t ss)"
    and "4 \<le> off" and "off < s_length (of_type t ss ! unat k)"
  shows "do { r \<leftarrow> getSMBIOSTypeIndexPtr m (At p) t k;
              (case r of Null \<Rightarrow> None | At a \<Rightarrow> do {
                 pos \<leftarrow> rd8 m (a + off); len \<leftarrow> rd8 m (a + 1); positionToString pos len m (At a) }) }
    = Some (struct_string (of_type t ss ! unat k) (sf8 (of_type t ss ! unat k) off))"
proof -
  have "table_repr m p ss" using assms(1) by (auto simp: table_repr_def)
  from smbios.nth_string [OF this assms(2-4)] show ?thesis by (auto simp: sf8_def)
qed

theorem string_of_nth_structure_witness:
  "do { r \<leftarrow> getSMBIOSTypeIndexPtr example_memory (At 0) 17 0;
        (case r of Null \<Rightarrow> None | At a \<Rightarrow> do {
           pos \<leftarrow> rd8 example_memory (a + 16); len \<leftarrow> rd8 example_memory (a + 1);
           positionToString pos len example_memory (At a) }) } = Some ''CPU0_DIMM_A''"
proof -
  have d: "of_type 17 example_table ! unat (0 :: u8) = example_dimm"
    "unat (0 :: u8) < length (of_type 17 example_table)" "16 < s_length example_dimm"
    by (simp_all add: example_defs s_length_def)
  have str: "struct_string example_dimm (sf8 example_dimm 16) = ''CPU0_DIMM_A''"
    by (simp add: example_dimm_def sf8_def struct_string_def)
  have len: "16 < s_length (of_type 17 example_table ! unat (0 :: u8))" using d(1,3) by simp
  have "4 \<le> (16 :: nat)" by simp
  from string_of_nth_structure [OF example_from d(2) this len, unfolded d(1) str] show ?thesis .
qed

text \<open>
  The number of structures that the agent counts for a type is the number of structures of
  that type in the table, but never more than 255.
\<close>

theorem getTotalNum_counts:
  assumes "table_from m p q ss"
  shows "getTotalNum m (At p) t 0 = Some (Some (min 255 (length (of_type t ss))))
    \<and> getTotalCpuSlot m (At p) = Some (Some (min 255 (length (of_type 4 ss))))
    \<and> getTotalDimmSlot m (At p) = Some (Some (min 255 (length (of_type 17 ss))))"
  using count_all_from [OF assms]
  by (simp add: getTotalNum_def getTotalCpuSlot_def getTotalDimmSlot_def)

theorem getTotalNum_counts_witness:
  "getTotalNum example_memory (At 0) 9 0 = Some (Some 2)
   \<and> getTotalDimmSlot example_memory (At 0) = Some (Some 1)"
  using getTotalNum_counts [OF example_from, of 9] by (simp add: example_defs)

end
