(* ===== verification/Table_Upload.thy ===== *)
theory Table_Upload
  imports Blob_Handler Smbios_Lookup
begin

text \<open>
  The path of a table through the system: the host opens the blob, writes the table in chunks
  and commits; the commit writes the flash file and calls the agent, which loads its storage
  from the file; the lookups then run on the storage.
\<close>

subsection \<open>What the handler needs of the service it synchronises with\<close>

locale sync_service =
  fixes call :: "'s sync_call"
    and good :: "'s \<Rightarrow> bool"
    and accepts :: "u8 list \<Rightarrow> bool"
    and loaded :: "u32 \<Rightarrow> u8 list \<Rightarrow> 's \<Rightarrow> bool"
    and refused :: "u8 list \<Rightarrow> 's \<Rightarrow> 's \<Rightarrow> bool"
  assumes call_accept: "good s \<Longrightarrow> length bs \<le> maxBufferSize \<Longrightarrow> accepts bs \<Longrightarrow>
      \<exists>s'. call (Some (file_image t bs)) s = (Some True, s') \<and> good s' \<and> loaded t bs s'"
    and call_reject: "good s \<Longrightarrow> length bs \<le> maxBufferSize \<Longrightarrow> \<not> accepts bs \<Longrightarrow>
      \<exists>s'. call (Some (file_image t bs)) s = (Some False, s') \<and> good s' \<and> refused bs s s'"
begin

lemma commit_accepted:
  assumes "distinct_flags F" and "wf_blob F b" and "sessionId b = session"
    and "\<not> has_flag b (sf_committed F)" and "env_writable env" and "good s" and "accepts (buffer b)"
  shows "\<exists>b' s'. blob_commit F env call session [] (Some b, f, s) =
      (True, Some b', Some (file_image (now env) (buffer b)), s')
    \<and> buffer b' = buffer b \<and> has_flag b' (sf_committed F) \<and> \<not> has_flag b' (sf_commit_error F)
    \<and> good s' \<and> loaded (now env) (buffer b) s'"
proof -
  have b: "length (buffer b) \<le> maxBufferSize" "\<not> has_flag b (sf_committing F)"
    using assms(2) by (auto simp: wf_blob_def)
  obtain s' where s': "call (Some (file_image (now env) (buffer b))) s = (Some True, s')"
    "good s'" "loaded (now env) (buffer b) s'"
    using call_accept [OF assms(6) b(1) assms(7)] by blast
  show ?thesis
    using commit_written [OF assms(5,3) b(2) assms(4), of call f s] s' flags_distinct [OF assms(1)]
    by (auto simp: Let_def syncSmbiosData_def flag_updates [OF assms(1)])
qed

lemma commit_rejected:
  assumes "distinct_flags F" and "wf_blob F b" and "sessionId b = session"
    and "\<not> has_flag b (sf_committed F)" and "env_writable env" and "good s" and "\<not> accepts (buffer b)"
  shows "\<exists>b' s'. blob_commit F env call session [] (Some b, f, s) =
      (False, Some b', Some (file_image (now env) (buffer b)), s')
    \<and> buffer b' = buffer b \<and> \<not> has_flag b' (sf_committed F) \<and> has_flag b' (sf_commit_error F)
    \<and> good s' \<and> refused (buffer b) s s'"
proof -
  have b: "length (buffer b) \<le> maxBufferSize" "\<not> has_flag b (sf_committing F)"
    using assms(2) by (auto simp: wf_blob_def)
  obtain s' where s': "call (Some (file_image (now env) (buffer b))) s = (Some False, s')" "good s'" "refused (buffer b) s s'"
    using call_reject [OF assms(6) b(1) assms(7)] by blast
  show ?thesis
    using commit_written [OF assms(5,3) b(2) assms(4), of call f s] s' assms(4) flags_distinct [OF assms(1)]
    by (auto simp: Let_def syncSmbiosData_def flag_updates [OF assms(1)])
qed

end

subsection \<open>The agent is such a service\<close>

text \<open>The D-Bus call: an agent that does not answer is an exception for the caller.\<close>

definition agent_call :: "MDRV2 sync_call" where
  "agent_call f a = (case agentSynchronizeData f a of
      None \<Rightarrow> (None, a)
    | Some (r, a') \<Rightarrow> (Some r, a'))"

definition table_loaded :: "u32 \<Rightarrow> u8 list \<Rightarrow> MDRV2 \<Rightarrow> bool" where
  "table_loaded t bs a \<longleftrightarrow> smbiosTableStorage a = table_image bs
     \<and> (let e = dir (smbiosDir a) ! 0 in stage e = mdr2Loaded \<and> lock e = mdr2DirUnlock
        \<and> dataVersion (common e) = 1 \<and> timestamp (common e) = t
        \<and> dsize (common e) = word_of_nat (length bs))
     \<and> timer a = Some DeferSystemInfoUpdate"

definition table_refused :: "u8 list \<Rightarrow> MDRV2 \<Rightarrow> MDRV2 \<Rightarrow> bool" where
  "table_refused bs a a' \<longleftrightarrow> smbiosDir a' = smbiosDir a \<and> smbiosTableStorage a' = table_image bs"

lemma agent_call_eq:
  "wf_agent a \<Longrightarrow> agent_call f a = (Some (fst (sync_result f a)), snd (sync_result f a))"
  by (simp add: agent_call_def agentSynchronizeData_result split: prod.splits)

interpretation agent_service: sync_service agent_call wf_agent supported_table table_loaded table_refused
proof unfold_locales
  fix a :: MDRV2 and bs :: "u8 list" and t :: u32
  assume a: "wf_agent a" and len: "length bs \<le> maxBufferSize"
  have len': "length bs \<le> smbiosTableStorageSize"
    using len by (simp add: maxBufferSize_def smbiosTableStorageSize_def)
  note pl = payload_file_image [OF len', of t]
  note wf = wf_sync_result [OF a, of "Some (file_image t bs)"]
  {
    assume "supported_table bs"
    then show "\<exists>s'. agent_call (Some (file_image t bs)) a = (Some True, s') \<and> wf_agent s'
        \<and> table_loaded t bs s'"
      using wf wf_agentD(1) [OF a]
      by (auto simp: agent_call_eq [OF a] sync_result_def pl table_loaded_def loaded_entry_def Let_def)
  next
    assume "\<not> supported_table bs"
    then show "\<exists>s'. agent_call (Some (file_image t bs)) a = (Some False, s') \<and> wf_agent s'
        \<and> table_refused bs a s'"
      using wf by (auto simp: agent_call_eq [OF a] sync_result_def pl table_refused_def)
  }
qed

subsection \<open>A whole upload\<close>

definition upload_table ::
  "blob_flags \<Rightarrow> commit_env \<Rightarrow> u16 \<Rightarrow> u16 \<Rightarrow> u8 list list \<Rightarrow> flash \<Rightarrow> MDRV2 \<Rightarrow>
   bool \<times> handler \<times> flash \<times> MDRV2"
where
  "upload_table F env session flags chunks f a =
     (case blob_open F session flags blobId None of (opened, h) \<Rightarrow>
        if \<not> opened then (False, h, f, a)
        else (case upload F session chunks 0 h of (wrote, h') \<Rightarrow>
          if \<not> wrote then (False, h', f, a)
          else blob_commit F env agent_call session [] (h', f, a)))"

lemma upload_table_commit:
  assumes "distinct_flags F" and "flags AND of_read F = 0" and "flags AND of_write F \<noteq> 0"
    and "list_all (\<lambda>c. c \<noteq> []) chunks" and "length (concat chunks) \<le> maxBufferSize"
  shows "\<exists>b. upload_table F env session flags chunks f a =
      blob_commit F env agent_call session [] (Some b, f, a)
    \<and> wf_blob F b \<and> sessionId b = session \<and> \<not> has_flag b (sf_committed F) \<and> buffer b = concat chunks"
proof -
  let ?b = "SmbiosBlob_new F session blobId flags"
  have b: "sessionId ?b = session" "buffer ?b = []" "state ?b = sf_open_write F"
    using assms(3) by (simp_all add: SmbiosBlob_new_def)
  have "sf_open_write F \<noteq> 0" by (rule open_write_nonzero [OF assms(1)])
  then have up: "upload F session chunks 0 (Some ?b) = (True, Some (?b\<lparr>buffer := concat chunks\<rparr>))"
    using upload_concat [of ?b session F chunks] b assms(4,5) by simp
  have nc: "\<not> has_flag ?b (sf_committed F)"
    using wf_blob_new [OF assms(1), of session blobId flags] flags_distinct [OF assms(1)] assms(3)
      flag_updates(1) [OF assms(1), of "sf_open_write F" "sf_committed F"
        "\<lparr>sessionId = session, blobPath = blobId, state = 0, buffer = []\<rparr>"]
    by (auto simp: SmbiosBlob_new_def set_flag_def has_flag_def)
  let ?b' = "?b\<lparr>buffer := concat chunks\<rparr>"
  have "wf_blob F ?b'"
    using wf_blob_new [OF assms(1), of session blobId flags] assms(5)
    by (simp add: wf_blob_def has_flag_def)
  moreover have "\<not> has_flag ?b' (sf_committed F)"
    using nc by (simp add: has_flag_def)
  moreover have "upload_table F env session flags chunks f a =
      blob_commit F env agent_call session [] (Some ?b', f, a)"
    using assms(2) up by (simp add: upload_table_def blob_open_def)
  ultimately show ?thesis
    using b(1) by (intro exI [of _ ?b']) simp
qed

subsection \<open>An uploaded table in the storage\<close>

text \<open>A complete upload: a 3.x entry point directly followed by the structures.\<close>

definition smbios30_file :: "u8 \<Rightarrow> u8 \<Rightarrow> u32 \<Rightarrow> smb_struct list \<Rightarrow> u8 list" where
  "smbios30_file major minor maxSize ss = entry_point30 major minor maxSize 24 @ encode_table ss"

lemma table_from_file:
  assumes "list_all wf_struct ss"
    and "length (smbios30_file major minor maxSize ss) + 3 \<le> smbiosTableStorageSize"
  shows "table_from (table_image (smbios30_file major minor maxSize ss)) 0 24 ss"
proof -
  let ?ep = "entry_point30 major minor maxSize 24" and ?bs = "smbios30_file major minor maxSize ss"
  let ?m = "table_image ?bs"
  have m: "?m = [] @ ?ep @ (encode_table ss @ replicate (smbiosTableStorageSize - length ?bs) 0)"
    "?m = ?ep @ encode_table ss @ replicate (smbiosTableStorageSize - length ?bs) 0"
    by (simp_all add: table_image_def smbios30_file_def)
  have "holds ?m 0 ?ep"
    using holds_self [of "[]" ?ep] unfolding m(1) by simp
  then have "skip_entry_point_at ?m 0 = Some 24"
    using skip_entry_point30 [of ?m 0 major minor maxSize 24] by (simp add: mdrSMBIOSSize_def)
  moreover have "holds ?m 24 (encode_table ss)"
    using holds_self [of ?ep "encode_table ss"] unfolding m(2) by simp
  then have "at_table ?m 24 ss"
    using assms by (simp add: at_table_def smbios30_file_def)
  ultimately show ?thesis by (simp add: table_from_def)
qed

subsection \<open>A 3.x file passes the version check\<close>

lemma search_pad:
  assumes "search pat xs = None" and "pat \<noteq> []" and "0 \<notin> set pat"
  shows "search pat (xs @ replicate n (0 :: u8)) = None"
proof (rule ccontr)
  let ?ys = "xs @ replicate n (0 :: u8)"
  assume "search pat ?ys \<noteq> None"
  then obtain i where "take (length pat) (drop i ?ys) = pat"
    using search_Some_iff [OF assms(2), of ?ys] by fastforce
  then have pat: "pat = take (length pat) (drop i xs) @ replicate (min (length pat - (length xs - i)) (n - (i - length xs))) 0"
    by simp
  then have "take (length pat) (drop i xs) = pat"
    using assms(3) by (metis Un_iff append.right_neutral in_set_replicate replicate_0 set_append)
  then show False
    using search_None_iff [OF assms(2), of xs] assms(1) by blast
qed

lemma supported_anchor30:
  assumes "take 5 bs = anchorString30" and "24 \<le> length bs" and "length bs \<le> smbiosTableStorageSize"
    and "search anchorString21 bs = None"
    and "\<lparr>majorVersion = bs ! 7, minorVersion = bs ! 8\<rparr> \<in> set supportedSMBIOSVersions"
  shows "supported_table bs"
proof -
  let ?m = "table_image bs"
  have len: "length ?m = smbiosTableStorageSize" using assms(3) by simp
  have no21: "search anchorString21 ?m = None"
    unfolding table_image_def using assms(4) by (rule search_pad) (simp_all add: anchorString21_def)
  have "length anchorString30 = 5" by (simp add: anchorString30_def)
  then have "take (length anchorString30) (drop 0 ?m) = anchorString30"
    using assms(1,2) by (simp add: table_image_def)
  then have s: "search anchorString30 ?m = Some 0"
    using search_Some_iff [of anchorString30 ?m 0] by (simp add: anchorString30_def)
  have "rd8 ?m 7 = Some (bs ! 7)" "rd8 ?m 8 = Some (bs ! 8)"
    using len assms(2) by (simp_all add: rd8_def table_image_def nth_append smbiosTableStorageSize_def)
  then show ?thesis
    using len s no21 assms(5)
    by (simp add: supported_table_def checkSMBIOSVersion_def rd_bytes_def
        smbiosTableStorageSize_def sizeof_EntryPointStructure30_def)
qed

lemma supported_smbios30_file:
  assumes "search anchorString21 (smbios30_file major minor maxSize ss) = None"
    and "\<lparr>majorVersion = major, minorVersion = minor\<rparr> \<in> set supportedSMBIOSVersions"
    and "length (smbios30_file major minor maxSize ss) \<le> smbiosTableStorageSize"
  shows "supported_table (smbios30_file major minor maxSize ss)"
  using assms
  by (intro supported_anchor30) (simp_all add: smbios30_file_def entry_point30_def anchorString30_def)

text \<open>An accepted upload leaves the table in the storage of the agent.\<close>

lemma upload_table_loaded:
  assumes "distinct_flags F" and "flags AND of_read F = 0" and "flags AND of_write F \<noteq> 0"
    and "env_writable env" and "wf_agent a"
    and "list_all (\<lambda>c. c \<noteq> []) chunks" and "concat chunks = smbios30_file major minor maxSize ss"
    and "list_all wf_struct ss" and "length (concat chunks) + 3 \<le> smbiosTableStorageSize"
    and "\<lparr>majorVersion = major, minorVersion = minor\<rparr> \<in> set supportedSMBIOSVersions"
    and "search anchorString21 (concat chunks) = None"
  shows "\<exists>b' a'. upload_table F env session flags chunks f a =
      (True, Some b', Some (file_image (now env) (concat chunks)), a')
    \<and> has_flag b' (sf_committed F) \<and> table_loaded (now env) (concat chunks) a'
    \<and> table_from (smbiosTableStorage a') 0 24 ss"
proof -
  have len: "length (concat chunks) \<le> maxBufferSize"
    using assms(9) by (simp add: maxBufferSize_def smbiosTableStorageSize_def)
  obtain b where b: "upload_table F env session flags chunks f a =
      blob_commit F env agent_call session [] (Some b, f, a)"
    "wf_blob F b" "sessionId b = session" "\<not> has_flag b (sf_committed F)" "buffer b = concat chunks"
    using upload_table_commit [OF assms(1-3,6) len] by blast
  have "supported_table (concat chunks)"
    using supported_smbios30_file assms(7,9-11) by simp
  then obtain b' a' where c: "upload_table F env session flags chunks f a =
      (True, Some b', Some (file_image (now env) (concat chunks)), a')"
    "has_flag b' (sf_committed F)" "table_loaded (now env) (concat chunks) a'"
    using agent_service.commit_accepted [OF assms(1) b(2-4) assms(4,5), of f] b(1,5) by auto
  moreover have "table_from (smbiosTableStorage a') 0 24 ss"
    using table_from_file [of ss major minor maxSize] assms(7-9) c(3)
    by (auto simp: table_loaded_def)
  ultimately show ?thesis by blast
qed

subsection \<open>Properties of an upload\<close>

text \<open>
  C2. End to end: a well-formed table of a supported version, uploaded in chunks over the blob
  interface, is accepted; the agent then has it loaded, and every lookup by type and index on the
  storage of the agent finds exactly the structures the host sent.
\<close>

theorem uploaded_table_is_served:
  assumes "distinct_flags F" and "flags AND of_read F = 0" and "flags AND of_write F \<noteq> 0"
    and "env_writable env" and "wf_agent a"
    and "list_all (\<lambda>c. c \<noteq> []) chunks" and "concat chunks = smbios30_file major minor maxSize ss"
    and "list_all wf_struct ss" and "length (concat chunks) + 3 \<le> smbiosTableStorageSize"
    and "\<lparr>majorVersion = major, minorVersion = minor\<rparr> \<in> set supportedSMBIOSVersions"
    and "search anchorString21 (concat chunks) = None"
  shows "\<exists>b' a'. upload_table F env session flags chunks f a =
      (True, Some b', Some (file_image (now env) (concat chunks)), a')
    \<and> has_flag b' (sf_committed F) \<and> table_loaded (now env) (concat chunks) a'
    \<and> (\<forall>t k. if unat k < length (of_type t ss)
         then \<exists>r rest. getSMBIOSTypeIndexPtr (smbiosTableStorage a') (At 0) t k = Some (At r)
                \<and> at_table (smbiosTableStorage a') r ((of_type t ss ! unat k) # rest)
         else getSMBIOSTypeIndexPtr (smbiosTableStorage a') (At 0) t k = Some Null)"
proof -
  obtain b' a' where c: "upload_table F env session flags chunks f a =
      (True, Some b', Some (file_image (now env) (concat chunks)), a')"
    "has_flag b' (sf_committed F)" "table_loaded (now env) (concat chunks) a'"
    and tf: "table_from (smbiosTableStorage a') 0 24 ss"
    using upload_table_loaded [OF assms] by blast
  have "table_repr (smbiosTableStorage a') 0 ss" using tf by (auto simp: table_repr_def)
  from smbios.lookup_hit [OF this] smbios.lookup_miss [OF this] show ?thesis
    using c by (intro exI [of _ b'] exI [of _ a']) (auto simp: not_less)
qed

definition example_upload :: "u8 list" where
  "example_upload = smbios30_file 3 3 50 [example_bios]"

lemma example_upload_bytes:
  "example_upload = [0x5F, 0x53, 0x4D, 0x33, 0x5F, 0, 24, 3, 3, 0, 1, 0, 50, 0, 0, 0, 24, 0, 0, 0, 0, 0, 0, 0,
     0, 6, 1, 0, 1, 2, 86, 101, 110, 100, 111, 114, 0, 49, 46, 48, 50, 0, 0, 0, 0]"
  by code_simp

lemma example_upload_no21: "search anchorString21 example_upload = None"
  by (simp add: example_upload_bytes anchorString21_def)

theorem uploaded_table_is_served_witness:
  "\<exists>b' a' r rest. upload_table example_flags example_env 7 2 [example_upload]
       None example_agent = (True, Some b', Some (file_image 5 example_upload), a')
     \<and> getSMBIOSTypeIndexPtr (smbiosTableStorage a') (At 0) 0 0 = Some (At r)
     \<and> at_table (smbiosTableStorage a') r (example_bios # rest)"
proof -
  have "2 AND of_read example_flags = 0" "2 AND of_write example_flags \<noteq> 0" "env_writable example_env"
    by (simp_all add: example_flags_def env_writable_def example_env_def)
  moreover have "list_all (\<lambda>c. c \<noteq> []) [example_upload]" "length (concat [example_upload]) + 3 \<le> smbiosTableStorageSize"
    by (simp_all add: example_upload_bytes smbiosTableStorageSize_def)
  moreover have "concat [example_upload] = smbios30_file 3 3 50 [example_bios]"
    by (simp add: example_upload_def)
  moreover have "list_all wf_struct [example_bios]"
    using example_wf by (simp add: example_table_def)
  moreover have "\<lparr>majorVersion = 3, minorVersion = 3\<rparr> \<in> set supportedSMBIOSVersions"
    by (simp add: supportedSMBIOSVersions_def)
  moreover have "search anchorString21 (concat [example_upload]) = None"
    using example_upload_no21 by simp
  ultimately obtain b' a' where r: "upload_table example_flags example_env 7 2 [example_upload] None
      example_agent = (True, Some b', Some (file_image (now example_env) (concat [example_upload])), a')"
    and l: "\<forall>t k. if unat k < length (of_type t [example_bios])
         then \<exists>r rest. getSMBIOSTypeIndexPtr (smbiosTableStorage a') (At 0) t k = Some (At r)
                \<and> at_table (smbiosTableStorage a') r ((of_type t [example_bios] ! unat k) # rest)
         else getSMBIOSTypeIndexPtr (smbiosTableStorage a') (At 0) t k = Some Null"
    using uploaded_table_is_served [OF example_flags_distinct _ _ _ example_agent_wf] by blast
  have "of_type 0 [example_bios] = [example_bios]" by (simp add: example_bios_def)
  then show ?thesis
    using r l [rule_format, of 0 0] by (simp add: example_env_def)
qed

text \<open>
  A table of an unsupported version is refused: the upload fails with a commit error, the blob
  keeps its contents so that it can be corrected and committed again, and the directory of the
  agent is unchanged; but the storage of the agent now holds the refused table.
\<close>

theorem unsupported_upload_refused:
  assumes "distinct_flags F" and "flags AND of_read F = 0" and "flags AND of_write F \<noteq> 0"
    and "env_writable env" and "wf_agent a"
    and "list_all (\<lambda>c. c \<noteq> []) chunks" and "length (concat chunks) \<le> 65536"
    and "\<not> supported_table (concat chunks)"
  shows "\<exists>b' a'. upload_table F env session flags chunks f a =
      (False, Some b', Some (file_image (now env) (concat chunks)), a')
    \<and> has_flag b' (sf_commit_error F) \<and> \<not> has_flag b' (sf_committed F) \<and> buffer b' = concat chunks
    \<and> smbiosDir a' = smbiosDir a \<and> smbiosTableStorage a' = table_image (concat chunks)"
proof -
  have len: "length (concat chunks) \<le> maxBufferSize" using assms(7) by (simp add: maxBufferSize_def)
  obtain b where b: "upload_table F env session flags chunks f a =
      blob_commit F env agent_call session [] (Some b, f, a)"
    "wf_blob F b" "sessionId b = session" "\<not> has_flag b (sf_committed F)" "buffer b = concat chunks"
    using upload_table_commit [OF assms(1-3,6) len] by blast
  have "\<not> supported_table (buffer b)" using assms(8) b(5) by simp
  from agent_service.commit_rejected [OF assms(1) b(2-4) assms(4,5) this, of f] show ?thesis
    using b(1,5) by (auto simp: table_refused_def)
qed


lemma unsupported_without_anchor:
  assumes "search anchorString21 bs = None" and "search anchorString30 bs = None"
    and "length bs \<le> smbiosTableStorageSize"
  shows "\<not> supported_table bs"
proof -
  have "search anchorString21 (table_image bs) = None" "search anchorString30 (table_image bs) = None"
    unfolding table_image_def using assms(1,2)
    by (intro search_pad; simp add: anchorString21_def anchorString30_def)+
  then show ?thesis
    using assms(3) by (simp add: supported_table_def checkSMBIOSVersion_def rd_bytes_def)
qed

theorem unsupported_upload_refused_witness:
  "\<exists>b' a'. upload_table example_flags example_env 7 2 [[1, 2], [3]] None example_agent =
     (False, Some b', Some (file_image 5 [1, 2, 3]), a') \<and> buffer b' = [1, 2, 3]"
proof -
  have "\<not> supported_table (concat [[1, 2], [3]])"
    by (rule unsupported_without_anchor)
       (simp_all add: anchorString21_def anchorString30_def smbiosTableStorageSize_def)
  then show ?thesis
    using unsupported_upload_refused [OF example_flags_distinct _ _ _ example_agent_wf,
        of 2 example_env "[[1, 2], [3]]" 7 None]
    by (auto simp: example_flags_def env_writable_def example_env_def)
qed

end
