(* ===== verification/Inventory_Dimm.thy ===== *)
theory Inventory_Dimm
  imports Smbios_Lookup
begin

text \<open>
  The memory module objects of \<open>src/dimm.cpp\<close> and \<open>include/dimm.hpp\<close>: the decoding of a
  memory device structure (type 17) into the D-Bus properties of a DIMM, with the error
  correction type taken from the physical memory array (type 16) it refers to. The property
  setters of the class pass their argument to the generated D-Bus classes, which store it. Trimming a string is a function
  of the Boost library and a parameter here.
\<close>

subsection \<open>Tables\<close>

datatype DeviceType =
    DT_Other | DT_Unknown | DT_DRAM | DT_EDRAM | DT_VRAM | DT_SRAM | DT_RAM | DT_ROM
  | DT_FLASH | DT_EEPROM | DT_FEPROM | DT_EPROM | DT_CDRAM | DT_ThreeDRAM | DT_SDRAM
  | DT_DDR_SGRAM | DT_RDRAM | DT_DDR | DT_DDR2 | DT_DDR2_SDRAM_FB_DIMM | DT_DDR3 | DT_FBD2
  | DT_DDR4 | DT_LPDDR_SDRAM | DT_LPDDR2_SDRAM | DT_LPDDR3_SDRAM | DT_LPDDR4_SDRAM
  | DT_Logical | DT_HBM | DT_HBM2 | DT_DDR5 | DT_LPDDR5_SDRAM

datatype EccType =
    NoECC | AddressParity | SingleBitECC | MultiBitECC

datatype MemoryTechType =
    MT_Other | MT_Unknown | MT_DRAM | MT_NVDIMM_N | MT_NVDIMM_F | MT_NVDIMM_P | MT_IntelOptane

definition dimmTypeTable :: "(u8 \<times> DeviceType) list" where
  "dimmTypeTable =
     [(0x1, DT_Other), (0x2, DT_Unknown), (0x3, DT_DRAM), (0x4, DT_EDRAM), (0x5, DT_VRAM),
      (0x6, DT_SRAM), (0x7, DT_RAM), (0x8, DT_ROM), (0x9, DT_FLASH), (0xa, DT_EEPROM),
      (0xb, DT_FEPROM), (0xc, DT_EPROM), (0xd, DT_CDRAM), (0xe, DT_ThreeDRAM),
      (0xf, DT_SDRAM), (0x10, DT_DDR_SGRAM), (0x11, DT_RDRAM), (0x12, DT_DDR),
      (0x13, DT_DDR2), (0x14, DT_DDR2_SDRAM_FB_DIMM), (0x18, DT_DDR3), (0x19, DT_FBD2),
      (0x1a, DT_DDR4), (0x1b, DT_LPDDR_SDRAM), (0x1c, DT_LPDDR2_SDRAM),
      (0x1d, DT_LPDDR3_SDRAM), (0x1e, DT_LPDDR4_SDRAM), (0x1f, DT_Logical), (0x20, DT_HBM),
      (0x21, DT_HBM2), (0x22, DT_DDR5), (0x23, DT_LPDDR5_SDRAM)]"

definition detailTable :: "string list" where
  "detailTable =
     [''Reserved'', ''Other'', ''Unknown'', ''Fast-paged'', ''Static column'',
      ''Pseudo-static'', ''RAMBUS'', ''Synchronous'', ''CMOS'', ''EDO'', ''Window DRAM'',
      ''Cache DRAM'', ''Non-volatile'', ''Registered'', ''Unbuffered'', ''LRDIMM'']"

definition dimmEccTypeMap :: "(u8 \<times> EccType) list" where
  "dimmEccTypeMap =
     [(0x1, NoECC), (0x2, NoECC), (0x3, NoECC), (0x4, AddressParity), (0x5, SingleBitECC),
      (0x6, MultiBitECC), (0x7, NoECC)]"

definition dimmMemoryTechTypeMap :: "(u8 \<times> MemoryTechType) list" where
  "dimmMemoryTechTypeMap =
     [(0x1, MT_Other), (0x2, MT_Unknown), (0x3, MT_DRAM), (0x4, MT_NVDIMM_N),
      (0x5, MT_NVDIMM_F), (0x6, MT_NVDIMM_P), (0x7, MT_IntelOptane)]"

subsection \<open>The memory device structure\<close>

text \<open>
  \<open>MemoryInfo\<close> is packed; a field is read where the code uses it. Nothing checks that the
  structure is long enough to have the field.
\<close>

definition sizeof_MemoryInfo :: nat where "sizeof_MemoryInfo = 84"

definition mi_type :: "memory \<Rightarrow> nat \<Rightarrow> u8 checked" where [field_defs]:
  "mi_type m p = rd8 m p"

definition mi_length :: "memory \<Rightarrow> nat \<Rightarrow> u8 checked" where [field_defs]:
  "mi_length m p = rd8 m (p + 1)"

definition mi_handle :: "memory \<Rightarrow> nat \<Rightarrow> u16 checked" where [field_defs]:
  "mi_handle m p = rd16 m (p + 2)"

definition mi_phyArrayHandle :: "memory \<Rightarrow> nat \<Rightarrow> u16 checked" where [field_defs]:
  "mi_phyArrayHandle m p = rd16 m (p + 4)"

definition mi_errInfoHandle :: "memory \<Rightarrow> nat \<Rightarrow> u16 checked" where [field_defs]:
  "mi_errInfoHandle m p = rd16 m (p + 6)"

definition mi_totalWidth :: "memory \<Rightarrow> nat \<Rightarrow> u16 checked" where [field_defs]:
  "mi_totalWidth m p = rd16 m (p + 8)"

definition mi_dataWidth :: "memory \<Rightarrow> nat \<Rightarrow> u16 checked" where [field_defs]:
  "mi_dataWidth m p = rd16 m (p + 10)"

definition mi_size :: "memory \<Rightarrow> nat \<Rightarrow> u16 checked" where [field_defs]:
  "mi_size m p = rd16 m (p + 12)"

definition mi_formFactor :: "memory \<Rightarrow> nat \<Rightarrow> u8 checked" where [field_defs]:
  "mi_formFactor m p = rd8 m (p + 14)"

definition mi_deviceSet :: "memory \<Rightarrow> nat \<Rightarrow> u8 checked" where [field_defs]:
  "mi_deviceSet m p = rd8 m (p + 15)"

definition mi_deviceLocator :: "memory \<Rightarrow> nat \<Rightarrow> u8 checked" where [field_defs]:
  "mi_deviceLocator m p = rd8 m (p + 16)"

definition mi_bankLocator :: "memory \<Rightarrow> nat \<Rightarrow> u8 checked" where [field_defs]:
  "mi_bankLocator m p = rd8 m (p + 17)"

definition mi_memoryType :: "memory \<Rightarrow> nat \<Rightarrow> u8 checked" where [field_defs]:
  "mi_memoryType m p = rd8 m (p + 18)"

definition mi_typeDetail :: "memory \<Rightarrow> nat \<Rightarrow> u16 checked" where [field_defs]:
  "mi_typeDetail m p = rd16 m (p + 19)"

definition mi_speed :: "memory \<Rightarrow> nat \<Rightarrow> u16 checked" where [field_defs]:
  "mi_speed m p = rd16 m (p + 21)"

definition mi_manufacturer :: "memory \<Rightarrow> nat \<Rightarrow> u8 checked" where [field_defs]:
  "mi_manufacturer m p = rd8 m (p + 23)"

definition mi_serialNum :: "memory \<Rightarrow> nat \<Rightarrow> u8 checked" where [field_defs]:
  "mi_serialNum m p = rd8 m (p + 24)"

definition mi_assetTag :: "memory \<Rightarrow> nat \<Rightarrow> u8 checked" where [field_defs]:
  "mi_assetTag m p = rd8 m (p + 25)"

definition mi_partNum :: "memory \<Rightarrow> nat \<Rightarrow> u8 checked" where [field_defs]:
  "mi_partNum m p = rd8 m (p + 26)"

definition mi_attributes :: "memory \<Rightarrow> nat \<Rightarrow> u8 checked" where [field_defs]:
  "mi_attributes m p = rd8 m (p + 27)"

definition mi_extendedSize :: "memory \<Rightarrow> nat \<Rightarrow> u32 checked" where [field_defs]:
  "mi_extendedSize m p = rd32 m (p + 28)"

definition mi_confClockSpeed :: "memory \<Rightarrow> nat \<Rightarrow> u16 checked" where [field_defs]:
  "mi_confClockSpeed m p = rd16 m (p + 32)"

definition mi_minimumVoltage :: "memory \<Rightarrow> nat \<Rightarrow> u16 checked" where [field_defs]:
  "mi_minimumVoltage m p = rd16 m (p + 34)"

definition mi_maximumVoltage :: "memory \<Rightarrow> nat \<Rightarrow> u16 checked" where [field_defs]:
  "mi_maximumVoltage m p = rd16 m (p + 36)"

definition mi_configuredVoltage :: "memory \<Rightarrow> nat \<Rightarrow> u16 checked" where [field_defs]:
  "mi_configuredVoltage m p = rd16 m (p + 38)"

definition mi_memoryTechnology :: "memory \<Rightarrow> nat \<Rightarrow> u8 checked" where [field_defs]:
  "mi_memoryTechnology m p = rd8 m (p + 40)"

definition mi_memoryOperatingModeCap :: "memory \<Rightarrow> nat \<Rightarrow> u16 checked" where [field_defs]:
  "mi_memoryOperatingModeCap m p = rd16 m (p + 41)"

definition mi_firwareVersion :: "memory \<Rightarrow> nat \<Rightarrow> u8 checked" where [field_defs]:
  "mi_firwareVersion m p = rd8 m (p + 43)"

definition mi_modelManufId :: "memory \<Rightarrow> nat \<Rightarrow> u16 checked" where [field_defs]:
  "mi_modelManufId m p = rd16 m (p + 44)"

definition mi_modelProdId :: "memory \<Rightarrow> nat \<Rightarrow> u16 checked" where [field_defs]:
  "mi_modelProdId m p = rd16 m (p + 46)"

definition mi_memSubConManufId :: "memory \<Rightarrow> nat \<Rightarrow> u16 checked" where [field_defs]:
  "mi_memSubConManufId m p = rd16 m (p + 48)"

definition mi_memSubConProdId :: "memory \<Rightarrow> nat \<Rightarrow> u16 checked" where [field_defs]:
  "mi_memSubConProdId m p = rd16 m (p + 50)"

definition mi_nvSize :: "memory \<Rightarrow> nat \<Rightarrow> u64 checked" where [field_defs]:
  "mi_nvSize m p = rd64 m (p + 52)"

definition mi_volatileSize :: "memory \<Rightarrow> nat \<Rightarrow> u64 checked" where [field_defs]:
  "mi_volatileSize m p = rd64 m (p + 60)"

definition mi_cacheSize :: "memory \<Rightarrow> nat \<Rightarrow> u64 checked" where [field_defs]:
  "mi_cacheSize m p = rd64 m (p + 68)"

definition mi_logicalSize :: "memory \<Rightarrow> nat \<Rightarrow> u64 checked" where [field_defs]:
  "mi_logicalSize m p = rd64 m (p + 76)"

text \<open>The two fields of \<open>PhysicalMemoryArrayInfo\<close> that are used.\<close>

definition pma_handle :: "memory \<Rightarrow> nat \<Rightarrow> u16 checked" where [field_defs]:
  "pma_handle m p = rd16 m (p + 2)"

definition pma_memoryErrorCorrection :: "memory \<Rightarrow> nat \<Rightarrow> u8 checked" where [field_defs]:
  "pma_memoryErrorCorrection m p = rd8 m (p + 6)"

subsection \<open>The object\<close>

record Dimm =
  dimm_totalWidth :: u16
  dimm_dataWidth :: u16
  dimm_sizeInKB :: u64
  dimm_present :: bool
  dimm_functional :: bool
  dimm_deviceLocator :: string
  dimm_locationCode :: string
  dimm_socket :: u8
  dimm_slot :: u8
  dimm_memoryType :: DeviceType
  dimm_typeDetail :: string
  dimm_maxSpeed :: u16
  dimm_manufacturer :: string
  dimm_serialNumber :: string
  dimm_partNumber :: string
  dimm_attributes :: u64
  dimm_media :: MemoryTechType
  dimm_configuredSpeed :: u16
  dimm_ecc :: EccType
  dimm_associations :: "(string \<times> string \<times> string) list"

text \<open>The build options \<open>DIMM_ONLY_LOCATOR\<close> and \<open>DIMM_LOCATION_CODE\<close>.\<close>

record dimm_config =
  onlyDimmLocationCode :: bool
  withLocationCode :: bool

text \<open>The setters of the class: each passes its argument on to the generated interface, which stores it.\<close>

definition Dimm_ecc :: "EccType \<Rightarrow> Dimm \<Rightarrow> Dimm" where [simp]:
  "Dimm_ecc value d = d\<lparr>dimm_ecc := value\<rparr>"

definition Dimm_memoryTotalWidth :: "u16 \<Rightarrow> Dimm \<Rightarrow> Dimm" where [simp]:
  "Dimm_memoryTotalWidth value d = d\<lparr>dimm_totalWidth := value\<rparr>"

definition Dimm_memoryDataWidth :: "u16 \<Rightarrow> Dimm \<Rightarrow> Dimm" where [simp]:
  "Dimm_memoryDataWidth value d = d\<lparr>dimm_dataWidth := value\<rparr>"

definition Dimm_memorySizeInKB :: "u64 \<Rightarrow> Dimm \<Rightarrow> Dimm" where [simp]:
  "Dimm_memorySizeInKB value d = d\<lparr>dimm_sizeInKB := value\<rparr>"

definition Dimm_memoryDeviceLocator :: "string \<Rightarrow> Dimm \<Rightarrow> Dimm" where [simp]:
  "Dimm_memoryDeviceLocator value d = d\<lparr>dimm_deviceLocator := value\<rparr>"

definition Dimm_memoryType :: "DeviceType \<Rightarrow> Dimm \<Rightarrow> Dimm" where [simp]:
  "Dimm_memoryType value d = d\<lparr>dimm_memoryType := value\<rparr>"

definition Dimm_memoryMedia :: "MemoryTechType \<Rightarrow> Dimm \<Rightarrow> Dimm" where [simp]:
  "Dimm_memoryMedia value d = d\<lparr>dimm_media := value\<rparr>"

definition Dimm_memoryTypeDetail :: "string \<Rightarrow> Dimm \<Rightarrow> Dimm" where [simp]:
  "Dimm_memoryTypeDetail value d = d\<lparr>dimm_typeDetail := value\<rparr>"

definition Dimm_maxMemorySpeedInMhz :: "u16 \<Rightarrow> Dimm \<Rightarrow> Dimm" where [simp]:
  "Dimm_maxMemorySpeedInMhz value d = d\<lparr>dimm_maxSpeed := value\<rparr>"

definition Dimm_manufacturer :: "string \<Rightarrow> Dimm \<Rightarrow> Dimm" where [simp]:
  "Dimm_manufacturer value d = d\<lparr>dimm_manufacturer := value\<rparr>"

definition Dimm_present :: "bool \<Rightarrow> Dimm \<Rightarrow> Dimm" where [simp]:
  "Dimm_present value d = d\<lparr>dimm_present := value\<rparr>"

definition Dimm_serialNumber :: "string \<Rightarrow> Dimm \<Rightarrow> Dimm" where [simp]:
  "Dimm_serialNumber value d = d\<lparr>dimm_serialNumber := value\<rparr>"

definition Dimm_partNumber :: "string \<Rightarrow> Dimm \<Rightarrow> Dimm" where [simp]:
  "Dimm_partNumber value d = d\<lparr>dimm_partNumber := value\<rparr>"

definition Dimm_memoryAttributes :: "u64 \<Rightarrow> Dimm \<Rightarrow> Dimm" where [simp]:
  "Dimm_memoryAttributes value d = d\<lparr>dimm_attributes := value\<rparr>"

definition Dimm_slot :: "u8 \<Rightarrow> Dimm \<Rightarrow> Dimm" where [simp]:
  "Dimm_slot value d = d\<lparr>dimm_slot := value\<rparr>"

definition Dimm_socket :: "u8 \<Rightarrow> Dimm \<Rightarrow> Dimm" where [simp]:
  "Dimm_socket value d = d\<lparr>dimm_socket := value\<rparr>"

definition Dimm_memoryConfiguredSpeedInMhz :: "u16 \<Rightarrow> Dimm \<Rightarrow> Dimm" where [simp]:
  "Dimm_memoryConfiguredSpeedInMhz value d = d\<lparr>dimm_configuredSpeed := value\<rparr>"

definition Dimm_functional :: "bool \<Rightarrow> Dimm \<Rightarrow> Dimm" where [simp]:
  "Dimm_functional value d = d\<lparr>dimm_functional := value\<rparr>"

text \<open>The location code exists with \<open>DIMM_LOCATION_CODE\<close> only.\<close>

definition Dimm_locationCode :: "dimm_config \<Rightarrow> string \<Rightarrow> Dimm \<Rightarrow> Dimm" where [simp]:
  "Dimm_locationCode cfg value d = (if withLocationCode cfg then d\<lparr>dimm_locationCode := value\<rparr> else d)"

definition maxOldDimmSize :: u16 where "maxOldDimmSize = 0x7fff"

definition baseNewVersionDimmSize :: u16 where "baseNewVersionDimmSize = 0x8000"

definition dimmSizeUnit :: u32 where "dimmSizeUnit = 1024"

definition dimmSize :: "u16 \<Rightarrow> Dimm \<Rightarrow> Dimm" where
  "dimmSize sz d =
     (let low = ucast (sz AND maxOldDimmSize) :: u32;
          result = (if sz AND baseNewVersionDimmSize = 0 then low * dimmSizeUnit else low)
      in Dimm_memorySizeInKB (ucast result) d)"

text \<open>The multiplication is made at 32 bits and wraps.\<close>

definition dimmSizeExt :: "u32 \<Rightarrow> Dimm \<Rightarrow> Dimm" where
  "dimmSizeExt sz d = Dimm_memorySizeInKB (ucast (sz * dimmSizeUnit)) d"

text \<open>\<open>std::stoi\<close> on a string of at most one character.\<close>

definition is_digit :: "char \<Rightarrow> bool" where
  "is_digit c \<longleftrightarrow> 48 \<le> (of_char c :: nat) \<and> (of_char c :: nat) \<le> 57"

fun stoi_char :: "string \<Rightarrow> exn + nat" where
  "stoi_char (c # cs) = (if is_digit c then Inr (of_char c - 48) else Inl Invalid_argument)"
| "stoi_char [] = Inl Invalid_argument"

definition is_alpha :: "char \<Rightarrow> bool" where
  "is_alpha c \<longleftrightarrow> (65 \<le> (of_char c :: nat) \<and> (of_char c :: nat) \<le> 90)
     \<or> (97 \<le> (of_char c :: nat) \<and> (of_char c :: nat) \<le> 122)"

definition toupper_code :: "char \<Rightarrow> u8" where
  "toupper_code c =
     (if 97 \<le> (of_char c :: nat) \<and> (of_char c :: nat) \<le> 122 then byte_of_char c - 32 else byte_of_char c)"

text \<open>
  The socket number is the digit after \<open>CPU\<close>; the handler around \<open>stoi\<close> catches D-Bus
  exceptions only, so the standard exception of \<open>stoi\<close> leaves the method. The slot is the letter
  after \<open>DIMM_\<close>; \<open>substr\<close> throws when the string ends with \<open>DIMM\<close>.
\<close>

definition locator_socket :: "string \<Rightarrow> Dimm \<Rightarrow> exn + Dimm" where
  "locator_socket deviceLocator d = (case search ''CPU'' deviceLocator of
      None \<Rightarrow> Inr d
    | Some cpuPos \<Rightarrow>
       (case stoi_char (take 1 (drop (cpuPos + 3) deviceLocator)) of
          Inl e \<Rightarrow> Inl e
        | Inr n \<Rightarrow> Inr (Dimm_socket (word_of_nat (n + 1)) d)))"

definition locator_slot :: "string \<Rightarrow> Dimm \<Rightarrow> exn + Dimm" where
  "locator_slot deviceLocator d = (case search ''DIMM'' deviceLocator of
      None \<Rightarrow> Inr d
    | Some dimmPos \<Rightarrow>
        if length deviceLocator < dimmPos + 4 + 1 then Inl Out_of_range
        else let slotString = drop (dimmPos + 4 + 1) deviceLocator in
          if slotString \<noteq> [] \<and> list_all is_alpha slotString \<and> length slotString = 1
          then Inr (Dimm_slot (toupper_code (slotString ! 0)) d) else Inr d)"

definition dimmDeviceLocator ::
  "dimm_config \<Rightarrow> u8 \<Rightarrow> u8 \<Rightarrow> u8 \<Rightarrow> memory \<Rightarrow> nat \<Rightarrow> Dimm \<Rightarrow> Dimm throwing"
where
  "dimmDeviceLocator cfg bankLocatorPositionNum deviceLocatorPositionNum structLen m p d = do {
     deviceLocator \<leftarrow> positionToString deviceLocatorPositionNum structLen m (At p);
     bankLocator \<leftarrow> positionToString bankLocatorPositionNum structLen m (At p);
     let result = (if bankLocator = [] \<or> onlyDimmLocationCode cfg then deviceLocator
                   else bankLocator @ '' '' @ deviceLocator);
     let d1 = Dimm_memoryDeviceLocator result d;
     let d2 = Dimm_locationCode cfg result d1;
     Some (case locator_socket deviceLocator d2 of
             Inl e \<Rightarrow> Inl e
           | Inr d3 \<Rightarrow> locator_slot deviceLocator d3) }"

definition dimmType :: "u8 \<Rightarrow> Dimm \<Rightarrow> Dimm" where
  "dimmType ty d = (case map_of dimmTypeTable ty of
      None \<Rightarrow> Dimm_memoryType DT_Unknown d
    | Some t \<Rightarrow> Dimm_memoryType t d)"

definition dimmMedia :: "u8 \<Rightarrow> Dimm \<Rightarrow> Dimm" where
  "dimmMedia ty d = (case map_of dimmMemoryTechTypeMap ty of
      None \<Rightarrow> Dimm_memoryMedia MT_Unknown d
    | Some t \<Rightarrow> Dimm_memoryMedia t d)"

text \<open>The loop appends the names of the set bits, lowest first, and shifts the detail word.\<close>

fun detail_loop :: "nat list \<Rightarrow> u16 \<Rightarrow> string \<Rightarrow> string" where
  "detail_loop [] detail result = result"
| "detail_loop (index # is) detail result =
     detail_loop is (drop_bit 1 detail)
       (if detail AND 1 \<noteq> 0 then result @ detailTable ! index else result)"

definition dimmTypeDetail :: "u16 \<Rightarrow> Dimm \<Rightarrow> Dimm" where
  "dimmTypeDetail detail d = Dimm_memoryTypeDetail (detail_loop [0 ..< 16] detail []) d"

definition dimmManufacturer :: "u8 \<Rightarrow> u8 \<Rightarrow> memory \<Rightarrow> nat \<Rightarrow> Dimm \<Rightarrow> Dimm checked" where
  "dimmManufacturer positionNum structLen m p d = do {
     result \<leftarrow> positionToString positionNum structLen m (At p);
     Some (Dimm_manufacturer (if result = ''NO DIMM'' then [] else result) d) }"

definition dimmSerialNum :: "u8 \<Rightarrow> u8 \<Rightarrow> memory \<Rightarrow> nat \<Rightarrow> Dimm \<Rightarrow> Dimm checked" where
  "dimmSerialNum positionNum structLen m p d = do {
     result \<leftarrow> positionToString positionNum structLen m (At p);
     Some (Dimm_serialNumber result d) }"

definition dimmPartNum ::
  "(string \<Rightarrow> string) \<Rightarrow> u8 \<Rightarrow> u8 \<Rightarrow> memory \<Rightarrow> nat \<Rightarrow> Dimm \<Rightarrow> Dimm checked"
where
  "dimmPartNum trim_right positionNum structLen m p d = do {
     result \<leftarrow> positionToString positionNum structLen m (At p);
     Some (Dimm_partNumber (trim_right result) d) }"

function ecc_loop :: "memory \<Rightarrow> nat \<Rightarrow> u16 \<Rightarrow> u8 option checked" where
  "ecc_loop m p exPhyArrayHandle = do {
     hit \<leftarrow> getSMBIOSTypePtr m (At p) (type_code physicalMemoryArrayType) 0;
     (case hit of
        Null \<Rightarrow> Some None
      | At q \<Rightarrow> do {
          handle \<leftarrow> pma_handle m q;
          if handle = exPhyArrayHandle
          then map_option Some (pma_memoryErrorCorrection m q)
          else do {
            nx \<leftarrow> smbiosNextPtr m (At q);
            (case nx of Null \<Rightarrow> Some None | At r \<Rightarrow> ecc_loop m r exPhyArrayHandle) } }) }"
  by pat_completeness auto
termination
proof (relation "measure (\<lambda>(m, p, h). length m - p)")
  show "wf (measure (\<lambda>(m :: memory, p :: nat, h :: u16). length m - p))" by simp
next
  fix m p and h :: u16 and hit q x nx r
  assume "getSMBIOSTypePtr m (At p) (type_code physicalMemoryArrayType) 0 = Some hit" "hit = At q"
    "smbiosNextPtr m (At q) = Some nx" "nx = At r"
  then show "((m, r, h), m, p, h) \<in> measure (\<lambda>(m, p, h). length m - p)"
    using walk_decreases by simp
qed

declare ecc_loop.simps [simp del]

definition updateEccType :: "memory \<Rightarrow> ptr \<Rightarrow> u16 \<Rightarrow> Dimm \<Rightarrow> Dimm checked" where
  "updateEccType m storage exPhyArrayHandle d = (case storage of
      Null \<Rightarrow> Some d
    | At p \<Rightarrow> do {
        found \<leftarrow> ecc_loop m p exPhyArrayHandle;
        Some (case found of
                None \<Rightarrow> d
              | Some code \<Rightarrow>
                 (case map_of dimmEccTypeMap code of
                    None \<Rightarrow> Dimm_ecc NoECC d
                  | Some e \<Rightarrow> Dimm_ecc e d)) })"

text \<open>
  \<open>memoryInfoUpdate\<close> in the order of the code, from the structure that the loop at its start
  finds. The loop is the one of \<open>getSMBIOSTypeIndexPtr\<close> written out.
\<close>

definition memory_before_locator :: "memory \<Rightarrow> nat \<Rightarrow> Dimm \<Rightarrow> Dimm checked" where
  "memory_before_locator m p d = do {
     totalWidth \<leftarrow> mi_totalWidth m p;
     dataWidth \<leftarrow> mi_dataWidth m p;
     let d1 = Dimm_memoryTotalWidth totalWidth (Dimm_memoryDataWidth dataWidth (Dimm_memoryTotalWidth totalWidth d));
     sz \<leftarrow> mi_size m p;
     d2 \<leftarrow> (if sz = maxOldDimmSize
            then do { ext \<leftarrow> mi_extendedSize m p; Some (dimmSizeExt ext d1) }
            else Some (dimmSize sz d1));
     let isDimmPresent = (0 < sz);
     Some (Dimm_functional isDimmPresent (Dimm_present isDimmPresent d2)) }"

definition memory_after_locator ::
  "(string \<Rightarrow> string) \<Rightarrow> memory \<Rightarrow> ptr \<Rightarrow> string \<Rightarrow> nat \<Rightarrow> Dimm \<Rightarrow> Dimm checked"
where
  "memory_after_locator trim_right m storage motherboardPath p d = do {
     len \<leftarrow> mi_length m p;
     ty \<leftarrow> mi_memoryType m p;
     let d1 = dimmType ty d;
     detail \<leftarrow> mi_typeDetail m p;
     let d2 = dimmTypeDetail detail d1;
     speed \<leftarrow> mi_speed m p;
     let d3 = Dimm_maxMemorySpeedInMhz speed d2;
     mf \<leftarrow> mi_manufacturer m p;
     d4 \<leftarrow> dimmManufacturer mf len m p d3;
     sn \<leftarrow> mi_serialNum m p;
     d5 \<leftarrow> dimmSerialNum sn len m p d4;
     pn \<leftarrow> mi_partNum m p;
     d6 \<leftarrow> dimmPartNum trim_right pn len m p d5;
     attr \<leftarrow> mi_attributes m p;
     let d7 = Dimm_memoryAttributes (ucast attr) d6;
     tech \<leftarrow> mi_memoryTechnology m p;
     let d8 = dimmMedia tech d7;
     conf \<leftarrow> mi_confClockSpeed m p;
     let d9 = Dimm_memoryConfiguredSpeedInMhz conf d8;
     ph \<leftarrow> mi_phyArrayHandle m p;
     d10 \<leftarrow> updateEccType m storage ph d9;
     Some (if motherboardPath \<noteq> []
           then d10\<lparr>dimm_associations := [(''chassis'', ''memories'', motherboardPath)]\<rparr>
           else d10) }"

definition memoryInfoUpdate ::
  "dimm_config \<Rightarrow> (string \<Rightarrow> string) \<Rightarrow> memory \<Rightarrow> ptr \<Rightarrow> u8 \<Rightarrow> string \<Rightarrow> Dimm \<Rightarrow> Dimm throwing"
where
  "memoryInfoUpdate cfg trim_right m storage dimmNum motherboard d = do {
     dataIn \<leftarrow> getSMBIOSTypeIndexPtr m storage (type_code memoryDeviceType) dimmNum;
     (case dataIn of
        Null \<Rightarrow> Some (Inr d)
      | At p \<Rightarrow> do {
          d1 \<leftarrow> memory_before_locator m p d;
          bank \<leftarrow> mi_bankLocator m p;
          dev \<leftarrow> mi_deviceLocator m p;
          len \<leftarrow> mi_length m p;
          r \<leftarrow> dimmDeviceLocator cfg bank dev len m p d1;
          (case r of
             Inl e \<Rightarrow> Some (Inl e)
           | Inr d2 \<Rightarrow> map_option Inr (memory_after_locator trim_right m storage motherboard p d2)) }) }"

subsection \<open>Sizes, locators and names\<close>

lemma dimmSize_exact:
  "unat (dimm_sizeInKB (dimmSize sz d)) =
     (if bit sz 15 then unat (sz AND 0x7fff) else unat (sz AND 0x7fff) * 1024)"
proof -
  have low: "unat (sz AND 0x7fff) \<le> 0x7fff"
    using word_and_le1 [of sz "0x7fff"] by (simp add: word_le_nat_alt)
  have "(sz AND baseNewVersionDimmSize = 0) \<longleftrightarrow> \<not> bit sz 15"
    using bit_iff_and_push_bit_not_eq_0 [of sz 15] by (simp add: baseNewVersionDimmSize_def)
  moreover have "unat (ucast (sz AND 0x7fff) * 1024 :: u32) = unat (sz AND 0x7fff) * 1024"
    using low by (simp add: unat_word_ariths unat_ucast_up)
  ultimately show ?thesis
    using low
    by (simp add: dimmSize_def maxOldDimmSize_def dimmSizeUnit_def Let_def unat_ucast_up)
qed

lemma dimmSizeExt_wraps:
  "unat (dimm_sizeInKB (dimmSizeExt sz d)) = (unat sz * 1024) mod 2 ^ 32"
  by (simp add: dimmSizeExt_def dimmSizeUnit_def unat_word_ariths unat_ucast_up)

lemma detail_loop_acc: "detail_loop js w acc = acc @ detail_loop js w []"
proof (induction js arbitrary: w acc)
  case Nil
  then show ?case by simp
next
  case (Cons i js)
  show ?case
    using Cons [of "drop_bit 1 w" "acc @ detailTable ! i"] Cons [of "drop_bit 1 w" acc]
      Cons [of "drop_bit 1 w" "detailTable ! i"]
    by simp
qed

lemma detail_loop_bits:
  "detail_loop [k ..< k + n] (drop_bit k w) [] =
     concat (map (\<lambda>i. if bit w i then detailTable ! i else []) [k ..< k + n])"
proof (induction n arbitrary: k)
  case 0
  then show ?case by simp
next
  case (Suc n)
  have b: "drop_bit k w AND 1 \<noteq> 0 \<longleftrightarrow> bit w k"
    by (simp add: and_one_eq bit_iff_odd_drop_bit odd_iff_mod_2_eq_one)
  have "[k ..< k + Suc n] = k # [Suc k ..< Suc k + n]"
    by (simp add: upt_conv_Cons)
  then show ?case
    using Suc [of "Suc k"] b detail_loop_acc [of "[Suc k ..< Suc k + n]" _ "detailTable ! k"]
    by (simp add: drop_bit_drop_bit)
qed

lemma stoi_char_Inl: "stoi_char s = Inl e \<longleftrightarrow> e = Invalid_argument \<and> (s = [] \<or> \<not> is_digit (hd s))"
  by (cases s) auto

lemma locator_socket_throws:
  "(\<exists>e. locator_socket loc d = Inl e) \<longleftrightarrow>
     (\<exists>i. search ''CPU'' loc = Some i \<and> (length loc \<le> i + 3 \<or> \<not> is_digit (loc ! (i + 3))))"
proof (cases "search ''CPU'' loc")
  case None
  then show ?thesis by (simp add: locator_socket_def)
next
  case (Some i)
  have "take 1 (drop (i + 3) loc) = (if length loc \<le> i + 3 then [] else [loc ! (i + 3)])"
    by (auto simp: take_Suc hd_drop_conv_nth)
  then show ?thesis
    using Some by (auto simp: locator_socket_def)
qed

lemma locator_slot_throws:
  "(\<exists>e. locator_slot loc d = Inl e) \<longleftrightarrow> (\<exists>i. search ''DIMM'' loc = Some i \<and> length loc = i + 4)"
proof -
  have "i + 4 \<le> length loc" if "search ''DIMM'' loc = Some i" for i
  proof -
    have "take 4 (drop i loc) = ''DIMM''"
      using that search_Some_iff [of "''DIMM''" loc i]
      by (simp add: eval_nat_numeral)
    from arg_cong [OF this, of length] show ?thesis by simp
  qed
  then show ?thesis
    by (cases "search ''DIMM'' loc") (auto simp: locator_slot_def Let_def le_antisym)
qed

subsection \<open>A memory device of an encoded table\<close>

lemma ecc_loop_table:
  assumes "at_table m p ss"
    and "\<forall>s \<in> set ss. s_type s = 16 \<longrightarrow> 7 \<le> s_length s"
  shows "ecc_loop m p h =
    Some (map_option (\<lambda>s. sf8 s 6) (List.find (\<lambda>s. s_type s = 16 \<and> s_handle s = h) ss))"
  using assms
proof (induction "length ss" arbitrary: p ss rule: less_induct)
  case less
  have skip: "List.find (\<lambda>s. s_type s = 16 \<and> s_handle s = h) ss =
      List.find (\<lambda>s. s_type s = 16 \<and> s_handle s = h) (from_type 16 ss)" for ss
    by (induction ss) auto
  show ?case
  proof (cases "from_type 16 ss")
    case Nil
    then show ?thesis
      using getSMBIOSTypePtr_table [OF less.prems(1), of 16] skip [of ss]
      by (subst ecc_loop.simps) (simp add: table_ptr_def)
  next
    case (Cons s rest)
    let ?q = "p + (enc_len ss - enc_len (s # rest))"
    have at: "at_table m ?q (s # rest)" by (rule at_table_from_type [OF less.prems(1) Cons])
    have st: "s_type s = 16" by (rule from_type_Cons [OF Cons])
    have sub: "set (s # rest) \<subseteq> set ss"
      using from_type_suffix [of ss 16] Cons by (metis Un_upper2 set_append)
    have "7 \<le> s_length s" using less.prems(2) sub st by auto
    then have code: "rd8 m (?q + 6) = Some (sf8 s 6)"
      using at_table_fields(1) [OF at, of 6] by simp
    have hit: "getSMBIOSTypePtr m (At p) 16 0 = Some (At ?q)"
      using getSMBIOSTypePtr_table [OF less.prems(1), of 16] Cons by (simp add: table_ptr_def)
    have shorter: "length rest < length ss"
      using from_type_suffix [of ss 16] Cons by auto
    have IH: "ecc_loop m (?q + length (encode_struct s)) h = Some (map_option (\<lambda>s. sf8 s 6)
        (List.find (\<lambda>s. s_type s = 16 \<and> s_handle s = h) rest))"
      using less.hyps [OF shorter at_tableD(3) [OF at]] less.prems(2) sub by auto
    have "ecc_loop m p h = (if s_handle s = h then Some (Some (sf8 s 6))
        else ecc_loop m (?q + length (encode_struct s)) h)"
      using hit at_table_header(3) [OF at] code smbiosNextPtr_table [OF at]
      by (subst ecc_loop.simps) (simp add: field_defs)
    then show ?thesis
      using IH skip [of ss] Cons st by simp
  qed
qed

text \<open>What the object shows for a structure, apart from its locator.\<close>

definition dimm_before :: "smb_struct \<Rightarrow> Dimm \<Rightarrow> Dimm" where
  "dimm_before s d =
     (let d1 = d\<lparr>dimm_dataWidth := sf16 s 10, dimm_totalWidth := sf16 s 8\<rparr>;
          d2 = (if sf16 s 12 = 0x7fff then dimmSizeExt (sf32 s 28) d1 else dimmSize (sf16 s 12) d1)
      in d2\<lparr>dimm_present := sf16 s 12 \<noteq> 0, dimm_functional := sf16 s 12 \<noteq> 0\<rparr>)"

definition ecc_of_table :: "smb_struct list \<Rightarrow> u16 \<Rightarrow> EccType \<Rightarrow> EccType" where
  "ecc_of_table ss h old = (case List.find (\<lambda>s. s_type s = 16 \<and> s_handle s = h) ss of
      None \<Rightarrow> old
    | Some s \<Rightarrow> (case map_of dimmEccTypeMap (sf8 s 6) of None \<Rightarrow> NoECC | Some e \<Rightarrow> e))"

lemma memory_before_locator_table:
  assumes "at_table m q (s # rest)" and "41 \<le> s_length s"
  shows "memory_before_locator m q d = Some (dimm_before s d)"
proof -
  have "0 < sf16 s 12 \<longleftrightarrow> sf16 s 12 \<noteq> 0" by (simp add: word_neq_0_conv)
  then show ?thesis
    using at_table_fields [OF assms(1), of 8] at_table_fields [OF assms(1), of 10]
      at_table_fields [OF assms(1), of 12] at_table_fields [OF assms(1), of 28] assms(2)
    by (simp add: memory_before_locator_def field_defs dimm_before_def maxOldDimmSize_def Let_def)
qed

lemma updateEccType_table:
  assumes "table_from m p q ss" and "\<forall>s \<in> set ss. s_type s = 16 \<longrightarrow> 7 \<le> s_length s"
  shows "updateEccType m (At p) h d = Some (d\<lparr>dimm_ecc := ecc_of_table ss h (dimm_ecc d)\<rparr>)"
proof -
  have "ecc_loop m p h = ecc_loop m q h"
    using getSMBIOSTypePtr_from [OF assms(1)] by (subst (1 2) ecc_loop.simps) simp
  then have "ecc_loop m p h =
      Some (map_option (\<lambda>s. sf8 s 6) (List.find (\<lambda>s. s_type s = 16 \<and> s_handle s = h) ss))"
    using assms ecc_loop_table [of m q ss h] by (simp add: table_from_def)
  then show ?thesis
    by (auto simp: updateEccType_def ecc_of_table_def split: option.splits)
qed

text \<open>The names of the set bits of the type detail, lowest first.\<close>

definition detail_names :: "u16 \<Rightarrow> string" where
  "detail_names w = concat (map (\<lambda>i. if bit w i then detailTable ! i else []) [0 ..< 16])"

lemma dimmTypeDetail_names: "dimmTypeDetail w d = d\<lparr>dimm_typeDetail := detail_names w\<rparr>"
  using detail_loop_bits [of 0 16 w] by (simp add: dimmTypeDetail_def detail_names_def)

definition motherboard_link :: "string \<Rightarrow> (string \<times> string \<times> string) list \<Rightarrow> (string \<times> string \<times> string) list" where
  "motherboard_link mb old = (if mb = [] then old else [(''chassis'', ''memories'', mb)])"

lemma memory_after_locator_table:
  assumes "table_from m p q ss" and "\<forall>s \<in> set ss. s_type s = 16 \<longrightarrow> 7 \<le> s_length s"
    and "at_table m r (s # rest)" and "41 \<le> s_length s"
  shows "\<exists>d'. memory_after_locator trim m (At p) mb r d = Some d'
    \<and> dimm_manufacturer d' = (let x = struct_string s (sf8 s 23) in if x = ''NO DIMM'' then [] else x)
    \<and> dimm_serialNumber d' = struct_string s (sf8 s 24)
    \<and> dimm_partNumber d' = trim (struct_string s (sf8 s 26))
    \<and> dimm_memoryType d' = (case map_of dimmTypeTable (sf8 s 18) of None \<Rightarrow> DT_Unknown | Some t \<Rightarrow> t)
    \<and> dimm_maxSpeed d' = sf16 s 21 \<and> dimm_configuredSpeed d' = sf16 s 32
    \<and> dimm_ecc d' = ecc_of_table ss (sf16 s 4) (dimm_ecc d)
    \<and> dimm_totalWidth d' = dimm_totalWidth d \<and> dimm_dataWidth d' = dimm_dataWidth d
    \<and> dimm_sizeInKB d' = dimm_sizeInKB d \<and> dimm_present d' = dimm_present d
    \<and> dimm_deviceLocator d' = dimm_deviceLocator d \<and> dimm_slot d' = dimm_slot d
    \<and> dimm_socket d' = dimm_socket d \<and> dimm_functional d' = dimm_functional d
    \<and> dimm_locationCode d' = dimm_locationCode d
    \<and> dimm_typeDetail d' = detail_names (sf16 s 19)
    \<and> dimm_media d' = (case map_of dimmMemoryTechTypeMap (sf8 s 40) of None \<Rightarrow> MT_Unknown | Some t \<Rightarrow> t)
    \<and> dimm_attributes d' = ucast (sf8 s 27)
    \<and> dimm_associations d' = motherboard_link mb (dimm_associations d)"
proof -
  note f8 = at_table_fields(1) [OF assms(3)] and f16 = at_table_fields(2) [OF assms(3)]
  have reads: "rd8 m (r + 18) = Some (sf8 s 18)" "rd16 m (r + 19) = Some (sf16 s 19)"
    "rd16 m (r + 21) = Some (sf16 s 21)" "rd8 m (r + 23) = Some (sf8 s 23)"
    "rd8 m (r + 24) = Some (sf8 s 24)" "rd8 m (r + 26) = Some (sf8 s 26)"
    "rd8 m (r + 27) = Some (sf8 s 27)" "rd8 m (r + 40) = Some (sf8 s 40)"
    "rd16 m (r + 32) = Some (sf16 s 32)" "rd16 m (r + 4) = Some (sf16 s 4)"
    using assms(4) f8 [of 18] f16 [of 19] f16 [of 21] f8 [of 23] f8 [of 24] f8 [of 26] f8 [of 27]
      f8 [of 40] f16 [of 32] f16 [of 4] by simp_all
  show ?thesis
    using reads at_table_header(2) [OF assms(3)] positionToString_table [OF assms(3)]
    by (simp add: memory_after_locator_def field_defs dimmManufacturer_def dimmSerialNum_def
        dimmPartNum_def updateEccType_table [OF assms(1,2)] dimmType_def dimmMedia_def
        dimmTypeDetail_names motherboard_link_def Let_def split: option.split)
qed

subsection \<open>The locator\<close>

definition locator_text :: "dimm_config \<Rightarrow> smb_struct \<Rightarrow> string" where
  "locator_text cfg s =
     (let device = struct_string s (sf8 s 16); bank = struct_string s (sf8 s 17)
      in if bank = [] \<or> onlyDimmLocationCode cfg then device else bank @ '' '' @ device)"

text \<open>A locator whose evaluation ends in an exception.\<close>

definition bad_locator :: "string \<Rightarrow> bool" where
  "bad_locator loc \<longleftrightarrow>
     (case search ''CPU'' loc of None \<Rightarrow> False
        | Some i \<Rightarrow> length loc \<le> i + 3 \<or> \<not> is_digit (loc ! (i + 3)))
     \<or> (case search ''DIMM'' loc of None \<Rightarrow> False | Some i \<Rightarrow> length loc = i + 4)"

lemma locator_socket_ok:
  assumes "locator_socket loc d = Inr d'"
  shows "d' = d\<lparr>dimm_socket := (case search ''CPU'' loc of None \<Rightarrow> dimm_socket d
     | Some i \<Rightarrow> word_of_nat (of_char (loc ! (i + 3)) - 48 + 1))\<rparr>"
proof (cases "search ''CPU'' loc")
  case None
  then show ?thesis using assms by (simp add: locator_socket_def)
next
  case (Some i)
  have "take 1 (drop (i + 3) loc) = (if length loc \<le> i + 3 then [] else [loc ! (i + 3)])"
    by (auto simp: take_Suc hd_drop_conv_nth)
  then show ?thesis
    using Some assms by (auto simp: locator_socket_def split: if_splits)
qed

definition slot_of_locator :: "string \<Rightarrow> u8 \<Rightarrow> u8" where
  "slot_of_locator loc old = (case search ''DIMM'' loc of None \<Rightarrow> old
     | Some i \<Rightarrow> if length loc = i + 6 \<and> is_alpha (loc ! (i + 5)) then toupper_code (loc ! (i + 5)) else old)"

lemma locator_slot_ok:
  assumes "locator_slot loc d = Inr d'"
  shows "d' = d\<lparr>dimm_slot := slot_of_locator loc (dimm_slot d)\<rparr>"
proof (cases "search ''DIMM'' loc")
  case None
  then show ?thesis using assms by (simp add: locator_slot_def slot_of_locator_def)
next
  case (Some i)
  have one: "drop (5 + i) loc = [loc ! (i + 5)]" if "length loc = i + 6"
    using that by (intro nth_equalityI) (simp_all add: add.commute)
  show ?thesis
  proof (cases "length loc = i + 6")
    case True
    then show ?thesis
      using Some assms one by (cases "is_alpha (loc ! (i + 5))") (simp_all add: locator_slot_def slot_of_locator_def Let_def)
  next
    case False
    then have "length loc - (5 + i) \<noteq> Suc 0" by linarith
    then show ?thesis
      using Some assms False
      by (cases "length loc < i + 5") (simp_all add: locator_slot_def slot_of_locator_def Let_def)
  qed
qed

lemma dimmDeviceLocator_table:
  assumes "at_table m q (s # rest)" and "18 \<le> s_length s"
  shows "case dimmDeviceLocator cfg (sf8 s 17) (sf8 s 16) (word_of_nat (s_length s)) m q d of
      None \<Rightarrow> False
    | Some (Inl e) \<Rightarrow> bad_locator (struct_string s (sf8 s 16))
    | Some (Inr d') \<Rightarrow> \<not> bad_locator (struct_string s (sf8 s 16))
        \<and> dimm_deviceLocator d' = locator_text cfg s
        \<and> dimm_slot d' = slot_of_locator (struct_string s (sf8 s 16)) (dimm_slot d)
        \<and> dimm_socket d' = (case search ''CPU'' (struct_string s (sf8 s 16)) of None \<Rightarrow> dimm_socket d
            | Some i \<Rightarrow> word_of_nat (of_char (struct_string s (sf8 s 16) ! (i + 3)) - 48 + 1))
        \<and> dimm_totalWidth d' = dimm_totalWidth d \<and> dimm_dataWidth d' = dimm_dataWidth d
        \<and> dimm_sizeInKB d' = dimm_sizeInKB d \<and> dimm_present d' = dimm_present d
        \<and> dimm_ecc d' = dimm_ecc d \<and> dimm_functional d' = dimm_functional d
        \<and> dimm_associations d' = dimm_associations d
        \<and> dimm_locationCode d' = (if withLocationCode cfg then locator_text cfg s else dimm_locationCode d)"
proof -
  let ?loc = "struct_string s (sf8 s 16)"
  define d2 where "d2 = (let d1 = d\<lparr>dimm_deviceLocator := locator_text cfg s\<rparr> in
    if withLocationCode cfg then d1\<lparr>dimm_locationCode := locator_text cfg s\<rparr> else d1)"
  have eq: "dimmDeviceLocator cfg (sf8 s 17) (sf8 s 16) (word_of_nat (s_length s)) m q d =
      Some (case locator_socket ?loc d2 of Inl e \<Rightarrow> Inl e | Inr d3 \<Rightarrow> locator_slot ?loc d3)"
    using positionToString_table [OF assms(1)]
    by (simp add: dimmDeviceLocator_def d2_def locator_text_def Let_def)
  have bad: "bad_locator ?loc \<longleftrightarrow> (\<exists>e. locator_socket ?loc d2 = Inl e) \<or> (\<exists>e. locator_slot ?loc d3 = Inl e)" for d3
    unfolding locator_socket_throws locator_slot_throws bad_locator_def by (auto split: option.splits)
  show ?thesis
  proof (cases "locator_socket ?loc d2")
    case (Inl e)
    then show ?thesis using eq bad by simp
  next
    case (Inr d3)
    note d3 = locator_socket_ok [OF Inr]
    show ?thesis
    proof (cases "locator_slot ?loc d3")
      case (Inl e)
      then show ?thesis using eq bad [of d3] Inr by simp
    next
      case d4: (Inr d4)
      then show ?thesis
        using eq bad [of d3] Inr locator_slot_ok [OF d4] d3
        by (simp add: d2_def Let_def split: option.split)
    qed
  qed
qed

lemma dimm_before_values:
  "dimm_totalWidth (dimm_before s d) = sf16 s 8" "dimm_dataWidth (dimm_before s d) = sf16 s 10"
  "dimm_present (dimm_before s d) = (sf16 s 12 \<noteq> 0)" "dimm_functional (dimm_before s d) = (sf16 s 12 \<noteq> 0)"
  "dimm_slot (dimm_before s d) = dimm_slot d" "dimm_socket (dimm_before s d) = dimm_socket d"
  "dimm_locationCode (dimm_before s d) = dimm_locationCode d" "dimm_ecc (dimm_before s d) = dimm_ecc d"
  "dimm_associations (dimm_before s d) = dimm_associations d"
  "unat (dimm_sizeInKB (dimm_before s d)) = (if sf16 s 12 = 0x7fff then (unat (sf32 s 28) * 1024) mod 2 ^ 32
     else if bit (sf16 s 12) 15 then unat (sf16 s 12 AND 0x7fff) else unat (sf16 s 12 AND 0x7fff) * 1024)"
  using dimmSize_exact dimmSizeExt_wraps
  by (simp_all add: dimm_before_def Let_def) (simp_all add: dimmSize_def dimmSizeExt_def Let_def)

lemma memoryInfoUpdate_at:
  assumes "getSMBIOSTypeIndexPtr m (At p) 17 k = Some (At r)" and "at_table m r (s # rest)" and "41 \<le> s_length s"
  shows "memoryInfoUpdate cfg trim m (At p) k mb d =
    (case dimmDeviceLocator cfg (sf8 s 17) (sf8 s 16) (word_of_nat (s_length s)) m r (dimm_before s d) of
       None \<Rightarrow> None
     | Some (Inl e) \<Rightarrow> Some (Inl e)
     | Some (Inr d2) \<Rightarrow> map_option Inr (memory_after_locator trim m (At p) mb r d2))"
proof -
  have "rd8 m (r + 17) = Some (sf8 s 17)" "rd8 m (r + 16) = Some (sf8 s 16)"
    using at_table_fields(1) [OF assms(2), of 17] at_table_fields(1) [OF assms(2), of 16] assms(3) by simp_all
  then show ?thesis
    using assms(1) memory_before_locator_table [OF assms(2,3), of d] at_table_header(2) [OF assms(2)]
    by (simp add: memoryInfoUpdate_def field_defs split: option.split sum.split)
qed

subsection \<open>Properties of the memory devices\<close>

text \<open>
  C13. On a table whose memory devices have at least the fields up to the memory technology, the
  object for the \<open>k\<close>-th device shows exactly that device in every property: widths, size, presence,
  locator, socket and slot, type and its details, technology, attributes, speeds, manufacturer,
  serial and part number, the error correction of the memory array it refers to, and the link to
  the motherboard. A locator on which the text scan throws ends the update with
  an exception. Without a \<open>k\<close>-th device the object is unchanged.
\<close>

theorem dimm_shows_kth_device:
  assumes "table_from m p q ss" and "\<forall>s \<in> set ss. s_type s = 16 \<longrightarrow> 7 \<le> s_length s"
    and "\<forall>s \<in> set ss. s_type s = 17 \<longrightarrow> 41 \<le> s_length s"
  shows "if unat k < length (of_type 17 ss)
    then let s = of_type 17 ss ! unat k; loc = struct_string s (sf8 s 16) in
      (case memoryInfoUpdate cfg trim m (At p) k mb d of
         None \<Rightarrow> False
       | Some (Inl e) \<Rightarrow> bad_locator loc
       | Some (Inr d') \<Rightarrow> \<not> bad_locator loc
          \<and> dimm_totalWidth d' = sf16 s 8 \<and> dimm_dataWidth d' = sf16 s 10
          \<and> unat (dimm_sizeInKB d') =
              (if sf16 s 12 = 0x7fff then (unat (sf32 s 28) * 1024) mod 2 ^ 32
               else if bit (sf16 s 12) 15 then unat (sf16 s 12 AND 0x7fff)
               else unat (sf16 s 12 AND 0x7fff) * 1024)
          \<and> dimm_present d' = (sf16 s 12 \<noteq> 0) \<and> dimm_functional d' = (sf16 s 12 \<noteq> 0)
          \<and> dimm_deviceLocator d' = locator_text cfg s
          \<and> dimm_locationCode d' = (if withLocationCode cfg then locator_text cfg s else dimm_locationCode d)
          \<and> dimm_socket d' = (case search ''CPU'' loc of None \<Rightarrow> dimm_socket d
              | Some i \<Rightarrow> word_of_nat (of_char (loc ! (i + 3)) - 48 + 1))
          \<and> dimm_slot d' = slot_of_locator loc (dimm_slot d)
          \<and> dimm_memoryType d' =
              (case map_of dimmTypeTable (sf8 s 18) of None \<Rightarrow> DT_Unknown | Some t \<Rightarrow> t)
          \<and> dimm_typeDetail d' = detail_names (sf16 s 19)
          \<and> dimm_media d' =
              (case map_of dimmMemoryTechTypeMap (sf8 s 40) of None \<Rightarrow> MT_Unknown | Some t \<Rightarrow> t)
          \<and> dimm_attributes d' = ucast (sf8 s 27)
          \<and> dimm_maxSpeed d' = sf16 s 21 \<and> dimm_configuredSpeed d' = sf16 s 32
          \<and> dimm_associations d' = motherboard_link mb (dimm_associations d)
          \<and> dimm_manufacturer d' =
              (let x = struct_string s (sf8 s 23) in if x = ''NO DIMM'' then [] else x)
          \<and> dimm_serialNumber d' = struct_string s (sf8 s 24)
          \<and> dimm_partNumber d' = trim (struct_string s (sf8 s 26))
          \<and> dimm_ecc d' = ecc_of_table ss (sf16 s 4) (dimm_ecc d))
    else memoryInfoUpdate cfg trim m (At p) k mb d = Some (Inr d)"
proof (cases "unat k < length (of_type 17 ss)")
  case False
  then have "getSMBIOSTypeIndexPtr m (At p) 17 k = Some Null"
    using smbios.lookup_miss [of m p ss 17 k] assms(1) by (auto simp: table_repr_def)
  then show ?thesis using False by (simp add: memoryInfoUpdate_def)
next
  case True
  let ?s = "of_type 17 ss ! unat k"
  obtain r rest where hit: "getSMBIOSTypeIndexPtr m (At p) 17 k = Some (At r)"
    and at: "at_table m r (?s # rest)"
    using getSMBIOSTypeIndexPtr_hit [OF assms(1) True] by blast
  have len: "41 \<le> s_length ?s" "18 \<le> s_length ?s" using assms(3) nth_of_type [OF True] by fastforce+
  let ?d1 = "dimm_before ?s d"
  let ?l = "dimmDeviceLocator cfg (sf8 ?s 17) (sf8 ?s 16) (word_of_nat (s_length ?s)) m r ?d1"
  note d1 = dimm_before_values [of ?s d] and loc = dimmDeviceLocator_table [OF at len(2), of cfg ?d1]
    and eq = memoryInfoUpdate_at [OF hit at len(1), of cfg trim mb d]
  consider (none) "?l = None" | (bad) e where "?l = Some (Inl e)" | (good) d2 where "?l = Some (Inr d2)"
    by (metis option.exhaust sum.exhaust)
  then show ?thesis
  proof cases
    case good
    then show ?thesis
      using memory_after_locator_table [OF assms(1,2) at len(1), of trim mb d2] loc eq True
      by (elim exE conjE) (simp add: d1 Let_def cong: option.case_cong)
  qed (use loc eq True in simp_all)
qed


lemma example_fields_ok:
  "\<forall>s \<in> set example_table. s_type s = 16 \<longrightarrow> 7 \<le> s_length s"
  "\<forall>s \<in> set example_table. s_type s = 17 \<longrightarrow> 41 \<le> s_length s"
  by (simp_all add: example_defs s_length_def structureHeaderSize_def)

lemma example_dimm_type: "of_type 17 example_table = [example_dimm]"
  by (simp add: example_defs)

lemma example_dimm_values:
  "struct_string example_dimm (sf8 example_dimm 16) = ''CPU0_DIMM_A''"
  "struct_string example_dimm (sf8 example_dimm 24) = ''S1''"
  "sf16 example_dimm 12 = 0x4000"
  by (simp_all add: example_dimm_def sf8_def struct_string_def sf16_def le_word_def)

lemma example_locator:
  "\<not> bad_locator ''CPU0_DIMM_A''" "slot_of_locator ''CPU0_DIMM_A'' old = 65"
  by (simp_all add: bad_locator_def slot_of_locator_def is_digit_def is_alpha_def toupper_code_def
      byte_of_char_def)

theorem dimm_shows_kth_device_witness:
  "\<forall>cfg mb d. \<exists>d'. memoryInfoUpdate cfg id example_memory (At 0) 0 mb d = Some (Inr d')
     \<and> dimm_serialNumber d' = ''S1'' \<and> dimm_slot d' = 65 \<and> unat (dimm_sizeInKB d') = 16777216"
proof (intro allI)
  fix cfg mb d
  have b: "\<not> bit (0x4000 :: u16) 15" "(0x4000 :: u16) AND 0x7fff = 0x4000"
    by code_simp+
  show "\<exists>d'. memoryInfoUpdate cfg id example_memory (At 0) 0 mb d = Some (Inr d')
     \<and> dimm_serialNumber d' = ''S1'' \<and> dimm_slot d' = 65 \<and> unat (dimm_sizeInKB d') = 16777216"
    using dimm_shows_kth_device [OF example_from example_fields_ok, where k = 0 and cfg = cfg
        and trim = id and mb = mb and d = d] b
    unfolding example_dimm_type
    by (simp add: example_dimm_values example_locator Let_def split: option.splits sum.splits)
qed

text \<open>
  The size in kilobytes. The 15-bit form is exact in both of its units. The extended form is
  exact below 4 TiB and is reduced modulo 4 TiB from there on, since the product is formed with
  32 bits.
\<close>

theorem dimm_size_in_kilobytes:
  "unat (dimm_sizeInKB (dimmSize sz d)) =
     (if bit sz 15 then unat (sz AND 0x7fff) else unat (sz AND 0x7fff) * 1024)
   \<and> (unat (dimm_sizeInKB (dimmSizeExt ext d)) = unat ext * 1024 \<longleftrightarrow> unat ext < 2 ^ 22)"
proof -
  have "(unat ext * 1024) mod 2 ^ 32 = unat ext * 1024 \<longleftrightarrow> unat ext < 2 ^ 22"
    using mod_less_divisor [of "2 ^ 32" "unat ext * 1024"] by (cases "unat ext < 2 ^ 22") simp_all
  then show ?thesis using dimmSize_exact dimmSizeExt_wraps by simp
qed

text \<open>
  The device locator: the update ends in an exception of the standard library exactly when
  the first \<open>CPU\<close> of the locator is not followed by a digit or its first \<open>DIMM\<close> ends the
  locator; the method has a handler, but for D-Bus exceptions only.
\<close>

theorem locator_exceptions:
  assumes "at_table m q (s # rest)" and "18 \<le> s_length s"
  shows "(\<exists>e. dimmDeviceLocator cfg (sf8 s 17) (sf8 s 16) (word_of_nat (s_length s)) m q d = Some (Inl e))
    \<longleftrightarrow> (\<exists>i. search ''CPU'' (struct_string s (sf8 s 16)) = Some i
            \<and> (length (struct_string s (sf8 s 16)) \<le> i + 3
               \<or> \<not> is_digit (struct_string s (sf8 s 16) ! (i + 3))))
        \<or> (\<exists>i. search ''DIMM'' (struct_string s (sf8 s 16)) = Some i
            \<and> length (struct_string s (sf8 s 16)) = i + 4)"
  using dimmDeviceLocator_table [OF assms, of cfg d]
  by (auto simp: bad_locator_def split: option.splits sum.splits)

definition example_odd_dimm :: smb_struct where
  "example_odd_dimm = \<lparr>s_type = 17, s_handle = 1, s_body = replicate 12 0 @ [1, 0], s_strings = [''CPUA'']\<rparr>"

theorem locator_exceptions_witness:
  "\<forall>cfg d. \<exists>e. dimmDeviceLocator cfg (sf8 example_odd_dimm 17) (sf8 example_odd_dimm 16)
     (word_of_nat (s_length example_odd_dimm)) (encode_table [example_odd_dimm] @ [0, 0, 0]) 0 d = Some (Inl e)"
proof -
  have "wf_struct example_odd_dimm"
    by (simp add: example_odd_dimm_def wf_struct_def s_length_def structureHeaderSize_def wf_string_def
        encode_strings_def encode_string_def mdrSMBIOSSize_def byte_of_char_def)
  moreover have "holds (encode_table [example_odd_dimm] @ [0, 0, 0]) 0 (encode_table [example_odd_dimm])"
    using holds_self [of "[]" "encode_table [example_odd_dimm]" "[0, 0, 0]"] by simp
  ultimately have at: "at_table (encode_table [example_odd_dimm] @ [0, 0, 0]) 0 [example_odd_dimm]"
    by (simp add: at_table_def)
  have len: "18 \<le> s_length example_odd_dimm"
    by (simp add: example_odd_dimm_def s_length_def structureHeaderSize_def)
  have "struct_string example_odd_dimm (sf8 example_odd_dimm 16) = ''CPUA''"
    by (simp add: example_odd_dimm_def struct_string_def sf8_def nth_append)
  then show ?thesis
    using locator_exceptions [OF at len] by (simp add: is_digit_def)
qed

text \<open>
  The type detail is the concatenation of the names of the set bits, in the order of the bits.
\<close>

theorem type_detail_names:
  "dimm_typeDetail (dimmTypeDetail w d) =
     concat (map (\<lambda>i. if bit w i then detailTable ! i else []) [0 ..< 16])
   \<and> dimmTypeDetail w d = d\<lparr>dimm_typeDetail := dimm_typeDetail (dimmTypeDetail w d)\<rparr>"
  using detail_loop_bits [of 0 16 w] by (simp add: dimmTypeDetail_def)

end
