(* ===== verification/Inventory_Cpu.thy ===== *)
theory Inventory_Cpu
  imports Smbios_Lookup
begin

text \<open>
  The processor objects of \<open>src/cpu.cpp\<close> and \<open>include/cpu.hpp\<close> and the chassis objects of
  \<open>src/chassisCpu.cpp\<close>: the decoding of a processor structure (type 4) into D-Bus properties,
  the processor family tables, the CPUID signature and the socket designation.
\<close>

subsection \<open>Tables\<close>

text \<open>The table of the families in two parts, the codes below \<open>0x80\<close> and the others.\<close>

definition familyTable_lower :: "(u8 \<times> string) list" where
  "familyTable_lower =
     [(0x01, ''Other''),
      (0x02, ''Unknown''),
      (0x03, ''8086''),
      (0x04, ''80286''),
      (0x05, ''Intel 386 processor''),
      (0x06, ''Intel 486 processor''),
      (0x07, ''8087''),
      (0x08, ''80287''),
      (0x09, ''80387''),
      (0x0a, ''80487''),
      (0x0b, ''Intel Pentium processor''),
      (0x0c, ''Pentium Pro processor''),
      (0x0d, ''Pentium II processor''),
      (0x0e, ''Pentium processor with MMX technology''),
      (0x0f, ''Intel Celeron processor''),
      (0x10, ''Pentium II Xeon processor''),
      (0x11, ''Pentium III processor''),
      (0x12, ''M1 Family''),
      (0x13, ''M2 Family''),
      (0x14, ''Intel Celeron M processor''),
      (0x15, ''Intel Pentium 4 HT processor''),
      (0x16, ''Intel Processor''),
      (0x18, ''AMD Duron Processor Family''),
      (0x19, ''K5 Family''),
      (0x1a, ''K6 Family''),
      (0x1b, ''K6-2''),
      (0x1c, ''K6-3''),
      (0x1d, ''AMD Athlon Processor Family''),
      (0x1e, ''AMD29000 Family''),
      (0x1f, ''K6-2+''),
      (0x20, ''Power PC Family''),
      (0x21, ''Power PC 601''),
      (0x22, ''Power PC 603''),
      (0x23, ''Power PC 603+''),
      (0x24, ''Power PC 604''),
      (0x25, ''Power PC 620''),
      (0x26, ''Power PC x704''),
      (0x27, ''Power PC 750''),
      (0x28, ''Intel Core Duo processor''),
      (0x29, ''Intel Core Duo mobile processor''),
      (0x2a, ''Intel Core Solo mobile processor''),
      (0x2b, ''Intel Atom processor''),
      (0x2c, ''Intel Core M processor''),
      (0x2d, ''Intel Core m3 processor''),
      (0x2e, ''Intel Core m5 processor''),
      (0x2f, ''Intel Core m7 processor''),
      (0x30, ''Alpha Family''),
      (0x31, ''Alpha 21064''),
      (0x32, ''Alpha 21066''),
      (0x33, ''Alpha 21164''),
      (0x34, ''Alpha 21164PC''),
      (0x35, ''Alpha 21164a''),
      (0x36, ''Alpha 21264''),
      (0x37, ''Alpha 21364''),
      (0x38, ''AMD Turion II Ultra Dual-Core Mobile M Processor Family''),
      (0x39, ''AMD Turion II Dual-Core Mobile M Processor Family''),
      (0x3a, ''AMD Athlon II Dual-Core M Processor Family''),
      (0x3b, ''AMD Opteron 6100 Series Processor''),
      (0x3c, ''AMD Opteron 4100 Series Processor''),
      (0x3d, ''AMD Opteron 6200 Series Processor''),
      (0x3e, ''AMD Opteron 4200 Series Processor''),
      (0x3f, ''AMD FX Series Processor''),
      (0x40, ''MIPS Family''),
      (0x41, ''MIPS R4000''),
      (0x42, ''MIPS R4200''),
      (0x43, ''MIPS R4400''),
      (0x44, ''MIPS R4600''),
      (0x45, ''MIPS R10000''),
      (0x46, ''AMD C-Series Processor''),
      (0x47, ''AMD E-Series Processor''),
      (0x48, ''AMD A-Series Processor''),
      (0x49, ''AMD G-Series Processor''),
      (0x4a, ''AMD Z-Series Processor''),
      (0x4b, ''AMD R-Series Processor''),
      (0x4c, ''AMD Opteron 4300 Series Processor''),
      (0x4d, ''AMD Opteron 6300 Series Processor''),
      (0x4e, ''AMD Opteron 3300 Series Processor''),
      (0x4f, ''AMD FirePro Series Processor''),
      (0x50, ''SPARC Family''),
      (0x51, ''SuperSPARC''),
      (0x52, ''microSPARC II''),
      (0x53, ''microSPARC IIep''),
      (0x54, ''UltraSPARC''),
      (0x55, ''UltraSPARC II''),
      (0x56, ''UltraSPARC Iii''),
      (0x57, ''UltraSPARC III''),
      (0x58, ''UltraSPARC IIIi''),
      (0x60, ''68040 Family''),
      (0x61, ''68xxx''),
      (0x62, ''68000''),
      (0x63, ''68010''),
      (0x64, ''68020''),
      (0x65, ''68030''),
      (0x66, ''AMD Athlon X4 Quad-Core Processor Family''),
      (0x67, ''AMD Opteron X1000 Series Processor''),
      (0x68, ''AMD Opteron X2000 Series APU''),
      (0x69, ''AMD Opteron A-Series Processor''),
      (0x6a, ''AMD Opteron X3000 Series APU''),
      (0x6b, ''AMD Zen Processor Family''),
      (0x70, ''Hobbit Family''),
      (0x78, ''Crusoe TM5000 Family''),
      (0x79, ''Crusoe TM3000 Family''),
      (0x7a, ''Efficeon TM8000 Family'')]"

definition familyTable_upper :: "(u8 \<times> string) list" where
  "familyTable_upper =
     [(0x80, ''Weitek''),
      (0x82, ''Itanium processor''),
      (0x83, ''AMD Athlon 64 Processor Family''),
      (0x84, ''AMD Opteron Processor Family''),
      (0x85, ''AMD Sempron Processor Family''),
      (0x86, ''AMD Turion 64 Mobile Technology''),
      (0x87, ''Dual-Core AMD Opteron Processor Family''),
      (0x88, ''AMD Athlon 64 X2 Dual-Core Processor Family''),
      (0x89, ''AMD Turion 64 X2 Mobile Technology''),
      (0x8a, ''Quad-Core AMD Opteron Processor Family''),
      (0x8b, ''Third-Generation AMD Opteron Processor Family''),
      (0x8c, ''AMD Phenom FX Quad-Core Processor Family''),
      (0x8d, ''AMD Phenom X4 Quad-Core Processor Family''),
      (0x8e, ''AMD Phenom X2 Dual-Core Processor Family''),
      (0x8f, ''AMD Athlon X2 Dual-Core Processor Family''),
      (0x90, ''PA-RISC Family''),
      (0x91, ''PA-RISC 8500''),
      (0x92, ''PA-RISC 8000''),
      (0x93, ''PA-RISC 7300LC''),
      (0x94, ''PA-RISC 7200''),
      (0x95, ''PA-RISC 7100LC''),
      (0x96, ''PA-RISC 7100''),
      (0xa0, ''V30 Family''),
      (0xa1, ''Quad-Core Intel Xeon processor 3200 Series''),
      (0xa2, ''Dual-Core Intel Xeon processor 3000 Series''),
      (0xa3, ''Quad-Core Intel Xeon processor 5300 Series''),
      (0xa4, ''Dual-Core Intel Xeon processor 5100 Series''),
      (0xa5, ''Dual-Core Intel Xeon processor 5000 Series''),
      (0xa6, ''Dual-Core Intel Xeon processor LV''),
      (0xa7, ''Dual-Core Intel Xeon processor ULV''),
      (0xa8, ''Dual-Core Intel Xeon processor 7100 Series''),
      (0xa9, ''Quad-Core Intel Xeon processor 5400 Series''),
      (0xaa, ''Quad-Core Intel Xeon processor''),
      (0xab, ''Dual-Core Intel Xeon processor 5200 Series''),
      (0xac, ''Dual-Core Intel Xeon processor 7200 Series''),
      (0xad, ''Quad-Core Intel Xeon processor 7300 Series''),
      (0xae, ''Quad-Core Intel Xeon processor 7400 Series''),
      (0xaf, ''Multi-Core Intel Xeon processor 7400 Series''),
      (0xb0, ''Pentium III Xeon processor''),
      (0xb1, ''Pentium III Processor with Intel SpeedStep Technology''),
      (0xb2, ''Pentium 4 Processor''),
      (0xb3, ''Intel Xeon processor''),
      (0xb4, ''AS400 Family''),
      (0xb5, ''Intel Xeon processor MP''),
      (0xb6, ''AMD Athlon XP Processor Family''),
      (0xb7, ''AMD Athlon MP Processor Family''),
      (0xb8, ''Intel Itanium 2 processor''),
      (0xb9, ''Intel Pentium M processor''),
      (0xba, ''Intel Celeron D processor''),
      (0xbb, ''Intel Pentium D processor''),
      (0xbc, ''Intel Pentium Processor Extreme Edition''),
      (0xbd, ''Intel Core Solo Processor''),
      (0xbf, ''Intel Core 2 Duo Processor''),
      (0xc0, ''Intel Core 2 Solo processor''),
      (0xc1, ''Intel Core 2 Extreme processor''),
      (0xc2, ''Intel Core 2 Quad processor''),
      (0xc3, ''Intel Core 2 Extreme mobile processor''),
      (0xc4, ''Intel Core 2 Duo mobile processor''),
      (0xc5, ''Intel Core 2 Solo mobile processor''),
      (0xc6, ''Intel Core i7 processor''),
      (0xc7, ''Dual-Core Intel Celeron processor''),
      (0xc8, ''IBM390 Family''),
      (0xc9, ''G4''),
      (0xca, ''G5''),
      (0xcb, ''ESA/390 G6''),
      (0xcc, ''z/Architecture base''),
      (0xcd, ''Intel Core i5 processor''),
      (0xce, ''Intel Core i3 processor''),
      (0xcf, ''Intel Core i9 processor''),
      (0xd2, ''VIA C7-M Processor Family''),
      (0xd3, ''VIA C7-D Processor Family''),
      (0xd4, ''VIA C7 Processor Family''),
      (0xd5, ''VIA Eden Processor Family''),
      (0xd6, ''Multi-Core Intel Xeon processor''),
      (0xd7, ''Dual-Core Intel Xeon processor 3xxx Series''),
      (0xd8, ''Quad-Core Intel Xeon processor 3xxx Series''),
      (0xd9, ''VIA Nano Processor Family''),
      (0xda, ''Dual-Core Intel Xeon processor 5xxx Series''),
      (0xdb, ''Quad-Core Intel Xeon processor 5xxx Series''),
      (0xdd, ''Dual-Core Intel Xeon processor 7xxx Series''),
      (0xde, ''Quad-Core Intel Xeon processor 7xxx Series''),
      (0xdf, ''Multi-Core Intel Xeon processor 7xxx Series''),
      (0xe0, ''Multi-Core Intel Xeon processor 3400 Series''),
      (0xe4, ''AMD Opteron 3000 Series Processor''),
      (0xe5, ''AMD Sempron II Processor''),
      (0xe6, ''Embedded AMD Opteron Quad-Core Processor Family''),
      (0xe7, ''AMD Phenom Triple-Core Processor Family''),
      (0xe8, ''AMD Turion Ultra Dual-Core Mobile Processor Family''),
      (0xe9, ''AMD Turion Dual-Core Mobile Processor Family''),
      (0xea, ''AMD Athlon Dual-Core Processor Family''),
      (0xeb, ''AMD Sempron SI Processor Family''),
      (0xec, ''AMD Phenom II Processor Family''),
      (0xed, ''AMD Athlon II Processor Family''),
      (0xee, ''Six-core AMD Opteron Processor Family''),
      (0xef, ''AMD Sempron M Processor Family''),
      (0xfa, ''i860''),
      (0xfb, ''i960''),
      (0xfe, ''Processor Family 2 Indicator'')]"

definition familyTable :: "(u8 \<times> string) list" where
  "familyTable = familyTable_lower @ familyTable_upper"

definition family2Table :: "(u16 \<times> string) list" where
  "family2Table =
     [(0x100, ''ARMv7''),
      (0x101, ''ARMv8''),
      (0x102, ''ARMv9''),
      (0x104, ''SH-3''),
      (0x105, ''SH-4''),
      (0x118, ''ARM''),
      (0x119, ''StrongARM''),
      (0x12c, ''6x86''),
      (0x12d, ''MediaGX''),
      (0x12e, ''MII''),
      (0x140, ''WinChip''),
      (0x15e, ''DSP''),
      (0x1f4, ''Video Processor''),
      (0x200, ''RISC-V RV32''),
      (0x201, ''RISC-V RV64''),
      (0x202, ''RISC-V RV128''),
      (0x258, ''LoongArch''),
      (0x259, ''Loongson 1 Processor Family''),
      (0x25a, ''Loongson 2 Processor Family''),
      (0x25b, ''Loongson 3 Processor Family''),
      (0x25c, ''Loongson 2K Processor Family''),
      (0x25d, ''Loongson 3A Processor Family''),
      (0x25e, ''Loongson 3B Processor Family''),
      (0x25f, ''Loongson 3C Processor Family''),
      (0x260, ''Loongson 3D Processor Family''),
      (0x261, ''Loongson 3E Processor Family''),
      (0x262, ''Dual-Core Loongson 2K Processor 2xxx Series''),
      (0x26c, ''Quad-Core Loongson 3A Processor 5xxx Series''),
      (0x26d, ''Multi-Core Loongson 3A Processor 5xxx Series''),
      (0x26e, ''Quad-Core Loongson 3B Processor 5xxx Series''),
      (0x26f, ''Multi-Core Loongson 3B Processor 5xxx Series''),
      (0x270, ''Multi-Core Loongson 3C Processor 5xxx Series''),
      (0x271, ''Multi-Core Loongson 3D Processor 5xxx Series'')]"

datatype Capability =
    Capable64bit | MultiCore | HardwareThread | ExecuteProtection | EnhancedVirtualization
  | PowerPerformanceControl

definition characteristicsTable :: "Capability option list" where
  "characteristicsTable =
     [None,
      None,
      Some Capable64bit,
      Some MultiCore,
      Some HardwareThread,
      Some ExecuteProtection,
      Some EnhancedVirtualization,
      Some PowerPerformanceControl,
      None,
      None,
      None,
      None,
      None,
      None,
      None,
      None]"

subsection \<open>The processor structure\<close>

definition pi_type :: "memory \<Rightarrow> nat \<Rightarrow> u8 checked" where [field_defs]:
  "pi_type m p = rd8 m p"

definition pi_length :: "memory \<Rightarrow> nat \<Rightarrow> u8 checked" where [field_defs]:
  "pi_length m p = rd8 m (p + 1)"

definition pi_handle :: "memory \<Rightarrow> nat \<Rightarrow> u16 checked" where [field_defs]:
  "pi_handle m p = rd16 m (p + 2)"

definition pi_socketDesignation :: "memory \<Rightarrow> nat \<Rightarrow> u8 checked" where [field_defs]:
  "pi_socketDesignation m p = rd8 m (p + 4)"

definition pi_processorType :: "memory \<Rightarrow> nat \<Rightarrow> u8 checked" where [field_defs]:
  "pi_processorType m p = rd8 m (p + 5)"

definition pi_family :: "memory \<Rightarrow> nat \<Rightarrow> u8 checked" where [field_defs]:
  "pi_family m p = rd8 m (p + 6)"

definition pi_manufacturer :: "memory \<Rightarrow> nat \<Rightarrow> u8 checked" where [field_defs]:
  "pi_manufacturer m p = rd8 m (p + 7)"

definition pi_id :: "memory \<Rightarrow> nat \<Rightarrow> u64 checked" where [field_defs]:
  "pi_id m p = rd64 m (p + 8)"

definition pi_version :: "memory \<Rightarrow> nat \<Rightarrow> u8 checked" where [field_defs]:
  "pi_version m p = rd8 m (p + 16)"

definition pi_voltage :: "memory \<Rightarrow> nat \<Rightarrow> u8 checked" where [field_defs]:
  "pi_voltage m p = rd8 m (p + 17)"

definition pi_exClock :: "memory \<Rightarrow> nat \<Rightarrow> u16 checked" where [field_defs]:
  "pi_exClock m p = rd16 m (p + 18)"

definition pi_maxSpeed :: "memory \<Rightarrow> nat \<Rightarrow> u16 checked" where [field_defs]:
  "pi_maxSpeed m p = rd16 m (p + 20)"

definition pi_currSpeed :: "memory \<Rightarrow> nat \<Rightarrow> u16 checked" where [field_defs]:
  "pi_currSpeed m p = rd16 m (p + 22)"

definition pi_status :: "memory \<Rightarrow> nat \<Rightarrow> u8 checked" where [field_defs]:
  "pi_status m p = rd8 m (p + 24)"

definition pi_upgrade :: "memory \<Rightarrow> nat \<Rightarrow> u8 checked" where [field_defs]:
  "pi_upgrade m p = rd8 m (p + 25)"

definition pi_l1Handle :: "memory \<Rightarrow> nat \<Rightarrow> u16 checked" where [field_defs]:
  "pi_l1Handle m p = rd16 m (p + 26)"

definition pi_l2Handle :: "memory \<Rightarrow> nat \<Rightarrow> u16 checked" where [field_defs]:
  "pi_l2Handle m p = rd16 m (p + 28)"

definition pi_l3Handle :: "memory \<Rightarrow> nat \<Rightarrow> u16 checked" where [field_defs]:
  "pi_l3Handle m p = rd16 m (p + 30)"

definition pi_serialNum :: "memory \<Rightarrow> nat \<Rightarrow> u8 checked" where [field_defs]:
  "pi_serialNum m p = rd8 m (p + 32)"

definition pi_assetTag :: "memory \<Rightarrow> nat \<Rightarrow> u8 checked" where [field_defs]:
  "pi_assetTag m p = rd8 m (p + 33)"

definition pi_partNum :: "memory \<Rightarrow> nat \<Rightarrow> u8 checked" where [field_defs]:
  "pi_partNum m p = rd8 m (p + 34)"

definition pi_coreCount :: "memory \<Rightarrow> nat \<Rightarrow> u8 checked" where [field_defs]:
  "pi_coreCount m p = rd8 m (p + 35)"

definition pi_coreEnable :: "memory \<Rightarrow> nat \<Rightarrow> u8 checked" where [field_defs]:
  "pi_coreEnable m p = rd8 m (p + 36)"

definition pi_threadCount :: "memory \<Rightarrow> nat \<Rightarrow> u8 checked" where [field_defs]:
  "pi_threadCount m p = rd8 m (p + 37)"

definition pi_characteristics :: "memory \<Rightarrow> nat \<Rightarrow> u16 checked" where [field_defs]:
  "pi_characteristics m p = rd16 m (p + 38)"

definition pi_family2 :: "memory \<Rightarrow> nat \<Rightarrow> u16 checked" where [field_defs]:
  "pi_family2 m p = rd16 m (p + 40)"

definition pi_coreCount2 :: "memory \<Rightarrow> nat \<Rightarrow> u16 checked" where [field_defs]:
  "pi_coreCount2 m p = rd16 m (p + 42)"

definition pi_coreEnable2 :: "memory \<Rightarrow> nat \<Rightarrow> u16 checked" where [field_defs]:
  "pi_coreEnable2 m p = rd16 m (p + 44)"

definition pi_threadCount2 :: "memory \<Rightarrow> nat \<Rightarrow> u16 checked" where [field_defs]:
  "pi_threadCount2 m p = rd16 m (p + 46)"

subsection \<open>The object\<close>

record Cpu =
  cpu_socket :: string
  cpu_locationCode :: string
  cpu_instanceNumber :: nat
  cpu_present :: bool
  cpu_functional :: bool
  cpu_family :: string
  cpu_effectiveFamily :: u16
  cpu_effectiveModel :: u16
  cpu_step :: u16
  cpu_id :: u64
  cpu_manufacturer :: string
  cpu_version :: string
  cpu_model :: string
  cpu_maxSpeed :: u32
  cpu_serialNumber :: string
  cpu_assetTag :: string
  cpu_partNumber :: string
  cpu_coreCount :: u16
  cpu_threadCount :: u16
  cpu_characteristics :: "Capability list"
  cpu_associations :: "(string \<times> string \<times> string) list"

text \<open>
  The build options \<open>NVIDIA\<close>, \<open>IS_COPY_CPU_VERSION_TO_MODEL\<close> and \<open>PLATFORM_PREFIX\<close>, and the
  largest \<open>unsigned long\<close> of the target.
\<close>

record cpu_config =
  nvidia :: bool
  copyVersionToModel :: bool
  platformPrefix :: "string option"
  ulong_max :: nat

text \<open>
  \<open>socketChipNumber\<close> of a string: the regular expression \<open>(\w+):(\d+)\.(\d+)\s*\<close>, where each group
  ends at the first character outside of its class. \<open>std::stoul\<close> throws when the number does
  not fit, which is caught.
\<close>

definition digit_char :: "char \<Rightarrow> bool" where
  "digit_char c \<longleftrightarrow> 48 \<le> (of_char c :: nat) \<and> (of_char c :: nat) \<le> 57"

definition word_char :: "char \<Rightarrow> bool" where
  "word_char c \<longleftrightarrow> digit_char c \<or> (65 \<le> (of_char c :: nat) \<and> (of_char c :: nat) \<le> 90)
     \<or> (97 \<le> (of_char c :: nat) \<and> (of_char c :: nat) \<le> 122) \<or> c = CHR ''_''"

definition space_char :: "char \<Rightarrow> bool" where
  "space_char c \<longleftrightarrow> (of_char c :: nat) \<in> {9, 10, 11, 12, 13, 32}"

definition dec_value :: "string \<Rightarrow> nat" where
  "dec_value s = fold (\<lambda>c n. 10 * n + (of_char c - 48)) s 0"

definition stoul :: "cpu_config \<Rightarrow> string \<Rightarrow> nat option" where
  "stoul cfg s = (if dec_value s \<le> ulong_max cfg then Some (dec_value s) else None)"

definition socket_regex :: "string \<Rightarrow> (string \<times> string \<times> string) option" where
  "socket_regex s =
     (let g1 = takeWhile word_char s; r1 = dropWhile word_char s in
      if g1 = [] \<or> r1 = [] \<or> hd r1 \<noteq> CHR '':'' then None
      else let g2 = takeWhile digit_char (tl r1); r2 = dropWhile digit_char (tl r1) in
        if g2 = [] \<or> r2 = [] \<or> hd r2 \<noteq> CHR ''.'' then None
        else let g3 = takeWhile digit_char (tl r2); r3 = dropWhile digit_char (tl r2) in
          if g3 = [] \<or> \<not> list_all space_char r3 then None else Some (g1, g2, g3))"

definition socketChipNumber :: "cpu_config \<Rightarrow> string \<Rightarrow> bool \<times> nat \<times> nat" where
  "socketChipNumber cfg socketDesignation =
     (if \<not> nvidia cfg then (False, 0, 0)
      else (case socket_regex socketDesignation of
              None \<Rightarrow> (False, 0, 0)
            | Some (g1, g2, g3) \<Rightarrow>
               (case stoul cfg g2 of
                  None \<Rightarrow> (False, 0, 0)
                | Some sock \<Rightarrow>
                   (case stoul cfg g3 of None \<Rightarrow> (False, sock, 0) | Some chip \<Rightarrow> (True, sock, chip)))))"

definition socketChipNumber_ptr :: "cpu_config \<Rightarrow> memory \<Rightarrow> ptr \<Rightarrow> (bool \<times> nat \<times> nat) checked" where
  "socketChipNumber_ptr cfg m dataIn = (case dataIn of
      Null \<Rightarrow> Some (False, 0, 0)
    | At p \<Rightarrow> do {
        pos \<leftarrow> pi_socketDesignation m p;
        len \<leftarrow> pi_length m p;
        socketDesignation \<leftarrow> positionToString pos len m (At p);
        Some (socketChipNumber cfg socketDesignation) })"

definition cpu_set_socket :: "cpu_config \<Rightarrow> u8 \<Rightarrow> u8 \<Rightarrow> u8 \<Rightarrow> memory \<Rightarrow> nat \<Rightarrow> Cpu \<Rightarrow> Cpu checked" where
  "cpu_set_socket cfg cpuNum positionNum structLen m p c = do {
     result \<leftarrow> positionToString positionNum structLen m (At p);
     let c1 = c\<lparr>cpu_socket := result, cpu_locationCode := result\<rparr>;
     Some (case socketChipNumber cfg result of
             (found, sock, chip) \<Rightarrow>
               if found then c1\<lparr>cpu_instanceNumber := chip\<rparr>
               else c1\<lparr>cpu_instanceNumber := unat cpuNum\<rparr>) }"

definition processorFamily2Indicator :: u8 where "processorFamily2Indicator = 0xfe"

definition cpu_set_family :: "u8 \<Rightarrow> u16 \<Rightarrow> Cpu \<Rightarrow> Cpu" where
  "cpu_set_family fam family2 c = (case map_of familyTable fam of
      None \<Rightarrow> c\<lparr>cpu_family := ''Unknown Processor Family''\<rparr>
    | Some nm \<Rightarrow>
        if fam = processorFamily2Indicator
        then (case map_of family2Table family2 of
                None \<Rightarrow> c\<lparr>cpu_family := ''Unknown Processor Family''\<rparr>
              | Some nm2 \<Rightarrow> c\<lparr>cpu_family := nm2, cpu_effectiveFamily := family2\<rparr>)
        else c\<lparr>cpu_family := nm, cpu_effectiveFamily := ucast fam\<rparr>)"

definition cpu_set_version :: "cpu_config \<Rightarrow> u8 \<Rightarrow> u8 \<Rightarrow> memory \<Rightarrow> nat \<Rightarrow> Cpu \<Rightarrow> Cpu checked" where
  "cpu_set_version cfg positionNum structLen m p c = do {
     result \<leftarrow> positionToString positionNum structLen m (At p);
     let c1 = c\<lparr>cpu_version := result\<rparr>;
     Some (if copyVersionToModel cfg then c1\<lparr>cpu_model := result\<rparr> else c1) }"

definition cpu_set_manufacturer :: "u8 \<Rightarrow> u8 \<Rightarrow> memory \<Rightarrow> nat \<Rightarrow> Cpu \<Rightarrow> Cpu checked" where
  "cpu_set_manufacturer positionNum structLen m p c = do {
     result \<leftarrow> positionToString positionNum structLen m (At p);
     Some (c\<lparr>cpu_manufacturer := result\<rparr>) }"

definition cpu_set_partNumber :: "u8 \<Rightarrow> u8 \<Rightarrow> memory \<Rightarrow> nat \<Rightarrow> Cpu \<Rightarrow> Cpu checked" where
  "cpu_set_partNumber positionNum structLen m p c = do {
     result \<leftarrow> positionToString positionNum structLen m (At p);
     Some (c\<lparr>cpu_partNumber := result\<rparr>) }"

definition cpu_set_serialNumber :: "u8 \<Rightarrow> u8 \<Rightarrow> memory \<Rightarrow> nat \<Rightarrow> Cpu \<Rightarrow> Cpu checked" where
  "cpu_set_serialNumber positionNum structLen m p c = do {
     result \<leftarrow> positionToString positionNum structLen m (At p);
     Some (c\<lparr>cpu_serialNumber := result\<rparr>) }"

definition cpu_set_assetTagString :: "u8 \<Rightarrow> u8 \<Rightarrow> memory \<Rightarrow> nat \<Rightarrow> Cpu \<Rightarrow> Cpu checked" where
  "cpu_set_assetTagString positionNum structLen m p c = do {
     result \<leftarrow> positionToString positionNum structLen m (At p);
     Some (c\<lparr>cpu_assetTag := result\<rparr>) }"

fun characteristics_loop :: "nat list \<Rightarrow> u16 \<Rightarrow> Capability list \<Rightarrow> Capability list" where
  "characteristics_loop [] charBits result = result"
| "characteristics_loop (index # js) charBits result =
     characteristics_loop js charBits
       (if bit charBits index
        then (case characteristicsTable ! index of
                Some cap \<Rightarrow> result @ [cap] | None \<Rightarrow> result)
        else result)"

definition cpu_set_characteristics :: "u16 \<Rightarrow> Cpu \<Rightarrow> Cpu" where
  "cpu_set_characteristics x c = c\<lparr>cpu_characteristics := characteristics_loop [0 ..< 16] x []\<rparr>"

text \<open>The CPUID signature in the processor ID field, for the families the code recognises.\<close>

definition signature_family :: "string \<Rightarrow> bool" where
  "signature_family familyStr \<longleftrightarrow> search '' Xeon '' familyStr \<noteq> None
     \<or> search '' Intel '' familyStr \<noteq> None \<or> search '' Zen '' familyStr \<noteq> None"

definition cpu_set_signature :: "u64 \<Rightarrow> Cpu \<Rightarrow> Cpu" where
  "cpu_set_signature ident c =
     (let cpuStep = ucast (ident AND 0xf) :: u16;
          cpuModel = ucast (drop_bit 4 (ident AND 0xf0)) :: u16;
          cpuFamily = ucast (drop_bit 8 (ident AND 0xf00)) :: u16;
          cpuXModel = ucast (drop_bit 16 (ident AND 0xf0000)) :: u16;
          cpuXFamily = ucast (drop_bit 20 (ident AND 0xff00000)) :: u16;
          c1 = c\<lparr>cpu_step := cpuStep\<rparr>;
          c2 = (if cpuFamily = 0xf then c1\<lparr>cpu_effectiveFamily := cpuXFamily + cpuFamily\<rparr>
                else c1\<lparr>cpu_effectiveFamily := cpuFamily\<rparr>)
      in if cpuFamily = 0x6 \<or> cpuFamily = 0xf
         then c2\<lparr>cpu_effectiveModel := push_bit 4 cpuXModel OR cpuModel\<rparr>
         else c2\<lparr>cpu_effectiveModel := cpuModel\<rparr>)"

definition maxOldVersionCount :: u8 where "maxOldVersionCount = 0xff"

text \<open>The part of \<open>infoUpdate\<close> after the presence check, for a populated socket.\<close>

definition cpu_populated ::
  "cpu_config \<Rightarrow> string \<Rightarrow> string \<Rightarrow> memory \<Rightarrow> nat \<Rightarrow> Cpu \<Rightarrow> Cpu checked"
where
  "cpu_populated cfg objPath motherboardPath m p c = do {
     len \<leftarrow> pi_length m p;
     fam \<leftarrow> pi_family m p;
     fam2 \<leftarrow> pi_family2 m p;
     let c1 = cpu_set_family fam fam2 c;
     mf \<leftarrow> pi_manufacturer m p;
     c2 \<leftarrow> cpu_set_manufacturer mf len m p c1;
     ident \<leftarrow> pi_id m p;
     let c3 = c2\<lparr>cpu_id := ident\<rparr>;
     let c4 = (case map_of familyTable fam of
                 None \<Rightarrow> c3
               | Some familyStr \<Rightarrow> if signature_family familyStr then cpu_set_signature ident c3 else c3);
     ver \<leftarrow> pi_version m p;
     c5 \<leftarrow> cpu_set_version cfg ver len m p c4;
     mx \<leftarrow> pi_maxSpeed m p;
     let c6 = c5\<lparr>cpu_maxSpeed := ucast mx\<rparr>;
     sn \<leftarrow> pi_serialNum m p;
     c7 \<leftarrow> cpu_set_serialNumber sn len m p c6;
     tag \<leftarrow> pi_assetTag m p;
     c8 \<leftarrow> cpu_set_assetTagString tag len m p c7;
     pn \<leftarrow> pi_partNum m p;
     c9 \<leftarrow> cpu_set_partNumber pn len m p c8;
     cores \<leftarrow> pi_coreCount m p;
     c10 \<leftarrow> (if cores < maxOldVersionCount then Some (c9\<lparr>cpu_coreCount := ucast cores\<rparr>)
             else do { cores2 \<leftarrow> pi_coreCount2 m p; Some (c9\<lparr>cpu_coreCount := cores2\<rparr>) });
     threads \<leftarrow> pi_threadCount m p;
     c11 \<leftarrow> (if threads < maxOldVersionCount then Some (c10\<lparr>cpu_threadCount := ucast threads\<rparr>)
             else do { threads2 \<leftarrow> pi_threadCount2 m p; Some (c10\<lparr>cpu_threadCount := threads2\<rparr>) });
     chars \<leftarrow> pi_characteristics m p;
     let c12 = cpu_set_characteristics chars c11;
     Some (if motherboardPath \<noteq> []
           then c12\<lparr>cpu_associations :=
                  (case platformPrefix cfg of
                     None \<Rightarrow> [(''processors'', ''all_processors'', objPath),
                              (''parent_chassis'', ''all_chassis'', motherboardPath)]
                   | Some pre \<Rightarrow> [(''parent_chassis'', ''all_processors'', objPath)])\<rparr>
           else c12) }"

text \<open>The loop at the start of \<open>infoUpdate\<close> is the one of \<open>getSMBIOSTypeIndexPtr\<close> written out.\<close>

definition cpu_infoUpdate ::
  "cpu_config \<Rightarrow> u8 \<Rightarrow> string \<Rightarrow> memory \<Rightarrow> ptr \<Rightarrow> string \<Rightarrow> Cpu \<Rightarrow> Cpu checked"
where
  "cpu_infoUpdate cfg cpuNum objPath m storage motherboard c = do {
     dataIn \<leftarrow> getSMBIOSTypeIndexPtr m storage (type_code processorsType) cpuNum;
     (case dataIn of
        Null \<Rightarrow> Some c
      | At p \<Rightarrow> do {
          pos \<leftarrow> pi_socketDesignation m p;
          len \<leftarrow> pi_length m p;
          c1 \<leftarrow> cpu_set_socket cfg cpuNum pos len m p c;
          st \<leftarrow> pi_status m p;
          if st AND 0x40 = 0
          then Some (c1\<lparr>cpu_present := False, cpu_functional := False\<rparr>)
          else cpu_populated cfg objPath motherboard m p
                 (c1\<lparr>cpu_present := True, cpu_functional := (st AND 0x07 = 1)\<rparr>) }) }"

subsection \<open>The chassis object of a processor\<close>

record chassisCpu =
  cc_locationCode :: string
  cc_component :: bool
  cc_present :: bool
  cc_functional :: bool
  cc_manufacturer :: string
  cc_model :: string
  cc_serialNumber :: string
  cc_assetTag :: string
  cc_partNumber :: string
  cc_associations :: "(string \<times> string \<times> string) list"

definition cc_locationString :: "u8 \<Rightarrow> u8 \<Rightarrow> memory \<Rightarrow> nat \<Rightarrow> chassisCpu \<Rightarrow> chassisCpu checked" where
  "cc_locationString positionNum structLen m p c = do {
     result \<leftarrow> positionToString positionNum structLen m (At p);
     Some (c\<lparr>cc_locationCode := result\<rparr>) }"

definition cc_set_manufacturer :: "u8 \<Rightarrow> u8 \<Rightarrow> memory \<Rightarrow> nat \<Rightarrow> chassisCpu \<Rightarrow> chassisCpu checked" where
  "cc_set_manufacturer positionNum structLen m p c = do {
     result \<leftarrow> positionToString positionNum structLen m (At p);
     Some (c\<lparr>cc_manufacturer := result\<rparr>) }"

definition cc_set_partNumber :: "u8 \<Rightarrow> u8 \<Rightarrow> memory \<Rightarrow> nat \<Rightarrow> chassisCpu \<Rightarrow> chassisCpu checked" where
  "cc_set_partNumber positionNum structLen m p c = do {
     result \<leftarrow> positionToString positionNum structLen m (At p);
     Some (c\<lparr>cc_partNumber := result\<rparr>) }"

definition cc_set_serialNumber :: "u8 \<Rightarrow> u8 \<Rightarrow> memory \<Rightarrow> nat \<Rightarrow> chassisCpu \<Rightarrow> chassisCpu checked" where
  "cc_set_serialNumber positionNum structLen m p c = do {
     result \<leftarrow> positionToString positionNum structLen m (At p);
     Some (c\<lparr>cc_serialNumber := result\<rparr>) }"

definition cc_assetTagString :: "u8 \<Rightarrow> u8 \<Rightarrow> memory \<Rightarrow> nat \<Rightarrow> chassisCpu \<Rightarrow> chassisCpu checked" where
  "cc_assetTagString positionNum structLen m p c = do {
     result \<leftarrow> positionToString positionNum structLen m (At p);
     Some (c\<lparr>cc_assetTag := result\<rparr>) }"

definition cc_set_model ::
  "cpu_config \<Rightarrow> u8 \<Rightarrow> u8 \<Rightarrow> memory \<Rightarrow> nat \<Rightarrow> chassisCpu \<Rightarrow> chassisCpu checked"
where
  "cc_set_model cfg positionNum structLen m p c = do {
     result \<leftarrow> positionToString positionNum structLen m (At p);
     Some (if copyVersionToModel cfg then c\<lparr>cc_model := result\<rparr> else c) }"

text \<open>The class has its own copy of the structure; the fields that are used.\<close>

definition cci_length :: "memory \<Rightarrow> nat \<Rightarrow> u8 checked" where [field_defs, simp]:
  "cci_length m p = rd8 m (p + 1)"

definition cci_socketDesignation :: "memory \<Rightarrow> nat \<Rightarrow> u8 checked" where [field_defs, simp]:
  "cci_socketDesignation m p = rd8 m (p + 4)"

definition cci_manufacturer :: "memory \<Rightarrow> nat \<Rightarrow> u8 checked" where [field_defs, simp]:
  "cci_manufacturer m p = rd8 m (p + 7)"

definition cci_version :: "memory \<Rightarrow> nat \<Rightarrow> u8 checked" where [field_defs, simp]:
  "cci_version m p = rd8 m (p + 16)"

definition cci_status :: "memory \<Rightarrow> nat \<Rightarrow> u8 checked" where [field_defs, simp]:
  "cci_status m p = rd8 m (p + 24)"

definition cci_serialNum :: "memory \<Rightarrow> nat \<Rightarrow> u8 checked" where [field_defs, simp]:
  "cci_serialNum m p = rd8 m (p + 32)"

definition cci_assetTag :: "memory \<Rightarrow> nat \<Rightarrow> u8 checked" where [field_defs, simp]:
  "cci_assetTag m p = rd8 m (p + 33)"

definition cci_partNum :: "memory \<Rightarrow> nat \<Rightarrow> u8 checked" where [field_defs, simp]:
  "cci_partNum m p = rd8 m (p + 34)"

definition chassisCpu_infoUpdate ::
  "cpu_config \<Rightarrow> u8 \<Rightarrow> string \<Rightarrow> memory \<Rightarrow> ptr \<Rightarrow> string \<Rightarrow> chassisCpu \<Rightarrow> chassisCpu checked"
where
  "chassisCpu_infoUpdate cfg cpuNum objPath m storage motherboard c = do {
     dataIn \<leftarrow> getSMBIOSTypeIndexPtr m storage (type_code processorsType) cpuNum;
     (case dataIn of
        Null \<Rightarrow> Some c
      | At p \<Rightarrow> do {
          let c1 = c\<lparr>cc_component := True\<rparr>;
          len \<leftarrow> cci_length m p;
          pos \<leftarrow> cci_socketDesignation m p;
          c2 \<leftarrow> cc_locationString pos len m p c1;
          st \<leftarrow> cci_status m p;
          if st AND 0x40 = 0
          then Some (c2\<lparr>cc_present := False, cc_functional := False\<rparr>)
          else do {
            let c3 = c2\<lparr>cc_present := True, cc_functional := (st AND 0x07 = 1)\<rparr>;
            mf \<leftarrow> cci_manufacturer m p;
            c4 \<leftarrow> cc_set_manufacturer mf len m p c3;
            ver \<leftarrow> cci_version m p;
            c5 \<leftarrow> cc_set_model cfg ver len m p c4;
            sn \<leftarrow> cci_serialNum m p;
            c6 \<leftarrow> cc_set_serialNumber sn len m p c5;
            tag \<leftarrow> cci_assetTag m p;
            c7 \<leftarrow> cc_assetTagString tag len m p c6;
            pn \<leftarrow> cci_partNum m p;
            c8 \<leftarrow> cc_set_partNumber pn len m p c7;
            Some (if motherboard \<noteq> []
                  then c8\<lparr>cc_associations := [(''processors'', ''parent_chassis'', objPath),
                            (''parent_chassis'', ''all_chassis'', motherboard)]\<rparr>
                  else c8) } }) }"

text \<open>The constructor sets the chassis type again after the update.\<close>

definition chassisCpu_new ::
  "cpu_config \<Rightarrow> u8 \<Rightarrow> string \<Rightarrow> memory \<Rightarrow> ptr \<Rightarrow> string \<Rightarrow> chassisCpu \<Rightarrow> chassisCpu checked"
where
  "chassisCpu_new cfg cpuId assocPath m storage motherboard c0 = do {
     c \<leftarrow> chassisCpu_infoUpdate cfg cpuId assocPath m storage motherboard c0;
     Some (c\<lparr>cc_component := True\<rparr>) }"

subsection \<open>The CPUID signature\<close>

lemma ucast_field:
  fixes x :: u64
  shows "unat (ucast (drop_bit k (x AND push_bit k (mask n))) :: u16) = unat x div 2 ^ k mod 2 ^ n mod 2 ^ 16"
proof -
  have "drop_bit k (x AND push_bit k (mask n)) = take_bit n (drop_bit k x)"
    by (rule bit_word_eqI)
       (auto simp: bit_drop_bit_eq bit_and_iff bit_push_bit_iff bit_mask_iff bit_take_bit_iff
         dest: bit_imp_le_length)
  moreover have "unat (take_bit n (drop_bit k x)) = unat x div 2 ^ k mod 2 ^ n"
    by (simp add: unat_drop_bit_eq unsigned_take_bit_eq take_bit_eq_mod [where ?'a = nat]
        drop_bit_eq_div [where ?'a = nat])
  ultimately show ?thesis
    by (simp add: unsigned_ucast_eq take_bit_eq_mod [where ?'a = nat])
qed

definition sig_step :: "u64 \<Rightarrow> nat" where "sig_step x = unat x mod 16"

definition sig_family :: "u64 \<Rightarrow> nat" where
  "sig_family x = (let f = unat x div 2 ^ 8 mod 16 in
     if f = 15 then unat x div 2 ^ 20 mod 256 + f else f)"

definition sig_model :: "u64 \<Rightarrow> nat" where
  "sig_model x = (let f = unat x div 2 ^ 8 mod 16; md = unat x div 2 ^ 4 mod 16 in
     if f = 6 \<or> f = 15 then 16 * (unat x div 2 ^ 16 mod 16) + md else md)"

lemma signature_fields:
  fixes x :: u64
  shows "unat (ucast (x AND 0xf) :: u16) = unat x mod 16"
    and "unat (ucast (drop_bit 4 (x AND 0xf0)) :: u16) = unat x div 2 ^ 4 mod 16"
    and "unat (ucast (drop_bit 8 (x AND 0xf00)) :: u16) = unat x div 2 ^ 8 mod 16"
    and "unat (ucast (drop_bit 16 (x AND 0xf0000)) :: u16) = unat x div 2 ^ 16 mod 16"
    and "unat (ucast (drop_bit 20 (x AND 0xff00000)) :: u16) = unat x div 2 ^ 20 mod 256"
proof -
  have m: "push_bit 4 (mask 4) = (0xf0 :: u64)" "push_bit 8 (mask 4) = (0xf00 :: u64)" "mask 4 = (0xf :: u64)"
    "push_bit 16 (mask 4) = (0xf0000 :: u64)" "push_bit 20 (mask 8) = (0xff00000 :: u64)"
    by code_simp+
  show "unat (ucast (x AND 0xf) :: u16) = unat x mod 16"
    using ucast_field [of 0 x 4] by (simp add: m)
  show "unat (ucast (drop_bit 4 (x AND 0xf0)) :: u16) = unat x div 2 ^ 4 mod 16"
    using ucast_field [of 4 x 4] by (simp add: m)
  show "unat (ucast (drop_bit 8 (x AND 0xf00)) :: u16) = unat x div 2 ^ 8 mod 16"
    using ucast_field [of 8 x 4] by (simp add: m)
  show "unat (ucast (drop_bit 16 (x AND 0xf0000)) :: u16) = unat x div 2 ^ 16 mod 16"
    using ucast_field [of 16 x 4] by (simp add: m)
  show "unat (ucast (drop_bit 20 (x AND 0xff00000)) :: u16) = unat x div 2 ^ 20 mod 256"
    using ucast_field [of 20 x 8] by (simp add: m)
qed

lemma cpu_set_signature_spec:
  "unat (cpu_step (cpu_set_signature x c)) = sig_step x
   \<and> unat (cpu_effectiveFamily (cpu_set_signature x c)) = sig_family x
   \<and> unat (cpu_effectiveModel (cpu_set_signature x c)) = sig_model x"
proof -
  define st md fm xm xf where defs:
    "st = (ucast (x AND 0xf) :: u16)" "md = (ucast (drop_bit 4 (x AND 0xf0)) :: u16)"
    "fm = (ucast (drop_bit 8 (x AND 0xf00)) :: u16)"
    "xm = (ucast (drop_bit 16 (x AND 0xf0000)) :: u16)"
    "xf = (ucast (drop_bit 20 (x AND 0xff00000)) :: u16)"
  note u = signature_fields [of x, folded defs]
  have eqs: "fm = 0xf \<longleftrightarrow> unat x div 2 ^ 8 mod 16 = 15" "fm = 0x6 \<longleftrightarrow> unat x div 2 ^ 8 mod 16 = 6"
    using u(3) by (auto simp: word_unat_eq_iff)
  have fam: "unat (xf + fm) = unat xf + unat fm"
    using u(3,5) by (simp add: unat_word_ariths)
  have "unat md < 2 ^ 4" using u(2) by simp
  then have "take_bit 4 md = md"
    by (simp add: word_unat_eq_iff unsigned_take_bit_eq take_bit_nat_eq_self)
  then have low: "bit md i \<Longrightarrow> i < 4" for i
    by (metis bit_take_bit_iff)
  have "push_bit 4 xm AND md = 0"
    by (rule bit_word_eqI) (auto simp: bit_and_iff bit_push_bit_iff dest: low)
  then have "push_bit 4 xm OR md = push_bit 4 xm + md"
    by (rule disjunctive_add_eq_or [symmetric])
  then have mdl: "unat (push_bit 4 xm OR md) = 16 * unat xm + unat md"
    using u(2,4) by (simp add: unat_word_ariths push_bit_eq_mult)
  show ?thesis
    unfolding cpu_set_signature_def Let_def defs [symmetric] sig_step_def sig_family_def sig_model_def
    using u eqs fam mdl by simp
qed

subsection \<open>Families and characteristics\<close>

lemma familyTable_codes: "map fst familyTable =
    [0x01, 0x02, 0x03, 0x04, 0x05, 0x06, 0x07, 0x08, 0x09, 0x0a, 0x0b, 0x0c, 0x0d, 0x0e, 0x0f,
     0x10, 0x11, 0x12, 0x13, 0x14, 0x15, 0x16, 0x18, 0x19, 0x1a, 0x1b, 0x1c, 0x1d, 0x1e, 0x1f,
     0x20, 0x21, 0x22, 0x23, 0x24, 0x25, 0x26, 0x27, 0x28, 0x29, 0x2a, 0x2b, 0x2c, 0x2d, 0x2e,
     0x2f, 0x30, 0x31, 0x32, 0x33, 0x34, 0x35, 0x36, 0x37, 0x38, 0x39, 0x3a, 0x3b, 0x3c, 0x3d,
     0x3e, 0x3f, 0x40, 0x41, 0x42, 0x43, 0x44, 0x45, 0x46, 0x47, 0x48, 0x49, 0x4a, 0x4b, 0x4c,
     0x4d, 0x4e, 0x4f, 0x50, 0x51, 0x52, 0x53, 0x54, 0x55, 0x56, 0x57, 0x58, 0x60, 0x61, 0x62,
     0x63, 0x64, 0x65, 0x66, 0x67, 0x68, 0x69, 0x6a, 0x6b, 0x70, 0x78, 0x79, 0x7a, 0x80, 0x82,
     0x83, 0x84, 0x85, 0x86, 0x87, 0x88, 0x89, 0x8a, 0x8b, 0x8c, 0x8d, 0x8e, 0x8f, 0x90, 0x91,
     0x92, 0x93, 0x94, 0x95, 0x96, 0xa0, 0xa1, 0xa2, 0xa3, 0xa4, 0xa5, 0xa6, 0xa7, 0xa8, 0xa9,
     0xaa, 0xab, 0xac, 0xad, 0xae, 0xaf, 0xb0, 0xb1, 0xb2, 0xb3, 0xb4, 0xb5, 0xb6, 0xb7, 0xb8,
     0xb9, 0xba, 0xbb, 0xbc, 0xbd, 0xbf, 0xc0, 0xc1, 0xc2, 0xc3, 0xc4, 0xc5, 0xc6, 0xc7, 0xc8,
     0xc9, 0xca, 0xcb, 0xcc, 0xcd, 0xce, 0xcf, 0xd2, 0xd3, 0xd4, 0xd5, 0xd6, 0xd7, 0xd8, 0xd9,
     0xda, 0xdb, 0xdd, 0xde, 0xdf, 0xe0, 0xe4, 0xe5, 0xe6, 0xe7, 0xe8, 0xe9, 0xea, 0xeb, 0xec,
     0xed, 0xee, 0xef, 0xfa, 0xfb, 0xfe]"
  by (simp only: familyTable_def familyTable_lower_def familyTable_upper_def append.simps list.map fst_conv)

lemma family2Table_codes: "map fst family2Table =
    [0x100, 0x101, 0x102, 0x104, 0x105, 0x118, 0x119, 0x12c, 0x12d, 0x12e, 0x140, 0x15e, 0x1f4,
     0x200, 0x201, 0x202, 0x258, 0x259, 0x25a, 0x25b, 0x25c, 0x25d, 0x25e, 0x25f, 0x260, 0x261,
     0x262, 0x26c, 0x26d, 0x26e, 0x26f, 0x270, 0x271]"
  by (simp only: family2Table_def list.map fst_conv)

lemma distinct_familyTable: "distinct (map fst familyTable)"
  by (rule ascending_distinct) (simp add: familyTable_codes)

lemma distinct_family2Table: "distinct (map fst family2Table)"
  by (rule ascending_distinct) (simp add: family2Table_codes)

lemma cpu_set_family_listed:
  assumes "(code, nm) \<in> set familyTable" and "code \<noteq> 0xfe"
  shows "cpu_set_family code fam2 c = c\<lparr>cpu_family := nm, cpu_effectiveFamily := ucast code\<rparr>"
  using map_of_is_SomeI [OF distinct_familyTable assms(1)] assms(2)
  by (simp add: cpu_set_family_def processorFamily2Indicator_def)

lemma familyTable_indicator: "map_of familyTable 0xfe = Some ''Processor Family 2 Indicator''"
proof (rule map_of_is_SomeI [OF distinct_familyTable])
  show "(0xfe, ''Processor Family 2 Indicator'') \<in> set familyTable"
    by (simp only: familyTable_def familyTable_lower_def familyTable_upper_def append.simps list.set insert_iff HOL.simp_thms)
qed

lemma cpu_set_family2_listed:
  assumes "(code, nm) \<in> set family2Table"
  shows "cpu_set_family 0xfe code c = c\<lparr>cpu_family := nm, cpu_effectiveFamily := code\<rparr>"
  using map_of_is_SomeI [OF distinct_family2Table assms]
  by (simp add: cpu_set_family_def processorFamily2Indicator_def familyTable_indicator)

lemma characteristics_loop_spec:
  "characteristics_loop js w acc =
     acc @ List.map_filter (\<lambda>i. if bit w i then characteristicsTable ! i else None) js"
proof (induction js arbitrary: acc)
  case Nil
  then show ?case by (simp add: List.map_filter_simps)
next
  case (Cons i js)
  then show ?case by (auto simp: List.map_filter_simps split: option.splits)
qed

subsection \<open>Socket designations\<close>

lemma digit_char_digit: "n < 10 \<Longrightarrow> digit_char (digit n) \<and> of_char (digit n) = 48 + n"
  by (simp add: digit_char_def digit.simps)

lemma dec_digits: "list_all digit_char (dec n) \<and> dec n \<noteq> [] \<and> dec_value (dec n) = n"
proof (induction n rule: dec.induct)
  case (1 n)
  show ?case
  proof (cases "n < 10")
    case True
    then show ?thesis
      using digit_char_digit [of n] by (subst (1 2 3) dec.simps) (simp add: dec_value_def)
  next
    case False
    have "dec_value (dec (n div 10) @ [digit (n mod 10)]) = 10 * dec_value (dec (n div 10)) + n mod 10"
      using digit_char_digit [of "n mod 10"] by (simp add: dec_value_def)
    then show ?thesis
      using 1 False digit_char_digit [of "n mod 10"] by (subst (1 2 3) dec.simps) simp
  qed
qed

lemma span_append:
  assumes "list_all P xs" and "ys = [] \<or> \<not> P (hd ys)"
  shows "takeWhile P (xs @ ys) = xs" and "dropWhile P (xs @ ys) = ys"
proof -
  have "takeWhile P ys = [] \<and> dropWhile P ys = ys"
    using assms(2) by (cases ys) auto
  then show "takeWhile P (xs @ ys) = xs" and "dropWhile P (xs @ ys) = ys"
    using assms(1) by (auto simp: list_all_iff takeWhile_append2 dropWhile_append2)
qed

lemma socket_regex_match:
  assumes "list_all word_char w" and "w \<noteq> []" and "list_all digit_char a" and "a \<noteq> []"
    and "list_all digit_char b" and "b \<noteq> []" and "list_all space_char sp"
  shows "socket_regex (w @ CHR '':'' # a @ CHR ''.'' # b @ sp) = Some (w, a, b)"
proof -
  have np: "\<not> word_char (CHR '':'')" "\<not> digit_char (CHR ''.'')"
    by (simp_all add: word_char_def digit_char_def)
  have sp: "sp = [] \<or> \<not> digit_char (hd sp)"
    using assms(7) by (cases sp) (auto simp: space_char_def digit_char_def)
  show ?thesis
    using assms np sp
      span_append [of word_char w "CHR '':'' # a @ CHR ''.'' # b @ sp"]
      span_append [of digit_char a "CHR ''.'' # b @ sp"] span_append [of digit_char b sp]
    by (simp add: socket_regex_def Let_def)
qed

subsection \<open>A processor of an encoded table\<close>

lemma cpu_set_socket_table:
  assumes "at_table m q (s # rest)"
  shows "cpu_set_socket cfg k pos (word_of_nat (s_length s)) m q c =
    Some (c\<lparr>cpu_socket := struct_string s pos, cpu_locationCode := struct_string s pos,
            cpu_instanceNumber := (case socketChipNumber cfg (struct_string s pos) of
              (found, sock, chip) \<Rightarrow> if found then chip else unat k)\<rparr>)"
  using positionToString_table [OF assms, of pos]
  by (simp add: cpu_set_socket_def split: prod.splits)

lemma cpu_infoUpdate_lookup:
  assumes "table_from m p q ss" and "unat k < length (of_type 4 ss)"
  shows "\<exists>r rest. getSMBIOSTypeIndexPtr m (At p) (type_code processorsType) k = Some (At r)
    \<and> at_table m r ((of_type 4 ss ! unat k) # rest)"
  using getSMBIOSTypeIndexPtr_hit [OF assms] by simp

lemma cpu_infoUpdate_absent:
  assumes "table_from m p q ss" and "unat k < length (of_type 4 ss)"
  defines "s \<equiv> of_type 4 ss ! unat k"
  assumes "25 \<le> s_length s" and "sf8 s 24 AND 0x40 = 0"
  shows "cpu_infoUpdate cfg k obj m (At p) mb c = Some
    (c\<lparr>cpu_socket := struct_string s (sf8 s 4), cpu_locationCode := struct_string s (sf8 s 4),
       cpu_instanceNumber := (case socketChipNumber cfg (struct_string s (sf8 s 4)) of
              (found, sock, chip) \<Rightarrow> if found then chip else unat k),
       cpu_present := False, cpu_functional := False\<rparr>)"
proof -
  obtain r rest where r: "getSMBIOSTypeIndexPtr m (At p) (type_code processorsType) k = Some (At r)"
    and at: "at_table m r (s # rest)"
    using cpu_infoUpdate_lookup [OF assms(1,2)] s_def by blast
  have "rd8 m (r + 4) = Some (sf8 s 4)" "rd8 m (r + 24) = Some (sf8 s 24)"
    using at_table_fields(1) [OF at, of 4] at_table_fields(1) [OF at, of 24] assms(4) by simp_all
  then show ?thesis
    using r at_table_header(2) [OF at] cpu_set_socket_table [OF at] assms(5)
    by (simp add: cpu_infoUpdate_def field_defs)
qed

lemma cpu_infoUpdate_present:
  assumes "table_from m p q ss" and "unat k < length (of_type 4 ss)"
  defines "s \<equiv> of_type 4 ss ! unat k"
  assumes "25 \<le> s_length s" and "sf8 s 24 AND 0x40 \<noteq> 0"
  shows "\<exists>r rest. at_table m r (s # rest) \<and> cpu_infoUpdate cfg k obj m (At p) mb c =
    cpu_populated cfg obj mb m r
      (c\<lparr>cpu_socket := struct_string s (sf8 s 4), cpu_locationCode := struct_string s (sf8 s 4),
         cpu_instanceNumber := (case socketChipNumber cfg (struct_string s (sf8 s 4)) of
              (found, sock, chip) \<Rightarrow> if found then chip else unat k),
         cpu_present := True, cpu_functional := (sf8 s 24 AND 0x07 = 1)\<rparr>)"
proof -
  obtain r rest where r: "getSMBIOSTypeIndexPtr m (At p) (type_code processorsType) k = Some (At r)"
    and at: "at_table m r (s # rest)"
    using cpu_infoUpdate_lookup [OF assms(1,2)] s_def by blast
  have "rd8 m (r + 4) = Some (sf8 s 4)" "rd8 m (r + 24) = Some (sf8 s 24)"
    using at_table_fields(1) [OF at, of 4] at_table_fields(1) [OF at, of 24] assms(4) by simp_all
  then show ?thesis
    using r at at_table_header(2) [OF at] cpu_set_socket_table [OF at] assms(5)
    by (intro exI [of _ r] exI [of _ rest]) (simp add: cpu_infoUpdate_def field_defs)
qed

text \<open>What a populated socket shows, field by field.\<close>

definition cpu_shows :: "smb_struct \<Rightarrow> Cpu \<Rightarrow> bool" where
  "cpu_shows s c \<longleftrightarrow>
     cpu_id c = sf64 s 8
     \<and> cpu_manufacturer c = struct_string s (sf8 s 7)
     \<and> cpu_version c = struct_string s (sf8 s 16)
     \<and> cpu_maxSpeed c = ucast (sf16 s 20)
     \<and> cpu_serialNumber c = struct_string s (sf8 s 32)
     \<and> cpu_assetTag c = struct_string s (sf8 s 33)
     \<and> cpu_partNumber c = struct_string s (sf8 s 34)
     \<and> cpu_coreCount c = (if sf8 s 35 = 0xff then sf16 s 42 else ucast (sf8 s 35))
     \<and> cpu_threadCount c = (if sf8 s 37 = 0xff then sf16 s 46 else ucast (sf8 s 37))
     \<and> cpu_characteristics c =
         List.map_filter (\<lambda>i. if bit (sf16 s 38) i then characteristicsTable ! i else None) [0 ..< 16]"

text \<open>
  The same without the functions of the code: the name that the tables list for a structure, the
  family codes whose CPUID signature is used (the listed name has the maker as a word inside of it),
  and the chip number that a socket designation of the form name, colon, socket, dot, chip gives.
\<close>

definition family_name :: "smb_struct \<Rightarrow> string option" where
  "family_name s = (if sf8 s 6 = 0xfe then map_of family2Table (sf16 s 40)
                    else map_of familyTable (sf8 s 6))"

definition cpuid_family :: "u8 \<Rightarrow> bool" where
  "cpuid_family code \<longleftrightarrow> (\<exists>pre maker post. maker \<in> {'' Xeon '', '' Intel '', '' Zen ''}
     \<and> (code, pre @ maker @ post) \<in> set familyTable)"

definition chip_designated :: "cpu_config \<Rightarrow> string \<Rightarrow> nat \<Rightarrow> bool" where
  "chip_designated cfg d chip \<longleftrightarrow> nvidia cfg \<and> (\<exists>w a b sp. d = w @ '':'' @ a @ ''.'' @ b @ sp
     \<and> w \<noteq> [] \<and> list_all word_char w \<and> a \<noteq> [] \<and> list_all digit_char a
     \<and> b \<noteq> [] \<and> list_all digit_char b \<and> list_all space_char sp
     \<and> dec_value a \<le> ulong_max cfg \<and> dec_value b \<le> ulong_max cfg \<and> chip = dec_value b)"

text \<open>The family name, and the family, model and stepping that follow from it.\<close>

definition cpu_signed :: "smb_struct \<Rightarrow> Cpu \<Rightarrow> Cpu" where
  "cpu_signed s c = (case map_of familyTable (sf8 s 6) of
      None \<Rightarrow> cpu_set_family (sf8 s 6) (sf16 s 40) c
    | Some nm \<Rightarrow> if signature_family nm
                then cpu_set_signature (sf64 s 8) (cpu_set_family (sf8 s 6) (sf16 s 40) c)
                else cpu_set_family (sf8 s 6) (sf16 s 40) c)"

lemma cpu_set_family_keeps:
  "cpu_set_family fam fam2 (cpu_manufacturer_update f c) = cpu_manufacturer_update f (cpu_set_family fam fam2 c)"
  "cpu_set_family fam fam2 (cpu_id_update g c) = cpu_id_update g (cpu_set_family fam fam2 c)"
  "cpu_set_signature x (cpu_manufacturer_update f c) = cpu_manufacturer_update f (cpu_set_signature x c)"
  "cpu_set_signature x (cpu_id_update g c) = cpu_id_update g (cpu_set_signature x c)"
  by (simp_all add: cpu_set_family_def cpu_set_signature_def Let_def split: option.split)

lemma cpu_signed_keeps [simp]:
  "cpu_present (cpu_signed s c) = cpu_present c" "cpu_functional (cpu_signed s c) = cpu_functional c"
  "cpu_socket (cpu_signed s c) = cpu_socket c" "cpu_instanceNumber (cpu_signed s c) = cpu_instanceNumber c"
  "cpu_locationCode (cpu_signed s c) = cpu_locationCode c" "cpu_model (cpu_signed s c) = cpu_model c"
  "cpu_associations (cpu_signed s c) = cpu_associations c"
  by (simp_all add: cpu_signed_def cpu_set_family_def cpu_set_signature_def Let_def split: option.split)

lemma search_occurs:
  assumes "pat \<noteq> []"
  shows "search pat xs \<noteq> None \<longleftrightarrow> (\<exists>pre post. xs = pre @ pat @ post)"
proof
  assume "search pat xs \<noteq> None"
  then obtain i where "take (length pat) (drop i xs) = pat"
    using search_None_iff [OF assms, of xs] by auto
  then have "xs = take i xs @ pat @ drop (length pat) (drop i xs)"
    by (metis append_take_drop_id)
  then show "\<exists>pre post. xs = pre @ pat @ post" by blast
next
  assume "\<exists>pre post. xs = pre @ pat @ post"
  then obtain pre post where "xs = pre @ pat @ post" by blast
  then have "take (length pat) (drop (length pre) xs) = pat" by simp
  then show "search pat xs \<noteq> None" using search_None_iff [OF assms, of xs] by blast
qed

lemma cpuid_family_iff:
  "cpuid_family code \<longleftrightarrow> (case map_of familyTable code of None \<Rightarrow> False | Some nm \<Rightarrow> signature_family nm)"
proof -
  have entry: "(code, nm) \<in> set familyTable \<longleftrightarrow> map_of familyTable code = Some nm" for nm
    using map_of_eq_Some_iff [OF distinct_familyTable] by simp
  have occurs: "signature_family nm \<longleftrightarrow>
      (\<exists>maker \<in> {'' Xeon '', '' Intel '', '' Zen ''}. \<exists>pre post. nm = pre @ maker @ post)" for nm
    unfolding signature_family_def
    using search_occurs [of "'' Xeon ''"] search_occurs [of "'' Intel ''"] search_occurs [of "'' Zen ''"]
    by blast
  show ?thesis
    unfolding cpuid_family_def entry by (cases "map_of familyTable code") (auto simp only: occurs option.simps)
qed

lemma cpu_signed_fields:
  "cpu_family (cpu_signed s c) = (case family_name s of None \<Rightarrow> ''Unknown Processor Family'' | Some nm \<Rightarrow> nm)"
  "if cpuid_family (sf8 s 6)
   then unat (cpu_effectiveFamily (cpu_signed s c)) = sig_family (sf64 s 8)
     \<and> unat (cpu_effectiveModel (cpu_signed s c)) = sig_model (sf64 s 8)
     \<and> unat (cpu_step (cpu_signed s c)) = sig_step (sf64 s 8)
   else cpu_effectiveFamily (cpu_signed s c) =
       (if family_name s = None then cpu_effectiveFamily c
        else if sf8 s 6 = 0xfe then sf16 s 40 else ucast (sf8 s 6))
     \<and> cpu_effectiveModel (cpu_signed s c) = cpu_effectiveModel c
     \<and> cpu_step (cpu_signed s c) = cpu_step c"
proof -
  have keeps: "cpu_family (cpu_set_signature x e) = cpu_family e" for x e
    by (simp add: cpu_set_signature_def Let_def)
  have fam: "cpu_family (cpu_set_family (sf8 s 6) (sf16 s 40) c) =
      (case family_name s of None \<Rightarrow> ''Unknown Processor Family'' | Some nm \<Rightarrow> nm)"
    "cpu_effectiveFamily (cpu_set_family (sf8 s 6) (sf16 s 40) c) =
       (if family_name s = None then cpu_effectiveFamily c
        else if sf8 s 6 = 0xfe then sf16 s 40 else ucast (sf8 s 6))"
    "cpu_effectiveModel (cpu_set_family (sf8 s 6) (sf16 s 40) c) = cpu_effectiveModel c"
    "cpu_step (cpu_set_family (sf8 s 6) (sf16 s 40) c) = cpu_step c"
    using familyTable_indicator
    by (auto simp: cpu_set_family_def family_name_def processorFamily2Indicator_def split: option.split)
  show "cpu_family (cpu_signed s c) = (case family_name s of None \<Rightarrow> ''Unknown Processor Family'' | Some nm \<Rightarrow> nm)"
    by (simp add: cpu_signed_def keeps fam(1) split: option.split)
  show "if cpuid_family (sf8 s 6)
   then unat (cpu_effectiveFamily (cpu_signed s c)) = sig_family (sf64 s 8)
     \<and> unat (cpu_effectiveModel (cpu_signed s c)) = sig_model (sf64 s 8)
     \<and> unat (cpu_step (cpu_signed s c)) = sig_step (sf64 s 8)
   else cpu_effectiveFamily (cpu_signed s c) =
       (if family_name s = None then cpu_effectiveFamily c
        else if sf8 s 6 = 0xfe then sf16 s 40 else ucast (sf8 s 6))
     \<and> cpu_effectiveModel (cpu_signed s c) = cpu_effectiveModel c
     \<and> cpu_step (cpu_signed s c) = cpu_step c"
    using cpu_set_signature_spec [of "sf64 s 8"] fam(2-)
    by (cases "map_of familyTable (sf8 s 6)") (simp_all add: cpuid_family_iff cpu_signed_def)
qed

lemma socket_regex_Some:
  assumes "socket_regex d = Some (w, a, b)"
  shows "\<exists>sp. d = w @ '':'' @ a @ ''.'' @ b @ sp \<and> w \<noteq> [] \<and> list_all word_char w
    \<and> a \<noteq> [] \<and> list_all digit_char a \<and> b \<noteq> [] \<and> list_all digit_char b \<and> list_all space_char sp"
proof -
  let ?r1 = "dropWhile word_char d"
  let ?r2 = "dropWhile digit_char (tl ?r1)"
  let ?sp = "dropWhile digit_char (tl ?r2)"
  have p: "w = takeWhile word_char d" "?r1 \<noteq> []" "hd ?r1 = CHR '':''" "a = takeWhile digit_char (tl ?r1)"
    "?r2 \<noteq> []" "hd ?r2 = CHR ''.''" "b = takeWhile digit_char (tl ?r2)" "list_all space_char ?sp"
    and ne: "w \<noteq> []" "a \<noteq> []" "b \<noteq> []"
    using assms by (auto simp: socket_regex_def Let_def split: if_splits)
  have split: "d = w @ ?r1" "tl ?r1 = a @ ?r2" "tl ?r2 = b @ ?sp"
    using p(1,4,7) by simp_all
  have "?r1 = CHR '':'' # tl ?r1" "?r2 = CHR ''.'' # tl ?r2"
    using p(2,3,5,6) by (metis list.collapse)+
  then have "d = w @ '':'' @ a @ ''.'' @ b @ ?sp"
    using split by (metis append_Cons append_Nil)
  moreover have "list_all word_char w" "list_all digit_char a" "list_all digit_char b"
    using p(1,4,7) by (auto simp: list_all_iff dest: set_takeWhileD)
  ultimately show ?thesis using ne p(8) by blast
qed

lemma socketChipNumber_designated:
  "case socketChipNumber cfg d of (found, sock, chip) \<Rightarrow>
     (\<forall>n. chip_designated cfg d n \<longrightarrow> found \<and> chip = n) \<and> (found \<longrightarrow> chip_designated cfg d chip)"
proof (cases "socket_regex d")
  case None
  then have "\<not> chip_designated cfg d n" for n
    using socket_regex_match by (fastforce simp: chip_designated_def)
  then show ?thesis using None by (simp add: socketChipNumber_def)
next
  case (Some g)
  obtain w a b where g: "g = (w, a, b)" by (cases g)
  have unique: "w' = w \<and> a' = a \<and> b' = b"
    if "d = w' @ '':'' @ a' @ ''.'' @ b' @ sp" "w' \<noteq> []" "list_all word_char w'" "a' \<noteq> []"
      "list_all digit_char a'" "b' \<noteq> []" "list_all digit_char b'" "list_all space_char sp" for w' a' b' sp
    using that Some g socket_regex_match [of w' a' b' sp] by simp
  have iff: "chip_designated cfg d n \<longleftrightarrow> nvidia cfg \<and> dec_value a \<le> ulong_max cfg
      \<and> dec_value b \<le> ulong_max cfg \<and> n = dec_value b" for n
    unfolding chip_designated_def using socket_regex_Some [OF Some [unfolded g]] unique by metis
  show ?thesis
    using Some g by (auto simp: iff socketChipNumber_def stoul_def)
qed
lemma not_less_ff: "(x :: u8) < 0xff \<longleftrightarrow> x \<noteq> 0xff"
proof -
  have "unat x < 256" using unsigned_less [of x] by simp
  then show ?thesis by (auto simp: word_less_nat_alt word_unat_eq_iff)
qed

lemma cpu_populated_table:
  assumes at: "at_table m r (s # rest)" and len: "48 \<le> s_length s"
  shows "\<exists>c'. cpu_populated cfg obj mb m r c = Some c' \<and> cpu_shows s c'
    \<and> cpu_family c' = cpu_family (cpu_signed s c)
    \<and> cpu_effectiveFamily c' = cpu_effectiveFamily (cpu_signed s c)
    \<and> cpu_effectiveModel c' = cpu_effectiveModel (cpu_signed s c) \<and> cpu_step c' = cpu_step (cpu_signed s c)
    \<and> cpu_present c' = cpu_present c \<and> cpu_functional c' = cpu_functional c
    \<and> cpu_socket c' = cpu_socket c \<and> cpu_instanceNumber c' = cpu_instanceNumber c
    \<and> cpu_locationCode c' = cpu_locationCode c
    \<and> cpu_model c' = (if copyVersionToModel cfg then struct_string s (sf8 s 16) else cpu_model c)
    \<and> cpu_associations c' = (if mb = [] then cpu_associations c else case platformPrefix cfg of
        None \<Rightarrow> [(''processors'', ''all_processors'', obj), (''parent_chassis'', ''all_chassis'', mb)]
      | Some _ \<Rightarrow> [(''parent_chassis'', ''all_processors'', obj)])"
proof -
  note f8 = at_table_fields(1) [OF at] and f16 = at_table_fields(2) [OF at]
  have reads: "rd8 m (r + 6) = Some (sf8 s 6)" "rd16 m (r + 40) = Some (sf16 s 40)"
    "rd8 m (r + 7) = Some (sf8 s 7)" "rd64 m (r + 8) = Some (sf64 s 8)"
    "rd8 m (r + 16) = Some (sf8 s 16)" "rd16 m (r + 20) = Some (sf16 s 20)"
    "rd8 m (r + 32) = Some (sf8 s 32)" "rd8 m (r + 33) = Some (sf8 s 33)"
    "rd8 m (r + 34) = Some (sf8 s 34)" "rd8 m (r + 35) = Some (sf8 s 35)"
    "rd8 m (r + 37) = Some (sf8 s 37)" "rd16 m (r + 38) = Some (sf16 s 38)"
    "rd16 m (r + 42) = Some (sf16 s 42)" "rd16 m (r + 46) = Some (sf16 s 46)"
    using len f8 [of 6] f16 [of 40] f8 [of 7] at_table_fields(4) [OF at, of 8] f8 [of 16] f16 [of 20]
      f8 [of 32] f8 [of 33] f8 [of 34] f8 [of 35] f8 [of 37] f16 [of 38] f16 [of 42] f16 [of 46]
    by simp_all
  define c4 where "c4 = (cpu_signed s c)\<lparr>cpu_manufacturer := struct_string s (sf8 s 7), cpu_id := sf64 s 8\<rparr>"
  have c4: "(case map_of familyTable (sf8 s 6) of
        None \<Rightarrow> (cpu_set_family (sf8 s 6) (sf16 s 40) c)
          \<lparr>cpu_manufacturer := struct_string s (sf8 s 7), cpu_id := sf64 s 8\<rparr>
      | Some familyStr \<Rightarrow> if signature_family familyStr
          then cpu_set_signature (sf64 s 8) ((cpu_set_family (sf8 s 6) (sf16 s 40) c)
            \<lparr>cpu_manufacturer := struct_string s (sf8 s 7), cpu_id := sf64 s 8\<rparr>)
          else (cpu_set_family (sf8 s 6) (sf16 s 40) c)
            \<lparr>cpu_manufacturer := struct_string s (sf8 s 7), cpu_id := sf64 s 8\<rparr>) = c4"
    by (simp add: c4_def cpu_signed_def cpu_set_family_keeps split: option.split)
  show ?thesis
    using reads at_table_header(2) [OF at] positionToString_table [OF at]
    by (simp add: cpu_populated_def field_defs cpu_set_manufacturer_def cpu_set_version_def
        cpu_set_serialNumber_def cpu_set_assetTagString_def cpu_set_partNumber_def c4
        cpu_set_characteristics_def characteristics_loop_spec maxOldVersionCount_def not_less_ff
        cpu_shows_def) (simp add: c4_def Let_def)
qed

subsection \<open>Properties of the processors\<close>

text \<open>
  C14. The object for the \<open>k\<close>-th processor, all of its properties. Socket and location are the
  socket designation of that structure; the instance number is its chip number where the build
  reads chip numbers and the designation has one, else \<open>k\<close>. For an unpopulated socket
  the processor is absent and everything else is as before. For a populated one the object shows
  the fields of that structure, with the wide core and thread counts when the narrow ones are 255;
  the family is the name in the family table or, for the indicator 0xfe, in the second
  table, or unknown; effective family, effective model and stepping follow the CPUID
  rules for the families with Xeon, Intel or Zen as an inner word of their name, and otherwise only
  the effective family is set, to the code of a listed family; model and
  associations follow the build options. Without a \<open>k\<close>-th processor the object is unchanged.
\<close>

theorem cpu_shows_kth_processor:
  assumes "table_from m p q ss" and "\<forall>s \<in> set ss. s_type s = 4 \<longrightarrow> 48 \<le> s_length s"
  shows "if unat k < length (of_type 4 ss)
    then let s = of_type 4 ss ! unat k; designation = struct_string s (sf8 s 4) in
      \<exists>c' n. cpu_infoUpdate cfg k obj m (At p) mb c = Some c'
       \<and> (\<forall>chip. chip_designated cfg designation chip \<longrightarrow> n = chip)
       \<and> ((\<nexists>chip. chip_designated cfg designation chip) \<longrightarrow> n = unat k)
       \<and> (if sf8 s 24 AND 0x40 = 0
          then c' = c\<lparr>cpu_socket := designation, cpu_locationCode := designation,
                      cpu_instanceNumber := n, cpu_present := False, cpu_functional := False\<rparr>
          else cpu_socket c' = designation \<and> cpu_locationCode c' = designation
            \<and> cpu_instanceNumber c' = n \<and> cpu_present c'
            \<and> cpu_functional c' = (sf8 s 24 AND 0x07 = 1)
            \<and> cpu_shows s c'
            \<and> cpu_family c' = (case family_name s of
                  None \<Rightarrow> ''Unknown Processor Family'' | Some nm \<Rightarrow> nm)
            \<and> (if cpuid_family (sf8 s 6)
               then unat (cpu_effectiveFamily c') = sig_family (sf64 s 8)
                 \<and> unat (cpu_effectiveModel c') = sig_model (sf64 s 8)
                 \<and> unat (cpu_step c') = sig_step (sf64 s 8)
               else cpu_effectiveFamily c' =
                     (if family_name s = None then cpu_effectiveFamily c
                      else if sf8 s 6 = 0xfe then sf16 s 40 else ucast (sf8 s 6))
                 \<and> cpu_effectiveModel c' = cpu_effectiveModel c \<and> cpu_step c' = cpu_step c)
            \<and> cpu_model c' =
                (if copyVersionToModel cfg then struct_string s (sf8 s 16) else cpu_model c)
            \<and> cpu_associations c' = (if mb = [] then cpu_associations c else case platformPrefix cfg of
                  None \<Rightarrow> [(''processors'', ''all_processors'', obj),
                           (''parent_chassis'', ''all_chassis'', mb)]
                | Some _ \<Rightarrow> [(''parent_chassis'', ''all_processors'', obj)]))
    else cpu_infoUpdate cfg k obj m (At p) mb c = Some c"
proof (cases "unat k < length (of_type 4 ss)")
  case False
  then have "getSMBIOSTypeIndexPtr m (At p) 4 k = Some Null"
    using smbios.lookup_miss [of m p ss 4 k] assms(1) by (auto simp: table_repr_def)
  then show ?thesis using False by (simp add: cpu_infoUpdate_def)
next
  case True
  define s where "s = of_type 4 ss ! unat k"
  have len: "48 \<le> s_length s" using assms(2) nth_of_type [OF True] unfolding s_def by blast
  define d where "d = struct_string s (sf8 s 4)"
  define n where "n = (case socketChipNumber cfg d of (found, sock, chip) \<Rightarrow> if found then chip else unat k)"
  have n: "(\<forall>chip. chip_designated cfg d chip \<longrightarrow> n = chip) \<and> ((\<nexists>chip. chip_designated cfg d chip) \<longrightarrow> n = unat k)"
    using socketChipNumber_designated [of cfg d] by (auto simp: n_def split: prod.splits)
  show ?thesis
  proof (cases "sf8 s 24 AND 0x40 = 0")
    case absent: True
    have "25 \<le> s_length s" using len by simp
    from cpu_infoUpdate_absent [OF assms(1) True, folded s_def, OF this absent,
        where cfg = cfg and obj = obj and mb = mb and c = c, folded d_def, folded n_def]
    show ?thesis
      using True absent n unfolding s_def [symmetric] Let_def d_def [symmetric] by auto
  next
    case populated: False
    define c1 where "c1 = c\<lparr>cpu_socket := d, cpu_locationCode := d, cpu_instanceNumber := n,
       cpu_present := True, cpu_functional := (sf8 s 24 AND 0x07 = 1)\<rparr>"
    have "25 \<le> s_length s" using len by simp
    from cpu_infoUpdate_present [OF assms(1) True, folded s_def, OF this populated,
        where cfg = cfg and obj = obj and mb = mb and c = c, folded d_def, folded n_def, folded c1_def]
    obtain r rest where at: "at_table m r (s # rest)"
      and eq: "cpu_infoUpdate cfg k obj m (At p) mb c = cpu_populated cfg obj mb m r c1"
      by blast
    obtain c' where c': "cpu_infoUpdate cfg k obj m (At p) mb c = Some c'" "cpu_shows s c'"
      and f: "cpu_family c' = cpu_family (cpu_signed s c1)"
        "cpu_effectiveFamily c' = cpu_effectiveFamily (cpu_signed s c1)"
        "cpu_effectiveModel c' = cpu_effectiveModel (cpu_signed s c1)"
        "cpu_step c' = cpu_step (cpu_signed s c1)"
      and g: "cpu_present c' = cpu_present c1" "cpu_functional c' = cpu_functional c1"
        "cpu_socket c' = cpu_socket c1" "cpu_instanceNumber c' = cpu_instanceNumber c1"
        "cpu_locationCode c' = cpu_locationCode c1"
        "cpu_model c' = (if copyVersionToModel cfg then struct_string s (sf8 s 16) else cpu_model c1)"
        "cpu_associations c' = (if mb = [] then cpu_associations c1 else case platformPrefix cfg of
            None \<Rightarrow> [(''processors'', ''all_processors'', obj), (''parent_chassis'', ''all_chassis'', mb)]
          | Some _ \<Rightarrow> [(''parent_chassis'', ''all_processors'', obj)])"
      using cpu_populated_table [OF at len, of cfg obj mb c1] eq by auto
    have c1: "cpu_effectiveFamily c1 = cpu_effectiveFamily c" "cpu_effectiveModel c1 = cpu_effectiveModel c"
      "cpu_step c1 = cpu_step c" "cpu_model c1 = cpu_model c" "cpu_associations c1 = cpu_associations c"
      "cpu_present c1" "cpu_functional c1 = (sf8 s 24 AND 0x07 = 1)" "cpu_socket c1 = d"
      "cpu_locationCode c1 = d" "cpu_instanceNumber c1 = n"
      by (simp_all add: c1_def)
    note signed = cpu_signed_fields [of s c1, folded f, unfolded c1(1-3)]
    have g': "cpu_present c'" using g(1) c1(6) by simp
    show ?thesis
      unfolding s_def [symmetric] Let_def d_def [symmetric] if_P [OF True] if_not_P [OF populated]
      by (intro exI [of _ c'] exI [of _ n] conjI)
         (rule c' n [THEN conjunct1] n [THEN conjunct2] g' g [unfolded c1] signed)+
  qed
qed

lemma example_cpu_ok: "\<forall>s \<in> set example_table. s_type s = 4 \<longrightarrow> 48 \<le> s_length s"
  by (simp add: example_defs s_length_def structureHeaderSize_def)

lemma example_cpu_values:
  "of_type 4 example_table = [example_cpu]" "sf8 example_cpu 24 = 0x41"
  "struct_string example_cpu (sf8 example_cpu 7) = ''Intel''" "sf8 example_cpu 37 = 0"
  by (simp_all add: example_defs sf8_def struct_string_def)

theorem cpu_shows_kth_processor_witness:
  "\<forall>cfg obj mb c. \<exists>c'. cpu_infoUpdate cfg 0 obj example_memory (At 0) mb c = Some c'
     \<and> cpu_present c' \<and> cpu_functional c' \<and> cpu_manufacturer c' = ''Intel'' \<and> cpu_threadCount c' = 0"
proof (intro allI)
  fix cfg obj mb c
  show "\<exists>c'. cpu_infoUpdate cfg 0 obj example_memory (At 0) mb c = Some c'
     \<and> cpu_present c' \<and> cpu_functional c' \<and> cpu_manufacturer c' = ''Intel'' \<and> cpu_threadCount c' = 0"
    using cpu_shows_kth_processor [OF example_from example_cpu_ok, where k = 0 and cfg = cfg
        and obj = obj and mb = mb and c = c]
    unfolding example_cpu_values(1)
    by (auto simp: example_cpu_values Let_def cpu_shows_def)
qed

text \<open>
  The CPUID signature: stepping, effective family and effective model are the values of the
  CPUID rules, computed from the fields of the processor ID: the extended family is added for
  base family 15 and the extended model is prefixed for base families 6 and 15.
\<close>

theorem signature_follows_cpuid:
  "unat (cpu_step (cpu_set_signature x c)) = unat x mod 16
   \<and> unat (cpu_effectiveFamily (cpu_set_signature x c)) =
       (let f = unat x div 2 ^ 8 mod 16 in if f = 15 then unat x div 2 ^ 20 mod 256 + 15 else f)
   \<and> unat (cpu_effectiveModel (cpu_set_signature x c)) =
       (let f = unat x div 2 ^ 8 mod 16; md = unat x div 2 ^ 4 mod 16 in
        if f = 6 \<or> f = 15 then 16 * (unat x div 2 ^ 16 mod 16) + md else md)"
  using cpu_set_signature_spec [of x c]
  by (simp add: sig_step_def sig_family_def sig_model_def Let_def)

text \<open>
  A socket designation of the form name, colon, socket, dot, chip is read back: for all
  numbers that fit an \<open>unsigned long\<close> the two decimal numbers are recovered, also with white
  space after them.
\<close>

theorem socket_designation_round_trip:
  assumes "nvidia cfg" and "list_all word_char w" and "w \<noteq> []" and "list_all space_char sp"
    and "sock \<le> ulong_max cfg" and "chip \<le> ulong_max cfg"
  shows "socketChipNumber cfg (w @ '':'' @ dec sock @ ''.'' @ dec chip @ sp) = (True, sock, chip)"
proof -
  have "socket_regex (w @ CHR '':'' # dec sock @ CHR ''.'' # dec chip @ sp) = Some (w, dec sock, dec chip)"
    using assms dec_digits by (intro socket_regex_match) auto
  then show ?thesis
    using assms dec_digits by (simp add: socketChipNumber_def stoul_def)
qed

theorem socket_designation_round_trip_witness:
  "socketChipNumber \<lparr>nvidia = True, copyVersionToModel = False, platformPrefix = None,
     ulong_max = 2 ^ 32 - 1\<rparr> (''G1'' @ '':'' @ dec 0 @ ''.'' @ dec 13 @ '' '') = (True, 0, 13)"
  by (rule socket_designation_round_trip)
     (simp_all add: word_char_def digit_char_def space_char_def)

text \<open>
  The test for the CPUID signature looks for the maker with a space on both sides, so that the
  names which begin with it are not recognised.
\<close>

lemma core_i7_not_recognised:
  "map_of familyTable 0xc6 = Some ''Intel Core i7 processor''"
  "\<not> signature_family ''Intel Core i7 processor''"
proof -
  show "map_of familyTable 0xc6 = Some ''Intel Core i7 processor''"
    by (rule map_of_is_SomeI [OF distinct_familyTable])
       (simp only: familyTable_def familyTable_lower_def familyTable_upper_def append.simps list.set insert_iff HOL.simp_thms)
qed (simp add: signature_family_def)

text \<open>
  The family name and number: a listed family shows its name and its own code; the indicator
  0xfe defers to the second family field; every other code is unknown and leaves the number.
\<close>

theorem family_from_tables:
  "cpu_set_family fam fam2 c =
     (if fam = 0xfe
      then (if fam2 \<in> set (map fst family2Table)
            then c\<lparr>cpu_family := the (map_of family2Table fam2), cpu_effectiveFamily := fam2\<rparr>
            else c\<lparr>cpu_family := ''Unknown Processor Family''\<rparr>)
      else if fam \<in> set (map fst familyTable)
      then c\<lparr>cpu_family := the (map_of familyTable fam), cpu_effectiveFamily := ucast fam\<rparr>
      else c\<lparr>cpu_family := ''Unknown Processor Family''\<rparr>)
   \<and> distinct (map fst familyTable) \<and> distinct (map fst family2Table)"
proof -
  have "map_of familyTable fam = None \<longleftrightarrow> fam \<notin> set (map fst familyTable)"
    "map_of family2Table fam2 = None \<longleftrightarrow> fam2 \<notin> set (map fst family2Table)"
    by (simp_all only: map_of_eq_None_iff set_map)
  then show ?thesis
    using distinct_familyTable distinct_family2Table familyTable_indicator
    by (cases "map_of familyTable fam"; cases "map_of family2Table fam2"; cases "fam = 0xfe")
       (simp_all add: cpu_set_family_def processorFamily2Indicator_def del: set_map)
qed

end
