(* ===== verification/Inventory_Pcie.thy ===== *)
theory Inventory_Pcie
  imports Smbios_Lookup
begin

text \<open>
  The PCIe slot objects of \<open>src/pcieslot.cpp\<close> and \<open>include/pcieslot.hpp\<close>, and the count of the
  PCIe slots in \<open>src/mdrv2.cpp\<close>. A system slot structure (type 9) is a PCIe slot when its slot
  type is one of a table.
\<close>

subsection \<open>Tables\<close>

definition pcieSmbiosType :: "u8 list" where
  "pcieSmbiosType =
     [0x09, 0x14, 0x15, 0x16, 0x17, 0x18, 0x19, 0x1a, 0x1b, 0x1c, 0x1d, 0x1c, 0x1f, 0x20, 0x21,
      0x22, 0x23, 0x24, 0x25, 0x26, 0x27, 0x28, 0x29, 0xa5, 0xa6, 0xa7, 0xa8, 0xa9, 0xaa, 0xab,
      0xac, 0xad, 0xae, 0xaf, 0xb0, 0xb1, 0xb2, 0xb3, 0xb4, 0xb5, 0xb6, 0xb7, 0xb8, 0xb9, 0xba,
      0xbb, 0xbc, 0xbd, 0xbe, 0xbf, 0xc0, 0xc1, 0xc2, 0xc3, 0xc4, 0xc5, 0xc6]"

datatype PCIeGeneration = PG_Unknown | PG_Gen3 | PG_Gen1 | PG_Gen2 | PG_Gen4 | PG_Gen5

datatype PCIeType =
    PT_OEM | PT_M_2 | PT_Unknown | PT_U_2 | PT_Mini | PT_OCP3Small | PT_OCP3Large | PT_LowProfile | PT_FullLength | PT_HalfLength

definition pcieGenerationTable :: "(u8 \<times> PCIeGeneration) list" where
  "pcieGenerationTable =
     [(0x09, PG_Unknown), (0x14, PG_Gen3), (0x15, PG_Gen3), (0x16, PG_Gen3), (0x17, PG_Gen3),
      (0x18, PG_Gen1), (0x19, PG_Gen1), (0x1a, PG_Gen1), (0x1b, PG_Gen1), (0x1c, PG_Gen1),
      (0x1d, PG_Gen3), (0x1e, PG_Gen3), (0x1f, PG_Gen2), (0x20, PG_Gen3), (0x21, PG_Gen1),
      (0x22, PG_Gen1), (0x23, PG_Gen1), (0x24, PG_Gen4), (0x25, PG_Gen5), (0x26, PG_Unknown),
      (0x27, PG_Unknown), (0x28, PG_Unknown), (0x29, PG_Unknown), (0xa5, PG_Gen1),
      (0xa6, PG_Gen1), (0xa7, PG_Gen1), (0xa8, PG_Gen1), (0xa9, PG_Gen1), (0xaa, PG_Gen1),
      (0xab, PG_Gen2), (0xac, PG_Gen2), (0xad, PG_Gen2), (0xae, PG_Gen2), (0xaf, PG_Gen2),
      (0xb0, PG_Gen2), (0xb1, PG_Gen3), (0xb2, PG_Gen3), (0xb3, PG_Gen3), (0xb4, PG_Gen3),
      (0xb5, PG_Gen3), (0xb6, PG_Gen3), (0xb8, PG_Gen4), (0xb9, PG_Gen4), (0xba, PG_Gen4),
      (0xbb, PG_Gen4), (0xbc, PG_Gen4), (0xbd, PG_Gen4), (0xbe, PG_Gen5), (0xbf, PG_Gen5),
      (0xc0, PG_Gen5), (0xc1, PG_Gen5), (0xc2, PG_Gen5), (0xc3, PG_Gen5), (0xc4, PG_Unknown),
      (0xc5, PG_Unknown), (0xc6, PG_Unknown)]"

definition pcieTypeTable :: "(u8 \<times> PCIeType) list" where
  "pcieTypeTable =
     [(0x09, PT_OEM), (0x14, PT_M_2), (0x15, PT_M_2), (0x16, PT_M_2), (0x17, PT_M_2),
      (0x18, PT_Unknown), (0x19, PT_Unknown), (0x1a, PT_Unknown), (0x1b, PT_Unknown),
      (0x1c, PT_Unknown), (0x1d, PT_Unknown), (0x1e, PT_Unknown), (0xa8, PT_Unknown),
      (0xa9, PT_Unknown), (0x1F, PT_U_2), (0x20, PT_U_2), (0x21, PT_Mini), (0x22, PT_Mini),
      (0x23, PT_Mini), (0x24, PT_U_2), (0x25, PT_U_2), (0x26, PT_OCP3Small),
      (0x27, PT_OCP3Large), (0x28, PT_Unknown), (0x29, PT_Unknown), (0xa5, PT_Unknown),
      (0xa6, PT_Unknown), (0xa7, PT_Unknown), (0xa8, PT_Unknown), (0xa9, PT_Unknown),
      (0xaa, PT_Unknown), (0xab, PT_Unknown), (0xac, PT_Unknown), (0xad, PT_Unknown),
      (0xae, PT_Unknown), (0xaf, PT_Unknown), (0xb0, PT_Unknown), (0xb1, PT_Unknown),
      (0xb2, PT_Unknown), (0xb3, PT_Unknown), (0xb4, PT_Unknown), (0xb5, PT_Unknown),
      (0xb6, PT_Unknown), (0xb8, PT_Unknown), (0xb9, PT_Unknown), (0xba, PT_Unknown),
      (0xbb, PT_Unknown), (0xbc, PT_Unknown), (0xbd, PT_Unknown), (0xbe, PT_Unknown),
      (0xbf, PT_Unknown), (0xc0, PT_Unknown), (0xc1, PT_Unknown), (0xc2, PT_Unknown),
      (0xc3, PT_Unknown), (0xc4, PT_Unknown), (0xc5, PT_Unknown), (0xc6, PT_Unknown)]"

definition pcieLanesTable :: "(u8 \<times> nat) list" where
  "pcieLanesTable = [(0x08, 1), (0x09, 2), (0xa, 4), (0xb, 8), (0xc, 12), (0xd, 16), (0xe, 32)]"

subsection \<open>The system slot structure\<close>

definition ss_length :: "memory \<Rightarrow> nat \<Rightarrow> u8 checked" where [field_defs]:
  "ss_length m p = rd8 m (p + 1)"

definition ss_slotDesignation :: "memory \<Rightarrow> nat \<Rightarrow> u8 checked" where [field_defs]:
  "ss_slotDesignation m p = rd8 m (p + 4)"

definition ss_slotType :: "memory \<Rightarrow> nat \<Rightarrow> u8 checked" where [field_defs]:
  "ss_slotType m p = rd8 m (p + 5)"

definition ss_slotDataBusWidth :: "memory \<Rightarrow> nat \<Rightarrow> u8 checked" where [field_defs]:
  "ss_slotDataBusWidth m p = rd8 m (p + 6)"

definition ss_slotLength :: "memory \<Rightarrow> nat \<Rightarrow> u8 checked" where [field_defs]:
  "ss_slotLength m p = rd8 m (p + 8)"

definition ss_characteristics2 :: "memory \<Rightarrow> nat \<Rightarrow> u8 checked" where [field_defs]:
  "ss_characteristics2 m p = rd8 m (p + 12)"

definition off_peerGorupingCount :: nat where "off_peerGorupingCount = 18"

definition off_peerGroups :: nat where "off_peerGroups = 19"

definition sizeof_PeerGroup :: nat where "sizeof_PeerGroup = 5"

text \<open>The height is the last field of \<open>SystemSlotInfoAfterPeerGroups\<close>, which follows the peer groups.\<close>

definition off_slotHeight :: "u8 \<Rightarrow> nat" where
  "off_slotHeight peerGorupingCount = off_peerGroups + sizeof_PeerGroup * unat peerGorupingCount + 4"

subsection \<open>Finding the slot\<close>

definition is_pcie :: "memory \<Rightarrow> nat \<Rightarrow> bool checked" where
  "is_pcie m p = do { ty \<leftarrow> rd8 m (p + 5); Some (ty \<in> set pcieSmbiosType) }"

definition getTotalPcieSlot :: "memory \<Rightarrow> ptr \<Rightarrow> nat option checked" where
  "getTotalPcieSlot m dataIn = (case dataIn of
      Null \<Rightarrow> Some None
    | At p \<Rightarrow> map_option Some (count_loop is_pcie m (type_code systemSlots) 0 p 0))"

text \<open>
  The loop of \<open>pcieInfoUpdate\<close>: it moves on while it has not counted enough slots or the current
  slot is not a PCIe slot, and counts a slot when it arrives there. The slot it starts at is not
  counted.
\<close>

function pcie_loop :: "memory \<Rightarrow> u8 \<Rightarrow> nat \<Rightarrow> u8 \<Rightarrow> ptr checked" where
  "pcie_loop m pcieNum q index = do {
     here \<leftarrow> (if index < pcieNum then Some True else map_option Not (is_pcie m q));
     if \<not> here then Some (At q) else do {
       nx \<leftarrow> smbiosNextPtr m (At q);
       (case nx of
          Null \<Rightarrow> Some Null
        | At r \<Rightarrow> do {
            hit \<leftarrow> getSMBIOSTypePtr m (At r) (type_code systemSlots) 0;
            (case hit of
               Null \<Rightarrow> Some Null
             | At q' \<Rightarrow> do {
                 p \<leftarrow> is_pcie m q';
                 pcie_loop m pcieNum q' (if p then index + 1 else index) }) }) } }"
  by pat_completeness auto
termination
proof (relation "measure (\<lambda>(m, pcieNum, q, index). length m - q)")
  show "wf (measure (\<lambda>(m :: memory, pcieNum :: u8, q :: nat, index :: u8). length m - q))" by simp
next
  fix m :: memory and pcieNum index i' :: u8 and q nx r hit q'
  assume "smbiosNextPtr m (At q) = Some nx" "nx = At r"
    "getSMBIOSTypePtr m (At r) (type_code systemSlots) 0 = Some hit" "hit = At q'"
  then show "((m, pcieNum, q', i'), m, pcieNum, q, index)
      \<in> measure (\<lambda>(m, pcieNum, q, index). length m - q)"
    using getSMBIOSTypePtr_ge [of m r "type_code systemSlots" 0 q'] smbiosNextPtr_progress [of m q r]
    by auto
qed

declare pcie_loop.simps [simp del]

definition pcie_find :: "memory \<Rightarrow> ptr \<Rightarrow> u8 \<Rightarrow> ptr checked" where
  "pcie_find m storage pcieNum = do {
     dataIn \<leftarrow> getSMBIOSTypePtr m storage (type_code systemSlots) 0;
     (case dataIn of Null \<Rightarrow> Some Null | At q \<Rightarrow> pcie_loop m pcieNum q 0) }"

subsection \<open>The object\<close>

record Pcie =
  pcie_generation :: PCIeGeneration
  pcie_slotType :: PCIeType
  pcie_lanes :: nat
  pcie_hotPluggable :: bool
  pcie_locationCode :: string
  pcie_present :: bool
  pcie_associations :: "(string \<times> string \<times> string) list"

definition slotHeightNotApplicable :: u8 where "slotHeightNotApplicable = 0x00"

definition slotHeightLowProfile :: u8 where "slotHeightLowProfile = 0x04"

definition slotLengthShort :: u8 where "slotLengthShort = 0x03"

definition slotLengthLong :: u8 where "slotLengthLong = 0x04"

definition pcieGeneration :: "u8 \<Rightarrow> Pcie \<Rightarrow> Pcie" where
  "pcieGeneration ty s = (case map_of pcieGenerationTable ty of
      None \<Rightarrow> s\<lparr>pcie_generation := PG_Unknown\<rparr>
    | Some g \<Rightarrow> s\<lparr>pcie_generation := g\<rparr>)"

definition pcieType :: "u8 \<Rightarrow> u8 \<Rightarrow> u8 \<Rightarrow> Pcie \<Rightarrow> Pcie" where
  "pcieType ty len height s =
     (let dbusPcieType =
            (case map_of pcieTypeTable ty of
               Some t \<Rightarrow> if t \<noteq> PT_Unknown then t
                         else if height = slotHeightLowProfile then PT_LowProfile
                         else if len = slotLengthLong then PT_FullLength
                         else if len = slotLengthShort then PT_HalfLength else PT_Unknown
             | None \<Rightarrow> if height = slotHeightLowProfile then PT_LowProfile
                       else if len = slotLengthLong then PT_FullLength
                       else if len = slotLengthShort then PT_HalfLength else PT_Unknown)
      in s\<lparr>pcie_slotType := dbusPcieType\<rparr>)"

definition pcieLaneSize :: "u8 \<Rightarrow> Pcie \<Rightarrow> Pcie" where
  "pcieLaneSize width s = (case map_of pcieLanesTable width of
      None \<Rightarrow> s\<lparr>pcie_lanes := 0\<rparr>
    | Some n \<Rightarrow> s\<lparr>pcie_lanes := n\<rparr>)"

definition pcieIsHotPluggable :: "u8 \<Rightarrow> Pcie \<Rightarrow> Pcie" where
  "pcieIsHotPluggable characteristics s = s\<lparr>pcie_hotPluggable := (characteristics AND 0x2 \<noteq> 0)\<rparr>"

definition pcieLocation :: "u8 \<Rightarrow> u8 \<Rightarrow> memory \<Rightarrow> nat \<Rightarrow> Pcie \<Rightarrow> Pcie checked" where
  "pcieLocation slotDesignation structLen m p s = do {
     loc \<leftarrow> positionToString slotDesignation structLen m (At p);
     Some (s\<lparr>pcie_locationCode := loc\<rparr>) }"

text \<open>
  The height is used only when the count of peer groups and the height itself lie within the
  length of the structure.
\<close>

definition slot_height :: "memory \<Rightarrow> nat \<Rightarrow> u8 checked" where
  "slot_height m p = do {
     len \<leftarrow> ss_length m p;
     if off_peerGorupingCount < unat len then do {
       count \<leftarrow> rd8 m (p + off_peerGorupingCount);
       if off_slotHeight count < unat len then rd8 m (p + off_slotHeight count)
       else Some slotHeightNotApplicable
     } else Some slotHeightNotApplicable }"

definition pcieInfoUpdate :: "memory \<Rightarrow> ptr \<Rightarrow> u8 \<Rightarrow> string \<Rightarrow> Pcie \<Rightarrow> Pcie checked" where
  "pcieInfoUpdate m storage pcieNum motherboardPath s = do {
     dataIn \<leftarrow> pcie_find m storage pcieNum;
     (case dataIn of
        Null \<Rightarrow> Some s
      | At p \<Rightarrow> do {
          slotHight \<leftarrow> slot_height m p;
          ty \<leftarrow> ss_slotType m p;
          let s1 = pcieGeneration ty s;
          sl \<leftarrow> ss_slotLength m p;
          let s2 = pcieType ty sl slotHight s1;
          width \<leftarrow> ss_slotDataBusWidth m p;
          let s3 = pcieLaneSize width s2;
          ch \<leftarrow> ss_characteristics2 m p;
          let s4 = pcieIsHotPluggable ch s3;
          des \<leftarrow> ss_slotDesignation m p;
          len \<leftarrow> ss_length m p;
          s5 \<leftarrow> pcieLocation des len m p s4;
          let s6 = s5\<lparr>pcie_present := True\<rparr>;
          Some (if motherboardPath \<noteq> []
                then s6\<lparr>pcie_associations := [(''chassis'', ''pcie_slots'', motherboardPath)]\<rparr>
                else s6) }) }"

subsection \<open>Which slot an object shows\<close>

definition pcie_struct :: "smb_struct \<Rightarrow> bool" where
  "pcie_struct s \<longleftrightarrow> sf8 s 5 \<in> set pcieSmbiosType"

lemma is_pcie_table:
  assumes "at_table m q (s # rest)" and "6 \<le> s_length s"
  shows "is_pcie m q = Some (pcie_struct s)"
  using at_table_fields(1) [OF assms(1), of 5] assms(2) by (simp add: is_pcie_def pcie_struct_def)

text \<open>
  The walk over the system slots: with \<open>n\<close> slots still to count, where a slot is counted on
  arrival.
\<close>

fun pcie_pick :: "nat \<Rightarrow> smb_struct list \<Rightarrow> smb_struct option" where
  "pcie_pick n [] = None"
| "pcie_pick n (s # sl) =
     (if n = 0 \<and> pcie_struct s then Some s
      else (case sl of [] \<Rightarrow> None
            | t # ts \<Rightarrow> pcie_pick (if pcie_struct t then n - 1 else n) sl))"

definition nth_opt :: "'a list \<Rightarrow> nat \<Rightarrow> 'a option" where
  "nth_opt xs n = (if n < length xs then Some (xs ! n) else None)"

lemma pcie_pick_spec:
  "pcie_pick n (s # sl) =
     (if n = 0 \<and> pcie_struct s then Some s else nth_opt (filter pcie_struct sl) (n - 1))"
proof (induction sl arbitrary: n s)
  case Nil
  then show ?case by (simp add: nth_opt_def)
next
  case (Cons t sl)
  have "pcie_pick n (s # t # sl) = (if n = 0 \<and> pcie_struct s then Some s
      else pcie_pick (if pcie_struct t then n - 1 else n) (t # sl))"
    by simp
  then show ?case
    unfolding Cons by (auto simp: nth_opt_def nth_Cons')
qed

lemma pcie_pick_first:
  assumes "pcie_struct s"
  shows "pcie_pick n (s # sl) = nth_opt (filter pcie_struct (s # sl)) n"
  unfolding pcie_pick_spec using assms by (auto simp: nth_opt_def nth_Cons')

lemma pcie_loop_table:
  assumes "at_table m q (s # rest)" and "s_type s = 9"
    and "\<forall>x \<in> set (s # rest). s_type x = 9 \<longrightarrow> 6 \<le> s_length x"
    and "i < k \<or> pcie_struct s \<or> k = 0 \<and> i = 0"
  shows "\<exists>r. pcie_loop m k q i = Some r
    \<and> (case pcie_pick (unat k - unat i) (of_type 9 (s # rest)) of
         None \<Rightarrow> r = Null
       | Some x \<Rightarrow> \<exists>q' rest'. r = At q' \<and> at_table m q' (x # rest'))"
  using assms
proof (induction "length rest" arbitrary: q s rest i rule: less_induct)
  case less
  note at = less.prems(1) and st = less.prems(2)
  have pc: "is_pcie m q = Some (pcie_struct s)"
    using is_pcie_table [OF at] less.prems(3) st by simp
  have n0: "unat k - unat i = 0 \<longleftrightarrow> \<not> i < k"
    by (auto simp: word_less_nat_alt)
  let ?q1 = "q + length (encode_struct s)" and ?d = "from_type 9 rest"
  note tail = at_tableD(3) [OF at]
  have nx: "smbiosNextPtr m (At q) = Some (At ?q1)" by (rule smbiosNextPtr_table [OF at])
  have of: "of_type 9 (s # rest) = s # of_type 9 rest" using st by simp
  show ?case
  proof (cases "\<not> i < k \<and> pcie_struct s")
    case True
    then have "pcie_loop m k q i = Some (At q)"
      using pc by (subst pcie_loop.simps) simp
    then show ?thesis using True n0 of at by auto
  next
    case go: False
    then have here: "(if i < k then Some True else map_option Not (is_pcie m q)) = Some True"
      using pc by auto
    show ?thesis
    proof (cases ?d)
      case Nil
      then have "pcie_loop m k q i = Some Null"
        using here nx getSMBIOSTypePtr_table [OF tail, of 9]
        by (subst pcie_loop.simps) (simp add: table_ptr_def)
      moreover have "of_type 9 rest = []" using Nil by (subst of_type_from_type) simp
      ultimately show ?thesis using go n0 of by auto
    next
      case (Cons t ts)
      let ?q2 = "?q1 + (enc_len rest - enc_len (t # ts))"
      have at2: "at_table m ?q2 (t # ts)" by (rule at_table_from_type [OF tail Cons])
      have t9: "s_type t = 9" by (rule from_type_Cons [OF Cons])
      have len: "length ts < length rest" and sub: "set (t # ts) \<subseteq> set rest"
        using from_type_suffix [of rest 9] Cons by auto
      have pc2: "is_pcie m ?q2 = Some (pcie_struct t)"
        using is_pcie_table [OF at2] less.prems(3) sub t9 by auto
      let ?i = "if pcie_struct t then i + 1 else i"
      have loop: "pcie_loop m k q i = pcie_loop m k ?q2 ?i"
        using here nx getSMBIOSTypePtr_table [OF tail, of 9] Cons pc2
        by (subst pcie_loop.simps) (simp add: table_ptr_def)
      have "unat k < 256" using unsigned_less [of k] by simp
      then have ii: "unat (i + 1) = unat i + 1" if "i < k"
        using that by (simp add: word_less_nat_alt unat_word_ariths)
      have cnt: "unat k - unat ?i = (if pcie_struct t then unat k - unat i - 1 else unat k - unat i)"
        using go less.prems(4) ii by (auto simp: word_less_nat_alt)
      have cond: "?i < k \<or> pcie_struct t \<or> k = 0 \<and> ?i = 0"
        using go less.prems(4) by auto
      have of2: "of_type 9 rest = t # of_type 9 ts" using Cons by (subst of_type_from_type) simp
      have pick: "pcie_pick (unat k - unat i) (of_type 9 (s # rest)) =
          pcie_pick (unat k - unat ?i) (of_type 9 (t # ts))"
        using go n0 of of2 t9 cnt by (auto simp del: pcie_pick.simps simp: pcie_pick.simps(2) [of _ s])
      have "\<forall>x \<in> set (t # ts). s_type x = 9 \<longrightarrow> 6 \<le> s_length x"
        using less.prems(3) sub by (meson list.set_intros(2) subsetD)
      from less.hyps [OF len at2 t9 this cond] show ?thesis
        unfolding pick loop .
    qed
  qed
qed

lemma pcie_find_table:
  assumes "table_from m p q ss" and "\<forall>x \<in> set ss. s_type x = 9 \<longrightarrow> 6 \<le> s_length x"
  shows "\<exists>r. pcie_find m (At p) k = Some r
    \<and> (case pcie_pick (unat k) (of_type 9 ss) of
         None \<Rightarrow> r = Null
       | Some x \<Rightarrow> \<exists>q' rest'. r = At q' \<and> at_table m q' (x # rest'))"
proof -
  have at: "at_table m q ss" using assms(1) by (simp add: table_from_def)
  note hit = getSMBIOSTypePtr_from [OF assms(1), of 9 0] getSMBIOSTypePtr_table [OF at, of 9]
  show ?thesis
  proof (cases "from_type 9 ss")
    case Nil
    then have "of_type 9 ss = []" by (subst of_type_from_type) simp
    then show ?thesis using hit Nil by (simp add: pcie_find_def table_ptr_def)
  next
    case (Cons s rest)
    let ?q = "q + (enc_len ss - enc_len (s # rest))"
    have at2: "at_table m ?q (s # rest)" by (rule at_table_from_type [OF at Cons])
    have s9: "s_type s = 9" by (rule from_type_Cons [OF Cons])
    have sub: "set (s # rest) \<subseteq> set ss" using from_type_suffix [of ss 9] Cons by auto
    have of: "of_type 9 ss = of_type 9 (s # rest)" using Cons s9 by (subst of_type_from_type) simp
    have "\<forall>x \<in> set (s # rest). s_type x = 9 \<longrightarrow> 6 \<le> s_length x" using assms(2) sub by blast
    moreover have "0 < k \<or> pcie_struct s \<or> k = 0 \<and> (0 :: u8) = 0" by (auto simp: word_neq_0_conv)
    moreover have "pcie_find m (At p) k = pcie_loop m k ?q 0"
      using hit Cons by (simp add: pcie_find_def table_ptr_def)
    ultimately show ?thesis
      using pcie_loop_table [OF at2 s9, of 0 k] of by simp
  qed
qed

subsection \<open>Properties of the slots\<close>

text \<open>The height of a slot: the byte behind the peer groups, when the structure has it.\<close>

definition height_of :: "smb_struct \<Rightarrow> u8" where
  "height_of s = (if off_peerGorupingCount < s_length s \<and> off_slotHeight (sf8 s off_peerGorupingCount) < s_length s
     then sf8 s (off_slotHeight (sf8 s off_peerGorupingCount)) else slotHeightNotApplicable)"

lemma slot_height_table:
  assumes "at_table m r (s # rest)"
  shows "slot_height m r = Some (height_of s)"
proof -
  have len: "unat (word_of_nat (s_length s) :: u8) = s_length s"
    using at_tableD(1) [OF assms] by (simp add: wf_struct_def unat_of_nat)
  have "rd8 m (r + off_peerGorupingCount) = Some (sf8 s off_peerGorupingCount)"
    if "off_peerGorupingCount < s_length s"
    using at_table_fields(1) [OF assms, of off_peerGorupingCount] that by (simp add: off_peerGorupingCount_def)
  moreover have "rd8 m (r + off_slotHeight c) = Some (sf8 s (off_slotHeight c))"
    if "off_slotHeight c < s_length s" for c
    using at_table_fields(1) [OF assms, of "off_slotHeight c"] that by (simp add: off_slotHeight_def)
  ultimately show ?thesis
    using at_table_header(2) [OF assms] len
    by (simp add: slot_height_def height_of_def field_defs)
qed

text \<open>What an object shows for a slot.\<close>

definition slot_shown :: "smb_struct \<Rightarrow> string \<Rightarrow> Pcie \<Rightarrow> Pcie" where
  "slot_shown x mb s =
     (let s1 = (pcieIsHotPluggable (sf8 x 12) (pcieLaneSize (sf8 x 6)
            (pcieType (sf8 x 5) (sf8 x 8) (height_of x) (pcieGeneration (sf8 x 5) s))))
            \<lparr>pcie_locationCode := struct_string x (sf8 x 4), pcie_present := True\<rparr>
      in if mb \<noteq> [] then s1\<lparr>pcie_associations := [(''chassis'', ''pcie_slots'', mb)]\<rparr> else s1)"

lemma pcie_pick_mem: "pcie_pick n sl = Some x \<Longrightarrow> x \<in> set sl"
  by (induction n sl rule: pcie_pick.induct) (auto split: if_splits list.splits)

lemma pcie_total_table:
  assumes "table_from m p q ss" and "\<forall>x \<in> set ss. s_type x = 9 \<longrightarrow> 13 \<le> s_length x"
  shows "getTotalPcieSlot m (At p) = Some (Some (min 255 (length (filter pcie_struct (of_type 9 ss)))))"
proof -
  have at: "at_table m q ss" using assms(1) by (simp add: table_from_def)
  have "count_loop is_pcie m 9 0 q 0 = Some (min limitEntryLen (0 + length (filter pcie_struct (of_type 9 ss))))"
  proof (rule count_loop_table [OF at])
    show "is_pcie m r = Some (pcie_struct x)" if "at_table m r (x # rest)" "x \<in> set ss" "s_type x = 9" for r x rest
      using is_pcie_table [OF that(1)] assms(2) that(2,3) by force
  qed (simp add: limitEntryLen_def)
  then show ?thesis
    using count_loop_from [OF assms(1)] by (simp add: getTotalPcieSlot_def limitEntryLen_def)
qed

lemma pcieInfoUpdate_table:
  assumes "table_from m p q ss" and "\<forall>x \<in> set ss. s_type x = 9 \<longrightarrow> 13 \<le> s_length x"
  shows "pcieInfoUpdate m (At p) k mb s = Some (case pcie_pick (unat k) (of_type 9 ss) of
      None \<Rightarrow> s | Some x \<Rightarrow> slot_shown x mb s)"
proof -
  have ok6: "\<forall>x \<in> set ss. s_type x = 9 \<longrightarrow> 6 \<le> s_length x" using assms(2) by fastforce
  obtain r where r: "pcie_find m (At p) k = Some r"
    and pick: "case pcie_pick (unat k) (of_type 9 ss) of None \<Rightarrow> r = Null
       | Some x \<Rightarrow> \<exists>q' rest'. r = At q' \<and> at_table m q' (x # rest')"
    using pcie_find_table [OF assms(1) ok6] by blast
  show ?thesis
  proof (cases "pcie_pick (unat k) (of_type 9 ss)")
    case None
    then show ?thesis using r pick by (simp add: pcieInfoUpdate_def)
  next
    case (Some x)
    then obtain a rest where a: "r = At a" and at: "at_table m a (x # rest)" using pick by auto
    have "x \<in> set (of_type 9 ss)" using pcie_pick_mem [OF Some] .
    then have len: "13 \<le> s_length x" using assms(2) by auto
    note f = at_table_fields(1) [OF at]
    have "rd8 m (a + 5) = Some (sf8 x 5)" "rd8 m (a + 8) = Some (sf8 x 8)" "rd8 m (a + 6) = Some (sf8 x 6)"
      "rd8 m (a + 12) = Some (sf8 x 12)" "rd8 m (a + 4) = Some (sf8 x 4)"
      using len f [of 5] f [of 8] f [of 6] f [of 12] f [of 4] by simp_all
    then show ?thesis
      using r a Some slot_height_table [OF at] at_table_header(2) [OF at] positionToString_table [OF at]
      by (simp add: pcieInfoUpdate_def field_defs pcieLocation_def slot_shown_def Let_def)
  qed
qed

text \<open>
  C15. When the first system slot of the table is a PCIe slot, object \<open>k\<close> shows exactly the \<open>k\<close>-th
  PCIe slot (generation, type, lanes, hot plug, location), objects beyond the last PCIe slot are
  left unchanged, and the number of objects is the number of PCIe slots up to 255.
\<close>

theorem pcie_shows_kth_slot:
  assumes "table_from m p q ss" and "\<forall>x \<in> set ss. s_type x = 9 \<longrightarrow> 13 \<le> s_length x"
    and "of_type 9 ss = first # others" and "pcie_struct first"
  shows "pcieInfoUpdate m (At p) k mb s =
      Some (let slots = filter pcie_struct (of_type 9 ss) in
            if unat k < length slots then slot_shown (slots ! unat k) mb s else s)
    \<and> getTotalPcieSlot m (At p) = Some (Some (min 255 (length (filter pcie_struct (of_type 9 ss)))))"
  using pcieInfoUpdate_table [OF assms(1,2), of k mb s] pcie_pick_first [OF assms(4), of "unat k" others]
    pcie_total_table [OF assms(1,2)] assms(3)
  by (simp add: nth_opt_def Let_def split: if_splits)

lemma example_slots:
  "\<forall>x \<in> set example_table. s_type x = 9 \<longrightarrow> 13 \<le> s_length x"
  "of_type 9 example_table = [example_slot 0xb6 ''PCIE1'', example_slot 0xb6 ''PCIE2'']"
  "pcie_struct (example_slot 0xb6 nm)"
  by (simp_all add: example_defs s_length_def structureHeaderSize_def pcie_struct_def sf8_def
      pcieSmbiosType_def)

theorem pcie_shows_kth_slot_witness:
  "\<forall>mb s. pcieInfoUpdate example_memory (At 0) 1 mb s = Some (slot_shown (example_slot 0xb6 ''PCIE2'') mb s)
     \<and> getTotalPcieSlot example_memory (At 0) = Some (Some 2)"
proof (intro allI)
  fix mb s
  show "pcieInfoUpdate example_memory (At 0) 1 mb s = Some (slot_shown (example_slot 0xb6 ''PCIE2'') mb s)
     \<and> getTotalPcieSlot example_memory (At 0) = Some (Some 2)"
    using pcie_shows_kth_slot [OF example_from example_slots(1,2,3), of 1 mb s]
    by (simp add: example_slots(2,3) Let_def)
qed

text \<open>
  C40. When the first system slot is not a PCIe slot, the walk counts one slot too early: the
  objects 0 and 1 both show the first PCIe slot, object \<open>k\<close> shows slot \<open>k - 1\<close>, and among as many
  objects as there are PCIe slots none shows the last one, if there are two or more.
\<close>

theorem pcie_off_by_one:
  assumes "table_from m p q ss" and "\<forall>x \<in> set ss. s_type x = 9 \<longrightarrow> 13 \<le> s_length x"
    and "of_type 9 ss = first # others" and "\<not> pcie_struct first"
  shows "pcieInfoUpdate m (At p) k mb s =
      Some (let slots = filter pcie_struct others in
            if unat k - 1 < length slots then slot_shown (slots ! (unat k - 1)) mb s else s)
    \<and> getTotalPcieSlot m (At p) = Some (Some (min 255 (length (filter pcie_struct others))))"
  using pcieInfoUpdate_table [OF assms(1,2), of k mb s] pcie_pick_spec [of "unat k" first others]
    pcie_total_table [OF assms(1,2)] assms(3,4)
  by (simp add: nth_opt_def Let_def del: pcie_pick.simps)

definition example_mixed :: "smb_struct list" where
  "example_mixed = [example_slot 0x06 ''PCI'', example_slot 0xb6 ''PCIE1'', example_slot 0xb6 ''PCIE2'']"

lemma example_mixed_from: "table_from (encode_table example_mixed @ [0, 0, 0]) 0 0 example_mixed"
proof (rule table_from_table)
  have "holds (encode_table example_mixed @ [0, 0, 0]) 0 (encode_table example_mixed)"
    using holds_self [of "[]" "encode_table example_mixed" "[0, 0, 0]"] by simp
  moreover have "list_all wf_struct example_mixed"
    by (simp add: example_mixed_def example_slot_def wf_struct_def s_length_def structureHeaderSize_def
        wf_string_def encode_strings_def encode_string_def mdrSMBIOSSize_def byte_of_char_def)
  ultimately show "at_table (encode_table example_mixed @ [0, 0, 0]) 0 example_mixed"
    by (simp add: at_table_def)
qed

theorem pcie_off_by_one_witness:
  "\<forall>mb s. pcieInfoUpdate (encode_table example_mixed @ [0, 0, 0]) (At 0) 0 mb s =
       Some (slot_shown (example_slot 0xb6 ''PCIE1'') mb s)
     \<and> pcieInfoUpdate (encode_table example_mixed @ [0, 0, 0]) (At 0) 1 mb s =
       Some (slot_shown (example_slot 0xb6 ''PCIE1'') mb s)
     \<and> getTotalPcieSlot (encode_table example_mixed @ [0, 0, 0]) (At 0) = Some (Some 2)"
proof (intro allI)
  fix mb s
  have len: "\<forall>x \<in> set example_mixed. s_type x = 9 \<longrightarrow> 13 \<le> s_length x"
    by (simp add: example_mixed_def example_slot_def s_length_def structureHeaderSize_def)
  have of: "of_type 9 example_mixed = example_slot 0x06 ''PCI'' #
      [example_slot 0xb6 ''PCIE1'', example_slot 0xb6 ''PCIE2'']"
    by (simp add: example_mixed_def example_slot_def)
  have np: "\<not> pcie_struct (example_slot 0x06 ''PCI'')"
    by (simp add: pcie_struct_def example_slot_def sf8_def pcieSmbiosType_def)
  note spec = pcie_off_by_one [OF example_mixed_from len of np, of _ mb s]
  show "pcieInfoUpdate (encode_table example_mixed @ [0, 0, 0]) (At 0) 0 mb s =
       Some (slot_shown (example_slot 0xb6 ''PCIE1'') mb s)
     \<and> pcieInfoUpdate (encode_table example_mixed @ [0, 0, 0]) (At 0) 1 mb s =
       Some (slot_shown (example_slot 0xb6 ''PCIE1'') mb s)
     \<and> getTotalPcieSlot (encode_table example_mixed @ [0, 0, 0]) (At 0) = Some (Some 2)"
    using spec [of 0] spec [of 1] by (simp add: example_slots(3) Let_def)
qed

end
