(* ===== verification/Inventory_Board.thy ===== *)
theory Inventory_Board
  imports Smbios_Lookup
begin

text \<open>
  The remaining objects that are built from the table: base boards (\<open>include/baseboard.hpp\<close>),
  the TPM (\<open>src/tpm.cpp\<close>), firmware components (\<open>src/firmware.cpp\<close>) and the system object with
  its UUID and BIOS version (\<open>src/system.cpp\<close>).
\<close>

subsection \<open>Base boards\<close>

type_synonym BoardType = u8

definition BT_Reserved :: BoardType where "BT_Reserved = 0"

definition BT_ProcessorModule :: BoardType where "BT_ProcessorModule = 6"

definition BT_ProcesssorMemoryModule :: BoardType where "BT_ProcesssorMemoryModule = 11"

definition BT_ProcessorIoModule :: BoardType where "BT_ProcessorIoModule = 12"

definition bi_boardType :: "memory \<Rightarrow> nat \<Rightarrow> u8 checked" where [field_defs]:
  "bi_boardType m p = rd8 m (p + 13)"

definition bi_numOfContainedObject :: "memory \<Rightarrow> nat \<Rightarrow> u8 checked" where [field_defs]:
  "bi_numOfContainedObject m p = rd8 m (p + 14)"

definition bi_containedObjectHandle :: "memory \<Rightarrow> nat \<Rightarrow> nat \<Rightarrow> u16 checked" where [field_defs]:
  "bi_containedObjectHandle m p i = rd16 m (p + 15 + 2 * i)"

text \<open>
  The pointer to the structure is not initialised when the lookup fails: \<^const>\<open>None\<close> stands for
  the indeterminate pointer. The contained objects are handles with the structures they name.
\<close>

record Baseboard =
  bb_index :: nat
  bb_name :: string
  bb_raw :: "nat option"
  bb_containedObjects :: "(u16 \<times> nat) list"

fun contained_loop ::
  "memory \<Rightarrow> ptr \<Rightarrow> nat \<Rightarrow> nat list \<Rightarrow> (u16 \<times> nat) list \<Rightarrow> (u16 \<times> nat) list checked"
where
  "contained_loop m storage p [] acc = Some acc"
| "contained_loop m storage p (i # is) acc = do {
     objectHanle \<leftarrow> bi_containedObjectHandle m p i;
     objectData \<leftarrow> smbiosHandlePtr m storage objectHanle;
     (case objectData of
        Null \<Rightarrow> contained_loop m storage p is acc
      | At q \<Rightarrow> contained_loop m storage p is (acc @ [(objectHanle, q)])) }"

definition Baseboard_new :: "memory \<Rightarrow> ptr \<Rightarrow> nat \<Rightarrow> Baseboard checked" where
  "Baseboard_new m storage index = do {
     let b = \<lparr>bb_index = index, bb_name = ''Board_'' @ dec index, bb_raw = None,
              bb_containedObjects = []\<rparr>;
     dataIn \<leftarrow> getSMBIOSTypeIndexPtr m storage (type_code baseboardType) (word_of_nat index);
     (case dataIn of
        Null \<Rightarrow> Some b
      | At p \<Rightarrow> do {
          n \<leftarrow> bi_numOfContainedObject m p;
          objs \<leftarrow> contained_loop m storage p [0 ..< unat n] [];
          Some (b\<lparr>bb_raw := Some p, bb_containedObjects := objs\<rparr>) }) }"

fun find_index_loop ::
  "memory \<Rightarrow> u16 \<Rightarrow> (u16 \<times> nat) list \<Rightarrow> (u8 \<Rightarrow> nat) \<Rightarrow> (bool \<times> nat) checked"
where
  "find_index_loop m handle [] typeCount = Some (False, 0)"
| "find_index_loop m handle ((objHandle, q) # objs) typeCount = do {
     ty \<leftarrow> rd8 m q;
     if handle = objHandle then Some (True, typeCount ty)
     else find_index_loop m handle objs (typeCount(ty := typeCount ty + 1)) }"

definition findIndexOfType :: "memory \<Rightarrow> Baseboard \<Rightarrow> u16 \<Rightarrow> (bool \<times> nat) checked" where
  "findIndexOfType m b handle = find_index_loop m handle (bb_containedObjects b) (\<lambda>ty. 0)"

definition setName :: "string \<Rightarrow> Baseboard \<Rightarrow> Baseboard" where
  "setName newName b = b\<lparr>bb_name := newName\<rparr>"

definition getName :: "Baseboard \<Rightarrow> string" where
  "getName b = bb_name b"

definition getType :: "memory \<Rightarrow> Baseboard \<Rightarrow> BoardType checked" where
  "getType m b = (case bb_raw b of None \<Rightarrow> None | Some p \<Rightarrow> bi_boardType m p)"

subsection \<open>The TPM\<close>

record Tpm =
  tpm_present :: bool
  tpm_purposeOther :: bool
  tpm_manufacturer :: string
  tpm_version :: string
  tpm_prettyName :: string

definition ti_length :: "memory \<Rightarrow> nat \<Rightarrow> u8 checked" where [field_defs]:
  "ti_length m p = rd8 m (p + 1)"

definition ti_vendor :: "memory \<Rightarrow> nat \<Rightarrow> nat \<Rightarrow> u8 checked" where [field_defs]:
  "ti_vendor m p i = rd8 m (p + 4 + i)"

definition ti_specMajor :: "memory \<Rightarrow> nat \<Rightarrow> u8 checked" where [field_defs]:
  "ti_specMajor m p = rd8 m (p + 8)"

definition ti_description :: "memory \<Rightarrow> nat \<Rightarrow> u8 checked" where [field_defs]:
  "ti_description m p = rd8 m (p + 18)"

text \<open>
  The four bytes from \<open>firmwareVersion1\<close> on, at offset 10, are read as \<open>TPMVersionSpec1\<close> or as
  \<open>TPMVersionSpec2\<close>; the argument is the structure of the TPM.
\<close>

definition spec1_revMajor :: "memory \<Rightarrow> nat \<Rightarrow> u8 checked" where [field_defs, simp]:
  "spec1_revMajor m p = rd8 m (p + 12)"

definition spec1_revMinor :: "memory \<Rightarrow> nat \<Rightarrow> u8 checked" where [field_defs, simp]:
  "spec1_revMinor m p = rd8 m (p + 13)"

definition spec2_revMinor :: "memory \<Rightarrow> nat \<Rightarrow> u16 checked" where [field_defs, simp]:
  "spec2_revMinor m p = rd16 m (p + 10)"

definition spec2_revMajor :: "memory \<Rightarrow> nat \<Rightarrow> u16 checked" where [field_defs, simp]:
  "spec2_revMajor m p = rd16 m (p + 12)"

definition isprint_byte :: "u8 \<Rightarrow> bool" where
  "isprint_byte b \<longleftrightarrow> 0x20 \<le> b \<and> b \<le> 0x7e"

text \<open>The loop stops at the fourth character or at a zero byte.\<close>

fun vendor_loop :: "memory \<Rightarrow> nat \<Rightarrow> nat list \<Rightarrow> string checked" where
  "vendor_loop m p [] = Some []"
| "vendor_loop m p (i # is) = do {
     b \<leftarrow> ti_vendor m p i;
     if b = 0 then Some []
     else do {
       rest \<leftarrow> vendor_loop m p is;
       Some ((if isprint_byte b then char_of_byte b else CHR ''.'') # rest) } }"

definition tpmVendor :: "memory \<Rightarrow> nat \<Rightarrow> Tpm \<Rightarrow> Tpm checked" where
  "tpmVendor m p t = do {
     vendorId \<leftarrow> vendor_loop m p [0 ..< 4];
     Some (t\<lparr>tpm_manufacturer := vendorId\<rparr>) }"

text \<open>
  The firmware version starts at offset 10. For specification 1 the two revision bytes are
  inserted into the stream as \<open>uint8_t\<close>, that is as characters; for specification 2 the
  revisions are 16-bit numbers.
\<close>

definition tpmFirmwareVersion :: "memory \<Rightarrow> nat \<Rightarrow> Tpm \<Rightarrow> Tpm checked" where
  "tpmFirmwareVersion m p t = do {
     specMajor \<leftarrow> ti_specMajor m p;
     (if specMajor = 0x01 then do {
        revMajor \<leftarrow> spec1_revMajor m p;
        revMinor \<leftarrow> spec1_revMinor m p;
        Some (t\<lparr>tpm_version := [char_of_byte revMajor] @ ''.'' @ [char_of_byte revMinor]\<rparr>)
      } else if specMajor = 0x02 then do {
        revMajor \<leftarrow> spec2_revMajor m p;
        revMinor \<leftarrow> spec2_revMinor m p;
        Some (t\<lparr>tpm_version := dec (unat revMajor) @ ''.'' @ dec (unat revMinor)\<rparr>)
      } else Some (t\<lparr>tpm_version := []\<rparr>)) }"

definition tpmDescription :: "u8 \<Rightarrow> u8 \<Rightarrow> memory \<Rightarrow> nat \<Rightarrow> Tpm \<Rightarrow> Tpm checked" where
  "tpmDescription positionNum structLen m p t = do {
     result \<leftarrow> positionToString positionNum structLen m (At p);
     Some (t\<lparr>tpm_prettyName := result\<rparr>) }"

definition tpmInfoUpdate :: "memory \<Rightarrow> ptr \<Rightarrow> Tpm \<Rightarrow> Tpm checked" where
  "tpmInfoUpdate m storage t = do {
     dataIn \<leftarrow> getSMBIOSTypePtr m storage (type_code tpmDeviceType) 0;
     (case dataIn of
        Null \<Rightarrow> Some t
      | At p \<Rightarrow> do {
          let t1 = t\<lparr>tpm_present := True, tpm_purposeOther := True\<rparr>;
          t2 \<leftarrow> tpmVendor m p t1;
          t3 \<leftarrow> tpmFirmwareVersion m p t2;
          des \<leftarrow> ti_description m p;
          len \<leftarrow> ti_length m p;
          tpmDescription des len m p t3 }) }"

subsection \<open>Firmware components\<close>

record Firmware =
  fw_prettyName :: string
  fw_version :: string
  fw_softwareId :: string
  fw_buildDate :: string
  fw_manufacturer :: string
  fw_present :: bool
  fw_purposeOther :: bool
  fw_associations :: "(string \<times> string \<times> string) list"

definition fi_length :: "memory \<Rightarrow> nat \<Rightarrow> u8 checked" where [field_defs]:
  "fi_length m p = rd8 m (p + 1)"

definition fi_componentName :: "memory \<Rightarrow> nat \<Rightarrow> u8 checked" where [field_defs]:
  "fi_componentName m p = rd8 m (p + 4)"

definition fi_Version :: "memory \<Rightarrow> nat \<Rightarrow> u8 checked" where [field_defs]:
  "fi_Version m p = rd8 m (p + 5)"

definition fi_Id :: "memory \<Rightarrow> nat \<Rightarrow> u8 checked" where [field_defs]:
  "fi_Id m p = rd8 m (p + 7)"

definition fi_releaseDate :: "memory \<Rightarrow> nat \<Rightarrow> u8 checked" where [field_defs]:
  "fi_releaseDate m p = rd8 m (p + 9)"

definition fi_manufacturer :: "memory \<Rightarrow> nat \<Rightarrow> u8 checked" where [field_defs]:
  "fi_manufacturer m p = rd8 m (p + 10)"

definition fi_numOfAssociatedComponents :: "memory \<Rightarrow> nat \<Rightarrow> u8 checked" where [field_defs]:
  "fi_numOfAssociatedComponents m p = rd8 m (p + 23)"

definition fi_associatedComponentHandle :: "memory \<Rightarrow> nat \<Rightarrow> nat \<Rightarrow> u16 checked" where [field_defs]:
  "fi_associatedComponentHandle m p i = rd16 m (p + 24 + 2 * i)"

definition firmwareComponentName :: "u8 \<Rightarrow> u8 \<Rightarrow> memory \<Rightarrow> nat \<Rightarrow> Firmware \<Rightarrow> Firmware checked" where
  "firmwareComponentName positionNum structLen m p f = do {
     result \<leftarrow> positionToString positionNum structLen m (At p);
     Some (f\<lparr>fw_prettyName := result\<rparr>) }"

definition firmwareVersion :: "u8 \<Rightarrow> u8 \<Rightarrow> memory \<Rightarrow> nat \<Rightarrow> Firmware \<Rightarrow> Firmware checked" where
  "firmwareVersion positionNum structLen m p f = do {
     result \<leftarrow> positionToString positionNum structLen m (At p);
     Some (f\<lparr>fw_version := result\<rparr>) }"

definition firmwareId :: "u8 \<Rightarrow> u8 \<Rightarrow> memory \<Rightarrow> nat \<Rightarrow> Firmware \<Rightarrow> Firmware checked" where
  "firmwareId positionNum structLen m p f = do {
     result \<leftarrow> positionToString positionNum structLen m (At p);
     Some (f\<lparr>fw_softwareId := result\<rparr>) }"

definition firmwareReleaseDate :: "u8 \<Rightarrow> u8 \<Rightarrow> memory \<Rightarrow> nat \<Rightarrow> Firmware \<Rightarrow> Firmware checked" where
  "firmwareReleaseDate positionNum structLen m p f = do {
     result \<leftarrow> positionToString positionNum structLen m (At p);
     Some (f\<lparr>fw_buildDate := result\<rparr>) }"

definition firmwareManufacturer :: "u8 \<Rightarrow> u8 \<Rightarrow> memory \<Rightarrow> nat \<Rightarrow> Firmware \<Rightarrow> Firmware checked" where
  "firmwareManufacturer positionNum structLen m p f = do {
     result \<leftarrow> positionToString positionNum structLen m (At p);
     Some (f\<lparr>fw_manufacturer := result\<rparr>) }"

text \<open>The flag is the build option \<open>EXPOSE_FW_INVENTORY\<close>.\<close>

definition firmwareInfoUpdate :: "bool \<Rightarrow> memory \<Rightarrow> ptr \<Rightarrow> nat \<Rightarrow> Firmware \<Rightarrow> Firmware checked" where
  "firmwareInfoUpdate expose m storage index f = do {
     dataIn \<leftarrow> getSMBIOSTypeIndexPtr m storage (type_code firmwareInventoryInformationType)
                 (word_of_nat index);
     (case dataIn of
        Null \<Rightarrow> Some f
      | At p \<Rightarrow> do {
          len \<leftarrow> fi_length m p;
          nm \<leftarrow> fi_componentName m p;
          f1 \<leftarrow> firmwareComponentName nm len m p f;
          f3 \<leftarrow> (if expose then do {
                   ver \<leftarrow> fi_Version m p;
                   f2 \<leftarrow> firmwareVersion ver len m p f1;
                   ident \<leftarrow> fi_Id m p;
                   firmwareId ident len m p f2
                 } else Some f1);
          dt \<leftarrow> fi_releaseDate m p;
          f4 \<leftarrow> firmwareReleaseDate dt len m p f3;
          mf \<leftarrow> fi_manufacturer m p;
          f5 \<leftarrow> firmwareManufacturer mf len m p f4;
          let f6 = f5\<lparr>fw_present := True\<rparr>;
          let f7 = (if expose then f6\<lparr>fw_purposeOther := True\<rparr> else f6);
          Some (f7\<lparr>fw_associations :=
                     [(''software_version'', ''functional'', ''/xyz/openbmc_project/software'')]\<rparr>) }) }"

definition component_suffix :: "memory \<Rightarrow> nat \<Rightarrow> string checked" where
  "component_suffix m c = do {
     ty \<leftarrow> rd8 m c;
     (if ty = type_code processorsType \<or> ty = type_code systemSlots
         \<or> ty = type_code onboardDevicesExtended then do {
        pos \<leftarrow> rd8 m (c + 4);
        len \<leftarrow> rd8 m (c + 1);
        designation \<leftarrow> positionToString pos len m (At c);
        Some (if designation \<noteq> [] then ''_'' @ designation else [])
      } else if ty = type_code systemPowerSupply then do {
        pos \<leftarrow> rd8 m (c + 5);
        len \<leftarrow> rd8 m (c + 1);
        loc \<leftarrow> positionToString pos len m (At c);
        Some (if loc \<noteq> [] then ''_'' @ loc else [])
      } else Some []) }"

fun component_loop :: "memory \<Rightarrow> ptr \<Rightarrow> nat \<Rightarrow> nat list \<Rightarrow> string \<Rightarrow> string checked" where
  "component_loop m storage p [] ident = Some ident"
| "component_loop m storage p (i # is) ident = do {
     handle \<leftarrow> fi_associatedComponentHandle m p i;
     component \<leftarrow> smbiosHandlePtr m storage handle;
     (case component of
        Null \<Rightarrow> component_loop m storage p is ident
      | At c \<Rightarrow> do {
          sfx \<leftarrow> component_suffix m c;
          component_loop m storage p is (ident @ sfx) }) }"

definition getFirmwareName :: "memory \<Rightarrow> ptr \<Rightarrow> nat \<Rightarrow> (string \<times> string) checked" where
  "getFirmwareName m dataIn targetIndex = do {
     firmwarePtr \<leftarrow> getSMBIOSTypeIndexPtr m dataIn (type_code firmwareInventoryInformationType)
                      (word_of_nat targetIndex);
     (case firmwarePtr of
        Null \<Rightarrow> Some ([], [])
      | At p \<Rightarrow> do {
          len \<leftarrow> fi_length m p;
          npos \<leftarrow> fi_componentName m p;
          nm \<leftarrow> positionToString npos len m (At p);
          ipos \<leftarrow> fi_Id m p;
          ident \<leftarrow> positionToString ipos len m (At p);
          n \<leftarrow> fi_numOfAssociatedComponents m p;
          ident' \<leftarrow> (if 0 < n then component_loop m dataIn p [0 ..< unat n] ident else Some ident);
          Some (nm, ident') }) }"

subsection \<open>The system object\<close>

definition hex_digit :: "nat \<Rightarrow> char" where
  "hex_digit d = (if d < 10 then char_of (48 + d) else char_of (87 + d))"

text \<open>\<open>setw\<close> with zero fill and \<open>hex\<close>, for a number of at most \<open>w\<close> hexadecimal digits.\<close>

fun hexw :: "nat \<Rightarrow> nat \<Rightarrow> string" where
  "hexw 0 v = []"
| "hexw (Suc w) v = hexw w (v div 16) @ [hex_digit (v mod 16)]"

text \<open>The fields of the \<open>UUID\<close> in \<open>SystemInfo\<close>, at offset 8, and of \<open>BIOSInfo\<close> that are used.\<close>

definition uuid_timeLow :: "memory \<Rightarrow> nat \<Rightarrow> u32 checked" where [field_defs, simp]:
  "uuid_timeLow m p = rd32 m (p + 8)"

definition uuid_timeMid :: "memory \<Rightarrow> nat \<Rightarrow> u16 checked" where [field_defs, simp]:
  "uuid_timeMid m p = rd16 m (p + 12)"

definition uuid_timeHiAndVer :: "memory \<Rightarrow> nat \<Rightarrow> u16 checked" where [field_defs, simp]:
  "uuid_timeHiAndVer m p = rd16 m (p + 14)"

definition uuid_clockSeqHi :: "memory \<Rightarrow> nat \<Rightarrow> u8 checked" where [field_defs, simp]:
  "uuid_clockSeqHi m p = rd8 m (p + 16)"

definition uuid_clockSeqLow :: "memory \<Rightarrow> nat \<Rightarrow> u8 checked" where [field_defs, simp]:
  "uuid_clockSeqLow m p = rd8 m (p + 17)"

definition uuid_node :: "memory \<Rightarrow> nat \<Rightarrow> nat \<Rightarrow> u8 checked" where [field_defs, simp]:
  "uuid_node m p i = rd8 m (p + (18 + i))"

definition bios_length :: "memory \<Rightarrow> nat \<Rightarrow> u8 checked" where [field_defs, simp]:
  "bios_length m p = rd8 m (p + 1)"

definition bios_biosVersion :: "memory \<Rightarrow> nat \<Rightarrow> u8 checked" where [field_defs, simp]:
  "bios_biosVersion m p = rd8 m (p + 5)"

definition System_uuid :: "memory \<Rightarrow> ptr \<Rightarrow> string checked" where
  "System_uuid m storage = do {
     dataIn \<leftarrow> getSMBIOSTypePtr m storage (type_code systemType) 0;
     (case dataIn of
        Null \<Rightarrow> Some ''00000000-0000-0000-0000-000000000000''
      | At p \<Rightarrow> do {
          timeLow \<leftarrow> uuid_timeLow m p;
          timeMid \<leftarrow> uuid_timeMid m p;
          timeHiAndVer \<leftarrow> uuid_timeHiAndVer m p;
          clockSeqHi \<leftarrow> uuid_clockSeqHi m p;
          clockSeqLow \<leftarrow> uuid_clockSeqLow m p;
          node0 \<leftarrow> uuid_node m p 0;
          node1 \<leftarrow> uuid_node m p 1;
          node2 \<leftarrow> uuid_node m p 2;
          node3 \<leftarrow> uuid_node m p 3;
          node4 \<leftarrow> uuid_node m p 4;
          node5 \<leftarrow> uuid_node m p 5;
          Some (hexw 8 (unat timeLow) @ ''-'' @ hexw 4 (unat timeMid) @ ''-''
                @ hexw 4 (unat timeHiAndVer) @ ''-''
                @ hexw 2 (unat clockSeqHi) @ hexw 2 (unat clockSeqLow) @ ''-''
                @ hexw 2 (unat node0) @ hexw 2 (unat node1) @ hexw 2 (unat node2)
                @ hexw 2 (unat node3) @ hexw 2 (unat node4) @ hexw 2 (unat node5)) }) }"

definition isprint_char :: "char \<Rightarrow> bool" where
  "isprint_char c \<longleftrightarrow> isprint_byte (byte_of_char c)"

text \<open>
  The bus as the BIOS version needs it: the answer of the object mapper to \<open>GetObject\<close> for a path and
  an interface (the services with their interfaces; \<^const>\<open>None\<close> is a D-Bus exception) and the calls
  of \<open>Set\<close> that fail to be sent, for which \<open>call_noreply\<close> throws.
\<close>

record property_set =
  ps_service :: string
  ps_path :: string
  ps_interface :: string
  ps_property :: string
  ps_value :: string

record bios_bus =
  mapper_object :: "string \<Rightarrow> string \<Rightarrow> (string \<times> string list) list option"
  set_fails :: "property_set \<Rightarrow> bool"

definition biosActiveObjPath :: string where
  "biosActiveObjPath = ''/xyz/openbmc_project/software/bios_active''"

definition biosVersionIntf :: string where
  "biosVersionIntf = ''xyz.openbmc_project.Software.Version''"

definition biosVersionProp :: string where "biosVersionProp = ''Version''"

text \<open>The first service of the answer; the code indexes the answer without a test that it has one.\<close>

definition getService :: "bios_bus \<Rightarrow> string \<Rightarrow> string \<Rightarrow> string checked" where
  "getService bus objectPath intf = (case mapper_object bus objectPath intf of
      None \<Rightarrow> Some []
    | Some response \<Rightarrow> (case response of [] \<Rightarrow> None | r # rs \<Rightarrow> Some (fst r)))"

definition setProperty ::
  "bios_bus \<Rightarrow> string \<Rightarrow> string \<Rightarrow> string \<Rightarrow> string \<Rightarrow> property_set option throwing"
where
  "setProperty bus objectPath intf propertyName val = do {
     service \<leftarrow> getService bus objectPath intf;
     if service = [] then Some (Inr None)
     else
       let call = \<lparr>ps_service = service, ps_path = objectPath, ps_interface = intf,
                   ps_property = propertyName, ps_value = val\<rparr>
       in Some (if set_fails bus call then Inl Bus_error else Inr (Some call)) }"

text \<open>
  \<open>version\<close>: the version string that becomes the property (\<^const>\<open>None\<close> when the property keeps its
  value), whether the flash file is truncated, and the call sent to the BIOS version object.
  \<open>truncatable\<close> says whether the flash file can be opened for truncation.
\<close>

record version_effect =
  ve_property :: "string option"
  ve_truncated :: bool
  ve_published :: "property_set option"

definition System_version :: "memory \<Rightarrow> ptr \<Rightarrow> bios_bus \<Rightarrow> bool \<Rightarrow> version_effect throwing" where
  "System_version m storage bus truncatable = do {
     dataIn \<leftarrow> getSMBIOSTypePtr m storage (type_code biosType) 0;
     (case dataIn of
        Null \<Rightarrow> Some (Inr \<lparr>ve_property = Some ''No BIOS Version'', ve_truncated = False,
                           ve_published = None\<rparr>)
      | At p \<Rightarrow> do {
          pos \<leftarrow> bios_biosVersion m p;
          len \<leftarrow> bios_length m p;
          tempS \<leftarrow> positionToString pos len m (At p);
          if \<not> list_all isprint_char tempS
          then if \<not> truncatable
               then Some (Inr \<lparr>ve_property = None, ve_truncated = False, ve_published = None\<rparr>)
               else Some (Inr \<lparr>ve_property = Some ''No BIOS Version'', ve_truncated = True,
                               ve_published = None\<rparr>)
          else do {
            r \<leftarrow> setProperty bus biosActiveObjPath biosVersionIntf biosVersionProp tempS;
            Some (case r of
                Inl x \<Rightarrow> Inl x
              | Inr sent \<Rightarrow> Inr \<lparr>ve_property = Some tempS, ve_truncated = False,
                                 ve_published = sent\<rparr>) } }) }"

subsection \<open>Board contents\<close>

lemma find_index_loop_hit:
  assumes "\<forall>(h, q) \<in> set (pre @ [(handle, q0)]). rd8 m q = Some (ty q)"
    and "handle \<notin> fst ` set pre"
  shows "find_index_loop m handle (pre @ (handle, q0) # post) cnt =
    Some (True, cnt (ty q0) + length (filter (\<lambda>(h, q). ty q = ty q0) pre))"
  using assms
proof (induction pre arbitrary: cnt)
  case Nil
  then show ?case by simp
next
  case (Cons x pre)
  obtain h q where x: "x = (h, q)" by (cases x)
  then show ?case using Cons by (auto simp: image_iff)
qed

lemma find_index_loop_miss:
  assumes "\<forall>(h, q) \<in> set objs. rd8 m q = Some (ty q)" and "handle \<notin> fst ` set objs"
  shows "find_index_loop m handle objs cnt = Some (False, 0)"
  using assms by (induction objs arbitrary: cnt) auto

text \<open>The objects a board contains: the handles of its list that name a structure of the table.\<close>

definition handle_ptr :: "nat \<Rightarrow> smb_struct list \<Rightarrow> u16 \<Rightarrow> nat option" where
  "handle_ptr q ss h = (case table_ptr q ss (from_handle h ss) of Null \<Rightarrow> None | At r \<Rightarrow> Some r)"

definition resolve :: "nat \<Rightarrow> smb_struct list \<Rightarrow> u16 list \<Rightarrow> (u16 \<times> nat) list" where
  "resolve q ss hs = List.map_filter (\<lambda>h. map_option (Pair h) (handle_ptr q ss h)) hs"

lemma contained_loop_table:
  assumes "table_from m p q ss" and "\<And>i. i \<in> set js \<Longrightarrow> bi_containedObjectHandle m r i = Some (hs i)"
  shows "contained_loop m (At p) r js acc = Some (acc @ resolve q ss (map hs js))"
  using assms(2)
proof (induction js arbitrary: acc)
  case Nil
  then show ?case by (simp add: resolve_def List.map_filter_simps)
next
  case (Cons i js)
  then show ?case
    using smbiosHandlePtr_from [OF assms(1), of "hs i"]
    by (auto simp: resolve_def handle_ptr_def List.map_filter_simps split: ptr.splits option.splits)
qed

subsection \<open>TPM vendor and UUID\<close>

lemma vendor_loop_shape:
  "vendor_loop m p js = Some v \<Longrightarrow> length v \<le> length js \<and> list_all isprint_char v"
proof (induction js arbitrary: v)
  case Nil
  then show ?case by simp
next
  case (Cons i js)
  have dot: "isprint_char (CHR ''.'')"
    by (simp add: isprint_char_def isprint_byte_def byte_of_char_def)
  from Cons show ?case
    by (auto simp: isprint_char_def dot [unfolded isprint_char_def] split: bind_splits if_splits)
qed

lemma length_hexw [simp]: "length (hexw w v) = w"
  by (induction w arbitrary: v) auto

lemma hex_digit_inj: "a < 16 \<Longrightarrow> b < 16 \<Longrightarrow> hex_digit a = hex_digit b \<longleftrightarrow> a = b"
  using arg_cong [of "hex_digit a" "hex_digit b" "of_char :: char \<Rightarrow> nat"]
  by (auto simp: hex_digit_def split: if_splits)

lemma hexw_inj: "hexw w a = hexw w b \<longleftrightarrow> a mod 16 ^ w = b mod 16 ^ w"
proof (induction w arbitrary: a b)
  case 0
  then show ?case by simp
next
  case (Suc w)
  have "x mod 16 ^ Suc w = 16 * (x div 16 mod 16 ^ w) + x mod 16" for x :: nat
    by (simp add: mod_mult2_eq)
  moreover have "16 * x + u = 16 * y + v \<longleftrightarrow> x = y \<and> u = v" if "u < 16" "v < 16" for x y u v :: nat
  proof
    assume eq: "16 * x + u = 16 * y + v"
    have "(16 * x + u) mod 16 = u" "(16 * y + v) mod 16 = v" using that by simp_all
    then have "u = v" using eq by metis
    then show "x = y \<and> u = v" using eq by simp
  qed simp
  ultimately have "a mod 16 ^ Suc w = b mod 16 ^ Suc w \<longleftrightarrow>
      a div 16 mod 16 ^ w = b div 16 mod 16 ^ w \<and> a mod 16 = b mod 16"
    by simp
  then show ?case
    using Suc [of "a div 16" "b div 16"] hex_digit_inj [of "a mod 16" "b mod 16"]
    by (auto simp del: power_Suc)
qed

text \<open>The UUID of a structure: the fields of its 16 bytes, in the order they are printed.\<close>

definition uuid_text :: "smb_struct \<Rightarrow> string" where
  "uuid_text s = hexw 8 (unat (sf32 s 8)) @ ''-'' @ hexw 4 (unat (sf16 s 12)) @ ''-''
     @ hexw 4 (unat (sf16 s 14)) @ ''-'' @ hexw 2 (unat (sf8 s 16)) @ hexw 2 (unat (sf8 s 17)) @ ''-''
     @ hexw 2 (unat (sf8 s 18)) @ hexw 2 (unat (sf8 s 19)) @ hexw 2 (unat (sf8 s 20))
     @ hexw 2 (unat (sf8 s 21)) @ hexw 2 (unat (sf8 s 22)) @ hexw 2 (unat (sf8 s 23))"

lemma getSMBIOSTypePtr_hit:
  assumes "table_from m p q ss" and "from_type t ss = s # rest"
  shows "\<exists>r. getSMBIOSTypePtr m (At p) t 0 = Some (At r) \<and> at_table m r (s # rest)"
proof -
  have at: "at_table m q ss" using assms(1) by (simp add: table_from_def)
  show ?thesis
    using getSMBIOSTypePtr_from [OF assms(1), of t 0] getSMBIOSTypePtr_table [OF at, of t] assms(2)
      at_table_from_type [OF at assms(2)]
    by (simp add: table_ptr_def)
qed

lemma System_uuid_table:
  assumes "table_from m p q ss" and "from_type 1 ss = s # rest" and "24 \<le> s_length s"
  shows "System_uuid m (At p) = Some (uuid_text s)"
proof -
  obtain r where r: "getSMBIOSTypePtr m (At p) 1 0 = Some (At r)" and at: "at_table m r (s # rest)"
    using getSMBIOSTypePtr_hit [OF assms(1,2)] by blast
  note f8 = at_table_fields(1) [OF at] and f16 = at_table_fields(2) [OF at]
  have "rd32 m (r + 8) = Some (sf32 s 8)" "rd16 m (r + 12) = Some (sf16 s 12)"
    "rd16 m (r + 14) = Some (sf16 s 14)" "rd8 m (r + 16) = Some (sf8 s 16)"
    "rd8 m (r + 17) = Some (sf8 s 17)" "rd8 m (r + 18) = Some (sf8 s 18)"
    "rd8 m (r + 19) = Some (sf8 s 19)" "rd8 m (r + 20) = Some (sf8 s 20)"
    "rd8 m (r + 21) = Some (sf8 s 21)" "rd8 m (r + 22) = Some (sf8 s 22)"
    "rd8 m (r + 23) = Some (sf8 s 23)"
    using assms(3) at_table_fields(3) [OF at, of 8] f16 [of 12] f16 [of 14] f8 [of 16] f8 [of 17]
      f8 [of 18] f8 [of 19] f8 [of 20] f8 [of 21] f8 [of 22] f8 [of 23] by simp_all
  then show ?thesis
    using r by (simp add: System_uuid_def uuid_text_def)
qed

subsection \<open>Firmware names\<close>

definition suffix_text :: "string \<Rightarrow> string" where
  "suffix_text x = (if x \<noteq> [] then ''_'' @ x else [])"

definition struct_suffix :: "smb_struct \<Rightarrow> string" where
  "struct_suffix s = (if s_type s \<in> {4, 9, 41} then suffix_text (struct_string s (sf8 s 4))
     else if s_type s = 39 then suffix_text (struct_string s (sf8 s 5)) else [])"

lemma component_suffix_table:
  assumes "at_table m c (s # rest)" and "6 \<le> s_length s"
  shows "component_suffix m c = Some (struct_suffix s)"
proof -
  have "rd8 m (c + 4) = Some (sf8 s 4)" "rd8 m (c + 5) = Some (sf8 s 5)"
    using at_table_fields(1) [OF assms(1), of 4] at_table_fields(1) [OF assms(1), of 5] assms(2)
    by simp_all
  then show ?thesis
    using at_table_header(1,2) [OF assms(1)] positionToString_table [OF assms(1)]
    by (auto simp: component_suffix_def struct_suffix_def suffix_text_def)
qed

definition handle_suffix :: "smb_struct list \<Rightarrow> u16 \<Rightarrow> string" where
  "handle_suffix ss h = (case from_handle h ss of [] \<Rightarrow> [] | s # rest \<Rightarrow> struct_suffix s)"

lemma component_loop_table:
  assumes "table_from m p q ss" and "\<forall>s \<in> set ss. 6 \<le> s_length s"
    and "\<And>i. i \<in> set js \<Longrightarrow> fi_associatedComponentHandle m r i = Some (hs i)"
  shows "component_loop m (At p) r js ident =
    Some (ident @ concat (map (\<lambda>i. handle_suffix ss (hs i)) js))"
  using assms(3)
proof (induction js arbitrary: ident)
  case Nil
  then show ?case by simp
next
  case (Cons i js)
  have at: "at_table m q ss" using assms(1) by (simp add: table_from_def)
  show ?case
  proof (cases "from_handle (hs i) ss")
    case Nil
    then show ?thesis
      using Cons smbiosHandlePtr_from [OF assms(1), of "hs i"]
      by (simp add: table_ptr_def handle_suffix_def)
  next
    case c: (Cons s rest)
    obtain pre where pre: "ss = pre @ s # rest"
      using from_handle_suffix [of ss "hs i"] c by auto
    then have "6 \<le> s_length s" using assms(2) by simp
    then have "component_suffix m (q + (enc_len ss - enc_len (s # rest))) = Some (struct_suffix s)"
      using component_suffix_table [OF at_table_suffix [OF at pre]] by simp
    then show ?thesis
      using Cons c smbiosHandlePtr_from [OF assms(1), of "hs i"]
      by (simp add: table_ptr_def handle_suffix_def)
  qed
qed

subsection \<open>Properties of the system, its firmware and its boards\<close>

lemma of_type_hd:
  assumes "of_type t ss = s # rest"
  shows "\<exists>r. from_type t ss = s # r"
  using assms of_type_from_type [of t ss] by (auto split: list.splits)

lemma hexw_eq:
  fixes a b :: "'a::len word"
  assumes "2 ^ LENGTH('a) \<le> (16 :: nat) ^ w"
  shows "hexw w (unat a) = hexw w (unat b) \<longleftrightarrow> a = b"
proof -
  have "unat x < 16 ^ w" for x :: "'a word"
    using unsigned_less [of x, where ?'a = nat] assms by linarith
  then show ?thesis by (simp add: hexw_inj word_unat_eq_iff)
qed

lemma append_hexw_eq: "hexw w a @ x = hexw w b @ y \<longleftrightarrow> hexw w a = hexw w b \<and> x = y"
  by (rule append_eq_append_conv) simp

lemma uuid_text_inj:
  "uuid_text s = uuid_text s' \<longleftrightarrow>
     sf32 s 8 = sf32 s' 8 \<and> sf16 s 12 = sf16 s' 12 \<and> sf16 s 14 = sf16 s' 14
     \<and> (\<forall>i \<in> {16 ..< 24}. sf8 s i = sf8 s' i)"
proof -
  have w: "hexw 8 (unat a) = hexw 8 (unat (b :: u32)) \<longleftrightarrow> a = b"
    "hexw 4 (unat c) = hexw 4 (unat (d :: u16)) \<longleftrightarrow> c = d"
    "hexw 2 (unat e) = hexw 2 (unat (f :: u8)) \<longleftrightarrow> e = f" for a b c d e f
    by (simp_all add: hexw_eq)
  have "{16 ..< 24} = {16, 17, 18, 19, 20, 21, 22, 23 :: nat}" by auto
  then show ?thesis
    by (simp add: uuid_text_def append_hexw_eq w)
qed

text \<open>
  The UUID of the system is printed from the first system structure as 36 characters, and two
  systems show the same UUID exactly when all eleven fields of the UUID are equal; without a system
  structure the nil UUID is shown.
\<close>

theorem system_uuid:
  assumes "table_from m p q ss" and "of_type 1 ss = s # rest" and "24 \<le> s_length s"
    and "table_from m' p' q' ss'" and "of_type 1 ss' = s' # rest'" and "24 \<le> s_length s'"
  shows "\<exists>u. System_uuid m (At p) = Some u \<and> length u = 36
    \<and> (System_uuid m' (At p') = Some u \<longleftrightarrow>
        sf32 s 8 = sf32 s' 8 \<and> sf16 s 12 = sf16 s' 12 \<and> sf16 s 14 = sf16 s' 14
        \<and> (\<forall>i \<in> {16 ..< 24}. sf8 s i = sf8 s' i))"
proof -
  obtain r where r: "from_type 1 ss = s # r" using of_type_hd [OF assms(2)] by blast
  obtain r' where r': "from_type 1 ss' = s' # r'" using of_type_hd [OF assms(5)] by blast
  have "length (uuid_text s) = 36" by (simp add: uuid_text_def)
  then show ?thesis
    using System_uuid_table [OF assms(1) r assms(3)] System_uuid_table [OF assms(4) r' assms(6)]
      uuid_text_inj [of s s'] by auto
qed

lemma example_system_first: "of_type 1 example_table = [example_system]" "24 \<le> s_length example_system"
  by (simp_all add: example_defs s_length_def structureHeaderSize_def)

theorem system_uuid_witness:
  "\<exists>u. System_uuid example_memory (At 0) = Some u \<and> length u = 36"
  using system_uuid [OF example_from example_system_first example_from example_system_first] by blast

text \<open>
  The mapper answers \<open>GetObject\<close> with an error when no service has the object, so that an answer
  has at least one service.
\<close>

definition mapper_answers :: "bios_bus \<Rightarrow> bool" where
  "mapper_answers bus \<longleftrightarrow> (\<forall>path intf. mapper_object bus path intf \<noteq> Some [])"

definition bus_works :: "bios_bus \<Rightarrow> bool" where
  "bus_works bus \<longleftrightarrow> mapper_answers bus \<and> (\<forall>call. \<not> set_fails bus call)"

lemma getService_defined: "mapper_answers bus \<Longrightarrow> \<exists>s. getService bus path intf = Some s"
  by (auto simp: getService_def mapper_answers_def split: option.splits list.splits)

lemma setProperty_defined:
  assumes "mapper_answers bus"
  shows "\<exists>r. setProperty bus path intf prop v = Some r"
proof -
  obtain s where "getService bus path intf = Some s" using getService_defined [OF assms] by blast
  then show ?thesis by (auto simp: setProperty_def Let_def)
qed

lemma rethrow_iff: "(case r of Inl x \<Rightarrow> Inl x | Inr y \<Rightarrow> Inr (f y)) = Inl z \<longleftrightarrow> r = Inl z"
  by (cases r) auto

lemma rethrow_Inr_iff:
  "(case r of Inl x \<Rightarrow> Inl x | Inr y \<Rightarrow> Inr (f y)) = Inr z \<longleftrightarrow> (\<exists>y. r = Inr y \<and> z = f y)"
  by (cases r) auto

lemma System_version_throws:
  assumes "System_version m st bus tr = Some (Inl x)"
  shows "x = Bus_error \<and> (\<exists>call. set_fails bus call)"
proof -
  obtain dataIn where d: "getSMBIOSTypePtr m st (type_code biosType) 0 = Some dataIn"
    using assms by (auto simp: System_version_def bind_eq_Some_conv)
  have "\<exists>v. setProperty bus biosActiveObjPath biosVersionIntf biosVersionProp v = Some (Inl x)"
  proof (cases dataIn)
    case (At p)
    then show ?thesis using assms d
      by (auto simp: System_version_def bind_eq_Some_conv rethrow_iff split: if_split_asm)
  qed (use assms d in \<open>simp add: System_version_def\<close>)
  then show ?thesis by (auto simp: setProperty_def bind_eq_Some_conv Let_def split: if_splits)
qed

lemma bios_string_table:
  assumes "table_from m p q ss" and "of_type 0 ss = s # rest" and "6 \<le> s_length s"
  shows "System_version m (At p) bus truncatable = (let v = struct_string s (sf8 s 5) in
    if list_all isprint_char v
    then Option.bind (setProperty bus biosActiveObjPath biosVersionIntf biosVersionProp v)
      (\<lambda>r. Some (case r of Inl x \<Rightarrow> Inl x
         | Inr sent \<Rightarrow> Inr \<lparr>ve_property = Some v, ve_truncated = False, ve_published = sent\<rparr>))
    else Some (Inr \<lparr>ve_property = (if truncatable then Some ''No BIOS Version'' else None),
                    ve_truncated = truncatable, ve_published = None\<rparr>))"
proof -
  obtain r where r: "from_type 0 ss = s # r" using of_type_hd [OF assms(2)] by blast
  obtain a where a: "getSMBIOSTypePtr m (At p) 0 0 = Some (At a)" and at: "at_table m a (s # r)"
    using getSMBIOSTypePtr_hit [OF assms(1) r] by blast
  have "rd8 m (a + 5) = Some (sf8 s 5)" using at_table_fields(1) [OF at, of 5] assms(3) by simp
  then show ?thesis
    using a at_table_header(2) [OF at] positionToString_table [OF at]
    by (simp add: System_version_def Let_def)
qed

text \<open>
  The BIOS version: a printable version string of the first BIOS structure is sent to the BIOS version
  object of the first service that the mapper names, if it names one, and becomes the property unless
  that call cannot be sent; a string with another character is never shown or sent, and where the
  file can be opened it is emptied so that the table is asked for again.
\<close>

lemma bios_version:
  assumes "table_from m p q ss" and "of_type 0 ss = s # rest" and "6 \<le> s_length s"
    and "mapper_answers bus" and "v = struct_string s (sf8 s 5)"
  shows "\<exists>r. System_version m (At p) bus truncatable = Some r
    \<and> (if list_all isprint_char v
       then (case r of Inl x \<Rightarrow> x = Bus_error \<and> (\<exists>call. set_fails bus call)
         | Inr e \<Rightarrow> ve_property e = Some v \<and> \<not> ve_truncated e
         \<and> (case ve_published e of
              None \<Rightarrow> getService bus biosActiveObjPath biosVersionIntf = Some []
            | Some call \<Rightarrow> getService bus biosActiveObjPath biosVersionIntf = Some (ps_service call)
                \<and> ps_path call = biosActiveObjPath \<and> ps_property call = ''Version'' \<and> ps_value call = v))
       else r = Inr \<lparr>ve_property = (if truncatable then Some ''No BIOS Version'' else None),
                     ve_truncated = truncatable, ve_published = None\<rparr>)"
proof -
  obtain srv where "getService bus biosActiveObjPath biosVersionIntf = Some srv"
    using getService_defined [OF assms(4)] by blast
  then show ?thesis
    by (auto simp: bios_string_table [OF assms(1-3)] setProperty_def Let_def assms(5) biosVersionProp_def)
qed

definition example_bus :: bios_bus where
  "example_bus = \<lparr>mapper_object = (\<lambda>path intf. Some [(''bios'', [intf])]), set_fails = (\<lambda>call. False)\<rparr>"

lemma example_bus_works: "bus_works example_bus" and example_bus_answers: "mapper_answers example_bus"
  by (simp_all add: bus_works_def mapper_answers_def example_bus_def)

text \<open>
  An empty answer of the mapper is indexed all the same: the version of a table with a printable
  BIOS version then has no defined result.
\<close>

lemma empty_mapper_answer:
  assumes "table_from m p q ss" and "of_type 0 ss = s # rest" and "6 \<le> s_length s"
    and "list_all isprint_char (struct_string s (sf8 s 5))"
    and "mapper_object bus biosActiveObjPath biosVersionIntf = Some []"
  shows "System_version m (At p) bus truncatable = None"
  by (simp add: bios_string_table [OF assms(1-3)] assms(4) setProperty_def getService_def assms(5))

text \<open>
  The name and identifier of the \<open>k\<close>-th firmware component: the identifier is the one of the
  structure followed, in the order of the associated components, by the designation of each
  processor, slot or on-board device and the location of each power supply among them.
\<close>

theorem firmware_identifier:
  assumes "table_from m p q ss" and "\<forall>x \<in> set ss. 6 \<le> s_length x"
    and "unat (word_of_nat k :: u8) < length (of_type 45 ss)"
    and "s = of_type 45 ss ! unat (word_of_nat k :: u8)"
    and "24 + 2 * unat (sf8 s 23) \<le> s_length s"
  shows "getFirmwareName m (At p) k = Some (struct_string s (sf8 s 4),
    struct_string s (sf8 s 7)
      @ concat (map (\<lambda>i. handle_suffix ss (sf16 s (24 + 2 * i))) [0 ..< unat (sf8 s 23)]))"
proof -
  obtain r rest where r: "getSMBIOSTypeIndexPtr m (At p) 45 (word_of_nat k) = Some (At r)"
    and at: "at_table m r (s # rest)"
    using getSMBIOSTypeIndexPtr_hit [OF assms(1,3)] assms(4) by blast
  have f: "rd8 m (r + 4) = Some (sf8 s 4)" "rd8 m (r + 7) = Some (sf8 s 7)" "rd8 m (r + 23) = Some (sf8 s 23)"
    using at_table_fields(1) [OF at, of 4] at_table_fields(1) [OF at, of 7]
      at_table_fields(1) [OF at, of 23] assms(5) by simp_all
  have "fi_associatedComponentHandle m r i = Some (sf16 s (24 + 2 * i))" if "i < unat (sf8 s 23)" for i
    using at_table_fields(2) [OF at, of "24 + 2 * i"] assms(5) that
    by (simp add: fi_associatedComponentHandle_def add.assoc)
  then have "component_loop m (At p) r [0 ..< unat (sf8 s 23)] ident =
      Some (ident @ concat (map (\<lambda>i. handle_suffix ss (sf16 s (24 + 2 * i))) [0 ..< unat (sf8 s 23)]))" for ident
    by (intro component_loop_table [OF assms(1,2)]) simp
  then show ?thesis
    using r f at_table_header(2) [OF at] positionToString_table [OF at]
    by (cases "sf8 s 23 = 0") (simp_all add: getFirmwareName_def field_defs word_gt_0)
qed

definition example_firmware :: "smb_struct list" where
  "example_firmware = [\<lparr>s_type = 45, s_handle = 5,
      s_body = [1, 0, 0, 2] @ replicate 15 0 @ [2, 0x20, 0, 9, 0], s_strings = [''FPGA'', ''id'']\<rparr>,
     example_slot 0xb6 ''PCIE1'']"

theorem firmware_identifier_witness:
  "getFirmwareName (encode_table example_firmware @ [0, 0, 0]) (At 0) 0 = Some (''FPGA'', ''id_PCIE1'')"
proof -
  let ?fw = "example_firmware ! 0"
  have holds: "holds (encode_table example_firmware @ [0, 0, 0]) 0 (encode_table example_firmware)"
    using holds_self [of "[]" "encode_table example_firmware" "[0, 0, 0]"] by simp
  have "list_all wf_struct example_firmware"
    by (simp add: example_firmware_def example_slot_def wf_struct_def s_length_def structureHeaderSize_def
        wf_string_def encode_strings_def encode_string_def mdrSMBIOSSize_def byte_of_char_def)
  then have "at_table (encode_table example_firmware @ [0, 0, 0]) 0 example_firmware"
    using holds by (simp add: at_table_def)
  note tf = table_from_table [OF this]
  have fw: "sf8 ?fw 23 = 2" "struct_string ?fw (sf8 ?fw 4) = ''FPGA''" "struct_string ?fw (sf8 ?fw 7) = ''id''"
    "sf16 ?fw 24 = 0x20" "sf16 ?fw 26 = 9" "s_length ?fw = 28"
    by (simp_all add: example_firmware_def sf8_def sf16_def le_word_def struct_string_def s_length_def
        structureHeaderSize_def nth_append)
  have of: "of_type 45 example_firmware = [?fw]" by (simp add: example_firmware_def example_slot_def)
  have len: "\<forall>x \<in> set example_firmware. 6 \<le> s_length x"
    by (simp add: example_firmware_def example_slot_def s_length_def structureHeaderSize_def)
  have sfx: "handle_suffix example_firmware 0x20 = ''_PCIE1''" "handle_suffix example_firmware 9 = []"
    by (simp_all add: handle_suffix_def example_firmware_def example_slot_def struct_suffix_def
        suffix_text_def struct_string_def sf8_def)
  have two: "[0 ..< 2] = [0, 1 :: nat]" by (simp add: upt_rec)
  have k: "unat (word_of_nat 0 :: u8) < length (of_type 45 example_firmware)"
    and s: "?fw = of_type 45 example_firmware ! unat (word_of_nat 0 :: u8)"
    unfolding of by simp_all
  have n: "24 + 2 * unat (sf8 ?fw 23) \<le> s_length ?fw" by (simp only: fw) simp
  have u: "unat (2 :: u8) = 2" by simp
  show ?thesis
    using firmware_identifier [OF tf len k s n] unfolding fw u two by (simp add: fw sfx del: nth_Cons_0)
qed


lemma handle_ptr_at:
  assumes "at_table m q ss" and "handle_ptr q ss h = Some r"
  shows "\<exists>rest. from_handle h ss = hd (from_handle h ss) # rest
    \<and> at_table m r (hd (from_handle h ss) # rest)"
proof (cases "from_handle h ss")
  case Nil
  then show ?thesis using assms(2) by (simp add: handle_ptr_def table_ptr_def)
next
  case (Cons s rest)
  obtain pre where "ss = pre @ s # rest" using from_handle_suffix [of ss h] Cons by auto
  from at_table_suffix [OF assms(1) this] show ?thesis
    using assms(2) Cons by (simp add: handle_ptr_def table_ptr_def)
qed

definition board_handles :: "smb_struct \<Rightarrow> u16 list" where
  "board_handles s = map (\<lambda>i. sf16 s (15 + 2 * i)) [0 ..< unat (sf8 s 14)]"

definition known_handles :: "smb_struct list \<Rightarrow> smb_struct \<Rightarrow> u16 list" where
  "known_handles ss s = filter (\<lambda>h. from_handle h ss \<noteq> []) (board_handles s)"

definition handle_type :: "smb_struct list \<Rightarrow> u16 \<Rightarrow> u8" where
  "handle_type ss h = s_type (hd (from_handle h ss))"

lemma resolve_map:
  "resolve q ss hs = map (\<lambda>h. (h, the (handle_ptr q ss h))) (filter (\<lambda>h. from_handle h ss \<noteq> []) hs)"
  by (induction hs) (auto simp: resolve_def handle_ptr_def table_ptr_def List.map_filter_simps)

lemma find_index_resolved:
  assumes "table_from m p q ss" and "list_all (\<lambda>h. from_handle h ss \<noteq> []) hs"
  shows "find_index_loop m handle (map (\<lambda>h. (h, the (handle_ptr q ss h))) hs) cnt = Some
    (if handle \<in> set hs
     then (True, cnt (handle_type ss handle) + length (filter (\<lambda>h. handle_type ss h = handle_type ss handle)
             (takeWhile (\<lambda>h. h \<noteq> handle) hs)))
     else (False, 0))"
  using assms(2)
proof (induction hs arbitrary: cnt)
  case Nil
  then show ?case by simp
next
  case (Cons h hs)
  have at: "at_table m q ss" using assms(1) by (simp add: table_from_def)
  obtain r where r: "handle_ptr q ss h = Some r"
    using Cons.prems by (auto simp: handle_ptr_def table_ptr_def)
  have "rd8 m r = Some (handle_type ss h)"
    using handle_ptr_at [OF at r] at_table_header(1) by (auto simp: handle_type_def)
  then show ?case
    using r Cons by auto
qed

text \<open>
  The position of a contained object on its board: for a handle that the board lists and that
  names a structure of the table, the result is the number of listed objects before it that have
  the same structure type; a handle that is not among the objects of the board is not found.
\<close>

theorem board_index_of_type:
  assumes "table_from m p q ss" and "unat (word_of_nat n :: u8) < length (of_type 2 ss)"
    and "s = of_type 2 ss ! unat (word_of_nat n :: u8)" and "15 + 2 * unat (sf8 s 14) \<le> s_length s"
  shows "\<exists>b. Baseboard_new m (At p) n = Some b \<and> getName b = ''Board_'' @ dec n
    \<and> map fst (bb_containedObjects b) = known_handles ss s
    \<and> findIndexOfType m b handle = Some
        (if handle \<in> set (known_handles ss s)
         then (True, length (filter (\<lambda>h. handle_type ss h = handle_type ss handle)
                 (takeWhile (\<lambda>h. h \<noteq> handle) (known_handles ss s))))
         else (False, 0))"
proof -
  obtain r rest where r: "getSMBIOSTypeIndexPtr m (At p) 2 (word_of_nat n) = Some (At r)"
    and at: "at_table m r (s # rest)"
    using getSMBIOSTypeIndexPtr_hit [OF assms(1,2)] assms(3) by blast
  have num: "rd8 m (r + 14) = Some (sf8 s 14)"
    using at_table_fields(1) [OF at, of 14] assms(4) by simp
  have "bi_containedObjectHandle m r i = Some (sf16 s (15 + 2 * i))" if "i < unat (sf8 s 14)" for i
    using at_table_fields(2) [OF at, of "15 + 2 * i"] assms(4) that
    by (simp add: bi_containedObjectHandle_def add.assoc)
  then have loop: "contained_loop m (At p) r [0 ..< unat (sf8 s 14)] [] = Some (resolve q ss (board_handles s))"
    using contained_loop_table [OF assms(1), of "[0 ..< unat (sf8 s 14)]" r _ "[]"]
    by (simp add: board_handles_def)
  have res: "resolve q ss (board_handles s) = map (\<lambda>h. (h, the (handle_ptr q ss h))) (known_handles ss s)"
    by (simp add: resolve_map known_handles_def)
  have "list_all (\<lambda>h. from_handle h ss \<noteq> []) (known_handles ss s)"
    by (simp add: known_handles_def list_all_iff)
  note idx = find_index_resolved [OF assms(1) this, of handle "\<lambda>ty. 0"]
  show ?thesis
    using r num loop res idx
    by (simp add: Baseboard_new_def field_defs getName_def findIndexOfType_def comp_def)
qed

definition example_board :: "smb_struct list" where
  "example_board = [\<lparr>s_type = 2, s_handle = 3,
      s_body = replicate 9 0 @ [10, 3, 0x20, 0, 4, 0, 0x21, 0], s_strings = []\<rparr>,
     example_slot 0xb6 ''A'', example_cpu, (example_slot 0xb6 ''B'')\<lparr>s_handle := 0x21\<rparr>]"

theorem board_index_of_type_witness:
  "\<exists>b. Baseboard_new (encode_table example_board @ [0, 0, 0]) (At 0) 0 = Some b
     \<and> findIndexOfType (encode_table example_board @ [0, 0, 0]) b 0x21 = Some (True, 1)"
proof -
  let ?b = "example_board ! 0"
  have holds: "holds (encode_table example_board @ [0, 0, 0]) 0 (encode_table example_board)"
    using holds_self [of "[]" "encode_table example_board" "[0, 0, 0]"] by simp
  have "list_all wf_struct example_board"
    by (simp add: example_board_def example_slot_def example_cpu_def wf_struct_def s_length_def
        structureHeaderSize_def wf_string_def encode_strings_def encode_string_def mdrSMBIOSSize_def
        byte_of_char_def)
  then have "at_table (encode_table example_board @ [0, 0, 0]) 0 example_board"
    using holds by (simp add: at_table_def)
  note tf = table_from_table [OF this]
  have b: "sf8 ?b 14 = 3" "sf16 ?b 15 = 0x20" "sf16 ?b 17 = 4" "sf16 ?b 19 = 0x21" "s_length ?b = 21"
    by (simp_all add: example_board_def sf8_def sf16_def le_word_def s_length_def
        structureHeaderSize_def nth_append)
  have of: "of_type 2 example_board = [?b]"
    by (simp add: example_board_def example_slot_def example_cpu_def)
  have three: "[0 ..< 3] = [0, 1, 2 :: nat]" by (simp add: upt_rec)
  have "board_handles ?b = [0x20, 4, 0x21]" by (simp add: board_handles_def b three)
  then have k: "known_handles example_board ?b = [0x20, 4, 0x21]"
    by (simp add: known_handles_def) (simp add: example_board_def example_slot_def example_cpu_def)
  have t: "handle_type example_board 0x20 = 9" "handle_type example_board 4 = 4" "handle_type example_board 0x21 = 9"
    by (simp_all add: handle_type_def example_board_def example_slot_def example_cpu_def)
  have i: "unat (word_of_nat 0 :: u8) < length (of_type 2 example_board)"
    and s: "?b = of_type 2 example_board ! unat (word_of_nat 0 :: u8)"
    unfolding of by simp_all
  have n: "15 + 2 * unat (sf8 ?b 14) \<le> s_length ?b" by (simp only: b) simp
  show ?thesis
    using board_index_of_type [OF tf i s n, of "0x21"] unfolding k by (auto simp: t)
qed

end
