(* ===== verification/Object_Tree.thy ===== *)
theory Object_Tree
  imports Inventory_Dimm Inventory_Cpu Inventory_Pcie Inventory_Board
begin

text \<open>
  The objects of the inventory on the bus: the interfaces that each class of \<open>include/\<close> derives from
  and its constructor registers at the path of the object, the keys (path and interface) under
  which the bus library keeps them, object paths, and paths that end with a number.
\<close>

subsection \<open>Interfaces of the classes\<close>

text \<open>The generated server classes that the code derives from, one constructor per interface.\<close>

datatype dbus_interface =
    I_Dimm | I_MemoryLocation | I_Asset | I_LocationCode | I_Slot | I_Item | I_Association
  | I_OperationalStatus | I_Cpu | I_AssetTag | I_Revision | I_Instance | I_Chassis | I_PCIeSlot
  | I_Embedded | I_Tpm | I_SoftwareVersion | I_UUID

definition Dimm_interfaces :: "dimm_config \<Rightarrow> dbus_interface list" where
  "Dimm_interfaces cfg = [I_Dimm, I_MemoryLocation, I_Asset]
     @ (if withLocationCode cfg then [I_LocationCode] else [])
     @ [I_Slot, I_Item, I_Association, I_OperationalStatus]"

definition Cpu_interfaces :: "dbus_interface list" where
  "Cpu_interfaces = [I_Cpu, I_Asset, I_AssetTag, I_LocationCode, I_Slot, I_Revision, I_Item, I_Association,
     I_Instance, I_OperationalStatus]"

definition chassisCpu_interfaces :: "dbus_interface list" where
  "chassisCpu_interfaces = [I_Asset, I_AssetTag, I_LocationCode, I_Chassis, I_Item, I_Association,
     I_OperationalStatus]"

definition Pcie_interfaces :: "dbus_interface list" where
  "Pcie_interfaces = [I_PCIeSlot, I_LocationCode, I_Embedded, I_Item, I_Association]"

definition Tpm_interfaces :: "dbus_interface list" where
  "Tpm_interfaces = [I_Tpm, I_Asset, I_Item, I_SoftwareVersion]"

definition Firmware_interfaces :: "bool \<Rightarrow> dbus_interface list" where
  "Firmware_interfaces expose = [I_Association, I_Asset, I_Item] @ (if expose then [I_SoftwareVersion] else [])"

definition System_interfaces :: "dbus_interface list" where
  "System_interfaces = [I_UUID, I_Revision]"

lemmas interface_defs = Dimm_interfaces_def Cpu_interfaces_def chassisCpu_interfaces_def Pcie_interfaces_def
  Tpm_interfaces_def Firmware_interfaces_def System_interfaces_def

lemma distinct_interfaces [simp]:
  "distinct (Dimm_interfaces d)" "distinct Cpu_interfaces" "distinct chassisCpu_interfaces"
  "distinct Pcie_interfaces" "distinct Tpm_interfaces" "distinct (Firmware_interfaces x)"
  "distinct System_interfaces"
  by (simp_all add: interface_defs)

lemma apart_interfaces [simp]:
  "I_Chassis \<notin> set Cpu_interfaces" "set System_interfaces \<inter> set (Firmware_interfaces x) = {}"
  by (auto simp: interface_defs)

subsection \<open>Keys on the bus\<close>

text \<open>
  The bus library keeps a registration per path and interface. The constructors register the
  interfaces of a class one after the other; if one is refused, the constructor throws and the
  destructors of the bases already built withdraw theirs, so an object is registered with all
  of its interfaces or not at all.
\<close>

type_synonym object_key = "string \<times> dbus_interface"

definition object_keys :: "string \<Rightarrow> dbus_interface list \<Rightarrow> object_key list" where
  "object_keys path ifs = map (Pair path) ifs"

definition unused :: "object_key list \<Rightarrow> string \<Rightarrow> dbus_interface list \<Rightarrow> bool" where
  "unused keys path ifs \<longleftrightarrow> list_all (\<lambda>x. (path, x) \<notin> set keys) ifs"

lemma set_object_keys [simp]: "set (object_keys path ifs) = Pair path ` set ifs"
  by (simp add: object_keys_def)

lemma distinct_object_keys [simp]: "distinct (object_keys path ifs) \<longleftrightarrow> distinct ifs"
  by (simp add: object_keys_def distinct_map inj_on_def)

lemma unused_path: "path \<notin> fst ` set keys \<Longrightarrow> unused keys path ifs"
  by (force simp: unused_def list_all_iff)

lemma unused_distinct:
  "unused keys path ifs \<Longrightarrow> distinct keys \<Longrightarrow> distinct ifs \<Longrightarrow> distinct (keys @ object_keys path ifs)"
  by (auto simp: unused_def list_all_iff)

subsection \<open>Object paths\<close>

text \<open>
  The syntax of an object path: a slash, or elements of letters, digits and underscores, each
  behind one slash.
\<close>

definition object_char :: "char \<Rightarrow> bool" where
  "object_char c \<longleftrightarrow> is_alpha c \<or> is_digit c \<or> c = CHR ''_'' \<or> c = CHR ''/''"

definition element_char :: "char \<Rightarrow> bool" where
  "element_char c \<longleftrightarrow> is_alpha c \<or> is_digit c \<or> c = CHR ''_''"

text \<open>No two slashes follow each other.\<close>

definition no_empty_element :: "string \<Rightarrow> bool" where
  "no_empty_element p \<longleftrightarrow> successively (\<lambda>a b. a \<noteq> CHR ''/'' \<or> b \<noteq> CHR ''/'') p"

definition valid_object_path :: "string \<Rightarrow> bool" where
  "valid_object_path p \<longleftrightarrow> p = ''/'' \<or>
     (p \<noteq> [] \<and> hd p = CHR ''/'' \<and> last p \<noteq> CHR ''/'' \<and> list_all object_char p \<and> no_empty_element p)"

lemma element_char_not_slash: "element_char c \<Longrightarrow> c \<noteq> CHR ''/''"
  by (auto simp: element_char_def is_alpha_def is_digit_def)

lemma element_object_char: "element_char c \<Longrightarrow> object_char c"
  by (auto simp: element_char_def object_char_def)

lemma no_empty_append:
  assumes "no_empty_element p" and "no_empty_element q" and "last p \<noteq> CHR ''/'' \<or> hd q \<noteq> CHR ''/''"
  shows "no_empty_element (p @ q)"
  using assms by (simp add: no_empty_element_def successively_append_iff)

lemma element_facts:
  assumes "list_all element_char e" and "e \<noteq> []"
  shows "hd e \<noteq> CHR ''/''" "last e \<noteq> CHR ''/''" "list_all object_char e" "no_empty_element e"
proof -
  show "hd e \<noteq> CHR ''/''" "last e \<noteq> CHR ''/''"
    using assms element_char_not_slash [of "hd e"] element_char_not_slash [of "last e"]
    by (simp_all add: list_all_iff)
  show "list_all object_char e" using assms(1) element_object_char by (simp add: list_all_iff)
  have ns: "\<forall>c \<in> set e. c \<noteq> CHR ''/''" using assms(1) element_char_not_slash by (metis list_all_iff)
  then show "no_empty_element e"
    unfolding no_empty_element_def by (induction e rule: induct_list012) simp_all
qed

lemma valid_pathD:
  assumes "valid_object_path p" and "p \<noteq> ''/''"
  shows "p \<noteq> []" "hd p = CHR ''/''" "last p \<noteq> CHR ''/''" "list_all object_char p" "no_empty_element p"
  using assms unfolding valid_object_path_def by blast+

lemma valid_pathI:
  "p \<noteq> [] \<Longrightarrow> hd p = CHR ''/'' \<Longrightarrow> last p \<noteq> CHR ''/'' \<Longrightarrow> list_all object_char p \<Longrightarrow> no_empty_element p \<Longrightarrow>
    valid_object_path p"
  unfolding valid_object_path_def by blast

lemma valid_append:
  assumes "valid_object_path p" and "p \<noteq> ''/''" and "valid_object_path q" and "q \<noteq> ''/''"
  shows "valid_object_path (p @ q)"
proof -
  note p = valid_pathD [OF assms(1,2)] and q = valid_pathD [OF assms(3,4)]
  show ?thesis
    by (rule valid_pathI) (use p q no_empty_append [OF p(5) q(5)] in simp_all)
qed

lemma valid_extend:
  assumes "valid_object_path p" and "p \<noteq> ''/''" and "list_all element_char e"
  shows "valid_object_path (p @ e)"
proof (cases "e = []")
  case False
  note p = valid_pathD [OF assms(1,2)] and e = element_facts [OF assms(3) False]
  show ?thesis
    by (rule valid_pathI) (use p e False no_empty_append [OF p(5) e(4)] in simp_all)
qed (use assms in simp)

lemma valid_element:
  assumes "list_all element_char e" and "e \<noteq> []"
  shows "valid_object_path (''/'' @ e)"
proof (rule valid_pathI)
  note e = element_facts [OF assms]
  show "no_empty_element (''/'' @ e)"
    by (rule no_empty_append) (use e in \<open>simp_all add: no_empty_element_def\<close>)
  show "list_all object_char (''/'' @ e)" using e by (simp add: object_char_def)
qed (use element_facts [OF assms] assms(2) in simp_all)

lemma valid_below:
  assumes "valid_object_path p" and "p \<noteq> ''/''" and "list_all element_char e" and "e \<noteq> []"
  shows "valid_object_path (p @ ''/'' @ e)"
  by (rule valid_append [OF assms(1,2) valid_element [OF assms(3,4)]]) (use assms(4) in simp)

text \<open>The end of a path may be moved below another path.\<close>

lemma valid_moved:
  assumes "valid_object_path p" and "p \<noteq> ''/''" and "valid_object_path q" and "q \<noteq> ''/''"
  shows "valid_object_path (p @ drop n q)"
proof (cases "n < length q")
  case True
  note p = valid_pathD [OF assms(1,2)] and q = valid_pathD [OF assms(3,4)]
  have "no_empty_element (take n q @ drop n q)" using q(5) by simp
  then have gap: "no_empty_element (drop n q)" unfolding no_empty_element_def successively_append_iff by blast
  show ?thesis
  proof (rule valid_pathI)
    show "no_empty_element (p @ drop n q)" using no_empty_append [OF p(5) gap] p(3) by simp
    show "list_all object_char (p @ drop n q)" using p(4) q(4) by (auto simp: list_all_iff dest: in_set_dropD)
  qed (use p q True in \<open>simp_all add: last_append\<close>)
qed (use assms in simp)

subsection \<open>Numbered paths\<close>

lemma dec_not_Nil [simp]: "dec n \<noteq> []"
  by (subst dec.simps) simp

lemma digit_is_digit: "n < 10 \<Longrightarrow> is_digit (digit n)"
  by (simp add: is_digit_def digit.simps)

lemma dec_all_digits: "list_all is_digit (dec n)"
proof (induction n rule: less_induct)
  case (less n)
  show ?case
  proof (cases "n < 10")
    case True
    then show ?thesis by (subst dec.simps) (simp add: digit_is_digit)
  next
    case False
    then show ?thesis using less [of "n div 10"] by (subst dec.simps) (simp add: digit_is_digit)
  qed
qed

lemma dec_element: "list_all element_char (dec n)"
  using dec_all_digits by (auto simp: list_all_iff element_char_def)

text \<open>A path whose part before the number does not end with a digit determines both.\<close>

definition numbered :: "string \<Rightarrow> nat \<Rightarrow> string \<Rightarrow> bool" where
  "numbered stem k path \<longleftrightarrow> (\<exists>dir. path = dir @ stem @ dec k)"

lemma strip_digits:
  assumes "stem \<noteq> []" and "\<not> is_digit (last stem)"
  shows "takeWhile is_digit (rev (dir @ stem @ dec k)) = rev (dec k)"
    and "dropWhile is_digit (rev (dir @ stem @ dec k)) = rev (dir @ stem)"
proof -
  have d: "\<forall>x \<in> set (rev (dec k)). is_digit x" using dec_all_digits by (simp add: list_all_iff)
  obtain s where s: "rev stem @ rev dir = last stem # s"
    using assms(1) by (metis append_Cons hd_rev list.exhaust_sel rev_is_Nil_conv)
  show "takeWhile is_digit (rev (dir @ stem @ dec k)) = rev (dec k)"
    and "dropWhile is_digit (rev (dir @ stem @ dec k)) = rev (dir @ stem)"
    using takeWhile_append2 [of "rev (dec k)" is_digit] dropWhile_append2 [of "rev (dec k)" is_digit] d s assms(2)
    by simp_all
qed

lemma numbered_apart:
  assumes "numbered stem j path" and "numbered stem' k path"
    and "stem \<noteq> []" "\<not> is_digit (last stem)" "stem' \<noteq> []" "\<not> is_digit (last stem')"
  shows "j = k \<and> (\<exists>d d'. d @ stem = d' @ stem')"
proof -
  obtain d where d: "path = d @ stem @ dec j" using assms(1) by (auto simp: numbered_def)
  obtain d' where d': "path = d' @ stem' @ dec k" using assms(2) by (auto simp: numbered_def)
  have "rev (dec j) = rev (dec k)" "rev (d @ stem) = rev (d' @ stem')"
    using strip_digits [OF assms(3,4), of d j] strip_digits [OF assms(5,6), of d' k] d d' by metis+
  then have "dec j = dec k" "d @ stem = d' @ stem'" by (simp_all only: rev_is_rev_conv)
  then show ?thesis using dec_inj by blast
qed

lemma numbered_index:
  "numbered stem j path \<Longrightarrow> numbered stem k path \<Longrightarrow> stem \<noteq> [] \<Longrightarrow> \<not> is_digit (last stem) \<Longrightarrow> j = k"
  using numbered_apart by blast

lemma numbered_tails:
  assumes "numbered stem j path" and "numbered stem' k path"
    and "stem \<noteq> []" "\<not> is_digit (last stem)" "stem' \<noteq> []" "\<not> is_digit (last stem')"
  shows "\<exists>x y. rev stem @ x = rev stem' @ y"
  using numbered_apart [OF assms] by (metis rev_append)

lemma numbered_digit: "numbered stem k path \<Longrightarrow> is_digit (last path)"
  using dec_all_digits [of k] by (auto simp: numbered_def list_all_iff)

subsection \<open>Families of paths\<close>

text \<open>
  A list of objects that a loop extends: the object of index \<open>k\<close> has a path of the family that
  belongs to \<open>k\<close>. A path of the family for a further index is new to the list.
\<close>

locale path_family =
  fixes member :: "nat \<Rightarrow> string \<Rightarrow> bool"
  assumes apart: "member j p \<Longrightarrow> member k p \<Longrightarrow> j = k"
begin

lemma new_path: "list_all2 member ks paths \<Longrightarrow> k \<notin> set ks \<Longrightarrow> member k p \<Longrightarrow> p \<notin> set paths"
  by (induction rule: list_all2_induct) (auto dest: apart)

lemma distinct_paths: "list_all2 member ks paths \<Longrightarrow> distinct ks \<Longrightarrow> distinct paths"
  by (induction rule: list_all2_induct) (auto dest: new_path)

end

end
