(* ===== verification/Mdrv2_Inventory.thy ===== *)
theory Mdrv2_Inventory
  imports Mdrv2_Agent Object_Tree
begin

text \<open>
  The inventory refresh of the agent, \<open>MDRV2::systemInfoUpdate\<close>, and the D-Bus method
  \<open>getRecordType\<close> of \<open>src/mdrv2.cpp\<close>. The refresh asks the object mapper where the objects belong
  and then replaces the base boards, processors, memory devices, PCIe slots, TPM, firmware
  components and the system object, each built from the storage. What the mapper answers and which
  registrations the bus library accepts is an environment. A constructor whose registration is
  refused throws a D-Bus exception, which is caught for firmware objects only.
\<close>

subsection \<open>Paths\<close>

definition defaultInventoryPath :: string where
  "defaultInventoryPath = ''/xyz/openbmc_project/inventory/system''"

definition defaultMotherboardPath :: string where
  "defaultMotherboardPath = ''/xyz/openbmc_project/inventory/system/chassis/motherboard''"

definition cpuPath :: "cpu_config \<Rightarrow> string" where
  "cpuPath cfg = (if nvidia cfg
     then ''/xyz/openbmc_project/inventory/system/chassis/motherboard/CPU_''
     else ''/xyz/openbmc_project/inventory/system/chassis/motherboard/cpu'')"

definition pcieSuffix :: string where
  "pcieSuffix = ''/chassis/motherboard/pcieslot''"

definition tpmPath :: string where
  "tpmPath = ''/xyz/openbmc_project/inventory/system/chassis/motherboard/tpm''"

definition systemSuffix :: string where
  "systemSuffix = ''/chassis/motherboard/bios''"

definition firmwarePath :: string where
  "firmwarePath = ''/xyz/openbmc_project/software''"

definition systemInterface :: string where
  "systemInterface = ''xyz.openbmc_project.Inventory.Item.System''"

definition chassisInterface :: string where
  "chassisInterface = ''xyz.openbmc_project.Inventory.Item.Chassis''"

definition boardInterface :: string where
  "boardInterface = ''xyz.openbmc_project.Inventory.Item.Board''"

definition instanceInterface :: string where
  "instanceInterface = ''xyz.openbmc_project.Inventory.Decorator.Instance''"

text \<open>\<open>std::filesystem::path\<close>: the part behind the last slash, and the part before it without the slashes.\<close>

definition filename :: "string \<Rightarrow> string" where
  "filename p = rev (takeWhile (\<lambda>c. c \<noteq> CHR ''/'') (rev p))"

definition dir_part :: "string \<Rightarrow> string" where
  "dir_part p = rev (dropWhile (\<lambda>c. c \<noteq> CHR ''/'') (rev p))"

definition parent_path :: "string \<Rightarrow> string" where
  "parent_path p = (let d = dir_part p; s = rev (dropWhile (\<lambda>c. c = CHR ''/'') (rev d))
     in if s = [] \<and> d \<noteq> [] then ''/'' else s)"

definition decorateName :: "string option \<Rightarrow> string \<Rightarrow> string" where
  "decorateName prefix_opt path = (case prefix_opt of
      None \<Rightarrow> path
    | Some pre \<Rightarrow> dir_part path @ pre @ ''_'' @ filename path)"

definition starts_with :: "string \<Rightarrow> string \<Rightarrow> bool" where
  "starts_with pre s \<longleftrightarrow> take (length pre) s = pre"

text \<open>The code writes this replacement out for the PCIe slots and for the TPM.\<close>

definition under_motherboard :: "string \<Rightarrow> string \<Rightarrow> string" where
  "under_motherboard motherboardPath path =
     (if motherboardPath \<noteq> [] \<and> starts_with defaultMotherboardPath path
      then motherboardPath @ drop (length defaultMotherboardPath) path else path)"

subsection \<open>The environment and the objects\<close>

text \<open>
  The answers of the object mapper: for a query of the system objects below a path with a list of
  interfaces, the processor modules, the instance number of a module for a service, and the paths
  of the version objects. \<^const>\<open>None\<close> is a D-Bus exception. A \<open>std::map\<close> is the list of its entries
  in the order of the keys. \<open>bus_accepts\<close> says whether the bus library accepts the interfaces of a
  new object at a path, beside the keys that the objects of the inventory have registered.
\<close>

type_synonym subtree = "(string \<times> (string \<times> string list) list) list"

record bus_env =
  system_subtree :: "string \<Rightarrow> string list \<Rightarrow> subtree option"
  module_subtree :: "subtree option"
  instance_number :: "string \<Rightarrow> string \<Rightarrow> nat option"
  version_paths :: "string list option"
  bus_accepts :: "object_key list \<Rightarrow> string \<Rightarrow> dbus_interface list \<Rightarrow> bool"
  file_truncatable :: bool
  bios_calls :: bios_bus

text \<open>The build options, the library function, and the property values a new object starts with.\<close>

record inventory_config =
  procmod_dbus :: bool
  cpu_dbus :: bool
  dimm_dbus :: bool
  cpu_chassisiface :: bool
  dimm_opts :: dimm_config
  cpu_opts :: cpu_config
  expose_fw :: bool
  fw_name_bmc :: "string option"
  fw_name_bios :: "string option"
  fw_name_cx7 :: "string option"
  fw_name_fpga :: "string option"
  fw_name_tpm :: "string option"
  trim_right :: "string \<Rightarrow> string"
  blank_cpu :: Cpu
  blank_chassis :: chassisCpu
  blank_dimm :: Dimm
  blank_pcie :: Pcie
  blank_tpm :: Tpm
  blank_firmware :: Firmware

record cpu_object =
  co_path :: string
  co_index :: u8
  co_component :: bool
  co_props :: Cpu

record pcie_object =
  po_path :: string
  po_num :: u8
  po_props :: Pcie

record system_object =
  so_path :: string
  so_uuid :: string
  so_version :: version_effect

record inventory =
  inv_baseboards :: "Baseboard list"
  inv_cpus :: "cpu_object list"
  inv_chassisCpus :: "(string \<times> chassisCpu) list"
  inv_dimms :: "(string \<times> Dimm) list"
  inv_pcies :: "pcie_object list"
  inv_tpm :: "(string \<times> Tpm) option"
  inv_firmware :: "(string \<times> Firmware) list"
  inv_system :: "system_object option"

text \<open>The keys under which the objects of an inventory are on the bus.\<close>

definition cpu_keys :: "cpu_object \<Rightarrow> object_key list" where
  "cpu_keys c = object_keys (co_path c) (Cpu_interfaces @ (if co_component c then [I_Chassis] else []))"

definition registered :: "inventory_config \<Rightarrow> inventory \<Rightarrow> object_key list" where
  "registered cfg i =
     concat (map cpu_keys (inv_cpus i))
     @ concat (map (\<lambda>(path, c). object_keys path chassisCpu_interfaces) (inv_chassisCpus i))
     @ concat (map (\<lambda>(path, d). object_keys path (Dimm_interfaces (dimm_opts cfg))) (inv_dimms i))
     @ concat (map (\<lambda>s. object_keys (po_path s) Pcie_interfaces) (inv_pcies i))
     @ (case inv_tpm i of None \<Rightarrow> [] | Some (path, t) \<Rightarrow> object_keys path Tpm_interfaces)
     @ concat (map (\<lambda>(path, f). object_keys path (Firmware_interfaces (expose_fw cfg))) (inv_firmware i))
     @ (case inv_system i of None \<Rightarrow> [] | Some s \<Rightarrow> object_keys (so_path s) System_interfaces)"

text \<open>How a part of the refresh ends: it goes on, it returns from the method, or it throws.\<close>

datatype ending = Continues | Returns | Throws exn

type_synonym stage = "inventory \<Rightarrow> (ending \<times> inventory) checked"

definition and_then :: "stage \<Rightarrow> stage \<Rightarrow> stage" where
  "and_then s1 s2 i = do {
     r \<leftarrow> s1 i;
     (case r of (Continues, i') \<Rightarrow> s2 i' | (e, i') \<Rightarrow> Some (e, i')) }"

subsection \<open>The place of the objects\<close>

fun chassis_path :: "subtree \<Rightarrow> string" where
  "chassis_path [] = []"
| "chassis_path ((path, services) # rest) =
     (if list_ex (\<lambda>(service, interfaces). chassisInterface \<in> set interfaces) services \<and> path \<noteq> []
      then path else chassis_path rest)"

definition select_motherboard :: "subtree \<Rightarrow> string" where
  "select_motherboard tree =
     (let found = (if 1 < length tree then chassis_path tree else [])
      in if found = [] \<and> tree \<noteq> [] then fst (hd tree) else found)"

definition find_motherboard :: "bus_env \<Rightarrow> string \<Rightarrow> string" where
  "find_motherboard env smbiosInventoryPath =
     (let requireExactMatch = (smbiosInventoryPath \<noteq> defaultInventoryPath);
          mapperAncestorPath = (if requireExactMatch then parent_path smbiosInventoryPath
                                else smbiosInventoryPath);
          desiredInterfaces = [systemInterface] @ (if requireExactMatch then [boardInterface] else [])
      in case system_subtree env mapperAncestorPath desiredInterfaces of
           None \<Rightarrow> []
         | Some tree \<Rightarrow> select_motherboard tree)"

fun module_number ::
  "(string \<Rightarrow> string \<Rightarrow> nat option) \<Rightarrow> string \<Rightarrow> (string \<times> string list) list \<Rightarrow> nat option \<Rightarrow> nat option"
where
  "module_number query path [] n = n"
| "module_number query path ((service, interfaces) # services) n =
     module_number query path services
       (if instanceInterface \<in> set interfaces
        then (case query service path of None \<Rightarrow> n | Some k \<Rightarrow> Some k) else n)"

definition find_modules :: "bus_env \<Rightarrow> (string \<times> nat option) list" where
  "find_modules env =
     map (\<lambda>(path, services). (path, module_number (instance_number env) path services None))
       (case module_subtree env of None \<Rightarrow> [] | Some response \<Rightarrow> response)"

subsection \<open>Base boards\<close>

definition processor_board :: "BoardType \<Rightarrow> bool" where
  "processor_board ty \<longleftrightarrow> ty = BT_ProcessorModule \<or> ty = BT_ProcesssorMemoryModule \<or> ty = BT_ProcessorIoModule"

fun board_loop :: "memory \<Rightarrow> ptr \<Rightarrow> nat list \<Rightarrow> nat \<Rightarrow> Baseboard list \<Rightarrow> Baseboard list checked" where
  "board_loop m storage [] processorModuleIndex boards = Some boards"
| "board_loop m storage (index # js) processorModuleIndex boards = do {
     b \<leftarrow> Baseboard_new m storage index;
     ty \<leftarrow> getType m b;
     if processor_board ty
     then board_loop m storage js (processorModuleIndex + 1)
            (boards @ [setName (''ProcessorModule_'' @ dec processorModuleIndex) b])
     else board_loop m storage js processorModuleIndex (boards @ [b]) }"

definition refresh_baseboards :: "inventory_config \<Rightarrow> memory \<Rightarrow> ptr \<Rightarrow> stage" where
  "refresh_baseboards cfg m storage i =
     (if \<not> procmod_dbus cfg then Some (Continues, i)
      else do {
        num \<leftarrow> getTotalNum m storage (type_code baseboardType) 0;
        (case num of
           None \<Rightarrow> Some (Returns, i\<lparr>inv_baseboards := []\<rparr>)
         | Some n \<Rightarrow> do {
             boards \<leftarrow> board_loop m storage [0 ..< n] 0 [];
             Some (Continues, i\<lparr>inv_baseboards := boards\<rparr>) }) })"

subsection \<open>Processors\<close>

fun module_of_socket :: "bool \<Rightarrow> nat \<Rightarrow> (string \<times> nat option) list \<Rightarrow> string option" where
  "module_of_socket single sock [] = None"
| "module_of_socket single sock ((modulePath, inst) # modules) =
     (if single \<or> inst = Some sock then Some modulePath else module_of_socket single sock modules)"

text \<open>The path of a processor and the path of its container.\<close>

definition cpu_place ::
  "cpu_config \<Rightarrow> memory \<Rightarrow> ptr \<Rightarrow> string \<Rightarrow> (string \<times> nat option) list \<Rightarrow> nat \<Rightarrow> (string \<times> string) checked"
where
  "cpu_place cfg m storage motherboardPath modules index = do {
     let path = cpuPath cfg @ dec index;
     dataPtr \<leftarrow> getSMBIOSTypeIndexPtr m storage (type_code processorsType) (word_of_nat index);
     r \<leftarrow> socketChipNumber_ptr cfg m dataPtr;
     (case r of (found, sock, chip) \<Rightarrow>
        if found \<and> modules \<noteq> []
        then (case module_of_socket (length modules = 1) sock modules of
                Some modulePath \<Rightarrow> Some (modulePath @ ''/'' @ filename path, modulePath)
              | None \<Rightarrow> Some (path, motherboardPath))
        else Some (path, motherboardPath)) }"

text \<open>
  The constructor of a processor. With a platform prefix it also creates the chassis object of
  the processor, in a list that the first processor clears; without one it may be a chassis of the
  type component itself. An exception leaves no processor object, but the list may be cleared.
\<close>

definition Cpu_chassis ::
  "inventory_config \<Rightarrow> bus_env \<Rightarrow> memory \<Rightarrow> ptr \<Rightarrow> string \<Rightarrow> u8 \<Rightarrow> string \<Rightarrow> string \<Rightarrow> inventory \<Rightarrow>
   (exn option \<times> (string \<times> chassisCpu) list) checked"
where
  "Cpu_chassis cfg env m storage path cpuId motherboard assocPath i =
     (let own = object_keys path Cpu_interfaces in
      case platformPrefix (cpu_opts cfg) of
        None \<Rightarrow> Some (if cpu_chassisiface cfg \<and> \<not> bus_accepts env (own @ registered cfg i) path [I_Chassis]
                     then Some Bus_error else None, inv_chassisCpus i)
      | Some pre \<Rightarrow>
          let old = (if inv_chassisCpus i \<noteq> [] \<and> cpuId = 0 then [] else inv_chassisCpus i) in
          if \<not> bus_accepts env (own @ registered cfg (i\<lparr>inv_chassisCpus := old\<rparr>)) assocPath chassisCpu_interfaces
          then Some (Some Bus_error, old)
          else do {
            cc \<leftarrow> chassisCpu_new (cpu_opts cfg) cpuId path m storage motherboard (blank_chassis cfg);
            Some (None, old @ [(assocPath, cc)]) })"

definition Cpu_new ::
  "inventory_config \<Rightarrow> bus_env \<Rightarrow> memory \<Rightarrow> ptr \<Rightarrow> string \<Rightarrow> u8 \<Rightarrow> string \<Rightarrow> string \<Rightarrow> inventory \<Rightarrow>
   ((exn + cpu_object) \<times> (string \<times> chassisCpu) list) checked"
where
  "Cpu_new cfg env m storage path cpuId motherboard assocPath i =
     (if \<not> bus_accepts env (registered cfg i) path Cpu_interfaces then Some (Inl Bus_error, inv_chassisCpus i)
      else do {
        r \<leftarrow> Cpu_chassis cfg env m storage path cpuId motherboard assocPath i;
        (case r of
           (Some x, chassis) \<Rightarrow> Some (Inl x, chassis)
         | (None, chassis) \<Rightarrow> do {
             c \<leftarrow> cpu_infoUpdate (cpu_opts cfg) cpuId assocPath m storage motherboard (blank_cpu cfg);
             Some (Inr \<lparr>co_path = path, co_index = cpuId,
                        co_component = (platformPrefix (cpu_opts cfg) = None \<and> cpu_chassisiface cfg),
                        co_props = c\<rparr>, chassis) }) })"

fun cpu_loop ::
  "inventory_config \<Rightarrow> bus_env \<Rightarrow> memory \<Rightarrow> ptr \<Rightarrow> string \<Rightarrow> (string \<times> nat option) list \<Rightarrow> nat list \<Rightarrow> stage"
where
  "cpu_loop cfg env m storage motherboardPath modules [] i = Some (Continues, i)"
| "cpu_loop cfg env m storage motherboardPath modules (index # js) i = do {
     place \<leftarrow> cpu_place (cpu_opts cfg) m storage motherboardPath modules index;
     (case place of (path, cpuContainerPath) \<Rightarrow> do {
        let decoratePath = decorateName (platformPrefix (cpu_opts cfg)) path;
        r \<leftarrow> Cpu_new cfg env m storage path (word_of_nat index) cpuContainerPath decoratePath i;
        (case r of
           (Inl x, chassis) \<Rightarrow> Some (Throws x, i\<lparr>inv_chassisCpus := chassis\<rparr>)
         | (Inr c, chassis) \<Rightarrow>
             cpu_loop cfg env m storage motherboardPath modules js
               (i\<lparr>inv_cpus := inv_cpus i @ [c], inv_chassisCpus := chassis\<rparr>)) }) }"

definition refresh_cpus ::
  "inventory_config \<Rightarrow> bus_env \<Rightarrow> memory \<Rightarrow> ptr \<Rightarrow> string \<Rightarrow> (string \<times> nat option) list \<Rightarrow> stage"
where
  "refresh_cpus cfg env m storage motherboardPath modules i =
     (if \<not> cpu_dbus cfg then Some (Continues, i)
      else do {
        let i0 = i\<lparr>inv_cpus := []\<rparr>;
        num \<leftarrow> getTotalCpuSlot m storage;
        (case num of
           None \<Rightarrow> Some (Returns, i0)
         | Some n \<Rightarrow> cpu_loop cfg env m storage motherboardPath modules [0 ..< n] i0) })"

subsection \<open>Memory devices\<close>

text \<open>
  The name of a memory device that a board contains. The handle is read only when there is a
  board; a null pointer to the structure is then an invalid read.
\<close>

fun board_memory_name :: "memory \<Rightarrow> ptr \<Rightarrow> Baseboard list \<Rightarrow> string \<Rightarrow> string checked" where
  "board_memory_name m dataIn [] objName = Some objName"
| "board_memory_name m dataIn (b # bs) objName = (case dataIn of
      Null \<Rightarrow> None
    | At p \<Rightarrow> do {
        handle \<leftarrow> rd16 m (p + 2);
        r \<leftarrow> findIndexOfType m b handle;
        (case r of (found, indexOfType) \<Rightarrow>
           if found then Some (getName b @ ''_'' @ ''Memory_'' @ dec indexOfType)
           else board_memory_name m dataIn bs objName) })"

definition Dimm_new ::
  "inventory_config \<Rightarrow> bus_env \<Rightarrow> memory \<Rightarrow> ptr \<Rightarrow> string \<Rightarrow> u8 \<Rightarrow> string \<Rightarrow> inventory \<Rightarrow> Dimm throwing"
where
  "Dimm_new cfg env m storage objPath dimmId motherboard i =
     (if \<not> bus_accepts env (registered cfg i) objPath (Dimm_interfaces (dimm_opts cfg)) then Some (Inl Bus_error)
      else memoryInfoUpdate (dimm_opts cfg) (trim_right cfg) m storage dimmId motherboard (blank_dimm cfg))"

fun dimm_loop :: "inventory_config \<Rightarrow> bus_env \<Rightarrow> memory \<Rightarrow> ptr \<Rightarrow> string \<Rightarrow> nat list \<Rightarrow> stage" where
  "dimm_loop cfg env m storage motherboardPath [] i = Some (Continues, i)"
| "dimm_loop cfg env m storage motherboardPath (index # js) i = do {
     dataIn \<leftarrow> getSMBIOSTypeIndexPtr m storage (type_code memoryDeviceType) (word_of_nat index);
     objName \<leftarrow> board_memory_name m dataIn (inv_baseboards i) (''Memory_'' @ dec index);
     let path = defaultMotherboardPath @ ''/'' @ objName;
     r \<leftarrow> Dimm_new cfg env m storage path (word_of_nat index) motherboardPath i;
     (case r of
        Inl e \<Rightarrow> Some (Throws e, i)
      | Inr d \<Rightarrow> dimm_loop cfg env m storage motherboardPath js
                   (i\<lparr>inv_dimms := inv_dimms i @ [(path, d)]\<rparr>)) }"

definition refresh_dimms :: "inventory_config \<Rightarrow> bus_env \<Rightarrow> memory \<Rightarrow> ptr \<Rightarrow> string \<Rightarrow> stage" where
  "refresh_dimms cfg env m storage motherboardPath i =
     (if \<not> dimm_dbus cfg then Some (Continues, i)
      else do {
        let i0 = i\<lparr>inv_dimms := []\<rparr>;
        num \<leftarrow> getTotalDimmSlot m storage;
        (case num of
           None \<Rightarrow> Some (Returns, i0)
         | Some n \<Rightarrow> dimm_loop cfg env m storage motherboardPath [0 ..< n] i0) })"

subsection \<open>PCIe slots\<close>

text \<open>The objects of the slots are kept from one refresh to the next and updated in place.\<close>

definition Pcie_new ::
  "inventory_config \<Rightarrow> bus_env \<Rightarrow> memory \<Rightarrow> ptr \<Rightarrow> string \<Rightarrow> u8 \<Rightarrow> string \<Rightarrow> inventory \<Rightarrow> pcie_object throwing"
where
  "Pcie_new cfg env m storage objPath pcieId motherboard i =
     (if \<not> bus_accepts env (registered cfg i) objPath Pcie_interfaces then Some (Inl Bus_error)
      else do {
        s \<leftarrow> pcieInfoUpdate m storage pcieId motherboard (blank_pcie cfg);
        Some (Inr \<lparr>po_path = objPath, po_num = pcieId, po_props = s\<rparr>) })"

fun pcie_refresh_loop ::
  "inventory_config \<Rightarrow> bus_env \<Rightarrow> memory \<Rightarrow> ptr \<Rightarrow> string \<Rightarrow> string \<Rightarrow> nat list \<Rightarrow> stage"
where
  "pcie_refresh_loop cfg env m storage motherboardPath smbiosInventoryPath [] i = Some (Continues, i)"
| "pcie_refresh_loop cfg env m storage motherboardPath smbiosInventoryPath (index # js) i = do {
     let path = under_motherboard motherboardPath (smbiosInventoryPath @ pcieSuffix @ dec index);
     if length (inv_pcies i) < index + 1
     then do {
       r \<leftarrow> Pcie_new cfg env m storage path (word_of_nat index) motherboardPath i;
       (case r of
          Inl e \<Rightarrow> Some (Throws e, i)
        | Inr s \<Rightarrow> pcie_refresh_loop cfg env m storage motherboardPath smbiosInventoryPath js
                     (i\<lparr>inv_pcies := inv_pcies i @ [s]\<rparr>))
     } else do {
       let old = inv_pcies i ! index;
       s \<leftarrow> pcieInfoUpdate m storage (po_num old) motherboardPath (po_props old);
       pcie_refresh_loop cfg env m storage motherboardPath smbiosInventoryPath js
         (i\<lparr>inv_pcies := (inv_pcies i)[index := old\<lparr>po_props := s\<rparr>]\<rparr>) } }"

definition refresh_pcies :: "inventory_config \<Rightarrow> bus_env \<Rightarrow> memory \<Rightarrow> ptr \<Rightarrow> string \<Rightarrow> string \<Rightarrow> stage" where
  "refresh_pcies cfg env m storage motherboardPath smbiosInventoryPath i = do {
     num \<leftarrow> getTotalPcieSlot m storage;
     (case num of
        None \<Rightarrow> Some (Returns, i)
      | Some n \<Rightarrow>
          let trimmed = (if n < length (inv_pcies i) then take n (inv_pcies i) else inv_pcies i)
          in pcie_refresh_loop cfg env m storage motherboardPath smbiosInventoryPath [0 ..< n]
               (i\<lparr>inv_pcies := trimmed\<rparr>)) }"

subsection \<open>TPM, firmware and system\<close>

definition Tpm_new ::
  "inventory_config \<Rightarrow> bus_env \<Rightarrow> memory \<Rightarrow> ptr \<Rightarrow> string \<Rightarrow> inventory \<Rightarrow> Tpm throwing"
where
  "Tpm_new cfg env m storage objPath i =
     (if \<not> bus_accepts env (registered cfg i) objPath Tpm_interfaces then Some (Inl Bus_error)
      else map_option Inr (tpmInfoUpdate m storage (blank_tpm cfg)))"

definition refresh_tpm :: "inventory_config \<Rightarrow> bus_env \<Rightarrow> memory \<Rightarrow> ptr \<Rightarrow> string \<Rightarrow> stage" where
  "refresh_tpm cfg env m storage motherboardPath i = do {
     let i0 = i\<lparr>inv_tpm := None\<rparr>;
     num \<leftarrow> getTotalNum m storage (type_code tpmDeviceType) 0;
     if num = Some 1
     then do {
       let path = under_motherboard motherboardPath tpmPath;
       r \<leftarrow> Tpm_new cfg env m storage path i0;
       Some (case r of Inl e \<Rightarrow> (Throws e, i0) | Inr t \<Rightarrow> (Continues, i0\<lparr>inv_tpm := Some (path, t)\<rparr>))
     } else Some (Continues, i0) }"

text \<open>\<open>std::regex_replace\<close> of \<open>[^a-zA-Z0-9_/]+\<close> by an underscore: every run of other characters.\<close>

fun sanitize :: "bool \<Rightarrow> string \<Rightarrow> string" where
  "sanitize in_run [] = []"
| "sanitize in_run (c # cs) =
     (if object_char c then c # sanitize False cs
      else if in_run then sanitize True cs else CHR ''_'' # sanitize True cs)"

definition tolower :: "char \<Rightarrow> char" where
  "tolower c = (if 65 \<le> (of_char c :: nat) \<and> (of_char c :: nat) \<le> 90 then char_of (of_char c + (32 :: nat)) else c)"

text \<open>The components that other services show, by the names of the build options.\<close>

definition excluded_component :: "inventory_config \<Rightarrow> string \<Rightarrow> bool" where
  "excluded_component cfg firmwareName \<longleftrightarrow>
     fw_name_bmc cfg = Some firmwareName
     \<or> fw_name_bios cfg = Some firmwareName
     \<or> (case fw_name_cx7 cfg of None \<Rightarrow> False | Some n \<Rightarrow> n = [] \<or> search n firmwareName \<noteq> None)
     \<or> (case fw_name_fpga cfg of None \<Rightarrow> False | Some n \<Rightarrow> n = [] \<or> search n firmwareName \<noteq> None)
     \<or> fw_name_tpm cfg = Some firmwareName"

definition Firmware_new ::
  "inventory_config \<Rightarrow> bus_env \<Rightarrow> memory \<Rightarrow> ptr \<Rightarrow> string \<Rightarrow> nat \<Rightarrow> inventory \<Rightarrow> Firmware throwing"
where
  "Firmware_new cfg env m storage objPath index i =
     (if \<not> bus_accepts env (registered cfg i) objPath (Firmware_interfaces (expose_fw cfg))
      then Some (Inl Bus_error)
      else map_option Inr (firmwareInfoUpdate (expose_fw cfg) m storage index (blank_firmware cfg)))"

fun firmware_loop ::
  "inventory_config \<Rightarrow> bus_env \<Rightarrow> memory \<Rightarrow> ptr \<Rightarrow> string list \<Rightarrow> nat list \<Rightarrow> inventory \<Rightarrow> inventory checked"
where
  "firmware_loop cfg env m storage existedVersionPaths [] i = Some i"
| "firmware_loop cfg env m storage existedVersionPaths (index # js) i = do {
     names \<leftarrow> getFirmwareName m storage index;
     (case names of (firmwareName, ident) \<Rightarrow>
        if excluded_component cfg firmwareName
        then firmware_loop cfg env m storage existedVersionPaths js i
        else
          let objName = sanitize False (if ident = [] then ''firmware'' @ dec index else ident);
              path = firmwarePath @ ''/'' @ objName
          in if list_ex (\<lambda>s. filename s = objName) existedVersionPaths
             then firmware_loop cfg env m storage existedVersionPaths js i
             else if search ''psu'' (map tolower path) \<noteq> None
             then firmware_loop cfg env m storage existedVersionPaths js i
             else do {
               r \<leftarrow> Firmware_new cfg env m storage path index i;
               firmware_loop cfg env m storage existedVersionPaths js
                 (case r of Inl e \<Rightarrow> i | Inr f \<Rightarrow> i\<lparr>inv_firmware := inv_firmware i @ [(path, f)]\<rparr>) }) }"

definition refresh_firmware :: "inventory_config \<Rightarrow> bus_env \<Rightarrow> memory \<Rightarrow> ptr \<Rightarrow> stage" where
  "refresh_firmware cfg env m storage i = do {
     let i0 = i\<lparr>inv_firmware := []\<rparr>;
     let existedVersionPaths = (case version_paths env of None \<Rightarrow> [] | Some ps \<Rightarrow> ps);
     num \<leftarrow> getTotalNum m storage (type_code firmwareInventoryInformationType) 0;
     (case num of
        None \<Rightarrow> Some (Returns, i0)
      | Some n \<Rightarrow> do {
          i1 \<leftarrow> firmware_loop cfg env m storage existedVersionPaths [0 ..< n] i0;
          Some (Continues, i1) }) }"

text \<open>The constructor of the system object sets both properties; an exception of the second leaves no object.\<close>

definition System_new ::
  "inventory_config \<Rightarrow> bus_env \<Rightarrow> memory \<Rightarrow> ptr \<Rightarrow> string \<Rightarrow> inventory \<Rightarrow> system_object throwing"
where
  "System_new cfg env m storage objPath i =
     (if \<not> bus_accepts env (registered cfg i) objPath System_interfaces then Some (Inl Bus_error)
      else do {
        u \<leftarrow> System_uuid m storage;
        r \<leftarrow> System_version m storage (bios_calls env) (file_truncatable env);
        Some (case r of Inl x \<Rightarrow> Inl x | Inr v \<Rightarrow> Inr \<lparr>so_path = objPath, so_uuid = u, so_version = v\<rparr>) })"

definition refresh_system :: "inventory_config \<Rightarrow> bus_env \<Rightarrow> memory \<Rightarrow> ptr \<Rightarrow> string \<Rightarrow> stage" where
  "refresh_system cfg env m storage smbiosInventoryPath i = do {
     let i0 = i\<lparr>inv_system := None\<rparr>;
     r \<leftarrow> System_new cfg env m storage (smbiosInventoryPath @ systemSuffix) i0;
     Some (case r of
         Inl x \<Rightarrow> (Throws x, i0)
       | Inr s \<Rightarrow> (Continues, i0\<lparr>inv_system := Some s\<rparr>)) }"

definition systemInfoUpdate ::
  "inventory_config \<Rightarrow> bus_env \<Rightarrow> string \<Rightarrow> MDRV2 \<Rightarrow> inventory \<Rightarrow> (ending \<times> inventory) checked"
where
  "systemInfoUpdate cfg env smbiosInventoryPath a i = do {
     let motherboardPath = find_motherboard env smbiosInventoryPath;
     let modules = find_modules env;
     let m = smbiosTableStorage a;
     e \<leftarrow> dir_at (smbiosDir a) smbiosDirIndex;
     let storage = dataStorage e;
     and_then (refresh_baseboards cfg m storage)
       (and_then (refresh_cpus cfg env m storage motherboardPath modules)
         (and_then (refresh_dimms cfg env m storage motherboardPath)
           (and_then (refresh_pcies cfg env m storage motherboardPath smbiosInventoryPath)
             (and_then (refresh_tpm cfg env m storage motherboardPath)
               (and_then (refresh_firmware cfg env m storage)
                 (refresh_system cfg env m storage smbiosInventoryPath)))))) i }"


subsection \<open>Memory devices as records\<close>

datatype RecordVariant = V_string string | V_u64 u64 | V_u32 u32 | V_u16 u16 | V_u8 u8

type_synonym record_map = "(string \<times> RecordVariant) list"

definition memory_record :: "memory \<Rightarrow> nat \<Rightarrow> record_map checked" where
  "memory_record m p = do {
     ty \<leftarrow> mi_type m p;
     len \<leftarrow> mi_length m p;
     handle \<leftarrow> mi_handle m p;
     phy \<leftarrow> mi_phyArrayHandle m p;
     err \<leftarrow> mi_errInfoHandle m p;
     tw \<leftarrow> mi_totalWidth m p;
     dw \<leftarrow> mi_dataWidth m p;
     sz \<leftarrow> mi_size m p;
     ff \<leftarrow> mi_formFactor m p;
     ds \<leftarrow> mi_deviceSet m p;
     dl \<leftarrow> mi_deviceLocator m p;
     deviceLocator \<leftarrow> positionToString dl len m (At p);
     bl \<leftarrow> mi_bankLocator m p;
     bankLocator \<leftarrow> positionToString bl len m (At p);
     mt \<leftarrow> mi_memoryType m p;
     td \<leftarrow> mi_typeDetail m p;
     sp \<leftarrow> mi_speed m p;
     mf \<leftarrow> mi_manufacturer m p;
     manufacturer \<leftarrow> positionToString mf len m (At p);
     sn \<leftarrow> mi_serialNum m p;
     serial \<leftarrow> positionToString sn len m (At p);
     tag \<leftarrow> mi_assetTag m p;
     assetTag \<leftarrow> positionToString tag len m (At p);
     pn \<leftarrow> mi_partNum m p;
     partNumber \<leftarrow> positionToString pn len m (At p);
     attr \<leftarrow> mi_attributes m p;
     ext \<leftarrow> mi_extendedSize m p;
     conf \<leftarrow> mi_confClockSpeed m p;
     minv \<leftarrow> mi_minimumVoltage m p;
     maxv \<leftarrow> mi_maximumVoltage m p;
     confv \<leftarrow> mi_configuredVoltage m p;
     tech \<leftarrow> mi_memoryTechnology m p;
     cap \<leftarrow> mi_memoryOperatingModeCap m p;
     fwv \<leftarrow> mi_firwareVersion m p;
     mmid \<leftarrow> mi_modelManufId m p;
     mpid \<leftarrow> mi_modelProdId m p;
     smid \<leftarrow> mi_memSubConManufId m p;
     spid \<leftarrow> mi_memSubConProdId m p;
     nv \<leftarrow> mi_nvSize m p;
     vol \<leftarrow> mi_volatileSize m p;
     cache \<leftarrow> mi_cacheSize m p;
     logical \<leftarrow> mi_logicalSize m p;
     Some [(''Type'', V_u8 ty), (''Length'', V_u8 len), (''Handle'', V_u16 handle),
       (''Physical Memory Array Handle'', V_u16 phy),
       (''Memory Error Information Handle'', V_u16 err),
       (''Total Width'', V_u16 tw), (''Data Width'', V_u16 dw), (''Size'', V_u16 sz),
       (''Form Factor'', V_u8 ff), (''Device Set'', V_u8 ds),
       (''Device Locator'', V_string deviceLocator), (''Bank Locator'', V_string bankLocator),
       (''Memory Type'', V_u8 mt), (''Type Detail'', V_u16 td), (''Speed'', V_u16 sp),
       (''Manufacturer'', V_string manufacturer), (''Serial Number'', V_string serial),
       (''Asset Tag'', V_string assetTag), (''Part Number'', V_string partNumber),
       (''Attributes'', V_u32 (ucast attr)), (''Extended Size'', V_u32 ext),
       (''Configured Memory Speed'', V_u32 (ucast conf)),
       (''Minimum voltage'', V_u16 minv), (''Maximum voltage'', V_u16 maxv),
       (''Configured voltage'', V_u16 confv), (''Memory Technology'', V_u8 tech),
       (''Memory Operating Mode Capability'', V_u16 cap), (''Firmware Version'', V_u8 fwv),
       (''Module Manufacturer ID'', V_u16 mmid), (''Module Product ID'', V_u16 mpid),
       (''Memory Subsystem Controller Manufacturer ID'', V_u16 smid),
       (''Memory Subsystem Controller Product Id'', V_u16 spid),
       (''Non-volatile Size'', V_u64 nv), (''Volatile Size'', V_u64 vol),
       (''Cache Size'', V_u64 cache), (''Logical Size'', V_u64 logical)] }"

function record_loop :: "memory \<Rightarrow> nat \<Rightarrow> record_map list \<Rightarrow> record_map list checked" where
  "record_loop m p ret = do {
     hit \<leftarrow> getSMBIOSTypePtr m (At p) (type_code memoryDeviceType) sizeof_MemoryInfo;
     (case hit of
        Null \<Rightarrow> Some ret
      | At q \<Rightarrow> do {
          entry \<leftarrow> memory_record m q;
          nx \<leftarrow> smbiosNextPtr m (At q);
          (case nx of
             Null \<Rightarrow> Some (ret @ [entry])
           | At r \<Rightarrow> record_loop m r (ret @ [entry])) }) }"
  by pat_completeness auto
termination
proof (relation "measure (\<lambda>(m, p, ret). length m - p)")
  show "wf (measure (\<lambda>(m :: memory, p :: nat, ret :: record_map list). length m - p))" by simp
next
  fix m p and ret x :: "record_map list" and hit q nx r
  assume "getSMBIOSTypePtr m (At p) (type_code memoryDeviceType) sizeof_MemoryInfo = Some hit" "hit = At q"
    "smbiosNextPtr m (At q) = Some nx" "nx = At r"
  then show "((m, r, x), m, p, ret) \<in> measure (\<lambda>(m, p, ret). length m - p)"
    using walk_decreases by simp
qed

declare record_loop.simps [simp del]

definition getRecordType :: "MDRV2 \<Rightarrow> nat \<Rightarrow> record_map list throwing" where
  "getRecordType a ty =
     (if ty = unat (type_code memoryDeviceType)
      then do {
        e \<leftarrow> dir_at (smbiosDir a) smbiosDirIndex;
        (case dataStorage e of
           Null \<Rightarrow> Some (Inl Runtime_error)
         | At p \<Rightarrow> map_option Inr (record_loop (smbiosTableStorage a) p [])) }
      else Some (Inl Invalid_argument))"

end
