(* ===== verification/Inventory_Safety.thy ===== *)
theory Inventory_Safety
  imports Mdrv2_Inventory Mdrv2_Sync Smbios_Safety
begin

text \<open>
  Memory safety of the inventory on arbitrary bytes. Every object update, every loop of the refresh
  and the refresh itself give a result, that is they read inside the storage, when the data ends
  32 KiB before the end of the storage. The rules \<open>safe_rules\<close> follow the shape of the code: a lookup
  with its test for null, a move to the next structure, a branch, a read near a found structure.
  The theory also shows that the counts and the lookups agree on any bytes.
\<close>

definition defined :: "'a checked \<Rightarrow> bool" where
  "defined x \<longleftrightarrow> x \<noteq> None"

text \<open>A position with a margin for every access of up to eight bytes.\<close>

definition readable :: "memory \<Rightarrow> nat \<Rightarrow> bool" where
  "readable m p \<longleftrightarrow> p + 8 \<le> length m"

lemma defined_simps [simp]: "defined (Some x)" "\<not> defined None" "defined (map_option f y) \<longleftrightarrow> defined y"
  by (simp_all add: defined_def)

lemma readable_near [simp]:
  assumes "inside m q"
  shows "readable m q" and "readable m (Suc q)" and "readable m (Suc (Suc q))"
    and "i \<le> 32000 \<Longrightarrow> readable m (q + i)"
  using assms by (simp_all add: readable_def inside_def safe_table_def mdrSMBIOSSize_def)

lemma defined_read:
  assumes "readable m p"
  shows "defined (rd8 m p)" and "defined (rd16 m p)" and "defined (rd32 m p)" and "defined (rd64 m p)"
  using assms rd_wide_safe [of p m] by (simp_all add: defined_def readable_def rd8_def)

lemma defined_string: "inside m q \<Longrightarrow> defined (positionToString k len m (At q))"
  using positionToString_safe by (simp add: defined_def)

lemma defined_bind:
  "defined x \<Longrightarrow> (\<And>a. x = Some a \<Longrightarrow> defined (f a)) \<Longrightarrow> defined (Option.bind x f)"
  by (cases x) auto

text \<open>A lookup is followed by a test for null, and everything else happens inside the table.\<close>

lemma defined_lookup:
  assumes "edge m p" and "defined (f Null)" and "\<And>q. inside m q \<Longrightarrow> defined (f (At q))"
  shows "defined (Option.bind (getSMBIOSTypePtr m (At p) t sz) f)"
    and "defined (Option.bind (getSMBIOSTypeIndexPtr m (At p) t k) f)"
    and "defined (Option.bind (smbiosHandlePtr m (At p) h) f)"
proof -
  have "defined (Option.bind x f)" if ok: "\<exists>r. x = Some r \<and> (\<forall>q. r = At q \<longrightarrow> inside m q)" for x
  proof -
    obtain r where "x = Some r" "\<forall>q. r = At q \<longrightarrow> inside m q" using ok by blast
    then show ?thesis using assms(2,3) by (cases r) auto
  qed
  note ok = this
  show "defined (Option.bind (getSMBIOSTypePtr m (At p) t sz) f)"
    by (rule ok) (rule getSMBIOSTypePtr_safe [OF assms(1)])
  show "defined (Option.bind (getSMBIOSTypeIndexPtr m (At p) t k) f)"
    by (rule ok) (rule getSMBIOSTypeIndexPtr_safe [OF assms(1)])
  show "defined (Option.bind (smbiosHandlePtr m (At p) h) f)"
    by (rule ok) (rule smbiosHandlePtr_safe [OF assms(1)])
qed

lemma defined_next:
  assumes "inside m q" and "defined (f Null)" and "\<And>r. edge m r \<Longrightarrow> defined (f (At r))"
  shows "defined (Option.bind (smbiosNextPtr m (At q)) f)"
proof -
  obtain r where "smbiosNextPtr m (At q) = Some r" "\<forall>p. r = At p \<longrightarrow> edge m p"
    using smbiosNextPtr_safe [OF assms(1)] by blast
  then show ?thesis using assms(2,3) by (cases r) auto
qed

lemma defined_if: "(b \<Longrightarrow> defined x) \<Longrightarrow> (\<not> b \<Longrightarrow> defined y) \<Longrightarrow> defined (if b then x else y)"
  by simp

lemma defined_case:
  "(o1 = None \<Longrightarrow> defined a) \<Longrightarrow> (\<And>x. o1 = Some x \<Longrightarrow> defined (f x)) \<Longrightarrow> defined (case o1 of None \<Rightarrow> a | Some x \<Rightarrow> f x)"
  "(\<And>x. s1 = Inl x \<Longrightarrow> defined (g x)) \<Longrightarrow> (\<And>y. s1 = Inr y \<Longrightarrow> defined (h y)) \<Longrightarrow> defined (case s1 of Inl x \<Rightarrow> g x | Inr y \<Rightarrow> h y)"
  "(\<And>x y. pr = (x, y) \<Longrightarrow> defined (k x y)) \<Longrightarrow> defined (case pr of (x, y) \<Rightarrow> k x y)"
  by (auto split: option.splits sum.splits prod.splits)

lemmas safe_rules = defined_lookup defined_next defined_if defined_case defined_string defined_read defined_bind

subsection \<open>TPM, firmware and system\<close>

lemma vendor_loop_safe:
  "inside m q \<Longrightarrow> \<forall>j \<in> set js. j \<le> 255 \<Longrightarrow> defined (vendor_loop m q js)"
  by (induction js) (auto intro!: safe_rules simp: ti_vendor_def add.assoc)

lemma tpmInfoUpdate_safe:
  assumes "edge m p" shows "defined (tpmInfoUpdate m (At p) t)"
  unfolding tpmInfoUpdate_def tpmDescription_def tpmVendor_def tpmFirmwareVersion_def field_defs Let_def
  by (intro safe_rules assms; simp) (intro safe_rules vendor_loop_safe; simp)

lemma firmwareInfoUpdate_safe:
  assumes "edge m p" shows "defined (firmwareInfoUpdate ex m (At p) k f)"
  unfolding firmwareInfoUpdate_def firmwareComponentName_def firmwareVersion_def firmwareId_def
    firmwareReleaseDate_def firmwareManufacturer_def field_defs Let_def
  by (intro safe_rules assms; simp) (intro safe_rules; simp)

lemma component_suffix_safe: "inside m c \<Longrightarrow> defined (component_suffix m c)"
  unfolding component_suffix_def by (intro safe_rules; simp)

lemma component_loop_safe:
  assumes "edge m p" and "inside m q"
  shows "\<forall>j \<in> set js. j \<le> 255 \<Longrightarrow> defined (component_loop m (At p) q js ident)"
proof (induction js arbitrary: ident)
  case (Cons j js)
  then show ?case
    unfolding component_loop.simps fi_associatedComponentHandle_def add.assoc
    using assms by (intro safe_rules; simp; intro safe_rules component_suffix_safe; simp)
qed simp

lemma byte_range: "\<forall>j \<in> set [0 ..< unat (n :: u8)]. j \<le> 255"
  using unsigned_less [of n, where ?'a = nat] by auto

lemma getFirmwareName_safe:
  assumes "edge m p" shows "defined (getFirmwareName m (At p) k)"
  unfolding getFirmwareName_def field_defs
  by (intro safe_rules assms; simp)
     (intro safe_rules component_loop_safe [OF assms] byte_range; simp)

lemma System_uuid_safe: "edge m p \<Longrightarrow> defined (System_uuid m (At p))"
  unfolding System_uuid_def field_defs Let_def by (intro safe_rules; simp; intro safe_rules; simp)

lemma setProperty_safe: "mapper_answers bus \<Longrightarrow> defined (setProperty bus path intf prop v)"
  using setProperty_defined by (fastforce simp: defined_def)

lemma System_version_safe:
  "edge m p \<Longrightarrow> mapper_answers bus \<Longrightarrow> defined (System_version m (At p) bus tr)"
  unfolding System_version_def
  by (intro safe_rules; simp) (intro conjI impI; intro safe_rules setProperty_safe; simp)

subsection \<open>Processors, memory devices and PCIe slots\<close>

lemma socketChipNumber_ptr_safe:
  "inside m q \<Longrightarrow> defined (socketChipNumber_ptr cfg m (At q))" "defined (socketChipNumber_ptr cfg m Null)"
  unfolding socketChipNumber_ptr_def field_defs ptr.simps
  by (intro safe_rules; simp) simp

lemma cpu_populated_safe: "inside m q \<Longrightarrow> defined (cpu_populated cfg obj mb m q c)"
  unfolding cpu_populated_def cpu_set_manufacturer_def cpu_set_version_def cpu_set_serialNumber_def
    cpu_set_assetTagString_def cpu_set_partNumber_def field_defs Let_def
  by (intro safe_rules; simp)

lemma cpu_infoUpdate_safe:
  assumes "edge m p" shows "defined (cpu_infoUpdate cfg k obj m (At p) mb c)"
  unfolding cpu_infoUpdate_def cpu_set_socket_def field_defs Let_def
  by (intro safe_rules assms; simp) (intro safe_rules cpu_populated_safe; simp)

lemma chassisCpu_new_safe:
  assumes "edge m p" shows "defined (chassisCpu_new cfg k obj m (At p) mb c)"
  unfolding chassisCpu_new_def chassisCpu_infoUpdate_def cc_locationString_def cc_set_manufacturer_def
    cc_set_model_def cc_set_serialNumber_def cc_assetTagString_def cc_set_partNumber_def field_defs Let_def
  by (rule defined_bind, rule defined_lookup [OF assms]; simp) (intro safe_rules; simp)

lemma ecc_loop_safe: "edge m p \<Longrightarrow> defined (ecc_loop m p h)"
proof (induction "length m - p" arbitrary: p rule: less_induct)
  case less
  show ?case
  proof (subst ecc_loop.simps, rule defined_bind)
    show "defined (getSMBIOSTypePtr m (At p) (type_code physicalMemoryArrayType) 0)"
      using getSMBIOSTypePtr_safe [OF less.prems] by (metis defined_def option.distinct(1))
  next
    fix hit assume hit: "getSMBIOSTypePtr m (At p) (type_code physicalMemoryArrayType) 0 = Some hit"
    show "defined (case hit of Null \<Rightarrow> Some None | At q \<Rightarrow> pma_handle m q \<bind> (\<lambda>handle.
        if handle = h then map_option Some (pma_memoryErrorCorrection m q)
        else smbiosNextPtr m (At q) \<bind> (\<lambda>nx. case nx of Null \<Rightarrow> Some None | At r \<Rightarrow> ecc_loop m r h)))"
    proof (cases hit)
      case (At q)
      have q: "inside m q" using getSMBIOSTypePtr_safe [OF less.prems] hit At by (metis option.inject)
      have IH: "defined (ecc_loop m r h)" if "smbiosNextPtr m (At q) = Some (At r)" for r
      proof -
        have "edge m r" using smbiosNextPtr_safe [OF q] that by simp
        moreover have "length m - r < length m - p"
          using walk_decreases [of m p "type_code physicalMemoryArrayType" 0 q r] hit At that by simp
        ultimately show ?thesis by (rule less.hyps [rotated])
      qed
      have nx: "defined (smbiosNextPtr m (At q))"
        using smbiosNextPtr_safe [OF q] by (auto simp: defined_def)
      show ?thesis
        using q nx IH by (auto simp: At field_defs intro!: defined_read defined_bind split: ptr.splits)
    qed simp
  qed
qed

lemma memory_parts_safe:
  assumes "inside m q"
  shows "defined (memory_before_locator m q d)"
    and "defined (dimmDeviceLocator cfg bank dev len m q d)"
    and "edge m p \<Longrightarrow> defined (memory_after_locator trim m (At p) mb q d)"
  unfolding memory_before_locator_def dimmDeviceLocator_def memory_after_locator_def dimmManufacturer_def
    dimmSerialNum_def dimmPartNum_def updateEccType_def field_defs Let_def ptr.simps
  using assms by (intro safe_rules ecc_loop_safe; simp)+

lemma memoryInfoUpdate_safe:
  assumes "edge m p" shows "defined (memoryInfoUpdate cfg trim m (At p) k mb d)"
  unfolding memoryInfoUpdate_def mi_bankLocator_def mi_deviceLocator_def mi_length_def
  by (intro safe_rules assms; simp) (intro safe_rules memory_parts_safe; simp add: memory_parts_safe assms)

lemma is_pcie_safe: "inside m q \<Longrightarrow> defined (is_pcie m q)"
  unfolding is_pcie_def by (intro safe_rules; simp)

lemma pcie_loop_safe:
  "inside m q \<Longrightarrow> \<exists>r. pcie_loop m k q n = Some r \<and> (\<forall>x. r = At x \<longrightarrow> inside m x)"
proof (induction m k q n rule: pcie_loop.induct)
  case (1 m k q n)
  have "defined (if n < k then Some True else map_option Not (is_pcie m q))"
    using is_pcie_safe [OF "1.prems"] by simp
  then obtain here where here: "(if n < k then Some True else map_option Not (is_pcie m q)) = Some here"
    by (auto simp: defined_def simp del: if_split_asm split: option.splits)
  obtain nx where nx: "smbiosNextPtr m (At q) = Some nx" "\<And>r. nx = At r \<Longrightarrow> edge m r"
    using smbiosNextPtr_safe [OF "1.prems"] by blast
  show ?case
  proof (cases "\<not> here \<or> nx = Null")
    case True
    then show ?thesis using here nx "1.prems" by (subst pcie_loop.simps) auto
  next
    case False
    then obtain r where r: "here" "nx = At r" by (cases nx) auto
    obtain hit where hit: "getSMBIOSTypePtr m (At r) (type_code systemSlots) 0 = Some hit"
      "\<And>s. hit = At s \<Longrightarrow> inside m s"
      using getSMBIOSTypePtr_safe nx(2) r(2) by blast
    show ?thesis
    proof (cases hit)
      case Null
      then show ?thesis using here nx r hit by (subst pcie_loop.simps) simp
    next
      case (At s)
      obtain b where b: "is_pcie m s = Some b"
        using is_pcie_safe [OF hit(2) [OF At]] by (auto simp: defined_def)
      have "pcie_loop m k q n = pcie_loop m k s (if b then n + 1 else n)"
        using here nx r hit At b by (subst pcie_loop.simps) simp
      moreover have "\<not> \<not> here" using r(1) by simp
      ultimately show ?thesis
        using "1.IH" [OF here _ nx(1) r(2) hit(1) At b] hit(2) [OF At] by simp
    qed
  qed
qed

lemma pcieInfoUpdate_safe:
  assumes "edge m p" shows "defined (pcieInfoUpdate m (At p) k mb s)"
proof -
  have height: "off_slotHeight c \<le> 32000" for c
    using unsigned_less [of c, where ?'a = nat]
    by (simp add: off_slotHeight_def off_peerGroups_def sizeof_PeerGroup_def)
  have sh: "defined (slot_height m q)" if "inside m q" for q
    unfolding slot_height_def off_peerGorupingCount_def field_defs
    using that height by (intro safe_rules; simp)
  obtain d where d: "pcie_find m (At p) k = Some d" "\<forall>q. d = At q \<longrightarrow> inside m q"
  proof -
    obtain r where "getSMBIOSTypePtr m (At p) (type_code systemSlots) 0 = Some r"
      "\<forall>q. r = At q \<longrightarrow> inside m q" using getSMBIOSTypePtr_safe [OF assms] by blast
    then have "\<exists>d. pcie_find m (At p) k = Some d \<and> (\<forall>q. d = At q \<longrightarrow> inside m q)"
      using pcie_loop_safe by (cases r) (simp_all add: pcie_find_def)
    then show ?thesis using that by blast
  qed
  show ?thesis
  proof (cases d)
    case Null
    then show ?thesis using d by (simp add: pcieInfoUpdate_def)
  next
    case (At q)
    then show ?thesis
      using d sh unfolding pcieInfoUpdate_def pcieLocation_def field_defs Let_def d(1) At
      by simp (intro safe_rules; simp)
  qed
qed


subsection \<open>Counts and lookups agree\<close>

text \<open>An index below the count of a type has a structure, whatever bytes the storage holds.\<close>

lemma count_loop_walk:
  assumes "count_loop (\<lambda>m q. Some True) m t 0 p num = Some n" and "num + k < n"
    and "num < limitEntryLen"
  shows "\<exists>hit q. getSMBIOSTypePtr m (At p) t 0 = Some hit \<and> hit \<noteq> Null
    \<and> type_index_walk m t k hit = Some (At q)"
  using assms
proof (induction k arbitrary: p num)
  case 0
  then show ?case
    by (subst (asm) count_loop.simps)
       (auto simp: type_index_walk_def split: bind_splits ptr.splits if_splits)
next
  case (Suc k)
  from Suc.prems obtain hit where hit: "getSMBIOSTypePtr m (At p) t 0 = Some hit" "hit \<noteq> Null"
    by (subst (asm) count_loop.simps) (auto split: bind_splits ptr.splits if_splits)
  then obtain q where q: "hit = At q" by (cases hit) auto
  from Suc.prems hit q obtain r where r: "smbiosNextPtr m (At q) = Some (At r)"
    and rest: "count_loop (\<lambda>m q. Some True) m t 0 r (Suc num) = Some n" "Suc num < limitEntryLen"
    by (subst (asm) count_loop.simps) (auto split: bind_splits ptr.splits if_splits)
  have "Suc num + k < n" using Suc.prems(2) by simp
  from Suc.IH [OF rest(1) this rest(2)] show ?case
    using hit q r by (auto simp: type_index_walk_def)
qed


lemma count_loop_limit:
  "count_loop keep m t sz p num = Some n \<Longrightarrow> num < limitEntryLen \<Longrightarrow> n \<le> limitEntryLen"
proof (induction keep m t sz p num rule: count_loop.induct)
  case (1 keep m t sz p num)
  note run = "1.prems"(1) [unfolded count_loop.simps [of keep m t sz p num]]
  obtain hit where hit: "getSMBIOSTypePtr m (At p) t sz = Some hit"
    using run by (auto simp: bind_eq_Some_conv)
  show ?case
  proof (cases hit)
    case Null
    then show ?thesis using run hit "1.prems"(2) by simp
  next
    case (At q)
    obtain wanted nx where w: "keep m q = Some wanted" and nx: "smbiosNextPtr m (At q) = Some nx"
      using run hit At by (auto simp: bind_eq_Some_conv Let_def)
    let ?num = "if wanted then num + 1 else num"
    show ?thesis
    proof (cases nx)
      case Null
      then show ?thesis using run hit At w nx "1.prems"(2) by (auto split: if_splits)
    next
      case r: (At r)
      have "limitEntryLen \<le> ?num \<and> ?num = n \<or> \<not> limitEntryLen \<le> ?num \<and> count_loop keep m t sz r ?num = Some n"
        using run hit At w nx r by (auto simp: Let_def split: if_splits)
      then show ?thesis
        using "1.IH" [OF hit At w refl nx r] "1.prems"(2) by (auto split: if_splits)
    qed
  qed
qed

lemma counted_lookup:
  assumes "count_loop (\<lambda>m q. Some True) m t 0 p 0 = Some n" and "k < n"
  shows "\<exists>q. getSMBIOSTypeIndexPtr m (At p) t (word_of_nat k) = Some (At q)"
proof -
  have "n \<le> 255" using count_loop_limit [OF assms(1)] by (simp add: limitEntryLen_def)
  then have "unat (word_of_nat k :: u8) = k"
    using assms(2) by (simp add: unat_of_nat)
  then show ?thesis
    using count_loop_walk [OF assms(1), of k] assms(2)
    by (auto simp: getSMBIOSTypeIndexPtr_def limitEntryLen_def)
qed


lemma count_safe:
  assumes "edge m p"
  shows "defined (count_loop (\<lambda>m q. Some True) m t 0 p 0)" and "defined (count_loop is_pcie m t 0 p 0)"
  unfolding defined_def
  by (rule count_loop_safe [OF assms], simp) (rule count_loop_safe [OF assms], use is_pcie_safe in \<open>auto simp: defined_def\<close>)

subsection \<open>Base boards\<close>

text \<open>What the refresh relies on: the structure of a board and the objects it contains lie inside.\<close>

definition board_inside :: "memory \<Rightarrow> Baseboard \<Rightarrow> bool" where
  "board_inside m b \<longleftrightarrow> (\<forall>p. bb_raw b = Some p \<longrightarrow> inside m p)
     \<and> (\<forall>(h, q) \<in> set (bb_containedObjects b). inside m q)"

lemma contained_loop_safe:
  assumes "edge m p" and "inside m q" and "\<forall>j \<in> set js. j \<le> 255"
    and "\<forall>(h, x) \<in> set acc. inside m x"
  shows "\<exists>objs. contained_loop m (At p) q js acc = Some objs \<and> (\<forall>(h, x) \<in> set objs. inside m x)"
  using assms(3,4)
proof (induction js arbitrary: acc)
  case (Cons j js)
  have "defined (bi_containedObjectHandle m q j)"
    unfolding bi_containedObjectHandle_def add.assoc
    by (rule defined_read) (use Cons.prems(1) assms(2) in simp)
  then obtain h where h: "bi_containedObjectHandle m q j = Some h" by (auto simp: defined_def)
  obtain r where r: "smbiosHandlePtr m (At p) h = Some r" "\<forall>x. r = At x \<longrightarrow> inside m x"
    using smbiosHandlePtr_safe [OF assms(1)] by blast
  show ?case
    using Cons h r by (cases r) simp_all
qed simp

lemma Baseboard_new_safe:
  assumes "edge m p"
  shows "\<exists>b. Baseboard_new m (At p) k = Some b \<and> board_inside m b
    \<and> (bb_raw b = None \<longrightarrow> getSMBIOSTypeIndexPtr m (At p) (type_code baseboardType) (word_of_nat k) = Some Null)"
proof -
  obtain d where d: "getSMBIOSTypeIndexPtr m (At p) (type_code baseboardType) (word_of_nat k) = Some d"
    "\<forall>q. d = At q \<longrightarrow> inside m q" using getSMBIOSTypeIndexPtr_safe [OF assms] by blast
  show ?thesis
  proof (cases d)
    case Null
    then show ?thesis using d by (simp add: Baseboard_new_def board_inside_def)
  next
    case (At q)
    then have q: "inside m q" using d by simp
    then have "defined (bi_numOfContainedObject m q)"
      unfolding field_defs by (intro defined_read) simp
    then obtain n where n: "bi_numOfContainedObject m q = Some n" by (auto simp: defined_def)
    obtain objs where "contained_loop m (At p) q [0 ..< unat n] [] = Some objs"
      "\<forall>(h, x) \<in> set objs. inside m x"
      using contained_loop_safe [OF assms q byte_range, of "[]" n] by auto
    then show ?thesis
      using d At q n by (simp add: Baseboard_new_def board_inside_def)
  qed
qed

lemma board_loop_safe:
  assumes "edge m p" and "count_loop (\<lambda>m q. Some True) m (type_code baseboardType) 0 p 0 = Some n"
    and "\<forall>k \<in> set js. k < n" and "\<forall>b \<in> set bs. board_inside m b"
  shows "\<exists>bs'. board_loop m (At p) js i bs = Some bs' \<and> (\<forall>b \<in> set bs'. board_inside m b)"
  using assms(3,4)
proof (induction js arbitrary: i bs)
  case (Cons k js)
  obtain b where b: "Baseboard_new m (At p) k = Some b" "board_inside m b" "bb_raw b \<noteq> None"
    using Baseboard_new_safe [OF assms(1), of k] counted_lookup [OF assms(2), of k] Cons.prems(1) by fastforce
  then obtain q where q: "bb_raw b = Some q" "inside m q" by (auto simp: board_inside_def)
  then have "defined (getType m b)"
    unfolding getType_def field_defs by (auto intro!: defined_read)
  then obtain ty where ty: "getType m b = Some ty" by (auto simp: defined_def)
  have "board_inside m (setName nm b)" for nm using b(2) by (simp add: board_inside_def setName_def)
  then show ?case using Cons b ty by simp
qed simp

lemma board_memory_name_safe:
  assumes "inside m d" and "\<forall>b \<in> set bs. board_inside m b"
  shows "defined (board_memory_name m (At d) bs nm)"
  using assms(2)
proof (induction bs)
  case (Cons b bs)
  have "\<exists>r. find_index_loop m h objs cnt = Some r" if "\<forall>(g, q) \<in> set objs. inside m q"
    for h and objs :: "(u16 \<times> nat) list" and cnt
    using that
  proof (induction objs arbitrary: cnt)
    case (Cons x objs)
    obtain g q where x: "x = (g, q)" by (cases x)
    then obtain ty where "rd8 m q = Some ty" using Cons.prems inside_rd8 [of m q 0] by auto
    then show ?case using Cons x by (cases "h = g") auto
  qed (simp del: prod.inject)
  then have "\<exists>r. findIndexOfType m b h = Some r" for h
    using Cons.prems by (simp add: findIndexOfType_def board_inside_def)
  then have "defined (findIndexOfType m b h)" for h by (auto simp: defined_def)
  then show ?case
    using Cons assms(1) by (auto intro!: defined_bind defined_if defined_read split: prod.splits)
qed simp

subsection \<open>The stages\<close>

lemma Cpu_new_safe:
  assumes "edge m p"
  shows "defined (Cpu_new cfg env m (At p) path k cont deco i)"
proof -
  have "defined (Cpu_chassis cfg env m (At p) path k cont deco i)"
    unfolding Cpu_chassis_def Let_def
    by (intro safe_rules assms chassisCpu_new_safe; simp)
  then show ?thesis
    unfolding Cpu_new_def by (intro safe_rules assms cpu_infoUpdate_safe; simp)
qed

lemma cpu_loop_safe:
  assumes "edge m p"
  shows "\<exists>e i'. cpu_loop cfg env m (At p) mb mods js i = Some (e, i') \<and> inv_baseboards i' = inv_baseboards i"
proof (induction js arbitrary: i)
  case (Cons k js)
  have "defined (cpu_place (cpu_opts cfg) m (At p) mb mods k)"
    unfolding cpu_place_def Let_def
    by (intro safe_rules assms socketChipNumber_ptr_safe; simp add: socketChipNumber_ptr_safe)
  then obtain path cont where place: "cpu_place (cpu_opts cfg) m (At p) mb mods k = Some (path, cont)"
    by (auto simp: defined_def)
  obtain c ch where new: "Cpu_new cfg env m (At p) path (word_of_nat k) cont
      (decorateName (platformPrefix (cpu_opts cfg)) path) i = Some (c, ch)"
    using Cpu_new_safe [OF assms] by (metis defined_def option.exhaust surj_pair)
  show ?case
  proof (cases c)
    case (Inl x)
    then show ?thesis using place new by (simp add: Let_def)
  next
    case (Inr d)
    then show ?thesis
      using Cons [of "i\<lparr>inv_cpus := inv_cpus i @ [d], inv_chassisCpus := ch\<rparr>"] place new by (simp add: Let_def)
  qed
qed simp

lemma dimm_loop_safe:
  assumes "edge m p" and "count_loop (\<lambda>m q. Some True) m (type_code memoryDeviceType) 0 p 0 = Some n"
  shows "\<forall>k \<in> set js. k < n \<Longrightarrow> \<forall>b \<in> set (inv_baseboards i). board_inside m b \<Longrightarrow>
    defined (dimm_loop cfg env m (At p) mb js i)"
proof (induction js arbitrary: i)
  case (Cons k js)
  obtain q where q: "getSMBIOSTypeIndexPtr m (At p) (type_code memoryDeviceType) (word_of_nat k) = Some (At q)"
    using counted_lookup [OF assms(2)] Cons.prems(1) by auto
  then have "inside m q" using getSMBIOSTypeIndexPtr_safe [OF assms(1)] by (metis option.inject)
  note nm = board_memory_name_safe [OF this Cons.prems(2)]
  have rest: "defined (dimm_loop cfg env m (At p) mb js (i\<lparr>inv_dimms := ds\<rparr>))" for ds
    by (rule Cons.IH) (use Cons.prems in auto)
  show ?case
    unfolding dimm_loop.simps Dimm_new_def q bind.bind_lunit Let_def
    by (intro safe_rules nm memoryInfoUpdate_safe assms(1) rest; simp)
qed simp

lemma pcie_refresh_loop_safe:
  "edge m p \<Longrightarrow> defined (pcie_refresh_loop cfg env m (At p) mb path js i)"
proof (induction js arbitrary: i)
  case (Cons k js)
  then show ?case
    unfolding pcie_refresh_loop.simps Pcie_new_def Let_def by (intro safe_rules pcieInfoUpdate_safe; simp)
qed simp

lemma firmware_loop_safe:
  "edge m p \<Longrightarrow> defined (firmware_loop cfg env m (At p) paths js i)"
proof (induction js arbitrary: i)
  case (Cons k js)
  have "defined (Firmware_new cfg env m (At p) path k j)" for path j
    unfolding Firmware_new_def by (simp add: firmwareInfoUpdate_safe [OF Cons.prems])
  then show ?case
    unfolding firmware_loop.simps Let_def using Cons
    by (intro safe_rules getFirmwareName_safe; simp)
qed simp

lemma safe_stages:
  assumes "edge m p"
  shows "\<forall>b \<in> set (inv_baseboards i). board_inside m b \<Longrightarrow> defined (refresh_dimms cfg env m (At p) mb i)"
    and "defined (refresh_pcies cfg env m (At p) mb path i)" and "defined (refresh_tpm cfg env m (At p) mb i)"
    and "defined (refresh_firmware cfg env m (At p) i)"
    and "mapper_answers (bios_calls env) \<Longrightarrow> defined (refresh_system cfg env m (At p) path i)"
proof -
  note counts = count_safe [OF assms]
  show "\<forall>b \<in> set (inv_baseboards i). board_inside m b \<Longrightarrow> defined (refresh_dimms cfg env m (At p) mb i)"
    unfolding refresh_dimms_def getTotalDimmSlot_def Let_def ptr.simps
    using counts by (auto intro!: defined_if defined_bind dimm_loop_safe [OF assms])
  show "defined (refresh_pcies cfg env m (At p) mb path i)"
    unfolding refresh_pcies_def getTotalPcieSlot_def Let_def ptr.simps
    using counts assms by (intro safe_rules pcie_refresh_loop_safe; simp)
  show "defined (refresh_tpm cfg env m (At p) mb i)"
    unfolding refresh_tpm_def Tpm_new_def getTotalNum_def Let_def ptr.simps
    using counts by (intro safe_rules; simp add: tpmInfoUpdate_safe [OF assms])
  show "defined (refresh_firmware cfg env m (At p) i)"
    unfolding refresh_firmware_def getTotalNum_def Let_def ptr.simps
    using counts assms by (intro safe_rules firmware_loop_safe; simp)
  show "mapper_answers (bios_calls env) \<Longrightarrow> defined (refresh_system cfg env m (At p) path i)"
    unfolding refresh_system_def System_new_def Let_def
    using assms by (intro safe_rules System_uuid_safe System_version_safe; simp)
qed

lemma refresh_cpus_safe:
  assumes "edge m p"
  shows "\<exists>e i'. refresh_cpus cfg env m (At p) mb mods i = Some (e, i') \<and> inv_baseboards i' = inv_baseboards i"
proof -
  obtain n where "count_loop (\<lambda>m q. Some True) m (type_code processorsType) 0 p 0 = Some n"
    using count_safe(1) [OF assms] by (auto simp: defined_def)
  then show ?thesis
    using cpu_loop_safe [OF assms, of cfg env mb mods "[0 ..< n]" "i\<lparr>inv_cpus := []\<rparr>"]
    by (auto simp: refresh_cpus_def getTotalCpuSlot_def Let_def)
qed

lemma refresh_baseboards_safe:
  assumes "edge m p" and "\<not> procmod_dbus cfg \<Longrightarrow> inv_baseboards i = []"
  shows "\<exists>e i'. refresh_baseboards cfg m (At p) i = Some (e, i') \<and> (\<forall>b \<in> set (inv_baseboards i'). board_inside m b)"
proof -
  obtain n where n: "count_loop (\<lambda>m q. Some True) m (type_code baseboardType) 0 p 0 = Some n"
    using count_safe(1) [OF assms(1)] by (auto simp: defined_def)
  show ?thesis
    using board_loop_safe [OF assms(1) n, of "[0 ..< n]" "[]" 0] n assms(2)
    by (auto simp: refresh_baseboards_def getTotalNum_def)
qed

lemma defined_and_then:
  "defined (s1 i) \<Longrightarrow> (\<And>i'. s1 i = Some (Continues, i') \<Longrightarrow> defined (s2 i')) \<Longrightarrow> defined (and_then s1 s2 i)"
  by (auto simp: and_then_def intro!: defined_bind split: ending.splits prod.splits)

lemma and_thenE:
  "\<exists>e i'. s1 i = Some (e, i') \<and> P i' \<Longrightarrow> (\<And>i'. P i' \<Longrightarrow> defined (s2 i')) \<Longrightarrow> defined (and_then s1 s2 i)"
  by (rule defined_and_then) (auto simp: defined_def)

subsection \<open>Memory records\<close>

lemma memory_record_safe: "inside m q \<Longrightarrow> defined (memory_record m q)"
  unfolding memory_record_def field_defs by (intro safe_rules; simp)

lemma record_loop_safe: "edge m p \<Longrightarrow> defined (record_loop m p ret)"
proof (induction m p ret rule: record_loop.induct)
  case (1 m p ret)
  obtain hit where hit: "getSMBIOSTypePtr m (At p) (type_code memoryDeviceType) sizeof_MemoryInfo = Some hit"
    "\<forall>q. hit = At q \<longrightarrow> inside m q" using getSMBIOSTypePtr_safe [OF "1.prems"] by blast
  show ?case
  proof (cases hit)
    case Null
    then show ?thesis using hit by (subst record_loop.simps) simp
  next
    case (At q)
    then have q: "inside m q" using hit by simp
    obtain entry where e: "memory_record m q = Some entry"
      using memory_record_safe [OF q] by (auto simp: defined_def)
    obtain nx where nx: "smbiosNextPtr m (At q) = Some nx" "\<forall>r. nx = At r \<longrightarrow> edge m r"
      using smbiosNextPtr_safe [OF q] by blast
    show ?thesis
      using hit At e nx "1.IH" [OF hit(1) At e nx(1)]
      by (subst record_loop.simps) (cases nx, simp_all)
  qed
qed

subsection \<open>The refresh is memory safe\<close>

lemma getRecordType_defined:
  assumes "wf_agent a" and "safe_table (smbiosTableStorage a)"
  shows "defined (getRecordType a ty)"
proof -
  have edge: "edge (smbiosTableStorage a) 0" using assms(2) by (simp add: edge_def)
  obtain e where "dir_at (smbiosDir a) smbiosDirIndex = Some e" "dataStorage e = At 0"
    using wf_agentD [OF assms(1)] by (auto simp: dir_at_def smbiosDirIndex_def)
  then show ?thesis using record_loop_safe [OF edge] by (simp add: getRecordType_def)
qed

lemma refresh_defined:
  assumes "wf_agent a" and "safe_table (smbiosTableStorage a)"
    and "\<not> procmod_dbus cfg \<Longrightarrow> inv_baseboards i = []" and "mapper_answers (bios_calls env)"
  shows "defined (systemInfoUpdate cfg env path a i)"
proof -
  let ?m = "smbiosTableStorage a"
  have edge: "edge ?m 0" using assms(2) by (simp add: edge_def)
  obtain e where e: "dir_at (smbiosDir a) smbiosDirIndex = Some e" and q: "dataStorage e = At 0"
    using wf_agentD [OF assms(1)] by (auto simp: dir_at_def smbiosDirIndex_def)
  have cpus: "\<exists>e i'. refresh_cpus cfg env ?m (At 0) mb mods j = Some (e, i')
      \<and> (\<forall>b \<in> set (inv_baseboards i'). board_inside ?m b)"
    if "\<forall>b \<in> set (inv_baseboards j). board_inside ?m b" for mb mods j
    using refresh_cpus_safe [OF edge, of cfg env mb mods j] that by auto
  show "defined (systemInfoUpdate cfg env path a i)"
    unfolding systemInfoUpdate_def Let_def e bind.bind_lunit q
  proof (rule and_thenE)
    show "\<exists>e i'. refresh_baseboards cfg ?m (At 0) i = Some (e, i')
        \<and> (\<forall>b \<in> set (inv_baseboards i'). board_inside ?m b)"
      by (rule refresh_baseboards_safe [OF edge]) (rule assms(3))
  qed (rule and_thenE, erule cpus, intro defined_and_then safe_stages [OF edge] assms(4))
qed

text \<open>
  C6. Memory safety of the refresh and of \<open>getRecordType\<close> on arbitrary bytes: whatever the host wrote,
  as long as the data ends at least 32 KiB before the end of the storage, building all inventory
  objects (base boards, processors, memory devices, slots, TPM, firmware, system) and all memory
  records reads only inside the storage. This holds for every build option, from an inventory that has base boards
  only in a build that publishes them, and for every failure and every answer of the object
  mapper except one: a list of services for an object must not be empty. The code takes its first
  element unchecked, and an empty one is an access outside of the answer (\<open>empty_mapper_answer\<close>).
\<close>

theorem refresh_memory_safe:
  assumes "wf_agent a" and "safe_table (smbiosTableStorage a)"
    and "\<not> procmod_dbus cfg \<Longrightarrow> inv_baseboards i = []" and "mapper_answers (bios_calls env)"
  shows "systemInfoUpdate cfg env path a i \<noteq> None \<and> getRecordType a ty \<noteq> None"
  using refresh_defined [OF assms] getRecordType_defined [OF assms(1,2)] by (simp add: defined_def)

definition loaded_agent :: "u8 list \<Rightarrow> MDRV2" where
  "loaded_agent bytes = example_agent\<lparr>smbiosTableStorage := bytes @ replicate (65536 - length bytes) 0\<rparr>"

lemma loaded_agent_ok:
  assumes "length bytes \<le> 32768"
  shows "wf_agent (loaded_agent bytes)" and "safe_table (smbiosTableStorage (loaded_agent bytes))"
  using assms example_agent_wf
  by (simp_all add: loaded_agent_def wf_agent_def smbiosTableStorageSize_def safe_table_padded
      mdrSMBIOSSize_def)

definition empty_inventory :: inventory where
  "empty_inventory = \<lparr>inv_baseboards = [], inv_cpus = [], inv_chassisCpus = [], inv_dimms = [], inv_pcies = [],
     inv_tpm = None, inv_firmware = [], inv_system = None\<rparr>"

theorem refresh_memory_safe_witness:
  "\<forall>cfg env path ty.
     systemInfoUpdate cfg (env\<lparr>bios_calls := example_bus\<rparr>) path (loaded_agent [17, 250, 1, 2, 43, 3, 0, 2]) empty_inventory \<noteq> None
     \<and> getRecordType (loaded_agent [17, 250, 1, 2, 43, 3, 0, 2]) ty \<noteq> None"
proof (intro allI)
  fix cfg env path ty
  show "systemInfoUpdate cfg (env\<lparr>bios_calls := example_bus\<rparr>) path (loaded_agent [17, 250, 1, 2, 43, 3, 0, 2])
      empty_inventory \<noteq> None \<and> getRecordType (loaded_agent [17, 250, 1, 2, 43, 3, 0, 2]) ty \<noteq> None"
    by (rule refresh_memory_safe)
       (simp_all add: loaded_agent_ok empty_inventory_def example_bus_answers)
qed

end
