(* ===== verification/Inventory_Places.thy ===== *)
theory Inventory_Places
  imports Inventory_Safety
begin

text \<open>
  Where the objects of the inventory are: every kind of object has paths of its own form, so no
  constructor of the refresh meets a path that is in use. What is asked of the bus library and of
  the object mapper is stated first; then the forms of the paths, the invariant \<open>placed\<close>, which
  every part of the refresh keeps, and the lemmas that no registration is refused.
\<close>

subsection \<open>The bus and the mapper\<close>

text \<open>The bus library accepts every registration at an object path whose keys are not in use.\<close>

definition bus_registers :: "bus_env \<Rightarrow> bool" where
  "bus_registers env \<longleftrightarrow> (\<forall>keys path ifs. valid_object_path path \<longrightarrow> distinct ifs \<longrightarrow> unused keys path ifs \<longrightarrow>
     bus_accepts env keys path ifs)"

definition inventoryRoot :: string where
  "inventoryRoot = ''/xyz/openbmc_project/inventory''"

definition well_placed :: "string \<Rightarrow> bool" where
  "well_placed p \<longleftrightarrow> valid_object_path p \<and> starts_with inventoryRoot p"

text \<open>The mapper answers with object paths below the path of the query.\<close>

definition mapper_below :: "bus_env \<Rightarrow> bool" where
  "mapper_below env \<longleftrightarrow>
     (\<forall>root ifs tree. system_subtree env root ifs = Some tree \<longrightarrow> starts_with inventoryRoot root \<longrightarrow>
        (\<forall>x \<in> set tree. well_placed (fst x)))
     \<and> (\<forall>tree. module_subtree env = Some tree \<longrightarrow> (\<forall>x \<in> set tree. well_placed (fst x)))"

text \<open>The path the agent was built for, and the prefix of the platform.\<close>

definition inventory_place :: "string \<Rightarrow> bool" where
  "inventory_place path \<longleftrightarrow> well_placed path
     \<and> (path \<noteq> defaultInventoryPath \<longrightarrow> starts_with inventoryRoot (parent_path path))"

definition prefix_ok :: "inventory_config \<Rightarrow> bool" where
  "prefix_ok cfg \<longleftrightarrow> (\<forall>pre. platformPrefix (cpu_opts cfg) = Some pre \<longrightarrow> list_all element_char pre)"

lemma starts_with_append: "starts_with pre p \<Longrightarrow> starts_with pre (p @ q)"
proof -
  assume a: "starts_with pre p"
  then have "length pre \<le> length p" by (metis length_take min.absorb_iff2 starts_with_def)
  then show ?thesis using a by (simp add: starts_with_def)
qed

lemma well_placed_not_root: "well_placed p \<Longrightarrow> p \<noteq> ''/''"
  by (auto simp: well_placed_def starts_with_def inventoryRoot_def)

lemma well_placed_valid: "well_placed p \<Longrightarrow> valid_object_path p"
  by (simp add: well_placed_def)

lemma well_placed_extend: "well_placed p \<Longrightarrow> list_all element_char e \<Longrightarrow> well_placed (p @ e)"
  using valid_extend [of p e] well_placed_not_root [of p] starts_with_append by (auto simp: well_placed_def)

lemma well_placed_append:
  "well_placed p \<Longrightarrow> valid_object_path q \<Longrightarrow> q \<noteq> ''/'' \<Longrightarrow> well_placed (p @ q)"
  using valid_append [of p q] well_placed_not_root [of p] starts_with_append by (auto simp: well_placed_def)

lemma well_placed_below:
  "well_placed p \<Longrightarrow> list_all element_char e \<Longrightarrow> e \<noteq> [] \<Longrightarrow> well_placed (p @ ''/'' @ e)"
  using well_placed_append [of p "''/'' @ e"] valid_element by auto

lemma not_software:
  assumes "starts_with (firmwarePath @ ''/'') p" and "well_placed p"
  shows False
proof -
  have "take 22 (take 30 p) = take 22 (firmwarePath @ ''/'')" "take 22 (take 30 p) = take 22 inventoryRoot"
    using assms unfolding starts_with_def well_placed_def firmwarePath_def inventoryRoot_def by simp_all
  then show False by (simp add: firmwarePath_def inventoryRoot_def)
qed

lemma default_paths_placed:
  "well_placed defaultInventoryPath" "well_placed defaultMotherboardPath" "well_placed tpmPath"
  by code_simp+

lemma motherboard_placed:
  assumes "mapper_below env" and "inventory_place path"
  shows "find_motherboard env path = [] \<or> well_placed (find_motherboard env path)"
proof -
  have sel: "select_motherboard tree = [] \<or> select_motherboard tree \<in> fst ` set tree" for tree
  proof -
    have "chassis_path t = [] \<or> chassis_path t \<in> fst ` set t" for t
      by (induction t rule: chassis_path.induct) auto
    from this [of tree] show ?thesis by (cases tree) (auto simp: select_motherboard_def Let_def)
  qed
  have "starts_with inventoryRoot defaultInventoryPath" using default_paths_placed by (simp add: well_placed_def)
  then have "starts_with inventoryRoot (if path \<noteq> defaultInventoryPath then parent_path path else path)"
    using assms(2) by (simp add: inventory_place_def)
  then show ?thesis
    using assms(1) sel by (force simp: mapper_below_def find_motherboard_def Let_def split: option.splits)
qed

lemma modules_placed: "mapper_below env \<Longrightarrow> x \<in> set (find_modules env) \<Longrightarrow> well_placed (fst x)"
  by (cases "module_subtree env") (auto simp: mapper_below_def find_modules_def)

subsection \<open>The forms of the paths\<close>

definition cpuName :: "cpu_config \<Rightarrow> string" where
  "cpuName cfg = (if nvidia cfg then ''CPU_'' else ''cpu'')"

definition cpu_stem :: "cpu_config \<Rightarrow> string" where "cpu_stem cfg = ''/'' @ cpuName cfg"

definition chassis_stem :: "cpu_config \<Rightarrow> string" where "chassis_stem cfg = ''_'' @ cpuName cfg"

definition dimm_stem :: string where "dimm_stem = ''Memory_''"

definition pcie_stem :: string where "pcie_stem = ''pcieslot''"

lemmas stem_defs = cpu_stem_def chassis_stem_def dimm_stem_def pcie_stem_def cpuName_def

lemma stem_ends [simp]:
  "cpu_stem cfg \<noteq> []" "chassis_stem cfg \<noteq> []" "dimm_stem \<noteq> []" "pcie_stem \<noteq> []"
  "\<not> is_digit (last (cpu_stem cfg))" "\<not> is_digit (last (chassis_stem cfg))"
  "\<not> is_digit (last dimm_stem)" "\<not> is_digit (last pcie_stem)"
  by (simp_all add: stem_defs is_digit_def)

lemma stems_apart:
  "numbered (cpu_stem cfg) j p \<Longrightarrow> \<not> numbered (chassis_stem cfg) k p"
  "numbered (cpu_stem cfg) j p \<Longrightarrow> \<not> numbered dimm_stem k p"
  "numbered (cpu_stem cfg) j p \<Longrightarrow> \<not> numbered pcie_stem k p"
  "numbered (chassis_stem cfg) j p \<Longrightarrow> \<not> numbered dimm_stem k p"
  "numbered (chassis_stem cfg) j p \<Longrightarrow> \<not> numbered pcie_stem k p"
  "numbered dimm_stem j p \<Longrightarrow> \<not> numbered pcie_stem k p"
  by (rule notI, drule (1) numbered_tails, simp, simp, simp, simp, simp add: stem_defs split: if_splits)+

interpretation cpu_paths: path_family "numbered (cpu_stem cfg)" for cfg
  by unfold_locales (use numbered_index in force)

interpretation chassis_paths: path_family "numbered (chassis_stem cfg)" for cfg
  by unfold_locales (use numbered_index in force)

interpretation dimm_paths: path_family "numbered dimm_stem"
  by unfold_locales (use numbered_index in force)

interpretation pcie_paths: path_family "numbered pcie_stem"
  by unfold_locales (use numbered_index in force)

subsection \<open>The places of an inventory\<close>

definition placed :: "inventory_config \<Rightarrow> inventory \<Rightarrow> bool" where
  "placed cfg i \<longleftrightarrow>
     (\<forall>c \<in> set (inv_cpus i). \<exists>k. numbered (cpu_stem (cpu_opts cfg)) k (co_path c))
     \<and> (\<forall>x \<in> set (inv_chassisCpus i). \<exists>k. numbered (chassis_stem (cpu_opts cfg)) k (fst x))
     \<and> (\<forall>x \<in> set (inv_dimms i). \<exists>k. numbered dimm_stem k (fst x))
     \<and> list_all2 (numbered pcie_stem) [0 ..< length (inv_pcies i)] (map po_path (inv_pcies i))
     \<and> (\<forall>x. inv_tpm i = Some x \<longrightarrow> last (fst x) = CHR ''m'')
     \<and> (\<forall>x \<in> set (inv_firmware i). starts_with (firmwarePath @ ''/'') (fst x))
     \<and> (\<forall>s. inv_system i = Some s \<longrightarrow> last (so_path s) = CHR ''s'')"

definition stage_keeps :: "(inventory \<Rightarrow> bool) \<Rightarrow> stage \<Rightarrow> bool" where
  "stage_keeps P st \<longleftrightarrow> (\<forall>i e i'. P i \<longrightarrow> st i = Some (e, i') \<longrightarrow> P i')"

lemma and_then_Some_iff:
  "and_then s1 s2 i = Some (e, i2) \<longleftrightarrow>
     (\<exists>i1. s1 i = Some (Continues, i1) \<and> s2 i1 = Some (e, i2)) \<or> (e \<noteq> Continues \<and> s1 i = Some (e, i2))"
  by (cases "s1 i") (auto simp: and_then_def split: ending.splits)

lemma stage_keeps_and_then: "stage_keeps P s1 \<Longrightarrow> stage_keeps P s2 \<Longrightarrow> stage_keeps P (and_then s1 s2)"
  unfolding stage_keeps_def and_then_Some_iff by blast

text \<open>The path of a processor ends with its index, and so does the path of its chassis.\<close>

lemma filename_dir:
  assumes "CHR ''/'' \<notin> set e"
  shows "filename (d @ ''/'' @ e) = e" and "dir_part (d @ ''/'' @ e) = d @ ''/''"
proof -
  have e: "\<forall>c \<in> set (rev e). c \<noteq> CHR ''/''" using assms by auto
  show "filename (d @ ''/'' @ e) = e"
    using takeWhile_append2 [of "rev e" "\<lambda>c. c \<noteq> CHR ''/''" "CHR ''/'' # rev d"] e
    by (simp add: filename_def)
  show "dir_part (d @ ''/'' @ e) = d @ ''/''"
    using dropWhile_append2 [of "rev e" "\<lambda>c. c \<noteq> CHR ''/''" "CHR ''/'' # rev d"] e
    by (simp add: dir_part_def)
qed

lemma cpuName_element: "list_all element_char (cpuName cfg @ dec k)"
proof -
  have "list_all element_char (cpuName cfg)"
    by (simp add: cpuName_def element_char_def is_alpha_def is_digit_def)
  then show ?thesis using dec_element by simp
qed

lemma cpuName_no_slash: "CHR ''/'' \<notin> set (cpuName cfg @ dec k)"
  using cpuName_element [of cfg k] element_char_not_slash by (force simp: list_all_iff)

lemma module_of_socket_mem: "module_of_socket single sock mods = Some p \<Longrightarrow> p \<in> fst ` set mods"
  by (induction single sock mods rule: module_of_socket.induct) (auto split: if_splits)

lemma cpu_place_form:
  assumes "cpu_place cfg m st mb mods k = Some (path, cont)"
  shows "\<exists>pd. path = pd @ ''/'' @ cpuName cfg @ dec k \<and> (pd = defaultMotherboardPath \<or> pd \<in> fst ` set mods)"
proof -
  have path: "cpuPath cfg @ dec k = defaultMotherboardPath @ ''/'' @ cpuName cfg @ dec k"
    by (simp add: cpuPath_def defaultMotherboardPath_def cpuName_def)
  then have "filename (cpuPath cfg @ dec k) = cpuName cfg @ dec k"
    by (simp only: filename_dir(1) [OF cpuName_no_slash])
  then show ?thesis
    using assms path module_of_socket_mem
    by (fastforce simp: cpu_place_def Let_def bind_eq_Some_conv split: if_splits option.splits)
qed

lemma decorated_form:
  "decorateName (Some pre) (pd @ ''/'' @ cpuName cfg @ dec k) = pd @ ''/'' @ pre @ ''_'' @ cpuName cfg @ dec k"
  using filename_dir [OF cpuName_no_slash, of pd cfg k] by (simp add: decorateName_def)

lemma cpu_numbered: "numbered (cpu_stem cfg) k (pd @ ''/'' @ cpuName cfg @ dec k)"
  by (auto simp: numbered_def cpu_stem_def)

lemma chassis_numbered: "numbered (chassis_stem cfg) k (pd @ ''/'' @ pre @ ''_'' @ cpuName cfg @ dec k)"
  unfolding numbered_def chassis_stem_def by (rule exI [of _ "pd @ ''/'' @ pre"]) simp

lemma Cpu_chassis_result:
  assumes "Cpu_chassis cfg env m st path k mb assoc i = Some (r, ch)"
  shows "set ch \<subseteq> set (inv_chassisCpus i) \<union> {x. platformPrefix (cpu_opts cfg) \<noteq> None \<and> fst x = assoc}"
  using assms by (auto simp: Cpu_chassis_def Let_def bind_eq_Some_conv split: option.splits if_splits)

lemma Cpu_new_result:
  assumes "Cpu_new cfg env m st path k mb assoc i = Some (r, ch)"
  shows "set ch \<subseteq> set (inv_chassisCpus i) \<union> {x. platformPrefix (cpu_opts cfg) \<noteq> None \<and> fst x = assoc}"
    and "r = Inr c \<Longrightarrow> co_path c = path"
  using assms Cpu_chassis_result
  by (fastforce simp: Cpu_new_def bind_eq_Some_conv split: if_splits option.splits)+

text \<open>One round of each loop.\<close>

lemma cpu_loop_step:
  assumes "cpu_loop cfg env m st mb mods (k # js) i = Some (e, i')"
  obtains path cont r ch where "cpu_place (cpu_opts cfg) m st mb mods k = Some (path, cont)"
    and "Cpu_new cfg env m st path (word_of_nat k) cont (decorateName (platformPrefix (cpu_opts cfg)) path) i = Some (r, ch)"
    and "\<And>x. r = Inl x \<Longrightarrow> e = Throws x \<and> i' = i\<lparr>inv_chassisCpus := ch\<rparr>"
    and "\<And>c. r = Inr c \<Longrightarrow>
      cpu_loop cfg env m st mb mods js (i\<lparr>inv_cpus := inv_cpus i @ [c], inv_chassisCpus := ch\<rparr>) = Some (e, i')"
proof -
  obtain path cont where place: "cpu_place (cpu_opts cfg) m st mb mods k = Some (path, cont)"
    using assms by (auto simp: bind_eq_Some_conv)
  moreover obtain r ch where "Cpu_new cfg env m st path (word_of_nat k) cont
      (decorateName (platformPrefix (cpu_opts cfg)) path) i = Some (r, ch)"
    using assms place by (auto simp: bind_eq_Some_conv Let_def)
  ultimately show ?thesis using that assms by (cases r) (auto simp: Let_def)
qed

lemma dimm_loop_step:
  assumes "dimm_loop cfg env m st mb (k # js) i = Some (e, i')"
  obtains d nm r where "getSMBIOSTypeIndexPtr m st (type_code memoryDeviceType) (word_of_nat k) = Some d"
    and "board_memory_name m d (inv_baseboards i) (''Memory_'' @ dec k) = Some nm"
    and "Dimm_new cfg env m st (defaultMotherboardPath @ ''/'' @ nm) (word_of_nat k) mb i = Some r"
    and "\<And>x. r = Inl x \<Longrightarrow> e = Throws x \<and> i' = i"
    and "\<And>y. r = Inr y \<Longrightarrow> dimm_loop cfg env m st mb js
      (i\<lparr>inv_dimms := inv_dimms i @ [(defaultMotherboardPath @ ''/'' @ nm, y)]\<rparr>) = Some (e, i')"
proof -
  obtain d where d: "getSMBIOSTypeIndexPtr m st (type_code memoryDeviceType) (word_of_nat k) = Some d"
    using assms by (auto simp: bind_eq_Some_conv)
  obtain nm where nm: "board_memory_name m d (inv_baseboards i) (''Memory_'' @ dec k) = Some nm"
    using assms d by (auto simp: bind_eq_Some_conv)
  obtain r where r: "Dimm_new cfg env m st (defaultMotherboardPath @ ''/'' @ nm) (word_of_nat k) mb i = Some r"
    using assms d nm by (auto simp: bind_eq_Some_conv Let_def)
  show ?thesis by (rule that [OF d nm r]) (use assms d nm r in \<open>simp_all add: Let_def\<close>)
qed

lemma pcie_loop_step:
  assumes "pcie_refresh_loop cfg env m st mb path (k # js) i = Some (e, i')"
  obtains (new) r where "length (inv_pcies i) < k + 1"
      and "Pcie_new cfg env m st (under_motherboard mb (path @ pcieSuffix @ dec k)) (word_of_nat k) mb i = Some r"
      and "\<And>x. r = Inl x \<Longrightarrow> e = Throws x \<and> i' = i"
      and "\<And>s. r = Inr s \<Longrightarrow>
        pcie_refresh_loop cfg env m st mb path js (i\<lparr>inv_pcies := inv_pcies i @ [s]\<rparr>) = Some (e, i')"
    | (kept) s where "k < length (inv_pcies i)"
      and "pcieInfoUpdate m st (po_num (inv_pcies i ! k)) mb (po_props (inv_pcies i ! k)) = Some s"
      and "pcie_refresh_loop cfg env m st mb path js
        (i\<lparr>inv_pcies := (inv_pcies i)[k := (inv_pcies i ! k)\<lparr>po_props := s\<rparr>]\<rparr>) = Some (e, i')"
proof (cases "length (inv_pcies i) < k + 1")
  case True
  moreover obtain r where "Pcie_new cfg env m st (under_motherboard mb (path @ pcieSuffix @ dec k)) (word_of_nat k) mb i = Some r"
    using assms True by (auto simp: bind_eq_Some_conv Let_def)
  ultimately show ?thesis using new assms by (cases r) (simp_all add: Let_def)
next
  case False
  then show ?thesis using kept assms by (auto simp: bind_eq_Some_conv Let_def)
qed

lemma cpu_loop_placed:
  "cpu_loop cfg env m st mb mods js i = Some (e, i') \<Longrightarrow> placed cfg i \<Longrightarrow> placed cfg i'"
proof (induction js arbitrary: i)
  case (Cons k js)
  from Cons.prems(1) obtain path cont r ch where place: "cpu_place (cpu_opts cfg) m st mb mods k = Some (path, cont)"
    and new: "Cpu_new cfg env m st path (word_of_nat k) cont (decorateName (platformPrefix (cpu_opts cfg)) path) i = Some (r, ch)"
    and Inl: "\<And>x. r = Inl x \<Longrightarrow> e = Throws x \<and> i' = i\<lparr>inv_chassisCpus := ch\<rparr>"
    and Inr: "\<And>c. r = Inr c \<Longrightarrow>
      cpu_loop cfg env m st mb mods js (i\<lparr>inv_cpus := inv_cpus i @ [c], inv_chassisCpus := ch\<rparr>) = Some (e, i')"
    by (rule cpu_loop_step) blast
  obtain pd where path: "path = pd @ ''/'' @ cpuName (cpu_opts cfg) @ dec k"
    using cpu_place_form [OF place] by blast
  have ch: "\<exists>k. numbered (chassis_stem (cpu_opts cfg)) k (fst x)" if x: "x \<in> set ch" for x
  proof (cases "x \<in> set (inv_chassisCpus i)")
    case True
    then show ?thesis using Cons.prems(2) by (simp add: placed_def)
  next
    case False
    then obtain pre where "platformPrefix (cpu_opts cfg) = Some pre" "fst x = decorateName (Some pre) path"
      using Cpu_new_result(1) [OF new] x by auto
    then have "fst x = pd @ ''/'' @ pre @ ''_'' @ cpuName (cpu_opts cfg) @ dec k"
      using path by (simp only: decorated_form)
    then show ?thesis using chassis_numbered by metis
  qed
  show ?case
  proof (cases r)
    case (Inl x)
    then show ?thesis using Cons.prems(2) \<open>\<And>x. r = Inl x \<Longrightarrow> _\<close> ch by (simp add: placed_def)
  next
    case (Inr c)
    have "\<exists>k. numbered (cpu_stem (cpu_opts cfg)) k (co_path c)"
      using Cpu_new_result(2) [OF new Inr] path cpu_numbered by metis
    then have "placed cfg (i\<lparr>inv_cpus := inv_cpus i @ [c], inv_chassisCpus := ch\<rparr>)"
      using ch Cons.prems(2) by (auto simp: placed_def)
    then show ?thesis using Cons.IH \<open>\<And>c. r = Inr c \<Longrightarrow> _\<close> Inr by blast
  qed
qed simp

lemma board_memory_name_form:
  "board_memory_name m d bs nm = Some nm' \<Longrightarrow> nm' = nm \<or> (\<exists>b k. nm' = b @ ''_Memory_'' @ dec k)"
  by (induction m d bs nm rule: board_memory_name.induct)
     (auto simp: bind_eq_Some_conv split: ptr.splits prod.splits if_splits)

lemma dimm_name_numbered:
  assumes "board_memory_name m d bs (''Memory_'' @ dec k) = Some nm"
  shows "\<exists>k. numbered dimm_stem k (defaultMotherboardPath @ ''/'' @ nm)"
proof -
  consider "nm = ''Memory_'' @ dec k" | b j where "nm = b @ ''_Memory_'' @ dec j"
    using board_memory_name_form [OF assms] by blast
  then show ?thesis
  proof cases
    case 1
    then show ?thesis
      unfolding numbered_def dimm_stem_def by (intro exI [of _ k] exI [of _ "defaultMotherboardPath @ ''/''"]) simp
  next
    case 2
    then show ?thesis
      unfolding numbered_def dimm_stem_def
      by (intro exI [of _ j] exI [of _ "defaultMotherboardPath @ ''/'' @ b @ ''_''"]) simp
  qed
qed

lemma dimm_loop_placed:
  "dimm_loop cfg env m st mb js i = Some (e, i') \<Longrightarrow> placed cfg i \<Longrightarrow> placed cfg i'"
proof (induction js arbitrary: i)
  case (Cons k js)
  from Cons.prems(1) obtain d nm r where nm: "board_memory_name m d (inv_baseboards i) (''Memory_'' @ dec k) = Some nm"
    and Inl: "\<And>x. r = Inl x \<Longrightarrow> e = Throws x \<and> i' = i"
    and Inr: "\<And>y. r = Inr y \<Longrightarrow> dimm_loop cfg env m st mb js
      (i\<lparr>inv_dimms := inv_dimms i @ [(defaultMotherboardPath @ ''/'' @ nm, y)]\<rparr>) = Some (e, i')"
    by (rule dimm_loop_step) blast
  have "placed cfg (i\<lparr>inv_dimms := inv_dimms i @ [(defaultMotherboardPath @ ''/'' @ nm, x)]\<rparr>)" for x
    using Cons.prems(2) dimm_name_numbered [OF nm] by (simp add: placed_def)
  then show ?case using Inl Inr Cons.IH Cons.prems(2) by (cases r) blast+
qed simp

text \<open>The slot paths: the number stays at the end when the motherboard is replaced.\<close>

lemma under_motherboard_append:
  assumes "length defaultMotherboardPath \<le> length p"
  shows "under_motherboard mb (p @ q) = under_motherboard mb p @ q"
  using assms by (simp add: under_motherboard_def starts_with_def)

lemma starts_with_take:
  assumes "starts_with pre (p @ r)" and "length p \<le> length pre"
  shows "take (length p) pre = p"
proof -
  have "take (length p) (take (length pre) (p @ r)) = p" using assms(2) by simp
  then show ?thesis using assms(1) by (simp only: starts_with_def)
qed

lemma no_early_suffix:
  "list_all (\<lambda>n. drop (n - 21) (take n defaultMotherboardPath) \<noteq> ''/chassis/motherboard/'') [0 ..< 57]"
  by code_simp

lemma pcie_path_numbered: "numbered pcie_stem k (under_motherboard mb (path @ pcieSuffix @ dec k))"
proof -
  let ?p = "path @ ''/chassis/motherboard/''"
  have eq: "path @ pcieSuffix @ dec k = ?p @ pcie_stem @ dec k" by (simp add: pcieSuffix_def pcie_stem_def)
  show ?thesis
  proof (cases "length defaultMotherboardPath \<le> length ?p")
    case True
    then have "under_motherboard mb (path @ pcieSuffix @ dec k) = under_motherboard mb ?p @ pcie_stem @ dec k"
      unfolding eq by (rule under_motherboard_append)
    then show ?thesis by (auto simp: numbered_def)
  next
    case False
    have "\<not> starts_with defaultMotherboardPath (?p @ pcie_stem @ dec k)"
    proof
      assume "starts_with defaultMotherboardPath (?p @ pcie_stem @ dec k)"
      then have "take (length ?p) defaultMotherboardPath = ?p"
        by (rule starts_with_take) (use False in simp)
      then have "drop (length ?p - 21) (take (length ?p) defaultMotherboardPath) = ''/chassis/motherboard/''" by simp
      moreover have "length ?p \<in> set [0 ..< 57]" using False by (simp add: defaultMotherboardPath_def)
      ultimately show False using no_early_suffix unfolding list_all_iff by blast
    qed
    then have "under_motherboard mb (path @ pcieSuffix @ dec k) = ?p @ pcie_stem @ dec k"
      unfolding eq by (simp add: under_motherboard_def)
    then show ?thesis unfolding numbered_def by blast
  qed
qed

lemma pcie_loop_placed:
  assumes "pcie_refresh_loop cfg env m st mb path [j ..< n] i = Some (e, i')" and "placed cfg i"
    and "j \<le> length (inv_pcies i)"
  shows "placed cfg i'"
  using assms
proof (induction "n - j" arbitrary: j i)
  case 0
  then show ?case by simp
next
  case (Suc d)
  then have js: "[j ..< n] = j # [Suc j ..< n]" by (simp add: upt_rec)
  have d: "d = n - Suc j" using Suc.hyps(2) by simp
  have pl: "list_all2 (numbered pcie_stem) [0 ..< length (inv_pcies i)] (map po_path (inv_pcies i))"
    using Suc.prems(2) by (simp add: placed_def)
  from Suc.prems(1) [unfolded js] show ?case
  proof (cases rule: pcie_loop_step)
    case (new r)
    show ?thesis
    proof (cases r)
      case (Inl x)
      then show ?thesis using new(3) Suc.prems(2) by simp
    next
      case (Inr s)
      then have "po_path s = under_motherboard mb (path @ pcieSuffix @ dec j)"
        using new(2) by (auto simp: Pcie_new_def bind_eq_Some_conv split: if_splits)
      then have "numbered pcie_stem (length (inv_pcies i)) (po_path s)"
        using pcie_path_numbered new(1) Suc.prems(3) by (metis Suc_eq_plus1 le_antisym less_Suc_eq_le)
      then have "placed cfg (i\<lparr>inv_pcies := inv_pcies i @ [s]\<rparr>)"
        using Suc.prems(2) pl by (simp add: placed_def list_all2_appendI)
      then show ?thesis
        using Suc.hyps(1) [OF d new(4) [OF Inr]] Suc.prems(3) new(1) by simp
    qed
  next
    case (kept s)
    have "map po_path ((inv_pcies i)[j := (inv_pcies i ! j)\<lparr>po_props := s\<rparr>]) = map po_path (inv_pcies i)"
      using kept(1) by (simp add: map_update list_update_same_conv)
    then have "placed cfg (i\<lparr>inv_pcies := (inv_pcies i)[j := (inv_pcies i ! j)\<lparr>po_props := s\<rparr>]\<rparr>)"
      using Suc.prems(2) by (simp add: placed_def)
    then show ?thesis using Suc.hyps(1) [OF d kept(3)] kept(1) by simp
  qed
qed

lemma firmware_loop_step:
  assumes "firmware_loop cfg env m st paths (k # js) i = Some i'"
  shows "\<exists>fs. firmware_loop cfg env m st paths js (i\<lparr>inv_firmware := fs\<rparr>) = Some i'
    \<and> (\<forall>x \<in> set fs. x \<in> set (inv_firmware i) \<or> starts_with (firmwarePath @ ''/'') (fst x))"
proof -
  have sw: "starts_with (firmwarePath @ ''/'') (firmwarePath @ ''/'' @ nm)" for nm
    by (simp add: starts_with_def)
  obtain fn ident where names: "getFirmwareName m st k = Some (fn, ident)"
    using assms by (auto simp: bind_eq_Some_conv)
  define nm where "nm = sanitize False (if ident = [] then ''firmware'' @ dec k else ident)"
  have run: "firmware_loop cfg env m st paths js i = Some i' \<or>
    (\<exists>r :: exn + Firmware. firmware_loop cfg env m st paths js
       (case r of Inl e \<Rightarrow> i | Inr f \<Rightarrow> i\<lparr>inv_firmware := inv_firmware i @ [(firmwarePath @ ''/'' @ nm, f)]\<rparr>) = Some i')"
  proof (cases "excluded_component cfg fn \<or> list_ex (\<lambda>s. filename s = nm) paths
      \<or> search ''psu'' (map tolower (firmwarePath @ ''/'' @ nm)) \<noteq> None")
    case True
    then show ?thesis
      using assms
      unfolding firmware_loop.simps names bind.bind_lunit prod.case Let_def nm_def [symmetric]
      by (elim disjE) (simp_all only: if_True if_False if_cancel simp_thms split: if_split_asm)
  next
    case False
    then have eq: "firmware_loop cfg env m st paths (k # js) i = do {
        r \<leftarrow> Firmware_new cfg env m st (firmwarePath @ ''/'' @ nm) k i;
        firmware_loop cfg env m st paths js
          (case r of Inl e \<Rightarrow> i | Inr f \<Rightarrow> i\<lparr>inv_firmware := inv_firmware i @ [(firmwarePath @ ''/'' @ nm, f)]\<rparr>) }"
      unfolding firmware_loop.simps names bind.bind_lunit prod.case Let_def nm_def [symmetric]
      by (simp only: if_False de_Morgan_disj not_not simp_thms)
    show ?thesis
    proof (cases "Firmware_new cfg env m st (firmwarePath @ ''/'' @ nm) k i")
      case None
      then show ?thesis using assms unfolding eq by (simp only: bind.bind_lzero option.distinct)
    next
      case (Some r)
      then show ?thesis using assms unfolding eq by (intro disjI2 exI [of _ r]) (simp only: bind.bind_lunit)
    qed
  qed
  consider "firmware_loop cfg env m st paths js (i\<lparr>inv_firmware := inv_firmware i\<rparr>) = Some i'"
    | f where "firmware_loop cfg env m st paths js
        (i\<lparr>inv_firmware := inv_firmware i @ [(firmwarePath @ ''/'' @ nm, f)]\<rparr>) = Some i'"
  proof (cases rule: disjE [OF run])
    case 1
    then show ?thesis using that(1) by simp
  next
    case 2
    then obtain r :: "exn + Firmware" where "firmware_loop cfg env m st paths js
       (case r of Inl e \<Rightarrow> i | Inr f \<Rightarrow> i\<lparr>inv_firmware := inv_firmware i @ [(firmwarePath @ ''/'' @ nm, f)]\<rparr>) = Some i'"
      by blast
    then show ?thesis using that by (cases r) (simp_all only: sum.case, simp)
  qed
  then show ?thesis
  proof cases
    case 1
    then show ?thesis by blast
  next
    case (2 f)
    have "\<forall>x \<in> set (inv_firmware i @ [(firmwarePath @ ''/'' @ nm, f)]).
        x \<in> set (inv_firmware i) \<or> starts_with (firmwarePath @ ''/'') (fst x)"
      using sw [of nm] by simp
    then show ?thesis using 2 by blast
  qed
qed

lemma firmware_loop_placed:
  "firmware_loop cfg env m st paths js i = Some i' \<Longrightarrow> placed cfg i \<Longrightarrow> placed cfg i'"
proof (induction js arbitrary: i)
  case (Cons k js)
  obtain fs where fs: "firmware_loop cfg env m st paths js (i\<lparr>inv_firmware := fs\<rparr>) = Some i'"
    "\<forall>x \<in> set fs. x \<in> set (inv_firmware i) \<or> starts_with (firmwarePath @ ''/'') (fst x)"
    using firmware_loop_step [OF Cons.prems(1)] by blast
  have "placed cfg (i\<lparr>inv_firmware := fs\<rparr>)" using Cons.prems(2) fs(2) unfolding placed_def by auto
  then show ?case using fs(1) Cons.IH by blast
qed simp

lemma System_new_path: "System_new cfg env m st path i = Some (Inr s) \<Longrightarrow> so_path s = path"
  by (auto simp: System_new_def bind_eq_Some_conv rethrow_Inr_iff split: if_splits)

lemma trimmed: "(if n < length xs then take n xs else xs) = take n xs"
  by simp

lemma trimmed_placed:
  assumes "placed cfg i"
  shows "placed cfg (i\<lparr>inv_pcies := take n (inv_pcies i)\<rparr>)"
proof -
  have "list_all2 (numbered pcie_stem) (take n [0 ..< length (inv_pcies i)]) (take n (map po_path (inv_pcies i)))"
    using assms by (intro list_all2_takeI) (simp add: placed_def)
  then have "list_all2 (numbered pcie_stem) [0 ..< length (take n (inv_pcies i))] (map po_path (take n (inv_pcies i)))"
    by (cases "n \<le> length (inv_pcies i)") (simp_all add: take_map)
  then show ?thesis using assms unfolding placed_def by simp
qed

lemma tpm_path_form: "under_motherboard mb tpmPath = (if mb = [] then tpmPath else mb @ ''/tpm'')"
  by (simp add: under_motherboard_def tpmPath_def defaultMotherboardPath_def starts_with_def)

lemma tpm_path_last: "last (under_motherboard mb tpmPath) = CHR ''m''"
  unfolding tpm_path_form by (simp add: tpmPath_def)

lemma keeps_placed:
  "stage_keeps (placed cfg) (refresh_baseboards cfg m st)"
  "stage_keeps (placed cfg) (refresh_cpus cfg env m st mb mods)"
  "stage_keeps (placed cfg) (refresh_dimms cfg env m st mb)"
  "stage_keeps (placed cfg) (refresh_pcies cfg env m st mb path)"
  "stage_keeps (placed cfg) (refresh_tpm cfg env m st mb)"
  "stage_keeps (placed cfg) (refresh_firmware cfg env m st)"
  "stage_keeps (placed cfg) (refresh_system cfg env m st path)"
proof -
  have bb: "placed cfg (i\<lparr>inv_baseboards := bs\<rparr>)" if "placed cfg i" for i bs
    using that unfolding placed_def by simp
  show "stage_keeps (placed cfg) (refresh_baseboards cfg m st)"
    by (auto simp: stage_keeps_def bb refresh_baseboards_def bind_eq_Some_conv split: if_splits option.splits)
  have cpus: "placed cfg (i\<lparr>inv_cpus := []\<rparr>)" and dimms: "placed cfg (i\<lparr>inv_dimms := []\<rparr>)"
    and fw: "placed cfg (i\<lparr>inv_firmware := []\<rparr>)" and tpm: "placed cfg (i\<lparr>inv_tpm := None\<rparr>)"
    and sys: "placed cfg (i\<lparr>inv_system := None\<rparr>)" if "placed cfg i" for i
    using that unfolding placed_def by simp_all
  have tpm': "placed cfg (i\<lparr>inv_tpm := Some (under_motherboard mb tpmPath, t)\<rparr>)" if "placed cfg i" for i t
    using that tpm_path_last [of mb] unfolding placed_def by simp
  have sys': "placed cfg (i\<lparr>inv_system := Some s\<rparr>)" if "placed cfg i" "so_path s = path @ systemSuffix" for i s
    using that unfolding placed_def by (simp add: systemSuffix_def)
  show "stage_keeps (placed cfg) (refresh_cpus cfg env m st mb mods)"
    by (auto simp: stage_keeps_def refresh_cpus_def bind_eq_Some_conv Let_def cpus split: if_splits option.splits
        dest!: cpu_loop_placed)
  show "stage_keeps (placed cfg) (refresh_dimms cfg env m st mb)"
    by (auto simp: stage_keeps_def refresh_dimms_def bind_eq_Some_conv Let_def dimms split: if_splits option.splits
        dest!: dimm_loop_placed)
  show "stage_keeps (placed cfg) (refresh_pcies cfg env m st mb path)"
    unfolding stage_keeps_def
  proof (intro allI impI)
    fix i e i' assume i: "placed cfg i" and run: "refresh_pcies cfg env m st mb path i = Some (e, i')"
    then consider "i' = i" | n where "pcie_refresh_loop cfg env m st mb path [0 ..< n]
        (i\<lparr>inv_pcies := take n (inv_pcies i)\<rparr>) = Some (e, i')"
      unfolding refresh_pcies_def bind_eq_Some_conv Let_def trimmed by (auto split: option.splits)
    then show "placed cfg i'" using i pcie_loop_placed [OF _ trimmed_placed [OF i]] by cases simp_all
  qed
  show "stage_keeps (placed cfg) (refresh_tpm cfg env m st mb)"
    by (auto simp: stage_keeps_def refresh_tpm_def bind_eq_Some_conv Let_def tpm tpm' split: sum.split_asm if_splits)
  show "stage_keeps (placed cfg) (refresh_firmware cfg env m st)"
    by (auto simp: stage_keeps_def refresh_firmware_def bind_eq_Some_conv Let_def fw split: option.splits
        dest!: firmware_loop_placed)
  show "stage_keeps (placed cfg) (refresh_system cfg env m st path)"
    unfolding stage_keeps_def
  proof (intro allI impI)
    fix i e i' assume i: "placed cfg i" and run: "refresh_system cfg env m st path i = Some (e, i')"
    obtain r where r: "System_new cfg env m st (path @ systemSuffix) (i\<lparr>inv_system := None\<rparr>) = Some r"
      using run by (auto simp: refresh_system_def Let_def bind_eq_Some_conv)
    then have i': "i' = (case r of Inl x \<Rightarrow> i\<lparr>inv_system := None\<rparr> | Inr s \<Rightarrow> i\<lparr>inv_system := Some s\<rparr>)"
      using run by (cases r) (simp_all add: refresh_system_def Let_def)
    show "placed cfg i'"
      using i' sys [OF i] sys' [OF i System_new_path] r by (cases r) simp_all
  qed
qed

subsection \<open>No registration is refused\<close>

lemma interfaces_not_Nil [simp]:
  "Dimm_interfaces d \<noteq> []" "Cpu_interfaces \<noteq> []" "chassisCpu_interfaces \<noteq> []" "Pcie_interfaces \<noteq> []"
  by (simp_all add: interface_defs)

lemma registered_paths:
  "fst ` set (registered cfg i) \<subseteq> co_path ` set (inv_cpus i) \<union> fst ` set (inv_chassisCpus i) \<union> fst ` set (inv_dimms i)
     \<union> po_path ` set (inv_pcies i) \<union> fst ` set_option (inv_tpm i) \<union> fst ` set (inv_firmware i)
     \<union> so_path ` set_option (inv_system i)"
proof -
  have many: "fst ` set (concat (map f xs)) \<subseteq> g ` set xs" if "\<And>x. fst ` set (f x) \<subseteq> {g x}"
    for f :: "'x \<Rightarrow> object_key list" and g :: "'x \<Rightarrow> string" and xs
  proof (induction xs)
    case (Cons x xs)
    then show ?case using that [of x] by auto
  qed simp
  have lists: "fst ` set (concat (map cpu_keys (inv_cpus i))) \<subseteq> co_path ` set (inv_cpus i)"
    "fst ` set (concat (map (\<lambda>(path, c). object_keys path chassisCpu_interfaces) (inv_chassisCpus i)))
      \<subseteq> fst ` set (inv_chassisCpus i)"
    "fst ` set (concat (map (\<lambda>(path, d). object_keys path (Dimm_interfaces (dimm_opts cfg))) (inv_dimms i)))
      \<subseteq> fst ` set (inv_dimms i)"
    "fst ` set (concat (map (\<lambda>s. object_keys (po_path s) Pcie_interfaces) (inv_pcies i))) \<subseteq> po_path ` set (inv_pcies i)"
    "fst ` set (concat (map (\<lambda>(path, f). object_keys path (Firmware_interfaces (expose_fw cfg))) (inv_firmware i)))
      \<subseteq> fst ` set (inv_firmware i)"
    by (rule many, force simp: cpu_keys_def)+
  have single: "fst ` set (case inv_tpm i of None \<Rightarrow> [] | Some (path, t) \<Rightarrow> object_keys path Tpm_interfaces)
      \<subseteq> fst ` set_option (inv_tpm i)"
    "fst ` set (case inv_system i of None \<Rightarrow> [] | Some s \<Rightarrow> object_keys (so_path s) System_interfaces)
      \<subseteq> so_path ` set_option (inv_system i)"
    by (cases "inv_tpm i"; cases "inv_system i"; auto)+
  show ?thesis
    unfolding registered_def set_append image_Un Un_assoc by (intro Un_mono lists single)
qed

lemma accepted:
  assumes "bus_registers env" and "well_placed path" and "distinct ifs" and "path \<notin> fst ` set keys"
  shows "bus_accepts env keys path ifs"
  using assms unused_path unfolding bus_registers_def by (blast intro: well_placed_valid)

text \<open>A new path of one kind against the objects of the other kinds.\<close>

lemma numbered_last: "numbered stem k p \<Longrightarrow> last p \<noteq> CHR ''m'' \<and> last p \<noteq> CHR ''s''"
  using numbered_digit [of stem k p] by (auto simp: is_digit_def)

lemma new_numbered_path:
  assumes "placed cfg i" and "well_placed p" and "numbered stem k p"
    and "\<And>c. c \<in> set (inv_cpus i) \<Longrightarrow> co_path c \<noteq> p"
    and "\<And>x. x \<in> set (inv_chassisCpus i) \<Longrightarrow> fst x \<noteq> p"
    and "\<And>x. x \<in> set (inv_dimms i) \<Longrightarrow> fst x \<noteq> p"
    and "\<And>x. x \<in> set (inv_pcies i) \<Longrightarrow> po_path x \<noteq> p"
  shows "p \<notin> fst ` set (registered cfg i)"
proof -
  have tpm: "fst x \<noteq> p" if "x \<in> set_option (inv_tpm i)" for x
    using that assms(1) numbered_last [OF assms(3)] by (auto simp: placed_def)
  have sys: "so_path x \<noteq> p" if "x \<in> set_option (inv_system i)" for x
    using that assms(1) numbered_last [OF assms(3)] by (auto simp: placed_def)
  have fw: "fst x \<noteq> p" if "x \<in> set (inv_firmware i)" for x
  proof -
    have "starts_with (firmwarePath @ ''/'') (fst x)" using that assms(1) unfolding placed_def by blast
    then show ?thesis using not_software assms(2) by blast
  qed
  show ?thesis
  proof
    assume "p \<in> fst ` set (registered cfg i)"
    from subsetD [OF registered_paths this] show False
      by (elim UnE imageE) (use assms(4-7) tpm sys fw in blast)+
  qed
qed

lemma placedD:
  assumes "placed cfg i"
  shows "c \<in> set (inv_cpus i) \<Longrightarrow> \<exists>k. numbered (cpu_stem (cpu_opts cfg)) k (co_path c)"
    and "x \<in> set (inv_chassisCpus i) \<Longrightarrow> \<exists>k. numbered (chassis_stem (cpu_opts cfg)) k (fst x)"
    and "y \<in> set (inv_dimms i) \<Longrightarrow> \<exists>k. numbered dimm_stem k (fst y)"
    and "s \<in> set (inv_pcies i) \<Longrightarrow> \<exists>k. numbered pcie_stem k (po_path s)"
proof -
  assume "s \<in> set (inv_pcies i)"
  then show "\<exists>k. numbered pcie_stem k (po_path s)"
    using assms by (auto simp: placed_def in_set_conv_nth list_all2_conv_all_nth)
qed (use assms in \<open>simp_all add: placed_def\<close>)

lemma new_cpu_path:
  assumes "placed cfg i" and "well_placed p" and "numbered (cpu_stem (cpu_opts cfg)) k p"
    and "\<And>c. c \<in> set (inv_cpus i) \<Longrightarrow> co_path c \<noteq> p"
  shows "p \<notin> fst ` set (registered cfg i)"
  by (rule new_numbered_path [OF assms])
     (use placedD [OF assms(1)] stems_apart(1-3) [OF assms(3)] in blast)+

lemma new_chassis_path:
  assumes "placed cfg i" and "well_placed p" and "numbered (chassis_stem (cpu_opts cfg)) k p"
    and "\<And>x. x \<in> set (inv_chassisCpus i) \<Longrightarrow> fst x \<noteq> p"
  shows "p \<notin> fst ` set (registered cfg i)"
  by (rule new_numbered_path [OF assms(1-3) _ assms(4)])
     (use placedD [OF assms(1)] stems_apart(1,4,5) assms(3) in blast)+

lemma new_dimm_path:
  assumes "placed cfg i" and "well_placed p" and "numbered dimm_stem k p"
    and "\<And>x. x \<in> set (inv_dimms i) \<Longrightarrow> fst x \<noteq> p"
  shows "p \<notin> fst ` set (registered cfg i)"
  by (rule new_numbered_path [OF assms(1-3) _ _ assms(4)])
     (use placedD [OF assms(1)] stems_apart(2,4,6) assms(3) in blast)+

lemma new_pcie_path:
  assumes "placed cfg i" and "well_placed p" and "numbered pcie_stem k p"
    and "\<And>x. x \<in> set (inv_pcies i) \<Longrightarrow> po_path x \<noteq> p"
  shows "p \<notin> fst ` set (registered cfg i)"
  by (rule new_numbered_path [OF assms(1-3) _ _ _ assms(4)])
     (use placedD [OF assms(1)] stems_apart(3,5,6) assms(3) in blast)+

text \<open>The constructors of the loops, for an object whose index is new.\<close>

definition chassis_before :: "inventory_config \<Rightarrow> nat \<Rightarrow> (string \<times> chassisCpu) list \<Rightarrow> bool" where
  "chassis_before cfg k ch \<longleftrightarrow> (platformPrefix (cpu_opts cfg) \<noteq> None \<longrightarrow>
     (\<forall>x \<in> set ch. \<exists>j < k. numbered (chassis_stem (cpu_opts cfg)) j (fst x)))"

lemma Cpu_chassis_accepted:
  assumes "bus_registers env" and "placed cfg i" and "prefix_ok cfg" and "well_placed pd"
    and path: "path = pd @ ''/'' @ cpuName (cpu_opts cfg) @ dec k" and "k < 256"
    and "path \<notin> fst ` set (registered cfg i)"
    and "k \<noteq> 0 \<Longrightarrow> chassis_before cfg k (inv_chassisCpus i)"
    and run: "Cpu_chassis cfg env m st path (word_of_nat k) cont (decorateName (platformPrefix (cpu_opts cfg)) path) i = Some (r, ch)"
  shows "r = None \<and> chassis_before cfg (Suc k) ch"
proof (cases "platformPrefix (cpu_opts cfg)")
  case None
  have "bus_accepts env (object_keys path Cpu_interfaces @ registered cfg i) path [I_Chassis]"
  proof -
    have "unused (object_keys path Cpu_interfaces @ registered cfg i) path [I_Chassis]"
      using assms(7) by (force simp: unused_def)
    moreover have "valid_object_path path"
      using well_placed_below [OF assms(4) cpuName_element] path well_placed_valid by simp
    ultimately show ?thesis using assms(1) by (simp add: bus_registers_def)
  qed
  then show ?thesis using run None by (simp add: Cpu_chassis_def Let_def chassis_before_def)
next
  case (Some pre)
  define assoc where "assoc = pd @ ''/'' @ pre @ ''_'' @ cpuName (cpu_opts cfg) @ dec k"
  define old where "old = (if inv_chassisCpus i \<noteq> [] \<and> word_of_nat k = (0 :: u8) then [] else inv_chassisCpus i)"
  have deco: "decorateName (platformPrefix (cpu_opts cfg)) path = assoc"
    unfolding Some path assoc_def by (rule decorated_form)
  have num: "numbered (chassis_stem (cpu_opts cfg)) k assoc" unfolding assoc_def by (rule chassis_numbered)
  have zero: "word_of_nat k = (0 :: u8) \<longleftrightarrow> k = 0"
    using assms(6) nat_dvd_not_less [of k 256] by (auto simp: word_of_nat_eq_0_iff)
  have before: "x \<in> set old \<Longrightarrow> \<exists>j < k. numbered (chassis_stem (cpu_opts cfg)) j (fst x)" for x
    using assms(8) Some zero by (auto simp: chassis_before_def old_def split: if_splits)
  have el: "list_all element_char (pre @ ''_'' @ cpuName (cpu_opts cfg) @ dec k)"
    using assms(3) Some cpuName_element [of "cpu_opts cfg" k] by (simp add: prefix_ok_def element_char_def)
  have wp: "well_placed assoc" unfolding assoc_def using well_placed_below [OF assms(4) el] by simp
  have pl: "placed cfg (i\<lparr>inv_chassisCpus := old\<rparr>)"
    using assms(2) unfolding placed_def old_def by (simp split: if_split)
  have new: "fst x \<noteq> assoc" if x: "x \<in> set old" for x
  proof
    assume eq: "fst x = assoc"
    obtain j where "j < k" "numbered (chassis_stem (cpu_opts cfg)) j (fst x)" using before [OF x] by blast
    then show False using chassis_paths.apart [OF num] eq by force
  qed
  have "assoc \<notin> fst ` set (registered cfg (i\<lparr>inv_chassisCpus := old\<rparr>))"
    by (rule new_chassis_path [OF pl wp num]) (use new in simp)
  moreover have "assoc \<noteq> path" using stems_apart(1) [OF cpu_numbered] num path by metis
  ultimately have "bus_accepts env (object_keys path Cpu_interfaces @ registered cfg (i\<lparr>inv_chassisCpus := old\<rparr>))
      assoc chassisCpu_interfaces"
    by (intro accepted [OF assms(1) wp]) auto
  then have "r = None \<and> (\<exists>cc. ch = old @ [(assoc, cc)])"
    using run unfolding deco Cpu_chassis_def Let_def Some old_def [symmetric]
    by (auto simp: bind_eq_Some_conv deco [unfolded Some])
  then show ?thesis using before num by (fastforce simp: chassis_before_def less_Suc_eq)
qed

lemma cpu_loop_accepted:
  assumes "bus_registers env" and "prefix_ok cfg" and "\<forall>x \<in> set mods. well_placed (fst x)" and "n \<le> 256"
    and "cpu_loop cfg env m st mb mods [j ..< n] i = Some (e, i')" and "placed cfg i"
    and "list_all2 (numbered (cpu_stem (cpu_opts cfg))) [0 ..< j] (map co_path (inv_cpus i))"
    and "j \<noteq> 0 \<Longrightarrow> chassis_before cfg j (inv_chassisCpus i)"
  shows "e = Continues"
  using assms(5-8)
proof (induction "n - j" arbitrary: j i)
  case 0
  then show ?case by simp
next
  case (Suc d)
  then have js: "[j ..< n] = j # [Suc j ..< n]" by (simp add: upt_rec)
  have d: "d = n - Suc j" using Suc.hyps(2) by simp
  from Suc.prems(1) [unfolded js] obtain path cont r ch where
    place: "cpu_place (cpu_opts cfg) m st mb mods j = Some (path, cont)"
    and new: "Cpu_new cfg env m st path (word_of_nat j) cont (decorateName (platformPrefix (cpu_opts cfg)) path) i = Some (r, ch)"
    and rest: "\<And>c. r = Inr c \<Longrightarrow>
      cpu_loop cfg env m st mb mods [Suc j ..< n] (i\<lparr>inv_cpus := inv_cpus i @ [c], inv_chassisCpus := ch\<rparr>) = Some (e, i')"
    by (rule cpu_loop_step) blast
  obtain pd where path: "path = pd @ ''/'' @ cpuName (cpu_opts cfg) @ dec j" and "pd = defaultMotherboardPath \<or> pd \<in> fst ` set mods"
    using cpu_place_form [OF place] by blast
  then have pd: "well_placed pd" using assms(3) default_paths_placed by auto
  have wp: "well_placed path" using well_placed_below [OF pd cpuName_element] path by simp
  have num: "numbered (cpu_stem (cpu_opts cfg)) j path" unfolding path by (rule cpu_numbered)
  have "path \<notin> set (map co_path (inv_cpus i))" using cpu_paths.new_path [OF Suc.prems(3) _ num] by simp
  then have fresh: "path \<notin> fst ` set (registered cfg i)" by (intro new_cpu_path [OF Suc.prems(2) wp num]) auto
  then have "bus_accepts env (registered cfg i) path Cpu_interfaces" using accepted [OF assms(1) wp] by simp
  then obtain x where x: "Cpu_chassis cfg env m st path (word_of_nat j) cont
      (decorateName (platformPrefix (cpu_opts cfg)) path) i = Some (x, ch)" "x = None \<longrightarrow> (\<exists>c. r = Inr c)"
    using new by (auto simp: Cpu_new_def bind_eq_Some_conv split: option.splits)
  have "j < 256" using Suc.hyps(2) assms(4) by simp
  from Cpu_chassis_accepted [OF assms(1) Suc.prems(2) assms(2) pd path this fresh Suc.prems(4) x(1)]
  obtain c where c: "r = Inr c" "chassis_before cfg (Suc j) ch" using x(2) by blast
  have "placed cfg (i\<lparr>inv_cpus := inv_cpus i @ [c], inv_chassisCpus := ch\<rparr>)"
    using cpu_loop_placed [of cfg env m st mb mods "[j]" i Continues] place new c(1) Suc.prems(2) by (simp add: Let_def)
  then show ?case
    using Suc.hyps(1) [OF d rest [OF c(1)]] Suc.prems(3) num c(2) Cpu_new_result(2) [OF new c(1)]
    by (simp add: list_all2_appendI)
qed

text \<open>Paths of slots, of the TPM and of the system object.\<close>

lemma under_motherboard_placed:
  assumes "mb = [] \<or> well_placed mb" and "well_placed p"
  shows "well_placed (under_motherboard mb p)"
proof (cases "mb \<noteq> [] \<and> starts_with defaultMotherboardPath p")
  case True
  then have "well_placed mb" using assms(1) by blast
  then show ?thesis
    using valid_moved [of mb p] well_placed_not_root starts_with_append assms(2) True
    by (auto simp: under_motherboard_def well_placed_def)
qed (use assms(2) in \<open>auto simp: under_motherboard_def\<close>)

lemma suffix_placed:
  assumes "well_placed path"
  shows "well_placed (path @ pcieSuffix @ dec k)" and "well_placed (path @ systemSuffix)"
proof -
  have v: "valid_object_path pcieSuffix" "pcieSuffix \<noteq> ''/''" "valid_object_path systemSuffix" "systemSuffix \<noteq> ''/''"
    by code_simp+
  show "well_placed (path @ systemSuffix)" by (rule well_placed_append [OF assms v(3,4)])
  show "well_placed (path @ pcieSuffix @ dec k)"
    using well_placed_extend [OF well_placed_append [OF assms v(1,2)] dec_element] by simp
qed

lemma Pcie_new_accepted:
  assumes "bus_registers env" and "placed cfg i" and "mb = [] \<or> well_placed mb" and "well_placed path"
    and "k = length (inv_pcies i)"
    and "Pcie_new cfg env m st (under_motherboard mb (path @ pcieSuffix @ dec k)) (word_of_nat k) mb i = Some r"
  shows "\<exists>s. r = Inr s"
proof -
  let ?p = "under_motherboard mb (path @ pcieSuffix @ dec k)"
  have wp: "well_placed ?p" by (rule under_motherboard_placed [OF assms(3) suffix_placed(1) [OF assms(4)]])
  note num = pcie_path_numbered [of k mb path]
  have "list_all2 (numbered pcie_stem) [0 ..< length (inv_pcies i)] (map po_path (inv_pcies i))"
    using assms(2) unfolding placed_def by blast
  then have "?p \<notin> set (map po_path (inv_pcies i))"
    by (rule pcie_paths.new_path [OF _ _ num]) (simp add: assms(5))
  then have "?p \<notin> fst ` set (registered cfg i)"
    by (intro new_pcie_path [OF assms(2) wp num]) (metis imageI list.set_map)
  then have "bus_accepts env (registered cfg i) ?p Pcie_interfaces" by (intro accepted [OF assms(1) wp]) simp_all
  then show ?thesis using assms(6) by (auto simp: Pcie_new_def bind_eq_Some_conv)
qed

lemma Tpm_new_accepted:
  assumes "bus_registers env" and "placed cfg i" and "mb = [] \<or> well_placed mb" and "inv_tpm i = None"
    and "Tpm_new cfg env m st (under_motherboard mb tpmPath) i = Some r"
  shows "\<exists>t. r = Inr t"
proof -
  let ?p = "under_motherboard mb tpmPath"
  have wp: "well_placed ?p" by (rule under_motherboard_placed [OF assms(3) default_paths_placed(3)])
  have num: "\<not> numbered stem k ?p" for stem k using numbered_last [of stem k ?p] tpm_path_last by auto
  have sys: "so_path x \<noteq> ?p" if "x \<in> set_option (inv_system i)" for x
    using that assms(2) tpm_path_last by (auto simp: placed_def)
  have fw: "fst x \<noteq> ?p" if "x \<in> set (inv_firmware i)" for x
  proof -
    have "starts_with (firmwarePath @ ''/'') (fst x)" using that assms(2) unfolding placed_def by blast
    then show ?thesis using not_software wp by metis
  qed
  have "?p \<notin> fst ` set (registered cfg i)"
  proof
    assume "?p \<in> fst ` set (registered cfg i)"
    from subsetD [OF registered_paths this] show False
      by (elim UnE imageE) (use num sys fw placedD [OF assms(2)] assms(4) in \<open>metis option.set(1) empty_iff\<close>)+
  qed
  then have "bus_accepts env (registered cfg i) ?p Tpm_interfaces" by (intro accepted [OF assms(1) wp]) simp_all
  then show ?thesis using assms(5) by (auto simp: Tpm_new_def)
qed

lemma System_new_accepted:
  assumes "bus_registers env" and "placed cfg i" and "well_placed path" and "inv_system i = None"
  shows "bus_accepts env (registered cfg i) (path @ systemSuffix) System_interfaces"
proof -
  let ?p = "path @ systemSuffix"
  have wp: "well_placed ?p" by (rule suffix_placed(2) [OF assms(3)])
  have last: "last ?p = CHR ''s''" by (simp add: systemSuffix_def)
  have num: "\<not> numbered stem k ?p" for stem k using numbered_last [of stem k ?p] last by auto
  have tpm: "fst x \<noteq> ?p" if "x \<in> set_option (inv_tpm i)" for x
    using that assms(2) last by (auto simp: placed_def)
  have fw: "fst x \<noteq> ?p" if "x \<in> set (inv_firmware i)" for x
  proof -
    have "starts_with (firmwarePath @ ''/'') (fst x)" using that assms(2) unfolding placed_def by blast
    then show ?thesis using not_software wp by metis
  qed
  have "?p \<notin> fst ` set (registered cfg i)"
  proof
    assume "?p \<in> fst ` set (registered cfg i)"
    from subsetD [OF registered_paths this] show False
      by (elim UnE imageE) (use num tpm fw placedD [OF assms(2)] assms(4) in \<open>metis option.set(1) empty_iff\<close>)+
  qed
  then show ?thesis by (intro accepted [OF assms(1) wp]) simp_all
qed

end
