(* ===== verification/Inventory_Boards.thy ===== *)
theory Inventory_Boards
  imports Inventory_Places
begin

text \<open>
  The names of memory devices on base boards: what the boards of a table are called, which board
  contains a memory device and at which position, and that different devices get different names.
\<close>

subsection \<open>Boards of a table\<close>

definition boards_of :: "smb_struct list \<Rightarrow> smb_struct list" where
  "boards_of ss = take 255 (of_type 2 ss)"

definition complete_boards :: "smb_struct list \<Rightarrow> bool" where
  "complete_boards ss \<longleftrightarrow> (\<forall>s \<in> set ss. s_type s = 2 \<longrightarrow> 15 + 2 * unat (sf8 s 14) \<le> s_length s)"

definition module_board :: "smb_struct \<Rightarrow> bool" where
  "module_board s \<longleftrightarrow> processor_board (sf8 s 13)"

definition board_label :: "smb_struct list \<Rightarrow> nat \<Rightarrow> string" where
  "board_label boards b = (if module_board (boards ! b)
     then ''ProcessorModule_'' @ dec (length (filter module_board (take b boards)))
     else ''Board_'' @ dec b)"

definition contained_position :: "smb_struct list \<Rightarrow> smb_struct \<Rightarrow> u16 \<Rightarrow> nat" where
  "contained_position ss s h =
     length (filter (\<lambda>g. handle_type ss g = handle_type ss h) (takeWhile (\<lambda>g. g \<noteq> h) (known_handles ss s)))"

text \<open>A board object that is what the refresh makes of the \<open>b\<close>-th board.\<close>

definition shows_board :: "memory \<Rightarrow> smb_struct list \<Rightarrow> nat \<Rightarrow> Baseboard \<Rightarrow> bool" where
  "shows_board m ss b x \<longleftrightarrow> getName x = board_label (boards_of ss) b
     \<and> (\<forall>h. findIndexOfType m x h = Some
          (if h \<in> set (known_handles ss (boards_of ss ! b))
           then (True, contained_position ss (boards_of ss ! b) h) else (False, 0)))"

lemma boards_of_nth: "b < length (boards_of ss) \<Longrightarrow> boards_of ss ! b = of_type 2 ss ! b \<and> b < 255 \<and> b < length (of_type 2 ss)"
  by (simp add: boards_of_def)

lemma Baseboard_new_shows:
  assumes "table_from m p q ss" and "complete_boards ss" and "b < length (boards_of ss)"
  shows "\<exists>x. Baseboard_new m (At p) b = Some x \<and> getType m x = Some (sf8 (boards_of ss ! b) 13)
    \<and> shows_board m ss b (if module_board (boards_of ss ! b)
        then setName (''ProcessorModule_'' @ dec (length (filter module_board (take b (boards_of ss))))) x else x)"
proof -
  let ?s = "boards_of ss ! b"
  note b = boards_of_nth [OF assms(3)]
  have u: "unat (word_of_nat b :: u8) = b" using b by (simp add: unat_of_nat)
  have lt: "unat (word_of_nat b :: u8) < length (of_type 2 ss)" and s: "?s = of_type 2 ss ! unat (word_of_nat b :: u8)"
    using b u by simp_all
  have len: "15 + 2 * unat (sf8 ?s 14) \<le> s_length ?s"
    using assms(2) nth_of_type [of b 2 ss] b by (auto simp: complete_boards_def)
  note new = board_index_of_type [OF assms(1) lt s len, folded contained_position_def]
  obtain x where x: "Baseboard_new m (At p) b = Some x" "getName x = ''Board_'' @ dec b" using new by blast
  have idx: "findIndexOfType m x h = Some (if h \<in> set (known_handles ss ?s)
         then (True, contained_position ss ?s h) else (False, 0))" for h
    using new [of h] x(1) by (metis option.inject)
  obtain r rest where r: "getSMBIOSTypeIndexPtr m (At p) 2 (word_of_nat b) = Some (At r)" and at: "at_table m r (?s # rest)"
    using getSMBIOSTypeIndexPtr_hit [OF assms(1) lt] s by metis
  have "rd8 m (r + 13) = Some (sf8 ?s 13)" using at_table_fields(1) [OF at, of 13] len by simp
  then have "getType m x = Some (sf8 ?s 13)"
    using x(1) r by (auto simp: Baseboard_new_def getType_def bi_boardType_def bind_eq_Some_conv Let_def)
  then show ?thesis
    using x idx by (auto simp: shows_board_def board_label_def getName_def setName_def findIndexOfType_def)
qed

lemma board_loop_table:
  assumes "table_from m p q ss" and "complete_boards ss" and "n = length (boards_of ss)"
    and "j \<le> n" and "length bs = j" and "\<forall>b < j. shows_board m ss b (bs ! b)"
  shows "\<exists>bs'. board_loop m (At p) [j ..< n] (length (filter module_board (take j (boards_of ss)))) bs = Some bs'
    \<and> length bs' = n \<and> (\<forall>b < n. shows_board m ss b (bs' ! b))"
  using assms(4-6)
proof (induction "n - j" arbitrary: j bs)
  case 0
  then show ?case by simp
next
  case (Suc d)
  then have j: "j < n" and js: "[j ..< n] = j # [Suc j ..< n]" by (simp_all add: upt_rec)
  have d: "d = n - Suc j" using Suc.hyps(2) by simp
  let ?c = "length (filter module_board (take j (boards_of ss)))" and ?s = "boards_of ss ! j"
  obtain x where x: "Baseboard_new m (At p) j = Some x" "getType m x = Some (sf8 ?s 13)"
    "shows_board m ss j (if module_board ?s then setName (''ProcessorModule_'' @ dec ?c) x else x)"
    using Baseboard_new_shows [OF assms(1,2)] j assms(3) by blast
  define y where "y = (if module_board ?s then setName (''ProcessorModule_'' @ dec ?c) x else x)"
  have count: "length (filter module_board (take (Suc j) (boards_of ss))) = (if module_board ?s then ?c + 1 else ?c)"
    using j assms(3) by (simp add: take_Suc_conv_app_nth)
  have run: "board_loop m (At p) [j ..< n] ?c bs =
      board_loop m (At p) [Suc j ..< n] (length (filter module_board (take (Suc j) (boards_of ss)))) (bs @ [y])"
    unfolding js count by (simp add: x(1,2) y_def module_board_def)
  show ?case
    unfolding run
    by (rule Suc.hyps(1) [OF d])
       (use j Suc.prems(2,3) x(3) in \<open>auto simp: nth_append less_Suc_eq y_def [symmetric]\<close>)
qed

lemma refresh_baseboards_table:
  assumes "table_from m p q ss" and "complete_boards ss" and "procmod_dbus cfg"
  shows "\<exists>bs. refresh_baseboards cfg m (At p) i = Some (Continues, i\<lparr>inv_baseboards := bs\<rparr>)
    \<and> length bs = length (boards_of ss) \<and> (\<forall>b < length bs. shows_board m ss b (bs ! b))"
proof -
  have num: "getTotalNum m (At p) (type_code baseboardType) 0 = Some (Some (length (boards_of ss)))"
    using count_all_from [OF assms(1)] by (simp add: getTotalNum_def boards_of_def min.commute)
  obtain bs where "board_loop m (At p) [0 ..< length (boards_of ss)] 0 [] = Some bs"
    "length bs = length (boards_of ss)" "\<forall>b < length (boards_of ss). shows_board m ss b (bs ! b)"
    using board_loop_table [OF assms(1,2) refl, of 0 "[]"] by auto
  then show ?thesis using num assms(3) by (auto simp: refresh_baseboards_def)
qed

subsection \<open>Names of memory devices\<close>

definition holding_board :: "smb_struct list \<Rightarrow> u16 \<Rightarrow> nat option" where
  "holding_board ss h = List.find (\<lambda>b. h \<in> set (known_handles ss (boards_of ss ! b))) [0 ..< length (boards_of ss)]"

definition dimm_label :: "smb_struct list \<Rightarrow> nat \<Rightarrow> string" where
  "dimm_label ss k = (let h = s_handle (of_type 17 ss ! k) in
     case holding_board ss h of
       None \<Rightarrow> ''Memory_'' @ dec k
     | Some b \<Rightarrow> board_label (boards_of ss) b @ ''_'' @ ''Memory_'' @ dec (contained_position ss (boards_of ss ! b) h))"

lemma board_memory_name_table:
  assumes "list_all2 (shows_board m ss) js bs" and "rd16 m (r + 2) = Some h"
  shows "board_memory_name m (At r) bs nm = Some (case List.find (\<lambda>b. h \<in> set (known_handles ss (boards_of ss ! b))) js of
      None \<Rightarrow> nm
    | Some b \<Rightarrow> board_label (boards_of ss) b @ ''_'' @ ''Memory_'' @ dec (contained_position ss (boards_of ss ! b) h))"
  using assms(1)
proof (induction rule: list_all2_induct)
  case Nil
  then show ?case by simp
next
  case (Cons j js x bs)
  then show ?case using assms(2) by (auto simp: shows_board_def)
qed

lemma dimm_label_table:
  assumes "table_from m p q ss" and "k < min 255 (length (of_type 17 ss))"
    and "length bs = length (boards_of ss)" and "\<forall>b < length bs. shows_board m ss b (bs ! b)"
    and "getSMBIOSTypeIndexPtr m (At p) (type_code memoryDeviceType) (word_of_nat k) = Some d"
  shows "board_memory_name m d bs (''Memory_'' @ dec k) = Some (dimm_label ss k)"
proof -
  have u: "unat (word_of_nat k :: u8) = k" using assms(2) by (simp add: unat_of_nat)
  then obtain r rest where d: "d = At r" and at: "at_table m r (of_type 17 ss ! k # rest)"
    using getSMBIOSTypeIndexPtr_hit [OF assms(1), of "word_of_nat k" 17] assms(2,5) by fastforce
  have "list_all2 (shows_board m ss) [0 ..< length (boards_of ss)] bs"
    using assms(3,4) by (simp add: list_all2_conv_all_nth)
  from board_memory_name_table [OF this at_table_header(3) [OF at]] show ?thesis
    unfolding d dimm_label_def holding_board_def Let_def .
qed

subsection \<open>Different devices have different names\<close>

lemma position_apart:
  assumes "h \<in> set hs" and "P h" and "h' \<in> set hs" and "P h'" and "h \<noteq> h'"
  shows "length (filter P (takeWhile (\<lambda>g. g \<noteq> h) hs)) \<noteq> length (filter P (takeWhile (\<lambda>g. g \<noteq> h') hs))"
  using assms(1,3)
proof (induction hs)
  case (Cons x hs)
  then show ?case using assms(2,4,5) by (cases "x = h"; cases "x = h'") auto
qed simp

lemma from_handle_distinct:
  assumes "distinct (map s_handle ss)" and "s \<in> set ss"
  shows "from_handle (s_handle s) ss \<noteq> [] \<and> hd (from_handle (s_handle s) ss) = s"
  using assms by (induction ss) (auto simp: image_iff)

lemma board_label_apart:
  assumes "a < b" and "b < length boards"
  shows "board_label boards a \<noteq> board_label boards b"
proof -
  have split: "take b boards = take a boards @ boards ! a # drop (Suc a) (take b boards)"
    using id_take_nth_drop [of a "take b boards"] assms by simp
  have "length (filter module_board (take a boards)) < length (filter module_board (take b boards))"
    if "module_board (boards ! a)" by (subst split) (simp add: that)
  then show ?thesis
    using assms(1) by (cases "module_board (boards ! a)"; cases "module_board (boards ! b)")
      (auto simp: board_label_def dest!: dec_inj)
qed

lemma board_label_inj:
  "a < length boards \<Longrightarrow> b < length boards \<Longrightarrow> board_label boards a = board_label boards b \<Longrightarrow> a = b"
  using board_label_apart by (metis linorder_less_linear)

lemma memory_suffix_inj:
  assumes "l @ ''_'' @ ''Memory_'' @ dec j = l' @ ''_'' @ ''Memory_'' @ dec k"
  shows "l = l' \<and> j = k"
proof -
  let ?p = "l @ ''_Memory_'' @ dec j"
  have eq: "?p = l' @ ''_Memory_'' @ dec k" using assms by simp
  have stem: "''_Memory_'' \<noteq> []" "\<not> is_digit (last ''_Memory_'')" by (simp_all add: is_digit_def)
  have "rev (l @ ''_Memory_'') = rev (l' @ ''_Memory_'')" "rev (dec j) = rev (dec k)"
    using strip_digits [OF stem, of l j] strip_digits [OF stem, of l' k] eq by metis+
  then have "l = l'" "dec j = dec k" by (simp_all only: rev_is_rev_conv append_same_eq)
  then show ?thesis using dec_inj by blast
qed

lemma holding_boardD:
  assumes "holding_board ss h = Some b"
  shows "b < length (boards_of ss)" and "h \<in> set (known_handles ss (boards_of ss ! b))"
  using assms by (auto simp: holding_board_def find_Some_iff)

text \<open>
  With different handles in the table the names of memory devices are different: those on one board
  by their positions, those on different boards by the names of the boards.
\<close>

lemma dimm_label_inj:
  assumes "distinct (map s_handle ss)" and "j < length (of_type 17 ss)" and "k < length (of_type 17 ss)"
    and "dimm_label ss j = dimm_label ss k"
  shows "j = k"
proof (rule ccontr)
  assume ne: "j \<noteq> k"
  let ?h = "\<lambda>i. s_handle (of_type 17 ss ! i)"
  have d: "distinct (map s_handle (of_type 17 ss))"
    using distinct_map_filter [OF assms(1)] by simp
  then have hne: "?h j \<noteq> ?h k" using ne assms(2,3) by (simp add: distinct_conv_nth)
  have ty: "handle_type ss (?h i) = 17" if "i < length (of_type 17 ss)" for i
    using from_handle_distinct [OF assms(1)] nth_of_type [OF that] by (simp add: handle_type_def)
  have first: "hd (board_label bs b) = CHR ''P'' \<or> hd (board_label bs b) = CHR ''B''" "board_label bs b \<noteq> []" for bs b
    by (simp_all add: board_label_def)
  show False
  proof (cases "holding_board ss (?h j)")
    case None
    then have j: "dimm_label ss j = ''Memory_'' @ dec j" by (simp add: dimm_label_def Let_def)
    show False
    proof (cases "holding_board ss (?h k)")
      case None
      then have "dimm_label ss k = ''Memory_'' @ dec k" by (simp add: dimm_label_def Let_def)
      then show False using j assms(4) ne dec_inj by simp
    next
      case (Some b)
      then have "hd (dimm_label ss k) = hd (board_label (boards_of ss) b)"
        using first(2) [of "boards_of ss" b] by (simp add: dimm_label_def Let_def)
      then show False using j assms(4) first(1) [of "boards_of ss" b] by auto
    qed
  next
    case j: (Some a)
    then have lj: "dimm_label ss j = board_label (boards_of ss) a @ ''_'' @ ''Memory_'' @
        dec (contained_position ss (boards_of ss ! a) (?h j))" by (simp add: dimm_label_def Let_def)
    show False
    proof (cases "holding_board ss (?h k)")
      case None
      then have "dimm_label ss k = ''Memory_'' @ dec k" by (simp add: dimm_label_def Let_def)
      moreover have "hd (dimm_label ss j) = hd (board_label (boards_of ss) a)"
        using first(2) [of "boards_of ss" a] lj by simp
      ultimately show False using assms(4) first(1) [of "boards_of ss" a] by auto
    next
      case (Some b)
      then have "dimm_label ss k = board_label (boards_of ss) b @ ''_'' @ ''Memory_'' @
        dec (contained_position ss (boards_of ss ! b) (?h k))" by (simp add: dimm_label_def Let_def)
      then have l: "board_label (boards_of ss) a = board_label (boards_of ss) b"
        and pos: "contained_position ss (boards_of ss ! a) (?h j) = contained_position ss (boards_of ss ! b) (?h k)"
        using memory_suffix_inj lj assms(4) by metis+
      have "a = b" by (rule board_label_inj [OF _ _ l]) (use holding_boardD(1) j Some in blast)+
      then show False
        using pos position_apart [of "?h j" "known_handles ss (boards_of ss ! a)" "\<lambda>g. handle_type ss g = 17" "?h k"]
          holding_boardD(2) [OF j] holding_boardD(2) [OF Some] hne ty assms(2,3)
        by (simp add: contained_position_def)
    qed
  qed
qed

lemma dimm_label_element: "list_all element_char (dimm_label ss k)" and dimm_label_not_Nil: "dimm_label ss k \<noteq> []"
proof -
  have "list_all element_char ''Memory_''" "list_all element_char ''ProcessorModule_''" "list_all element_char ''Board_''"
    "list_all element_char ''_''"
    by (simp_all add: element_char_def is_alpha_def is_digit_def)
  then show "list_all element_char (dimm_label ss k)"
    using dec_element by (auto simp: dimm_label_def Let_def board_label_def split: option.splits)
  show "dimm_label ss k \<noteq> []" by (simp add: dimm_label_def Let_def split: option.splits)
qed

end
