(* ===== verification/Inventory_Refresh.thy ===== *)
theory Inventory_Refresh
  imports Inventory_Boards
begin

text \<open>
  What the refresh and \<open>getRecordType\<close> show of a table. Each stage is described by its result and by
  the part of the inventory it leaves alone; together with the memory safety of \<open>Inventory_Safety\<close>
  and the places of \<open>Inventory_Places\<close> this gives the whole refresh: its complete outcome, and the
  outcome when a memory device stops it.
\<close>

unbundle bit_operations_syntax

lemma and_then_Continues: "s1 i = Some (Continues, i1) \<Longrightarrow> and_then s1 s2 i = s2 i1"
  by (simp add: and_then_def)

subsection \<open>Processors\<close>

text \<open>The object the refresh builds for index \<open>k\<close>.\<close>

definition cpu_built ::
  "inventory_config \<Rightarrow> memory \<Rightarrow> ptr \<Rightarrow> string \<Rightarrow> (string \<times> nat option) list \<Rightarrow> nat \<Rightarrow> cpu_object \<Rightarrow> bool"
where
  "cpu_built cfg m st mb mods k c \<longleftrightarrow> (\<exists>cont. cpu_place (cpu_opts cfg) m st mb mods k = Some (co_path c, cont)
     \<and> co_index c = word_of_nat k
     \<and> cpu_infoUpdate (cpu_opts cfg) (word_of_nat k) (decorateName (platformPrefix (cpu_opts cfg)) (co_path c))
         m st cont (blank_cpu cfg) = Some (co_props c))"

lemma Cpu_new_built:
  assumes "cpu_place (cpu_opts cfg) m st mb mods k = Some (path, cont)"
    and "Cpu_new cfg env m st path (word_of_nat k) cont (decorateName (platformPrefix (cpu_opts cfg)) path) i = Some (Inr c, ch)"
  shows "cpu_built cfg m st mb mods k c"
  using assms by (auto simp: cpu_built_def Cpu_new_def bind_eq_Some_conv split: if_splits option.splits)

lemma cpu_loop_result:
  assumes "cpu_loop cfg env m st mb mods js i = Some (e, i')"
  shows "\<exists>cs ch. i' = i\<lparr>inv_cpus := inv_cpus i @ cs, inv_chassisCpus := ch\<rparr>
    \<and> (e = Continues \<longrightarrow> list_all2 (cpu_built cfg m st mb mods) js cs)"
  using assms
proof (induction js arbitrary: i)
  case Nil
  then have "i' = i\<lparr>inv_cpus := inv_cpus i @ [], inv_chassisCpus := inv_chassisCpus i\<rparr>" by simp
  then show ?case by blast
next
  case (Cons k js)
  from Cons.prems obtain path cont r ch where place: "cpu_place (cpu_opts cfg) m st mb mods k = Some (path, cont)"
    and new: "Cpu_new cfg env m st path (word_of_nat k) cont (decorateName (platformPrefix (cpu_opts cfg)) path) i = Some (r, ch)"
    and thrown: "\<And>x. r = Inl x \<Longrightarrow> e = Throws x \<and> i' = i\<lparr>inv_chassisCpus := ch\<rparr>"
    and rest: "\<And>c. r = Inr c \<Longrightarrow>
      cpu_loop cfg env m st mb mods js (i\<lparr>inv_cpus := inv_cpus i @ [c], inv_chassisCpus := ch\<rparr>) = Some (e, i')"
    by (rule cpu_loop_step) blast
  show ?case
  proof (cases r)
    case (Inl x)
    then have "i' = i\<lparr>inv_cpus := inv_cpus i @ [], inv_chassisCpus := ch\<rparr>" "e \<noteq> Continues" using thrown by simp_all
    then show ?thesis by blast
  next
    case (Inr c)
    from Cons.IH [OF rest [OF Inr]] obtain cs ch' where
      "i' = i\<lparr>inv_cpus := inv_cpus i @ c # cs, inv_chassisCpus := ch'\<rparr>"
      "e = Continues \<longrightarrow> list_all2 (cpu_built cfg m st mb mods) js cs"
      by auto
    moreover have "cpu_built cfg m st mb mods k c" using Cpu_new_built [OF place] new Inr by blast
    ultimately show ?thesis by (metis list_all2_Cons)
  qed
qed

subsection \<open>Memory devices\<close>

text \<open>The path of the memory object for index \<open>k\<close>, by the names that the boards give.\<close>

definition dimm_name :: "inventory_config \<Rightarrow> smb_struct list \<Rightarrow> nat \<Rightarrow> string" where
  "dimm_name cfg ss k = (if procmod_dbus cfg then dimm_label ss k else ''Memory_'' @ dec k)"

definition dimm_path :: "string \<Rightarrow> string" where
  "dimm_path name = defaultMotherboardPath @ ''/'' @ name"

definition dimm_built ::
  "inventory_config \<Rightarrow> memory \<Rightarrow> ptr \<Rightarrow> string \<Rightarrow> (nat \<Rightarrow> string) \<Rightarrow> nat \<Rightarrow> string \<times> Dimm \<Rightarrow> bool"
where
  "dimm_built cfg m st mb nm k = (\<lambda>(path, d). path = dimm_path (nm k)
     \<and> memoryInfoUpdate (dimm_opts cfg) (trim_right cfg) m st (word_of_nat k) mb (blank_dimm cfg) = Some (Inr d))"

lemma dimm_path_inj: "dimm_path a = dimm_path b \<Longrightarrow> a = b"
  by (simp add: dimm_path_def)

lemma dimm_paths:
  "list_all2 (dimm_built cfg m st mb nm) js ds \<Longrightarrow> map fst ds = map (\<lambda>k. dimm_path (nm k)) js"
  by (induction rule: list_all2_induct) (auto simp: dimm_built_def)

text \<open>Names that the registration of a memory object relies on.\<close>

definition good_names :: "nat \<Rightarrow> (nat \<Rightarrow> string) \<Rightarrow> bool" where
  "good_names n nm \<longleftrightarrow> (\<forall>j < n. \<forall>k < n. nm j = nm k \<longrightarrow> j = k)
     \<and> (\<forall>k < n. list_all element_char (nm k) \<and> nm k \<noteq> [])"

lemma dimm_accepted:
  assumes "bus_registers env" and "good_names n nm" and "j < n" and "placed cfg i"
    and "list_all2 (dimm_built cfg m st mb nm) [0 ..< j] (inv_dimms i)"
    and "board_memory_name m d bs (''Memory_'' @ dec j) = Some (nm j)"
  shows "bus_accepts env (registered cfg i) (dimm_path (nm j)) (Dimm_interfaces (dimm_opts cfg))"
proof -
  obtain k where num: "numbered dimm_stem k (dimm_path (nm j))"
    using dimm_name_numbered [OF assms(6)] unfolding dimm_path_def by blast
  have wp: "well_placed (dimm_path (nm j))"
    unfolding dimm_path_def using assms(2,3) well_placed_below [OF default_paths_placed(2)] by (simp add: good_names_def)
  have new: "dimm_path (nm j) \<notin> set (map fst (inv_dimms i))"
  proof
    assume "dimm_path (nm j) \<in> set (map fst (inv_dimms i))"
    then obtain l where l: "l < j" "dimm_path (nm j) = dimm_path (nm l)" using dimm_paths [OF assms(5)] by auto
    then have "l < n" "nm j = nm l" using assms(3) dimm_path_inj by simp_all
    then have "j = l" using assms(2,3) unfolding good_names_def by blast
    then show False using l(1) by simp
  qed
  have "dimm_path (nm j) \<notin> fst ` set (registered cfg i)"
    by (rule new_dimm_path [OF assms(4) wp num]) (use new in \<open>metis imageI list.set_map\<close>)
  then show ?thesis by (intro accepted [OF assms(1) wp]) simp_all
qed

lemma dimm_loop_result:
  assumes "bus_registers env" and "good_names n nm"
    and "\<And>k d. k < n \<Longrightarrow> getSMBIOSTypeIndexPtr m st (type_code memoryDeviceType) (word_of_nat k) = Some d \<Longrightarrow>
      board_memory_name m d bs (''Memory_'' @ dec k) = Some (nm k)"
    and "dimm_loop cfg env m st mb [j ..< n] i = Some (e, i')" and "inv_baseboards i = bs" and "placed cfg i"
    and "list_all2 (dimm_built cfg m st mb nm) [0 ..< j] (inv_dimms i)" and "j \<le> n"
  shows "\<exists>k ds. i' = i\<lparr>inv_dimms := ds\<rparr> \<and> k \<le> n \<and> list_all2 (dimm_built cfg m st mb nm) [0 ..< k] ds
    \<and> (case e of Continues \<Rightarrow> k = n | Returns \<Rightarrow> False
      | Throws x \<Rightarrow> k < n \<and> memoryInfoUpdate (dimm_opts cfg) (trim_right cfg) m st
          (word_of_nat k) mb (blank_dimm cfg) = Some (Inl x))"
  using assms(4-8)
proof (induction "n - j" arbitrary: j i)
  case 0
  then show ?case by (intro exI [of _ j] exI [of _ "inv_dimms i"]) simp
next
  case (Suc d)
  then have j: "j < n" and js: "[j ..< n] = j # [Suc j ..< n]" by (simp_all add: upt_rec)
  have d: "d = n - Suc j" using Suc.hyps(2) by simp
  from Suc.prems(1) [unfolded js] obtain p nm' r where
    p: "getSMBIOSTypeIndexPtr m st (type_code memoryDeviceType) (word_of_nat j) = Some p"
    and nm': "board_memory_name m p (inv_baseboards i) (''Memory_'' @ dec j) = Some nm'"
    and new: "Dimm_new cfg env m st (defaultMotherboardPath @ ''/'' @ nm') (word_of_nat j) mb i = Some r"
    and thrown: "\<And>x. r = Inl x \<Longrightarrow> e = Throws x \<and> i' = i"
    and rest: "\<And>y. r = Inr y \<Longrightarrow> dimm_loop cfg env m st mb [Suc j ..< n]
      (i\<lparr>inv_dimms := inv_dimms i @ [(defaultMotherboardPath @ ''/'' @ nm', y)]\<rparr>) = Some (e, i')"
    by (rule dimm_loop_step) blast
  have nm: "nm' = nm j" using assms(3) [OF j p] nm' Suc.prems(2) by simp
  note path = dimm_path_def [of "nm j", symmetric]
  have "bus_accepts env (registered cfg i) (dimm_path (nm j)) (Dimm_interfaces (dimm_opts cfg))"
    by (rule dimm_accepted [OF assms(1,2) j Suc.prems(3,4) nm' [unfolded nm]])
  then have upd: "memoryInfoUpdate (dimm_opts cfg) (trim_right cfg) m st (word_of_nat j) mb (blank_dimm cfg) = Some r"
    using new unfolding nm path by (simp add: Dimm_new_def)
  show ?case
  proof (cases r)
    case (Inl x)
    then have "e = Throws x" "i' = i\<lparr>inv_dimms := inv_dimms i\<rparr>" using thrown by simp_all
    then show ?thesis using upd Inl j Suc.prems(4) by (intro exI [of _ j] exI [of _ "inv_dimms i"]) simp
  next
    case (Inr y)
    let ?i = "i\<lparr>inv_dimms := inv_dimms i @ [(dimm_path (nm j), y)]\<rparr>"
    have run: "dimm_loop cfg env m st mb [Suc j ..< n] ?i = Some (e, i')" using rest [OF Inr] unfolding nm path .
    have "\<exists>k. numbered dimm_stem k (dimm_path (nm j))"
      using dimm_name_numbered [OF nm'] unfolding nm path .
    then have "placed cfg ?i" using Suc.prems(3) unfolding placed_def by simp
    moreover have "list_all2 (dimm_built cfg m st mb nm) [0 ..< Suc j] (inv_dimms ?i)"
      using Suc.prems(4) upd Inr by (simp add: list_all2_appendI dimm_built_def)
    ultimately show ?thesis using Suc.hyps(1) [OF d run] Suc.prems(2) j by simp
  qed
qed

lemma memoryInfoUpdate_outcome:
  assumes "table_from m p q ss" and "\<forall>s \<in> set ss. s_type s = 17 \<longrightarrow> 41 \<le> s_length s"
    and "unat k < length (of_type 17 ss)"
    and "memoryInfoUpdate cfg trim m (At p) k mb d = Some res"
  shows "bad_locator (struct_string (of_type 17 ss ! unat k) (sf8 (of_type 17 ss ! unat k) 16)) \<longleftrightarrow> (\<exists>e. res = Inl e)"
proof -
  let ?s = "of_type 17 ss ! unat k"
  obtain r rest where hit: "getSMBIOSTypeIndexPtr m (At p) 17 k = Some (At r)"
    and at: "at_table m r (?s # rest)"
    using getSMBIOSTypeIndexPtr_hit [OF assms(1,3)] by blast
  have len: "41 \<le> s_length ?s" using assms(2) nth_of_type [OF assms(3)] by blast
  have reads: "rd8 m (r + 17) = Some (sf8 ?s 17)" "rd8 m (r + 16) = Some (sf8 ?s 16)"
    using at_table_fields(1) [OF at, of 17] at_table_fields(1) [OF at, of 16] len by simp_all
  have "18 \<le> s_length ?s" using len by simp
  note loc = dimmDeviceLocator_table [OF at this, of cfg "dimm_before ?s d"]
  show ?thesis
    using assms(4) loc hit reads memory_before_locator_table [OF at len, of d] at_table_header(2) [OF at]
    by (auto simp: memoryInfoUpdate_def field_defs split: option.splits sum.splits)
qed


lemma dimm_names_good:
  assumes "procmod_dbus cfg \<longrightarrow> distinct (map s_handle ss)"
  shows "good_names (min 255 (length (of_type 17 ss))) (dimm_name cfg ss)"
proof (cases "procmod_dbus cfg")
  case True
  then show ?thesis
    using assms dimm_label_inj [of ss] dimm_label_element [of ss] dimm_label_not_Nil [of ss]
    by (auto simp: good_names_def dimm_name_def)
next
  case False
  have "list_all element_char ''Memory_''" by (simp add: element_char_def is_alpha_def is_digit_def)
  then show ?thesis using False dec_element dec_inj by (auto simp: good_names_def dimm_name_def)
qed

subsection \<open>PCIe slots\<close>

definition pcie_built :: "memory \<Rightarrow> ptr \<Rightarrow> string \<Rightarrow> nat \<Rightarrow> pcie_object \<Rightarrow> bool" where
  "pcie_built m st mb k s \<longleftrightarrow> po_num s = word_of_nat k
     \<and> (\<exists>old. pcieInfoUpdate m st (word_of_nat k) mb old = Some (po_props s))"

text \<open>The objects that the refresh keeps still belong to their indices.\<close>

definition pcies_numbered :: "pcie_object list \<Rightarrow> bool" where
  "pcies_numbered ps \<longleftrightarrow> (\<forall>k < length ps. po_num (ps ! k) = word_of_nat k)"

lemma pcies_numbered_append:
  "pcies_numbered ps \<Longrightarrow> k = length ps \<Longrightarrow> po_num s = word_of_nat k \<Longrightarrow> pcies_numbered (ps @ [s])"
  by (auto simp: pcies_numbered_def nth_append less_Suc_eq)

lemma pcies_numbered_update:
  assumes "pcies_numbered ps"
  shows "pcies_numbered (ps[k := (ps ! k)\<lparr>po_props := s\<rparr>])"
  unfolding pcies_numbered_def
proof (intro allI impI)
  fix l assume "l < length (ps[k := (ps ! k)\<lparr>po_props := s\<rparr>])"
  then show "po_num (ps[k := (ps ! k)\<lparr>po_props := s\<rparr>] ! l) = word_of_nat l"
    using assms by (cases "l = k") (simp_all add: pcies_numbered_def)
qed

lemma Pcie_new_Inr:
  "Pcie_new cfg env m st p k mb i = Some (Inr s) \<Longrightarrow> po_path s = p \<and> po_num s = k
     \<and> pcieInfoUpdate m st k mb (blank_pcie cfg) = Some (po_props s)"
  by (auto simp: Pcie_new_def bind_eq_Some_conv split: if_splits)

lemma pcie_loop_numbered:
  assumes "pcie_refresh_loop cfg env m st mb path [j ..< n] i = Some (e, i')" and "pcies_numbered (inv_pcies i)"
    and "j \<le> length (inv_pcies i)"
  shows "pcies_numbered (inv_pcies i') \<and> (\<exists>ps. i' = i\<lparr>inv_pcies := ps\<rparr>)"
  using assms
proof (induction "n - j" arbitrary: j i)
  case 0
  then have "i' = i\<lparr>inv_pcies := inv_pcies i\<rparr>" "pcies_numbered (inv_pcies i')" by simp_all
  then show ?case by blast
next
  case (Suc d)
  then have js: "[j ..< n] = j # [Suc j ..< n]" by (simp add: upt_rec)
  have d: "d = n - Suc j" using Suc.hyps(2) by simp
  have same: "i = i\<lparr>inv_pcies := inv_pcies i\<rparr>" by simp
  from Suc.prems(1) [unfolded js] show ?case
  proof (cases rule: pcie_loop_step)
    case (new r)
    show ?thesis
    proof (cases r)
      case (Inl x)
      then show ?thesis using new(3) Suc.prems(2) same by blast
    next
      case (Inr s)
      have "pcies_numbered (inv_pcies i @ [s])"
        using Pcie_new_Inr [OF new(2) [unfolded Inr]] new(1) Suc.prems(2,3) by (intro pcies_numbered_append) simp_all
      then show ?thesis using Suc.hyps(1) [OF d new(4) [OF Inr]] new(1) Suc.prems(3) by fastforce
    qed
  next
    case (kept s)
    then show ?thesis
      using Suc.hyps(1) [OF d kept(3)] pcies_numbered_update [OF Suc.prems(2)] by fastforce
  qed
qed

lemma pcie_refresh_loop_result:
  assumes "bus_registers env" and "mb = [] \<or> well_placed mb" and "well_placed path"
    and "pcie_refresh_loop cfg env m st mb path [j ..< n] i = Some (e, i')" and "placed cfg i"
    and "pcies_numbered (inv_pcies i)" and "j \<le> length (inv_pcies i)" and "length (inv_pcies i) \<le> n"
    and "\<forall>k < j. pcie_built m st mb k (inv_pcies i ! k)"
  shows "e = Continues \<and> length (inv_pcies i') = n \<and> (\<forall>k < n. pcie_built m st mb k (inv_pcies i' ! k))"
  using assms(4-9)
proof (induction "n - j" arbitrary: j i)
  case 0
  then show ?case by simp
next
  case (Suc d)
  then have js: "[j ..< n] = j # [Suc j ..< n]" and j: "j < n" by (simp_all add: upt_rec)
  have d: "d = n - Suc j" using Suc.hyps(2) by simp
  from Suc.prems(1) [unfolded js] show ?case
  proof (cases rule: pcie_loop_step)
    case (new r)
    have len: "j = length (inv_pcies i)" using new(1) Suc.prems(4) by simp
    obtain s where s: "r = Inr s" using Pcie_new_accepted [OF assms(1) Suc.prems(2) assms(2,3) len new(2)] by blast
    note made = Pcie_new_Inr [OF new(2) [unfolded s]]
    let ?i = "i\<lparr>inv_pcies := inv_pcies i @ [s]\<rparr>"
    show ?thesis
    proof (rule Suc.hyps(1) [OF d new(4) [OF s]])
      have "pcie_refresh_loop cfg env m st mb path [j ..< Suc j] i = Some (Continues, ?i)"
        using new(1,2) s by (simp add: Let_def)
      then show "placed cfg ?i" using pcie_loop_placed Suc.prems(2,4) by blast
      show "pcies_numbered (inv_pcies ?i)" using pcies_numbered_append [OF Suc.prems(3) len] made by simp
      show "\<forall>k < Suc j. pcie_built m st mb k (inv_pcies ?i ! k)"
        using Suc.prems(6) made len by (auto simp: nth_append less_Suc_eq pcie_built_def)
    qed (use len j in simp_all)
  next
    case (kept s)
    let ?i = "i\<lparr>inv_pcies := (inv_pcies i)[j := (inv_pcies i ! j)\<lparr>po_props := s\<rparr>]\<rparr>"
    have num: "po_num (inv_pcies i ! j) = word_of_nat j" using Suc.prems(3) kept(1) by (simp add: pcies_numbered_def)
    show ?thesis
    proof (rule Suc.hyps(1) [OF d kept(3)])
      have "pcie_refresh_loop cfg env m st mb path [j ..< Suc j] i = Some (Continues, ?i)"
        using kept(1,2) by (simp add: Let_def)
      then show "placed cfg ?i" using pcie_loop_placed Suc.prems(2,4) by blast
      show "pcies_numbered (inv_pcies ?i)" using pcies_numbered_update [OF Suc.prems(3)] by simp
      show "\<forall>k < Suc j. pcie_built m st mb k (inv_pcies ?i ! k)"
        using Suc.prems(6) kept(1,2) num by (auto simp: nth_list_update less_Suc_eq pcie_built_def)
    qed (use kept(1) Suc.prems(5) in simp_all)
  qed
qed

lemma refresh_pcies_result:
  assumes "bus_registers env" and "mb = [] \<or> well_placed mb" and "well_placed path"
    and "refresh_pcies cfg env m st mb path i = Some (e, i')" and "pcies_numbered (inv_pcies i)" and "placed cfg i"
    and "getTotalPcieSlot m st = Some (Some n)"
  shows "\<exists>ps. e = Continues \<and> i' = i\<lparr>inv_pcies := ps\<rparr> \<and> length ps = n \<and> (\<forall>k < n. pcie_built m st mb k (ps ! k))"
proof -
  let ?i = "i\<lparr>inv_pcies := take n (inv_pcies i)\<rparr>"
  have run: "pcie_refresh_loop cfg env m st mb path [0 ..< n] ?i = Some (e, i')"
    using assms(4,7) unfolding refresh_pcies_def bind_eq_Some_conv Let_def trimmed by auto
  have "placed cfg ?i" using assms(6) by (rule trimmed_placed)
  moreover have num: "pcies_numbered (inv_pcies ?i)" using assms(5) by (auto simp: pcies_numbered_def)
  ultimately have "e = Continues \<and> length (inv_pcies i') = n \<and> (\<forall>k < n. pcie_built m st mb k (inv_pcies i' ! k))"
    by (intro pcie_refresh_loop_result [OF assms(1-3) run]) simp_all
  then show ?thesis using pcie_loop_numbered [OF run num] by auto
qed

subsection \<open>Frames of the stages\<close>

lemma refresh_cpus_frame:
  assumes "refresh_cpus cfg env m st mb mods i = Some (e, i')"
  shows "\<exists>cs ch. i' = i\<lparr>inv_cpus := cs, inv_chassisCpus := ch\<rparr>"
proof -
  consider "i' = i" | "i' = i\<lparr>inv_cpus := []\<rparr>"
    | n where "cpu_loop cfg env m st mb mods [0 ..< n] (i\<lparr>inv_cpus := []\<rparr>) = Some (e, i')"
    using assms by (auto simp: refresh_cpus_def Let_def bind_eq_Some_conv split: if_splits option.splits)
  then show ?thesis
  proof cases
    case 1
    then have "i' = i\<lparr>inv_cpus := inv_cpus i, inv_chassisCpus := inv_chassisCpus i\<rparr>" by simp
    then show ?thesis by blast
  next
    case 2
    then have "i' = i\<lparr>inv_cpus := [], inv_chassisCpus := inv_chassisCpus i\<rparr>" by simp
    then show ?thesis by blast
  next
    case 3
    then show ?thesis using cpu_loop_result [OF 3] by auto
  qed
qed

lemma refresh_cpus_result:
  assumes "bus_registers env" and "prefix_ok cfg" and "\<forall>x \<in> set mods. well_placed (fst x)" and "placed cfg i"
    and "refresh_cpus cfg env m st mb mods i = Some (e, i')" and "cpu_dbus cfg"
    and "getTotalCpuSlot m st = Some (Some n)" and "n \<le> 256"
  shows "e = Continues \<and> (\<exists>cs ch. i' = i\<lparr>inv_cpus := cs, inv_chassisCpus := ch\<rparr>
    \<and> list_all2 (cpu_built cfg m st mb mods) [0 ..< n] cs)"
proof -
  have run: "cpu_loop cfg env m st mb mods [0 ..< n] (i\<lparr>inv_cpus := []\<rparr>) = Some (e, i')"
    using assms(5-7) by (simp add: refresh_cpus_def Let_def)
  have "placed cfg (i\<lparr>inv_cpus := []\<rparr>)" using assms(4) unfolding placed_def by simp
  then have "e = Continues" using cpu_loop_accepted [OF assms(1-3,8) run] by simp
  then show ?thesis using cpu_loop_result [OF run] by auto
qed

lemma refresh_tpm_frame:
  assumes "refresh_tpm cfg env m st mb i = Some (e, i')"
  shows "\<exists>t. i' = i\<lparr>inv_tpm := t\<rparr>"
proof (cases "getTotalNum m st (type_code tpmDeviceType) 0 = Some (Some 1)")
  case True
  then obtain r where "Tpm_new cfg env m st (under_motherboard mb tpmPath) (i\<lparr>inv_tpm := None\<rparr>) = Some r"
    using assms by (auto simp: refresh_tpm_def bind_eq_Some_conv Let_def)
  then show ?thesis using assms True by (cases r) (auto simp: refresh_tpm_def Let_def)
qed (use assms in \<open>auto simp: refresh_tpm_def bind_eq_Some_conv Let_def split: if_splits\<close>)

lemma refresh_tpm_result:
  assumes "bus_registers env" and "placed cfg i" and "mb = [] \<or> well_placed mb"
    and "refresh_tpm cfg env m st mb i = Some (e, i')"
  shows "e = Continues \<and> (\<exists>t. i' = i\<lparr>inv_tpm := t\<rparr> \<and> (t \<noteq> None \<longleftrightarrow> getTotalNum m st (type_code tpmDeviceType) 0 = Some (Some 1)))"
proof (cases "getTotalNum m st (type_code tpmDeviceType) 0 = Some (Some 1)")
  case True
  then obtain r where r: "Tpm_new cfg env m st (under_motherboard mb tpmPath) (i\<lparr>inv_tpm := None\<rparr>) = Some r"
    using assms(4) by (auto simp: refresh_tpm_def bind_eq_Some_conv Let_def)
  have "placed cfg (i\<lparr>inv_tpm := None\<rparr>)" using assms(2) unfolding placed_def by simp
  then obtain t where "r = Inr t" using Tpm_new_accepted [OF assms(1) _ assms(3) _ r] by auto
  then show ?thesis using assms(4) True r by (auto simp: refresh_tpm_def Let_def)
next
  case False
  then have "e = Continues" "i' = i\<lparr>inv_tpm := None\<rparr>"
    using assms(4) by (auto simp: refresh_tpm_def bind_eq_Some_conv Let_def split: if_splits)
  then show ?thesis using False by blast
qed

lemma firmware_loop_frame:
  "firmware_loop cfg env m st paths js i = Some i' \<Longrightarrow> \<exists>fs. i' = i\<lparr>inv_firmware := fs\<rparr>"
proof (induction js arbitrary: i)
  case Nil
  then have "i' = i\<lparr>inv_firmware := inv_firmware i\<rparr>" by simp
  then show ?case by blast
next
  case (Cons k js)
  from firmware_loop_step [OF Cons.prems] obtain fs where
    "firmware_loop cfg env m st paths js (i\<lparr>inv_firmware := fs\<rparr>) = Some i'" by blast
  then show ?case using Cons.IH by fastforce
qed

lemma refresh_firmware_result:
  assumes "refresh_firmware cfg env m st i = Some (e, i')"
  shows "(\<exists>fs. i' = i\<lparr>inv_firmware := fs\<rparr>)
    \<and> (getTotalNum m st (type_code firmwareInventoryInformationType) 0 = Some (Some n) \<longrightarrow> e = Continues)"
proof -
  consider "i' = i\<lparr>inv_firmware := []\<rparr>"
    | paths js where "firmware_loop cfg env m st paths js (i\<lparr>inv_firmware := []\<rparr>) = Some i'"
    using assms by (auto simp: refresh_firmware_def bind_eq_Some_conv Let_def split: option.splits)
  then have "\<exists>fs. i' = i\<lparr>inv_firmware := fs\<rparr>"
  proof cases
    case 2
    then show ?thesis using firmware_loop_frame [OF 2] by auto
  qed blast
  then show ?thesis using assms by (auto simp: refresh_firmware_def bind_eq_Some_conv Let_def)
qed

lemma refresh_system_frame:
  assumes "refresh_system cfg env m st path i = Some (e, i')"
  shows "\<exists>s. i' = i\<lparr>inv_system := s\<rparr> \<and> (e \<noteq> Continues \<longrightarrow> s = None)"
proof -
  obtain r where "System_new cfg env m st (path @ systemSuffix) (i\<lparr>inv_system := None\<rparr>) = Some r"
    using assms by (auto simp: refresh_system_def Let_def bind_eq_Some_conv)
  then show ?thesis using assms by (cases r) (auto simp: refresh_system_def Let_def)
qed

lemma refresh_system_result:
  assumes "bus_registers env" and "placed cfg i" and "well_placed path"
    and "refresh_system cfg env m st path i = Some (e, i')"
  shows "(\<exists>x call. e = Throws x \<and> set_fails (bios_calls env) call)
    \<or> e = Continues \<and> (\<exists>s. i' = i\<lparr>inv_system := Some s\<rparr> \<and> so_path s = path @ systemSuffix
        \<and> System_uuid m st = Some (so_uuid s)
        \<and> System_version m st (bios_calls env) (file_truncatable env) = Some (Inr (so_version s)))"
proof -
  have "placed cfg (i\<lparr>inv_system := None\<rparr>)" using assms(2) unfolding placed_def by simp
  from System_new_accepted [OF assms(1) this assms(3)]
  have acc: "bus_accepts env (registered cfg (i\<lparr>inv_system := None\<rparr>)) (path @ systemSuffix) System_interfaces" by simp
  obtain u r where u: "System_uuid m st = Some u"
    "System_version m st (bios_calls env) (file_truncatable env) = Some r"
    using assms(4) acc by (auto simp: refresh_system_def System_new_def Let_def bind_eq_Some_conv)
  then show ?thesis
    using assms(4) acc System_version_throws [of m st "bios_calls env" "file_truncatable env"]
    by (cases r) (auto simp: refresh_system_def System_new_def Let_def)
qed

text \<open>A loop does not return from the method.\<close>

lemma cpu_loop_ending: "cpu_loop cfg env m st mb mods js i = Some (e, i') \<Longrightarrow> e \<noteq> Returns"
proof (induction js arbitrary: i)
  case (Cons k js)
  from Cons.prems obtain r and f :: "cpu_object \<Rightarrow> inventory" where
    "\<And>x :: exn. r = Inl x \<Longrightarrow> e = Throws x" "\<And>c. r = Inr c \<Longrightarrow> cpu_loop cfg env m st mb mods js (f c) = Some (e, i')"
    by (rule cpu_loop_step) blast
  then show ?case using Cons.IH by (cases r) auto
qed simp

lemma dimm_loop_ending: "dimm_loop cfg env m st mb js i = Some (e, i') \<Longrightarrow> e \<noteq> Returns"
proof (induction js arbitrary: i)
  case (Cons k js)
  from Cons.prems obtain r and f :: "Dimm \<Rightarrow> inventory" where
    "\<And>x :: exn. r = Inl x \<Longrightarrow> e = Throws x" "\<And>y. r = Inr y \<Longrightarrow> dimm_loop cfg env m st mb js (f y) = Some (e, i')"
    by (rule dimm_loop_step) blast
  then show ?case using Cons.IH by (cases r) auto
qed simp

subsection \<open>What every refresh keeps\<close>

lemma dimm_loop_frame:
  "dimm_loop cfg env m st mb js i = Some (e, i') \<Longrightarrow> \<exists>ds. i' = i\<lparr>inv_dimms := ds\<rparr>"
proof (induction js arbitrary: i)
  case Nil
  then have "i' = i\<lparr>inv_dimms := inv_dimms i\<rparr>" by simp
  then show ?case by blast
next
  case (Cons k js)
  have same: "i = i\<lparr>inv_dimms := inv_dimms i\<rparr>" by simp
  from Cons.prems obtain r and f :: "Dimm \<Rightarrow> string \<times> Dimm" where
    "\<And>x :: exn. r = Inl x \<Longrightarrow> i' = i"
    "\<And>y. r = Inr y \<Longrightarrow> dimm_loop cfg env m st mb js (i\<lparr>inv_dimms := inv_dimms i @ [f y]\<rparr>) = Some (e, i')"
    by (rule dimm_loop_step) blast
  then show ?case using Cons.IH same by (cases r) fastforce+
qed

text \<open>
  The objects of the slots belong to their indices, without the processor modules there are no base
  boards, and the objects have paths of their kinds: so it is after every refresh, whatever the storage
  holds and however it ends.
\<close>

definition steady :: "inventory_config \<Rightarrow> inventory \<Rightarrow> bool" where
  "steady cfg i \<longleftrightarrow> pcies_numbered (inv_pcies i) \<and> (procmod_dbus cfg \<or> inv_baseboards i = []) \<and> placed cfg i"

definition tidy :: "inventory_config \<Rightarrow> inventory \<Rightarrow> bool" where
  "tidy cfg i \<longleftrightarrow> pcies_numbered (inv_pcies i) \<and> (procmod_dbus cfg \<or> inv_baseboards i = [])"

lemma keeps_tidy:
  "stage_keeps (tidy cfg) (refresh_baseboards cfg m st)"
  "stage_keeps (tidy cfg) (refresh_cpus cfg env m st mb mods)"
  "stage_keeps (tidy cfg) (refresh_dimms cfg env m st mb)"
  "stage_keeps (tidy cfg) (refresh_pcies cfg env m st mb path)"
  "stage_keeps (tidy cfg) (refresh_tpm cfg env m st mb)"
  "stage_keeps (tidy cfg) (refresh_firmware cfg env m st)"
  "stage_keeps (tidy cfg) (refresh_system cfg env m st path)"
proof -
  show "stage_keeps (tidy cfg) (refresh_baseboards cfg m st)"
    by (auto simp: stage_keeps_def tidy_def refresh_baseboards_def bind_eq_Some_conv split: if_splits option.splits)
  show "stage_keeps (tidy cfg) (refresh_cpus cfg env m st mb mods)"
    unfolding stage_keeps_def by (auto simp: tidy_def dest!: refresh_cpus_frame)
  show "stage_keeps (tidy cfg) (refresh_dimms cfg env m st mb)"
    by (auto simp: stage_keeps_def tidy_def refresh_dimms_def bind_eq_Some_conv Let_def split: if_splits option.splits
        dest!: dimm_loop_frame)
  show "stage_keeps (tidy cfg) (refresh_pcies cfg env m st mb path)"
    unfolding stage_keeps_def
  proof (intro allI impI)
    fix i e i' assume i: "tidy cfg i" and run: "refresh_pcies cfg env m st mb path i = Some (e, i')"
    have num: "pcies_numbered (take n (inv_pcies i))" for n using i by (auto simp: tidy_def pcies_numbered_def)
    consider "i' = i" | n where "pcie_refresh_loop cfg env m st mb path [0 ..< n]
        (i\<lparr>inv_pcies := take n (inv_pcies i)\<rparr>) = Some (e, i')"
      using run unfolding refresh_pcies_def bind_eq_Some_conv Let_def trimmed by (auto split: option.splits)
    then show "tidy cfg i'"
    proof cases
      case 2
      then show ?thesis using pcie_loop_numbered [OF 2] num i by (auto simp: tidy_def)
    qed (use i in simp)
  qed
  show "stage_keeps (tidy cfg) (refresh_tpm cfg env m st mb)"
    unfolding stage_keeps_def by (auto simp: tidy_def dest!: refresh_tpm_frame)
  show "stage_keeps (tidy cfg) (refresh_firmware cfg env m st)"
    unfolding stage_keeps_def by (auto simp: tidy_def dest!: refresh_firmware_result)
  show "stage_keeps (tidy cfg) (refresh_system cfg env m st path)"
    unfolding stage_keeps_def by (auto simp: tidy_def dest!: refresh_system_frame)
qed

lemma keeps_steady:
  assumes "stage_keeps (tidy cfg) s" and "stage_keeps (placed cfg) s"
  shows "stage_keeps (steady cfg) s"
  using assms unfolding stage_keeps_def steady_def tidy_def by blast

lemma systemInfoUpdate_steady:
  assumes "systemInfoUpdate cfg env path a i = Some (e, i')" and "steady cfg i"
  shows "steady cfg i'"
proof -
  obtain d where d: "dir_at (smbiosDir a) smbiosDirIndex = Some d"
    using assms(1) by (auto simp: systemInfoUpdate_def Let_def bind_eq_Some_conv)
  have "stage_keeps (steady cfg) (and_then (refresh_baseboards cfg m st)
       (and_then (refresh_cpus cfg env m st mb mods)
         (and_then (refresh_dimms cfg env m st mb)
           (and_then (refresh_pcies cfg env m st mb path)
             (and_then (refresh_tpm cfg env m st mb)
               (and_then (refresh_firmware cfg env m st)
                 (refresh_system cfg env m st path)))))))" for m st mb mods
    by (intro stage_keeps_and_then keeps_steady keeps_tidy keeps_placed)
  then show ?thesis using assms d unfolding stage_keeps_def systemInfoUpdate_def Let_def by fastforce
qed

subsection \<open>The refresh on a table\<close>

text \<open>
  What is assumed of the build and of the agent: processors and memory devices are published, the storage
  holds a table with full-length memory structures and slots, and where boards name the memory devices,
  complete boards and different handles.
\<close>

definition refreshable ::
  "inventory_config \<Rightarrow> string \<Rightarrow> MDRV2 \<Rightarrow> nat \<Rightarrow> smb_struct list \<Rightarrow> inventory \<Rightarrow> bool"
where
  "refreshable cfg path a q ss i \<longleftrightarrow> wf_agent a \<and> safe_table (smbiosTableStorage a)
     \<and> table_from (smbiosTableStorage a) 0 q ss
     \<and> (\<forall>s \<in> set ss. s_type s = 17 \<longrightarrow> 41 \<le> s_length s)
     \<and> (\<forall>s \<in> set ss. s_type s = 9 \<longrightarrow> 13 \<le> s_length s)
     \<and> (procmod_dbus cfg \<longrightarrow> complete_boards ss \<and> distinct (map s_handle ss))
     \<and> cpu_dbus cfg \<and> dimm_dbus cfg \<and> prefix_ok cfg \<and> inventory_place path \<and> steady cfg i"

text \<open>The bus library registers what it should, and the mapper answers with paths below its query.\<close>

definition bus_ready :: "bus_env \<Rightarrow> bool" where
  "bus_ready env \<longleftrightarrow> bus_registers env \<and> mapper_below env"

definition locator_of :: "smb_struct list \<Rightarrow> nat \<Rightarrow> string" where
  "locator_of ss k = struct_string (of_type 17 ss ! k) (sf8 (of_type 17 ss ! k) 16)"

lemma table_counts:
  assumes "refreshable cfg path a q ss i"
  defines "m \<equiv> smbiosTableStorage a"
  shows "getTotalCpuSlot m (At 0) = Some (Some (min 255 (length (of_type 4 ss))))"
    and "getTotalDimmSlot m (At 0) = Some (Some (min 255 (length (of_type 17 ss))))"
    and "getTotalPcieSlot m (At 0) = Some (Some (min 255 (length (filter pcie_struct (of_type 9 ss)))))"
    and "getTotalNum m (At 0) t 0 = Some (Some (min 255 (length (of_type t ss))))"
proof -
  have tf: "table_from m 0 q ss" using assms by (simp add: refreshable_def)
  show "getTotalPcieSlot m (At 0) = Some (Some (min 255 (length (filter pcie_struct (of_type 9 ss)))))"
    by (rule pcie_total_table [OF tf]) (use assms(1) in \<open>simp add: refreshable_def\<close>)
qed (use assms count_all_from in \<open>auto simp: refreshable_def getTotalCpuSlot_def getTotalDimmSlot_def getTotalNum_def\<close>)

lemma refresh_baseboards_names:
  assumes "refreshable cfg path a q ss i"
  shows "\<exists>bs. refresh_baseboards cfg (smbiosTableStorage a) (At 0) i = Some (Continues, i\<lparr>inv_baseboards := bs\<rparr>)
    \<and> (\<forall>k d. k < min 255 (length (of_type 17 ss)) \<longrightarrow>
         getSMBIOSTypeIndexPtr (smbiosTableStorage a) (At 0) (type_code memoryDeviceType) (word_of_nat k) = Some d \<longrightarrow>
         board_memory_name (smbiosTableStorage a) d bs (''Memory_'' @ dec k) = Some (dimm_name cfg ss k))"
proof (cases "procmod_dbus cfg")
  case True
  have tf: "table_from (smbiosTableStorage a) 0 q ss" using assms by (simp add: refreshable_def)
  obtain bs where bs: "refresh_baseboards cfg (smbiosTableStorage a) (At 0) i = Some (Continues, i\<lparr>inv_baseboards := bs\<rparr>)"
    "length bs = length (boards_of ss)" "\<forall>b < length bs. shows_board (smbiosTableStorage a) ss b (bs ! b)"
    using refresh_baseboards_table [OF tf _ True, of i] assms True by (auto simp: refreshable_def)
  have "dimm_name cfg ss = dimm_label ss" by (rule ext) (simp add: dimm_name_def True)
  then show ?thesis using bs(1) dimm_label_table [OF tf _ bs(2,3)] by auto
next
  case False
  then have "inv_baseboards i = []" using assms by (simp add: refreshable_def steady_def)
  then have same: "i\<lparr>inv_baseboards := []\<rparr> = i" by simp
  show ?thesis
    by (rule exI [of _ "[]"]) (simp add: False same refresh_baseboards_def dimm_name_def)
qed

lemma dimm_outcome:
  assumes "refreshable cfg path a q ss i" and "k < min 255 (length (of_type 17 ss))"
    and "memoryInfoUpdate (dimm_opts cfg) (trim_right cfg) (smbiosTableStorage a) (At 0) (word_of_nat k) mb d = Some r"
  shows "bad_locator (locator_of ss k) \<longleftrightarrow> (\<exists>x. r = Inl x)"
proof -
  have "unat (word_of_nat k :: u8) = k" using assms(2) by (simp add: unat_of_nat)
  then show ?thesis
    using memoryInfoUpdate_outcome [OF _ _ _ assms(3), of q ss] assms(1,2) by (simp add: refreshable_def locator_of_def)
qed

lemma refresh_dimms_result:
  assumes "refreshable cfg path a q ss i" and "bus_registers env" and "placed cfg i1"
    and "\<And>k d. k < min 255 (length (of_type 17 ss)) \<Longrightarrow>
      getSMBIOSTypeIndexPtr (smbiosTableStorage a) (At 0) (type_code memoryDeviceType) (word_of_nat k) = Some d \<Longrightarrow>
      board_memory_name (smbiosTableStorage a) d (inv_baseboards i1) (''Memory_'' @ dec k) = Some (dimm_name cfg ss k)"
    and "refresh_dimms cfg env (smbiosTableStorage a) (At 0) mb i1 = Some (e2, i2)"
  defines "N \<equiv> min 255 (length (of_type 17 ss))"
  shows "\<exists>n ds. i2 = i1\<lparr>inv_dimms := ds\<rparr>
    \<and> list_all2 (dimm_built cfg (smbiosTableStorage a) (At 0) mb (dimm_name cfg ss)) [0 ..< n] ds
    \<and> n \<le> N \<and> (e2 = Continues \<and> n = N \<or> n < N \<and> bad_locator (locator_of ss n) \<and> (\<exists>x. e2 = Throws x))"
proof -
  let ?m = "smbiosTableStorage a"
  note counts = table_counts [OF assms(1)] and ok = assms(1) [unfolded refreshable_def]
  have run: "dimm_loop cfg env ?m (At 0) mb [0 ..< N] (i1\<lparr>inv_dimms := []\<rparr>) = Some (e2, i2)"
    using assms(5) counts(2) ok by (simp add: refresh_dimms_def Let_def N_def)
  have good: "good_names N (dimm_name cfg ss)" unfolding N_def by (rule dimm_names_good) (use ok in simp)
  have pl: "placed cfg (i1\<lparr>inv_dimms := []\<rparr>)" using assms(3) unfolding placed_def by simp
  obtain n ds where r: "i2 = i1\<lparr>inv_dimms := ds\<rparr>"
    "list_all2 (dimm_built cfg ?m (At 0) mb (dimm_name cfg ss)) [0 ..< n] ds"
    "n \<le> N" "case e2 of Continues \<Rightarrow> n = N | Returns \<Rightarrow> False
    | Throws x \<Rightarrow> n < N \<and> memoryInfoUpdate (dimm_opts cfg) (trim_right cfg) ?m (At 0)
        (word_of_nat n) mb (blank_dimm cfg) = Some (Inl x)"
    using dimm_loop_result [OF assms(2) good _ run _ pl, of "inv_baseboards i1"] assms(4) by (auto simp: N_def)
  show ?thesis
  proof (cases e2)
    case (Throws x)
    then have "bad_locator (locator_of ss n)" "n < N"
      using r(4) dimm_outcome [OF assms(1), of n mb "blank_dimm cfg"] by (auto simp: N_def)
    then show ?thesis using r(1-3) Throws by blast
  qed (use r in auto)
qed

lemma refresh_prefix:
  assumes "refreshable cfg path a q ss i" and "bus_ready env" and "systemInfoUpdate cfg env path a i = Some (e, i')"
  defines "m \<equiv> smbiosTableStorage a" and "mb \<equiv> find_motherboard env path" and "mods \<equiv> find_modules env"
  shows "\<exists>bs cs ch ds n. list_all2 (cpu_built cfg m (At 0) mb mods) [0 ..< min 255 (length (of_type 4 ss))] cs
    \<and> list_all2 (dimm_built cfg m (At 0) mb (dimm_name cfg ss)) [0 ..< n] ds \<and> n \<le> min 255 (length (of_type 17 ss))
    \<and> (let i2 = i\<lparr>inv_baseboards := bs, inv_cpus := cs, inv_chassisCpus := ch, inv_dimms := ds\<rparr> in
       (n < min 255 (length (of_type 17 ss)) \<and> bad_locator (locator_of ss n) \<and> (\<exists>x. e = Throws x) \<and> i' = i2)
       \<or> (n = min 255 (length (of_type 17 ss)) \<and> placed cfg i2 \<and>
          and_then (refresh_pcies cfg env m (At 0) mb path) (and_then (refresh_tpm cfg env m (At 0) mb)
            (and_then (refresh_firmware cfg env m (At 0)) (refresh_system cfg env m (At 0) path))) i2 = Some (e, i')))"
proof -
  note counts = table_counts [OF assms(1), folded m_def]
  note ok = assms(1) [unfolded refreshable_def, folded m_def]
  have env: "bus_registers env" "\<forall>x \<in> set mods. well_placed (fst x)"
    using assms(2) modules_placed unfolding bus_ready_def mods_def by blast+
  obtain d where d: "dir_at (smbiosDir a) smbiosDirIndex = Some d" "dataStorage d = At 0"
    using wf_agentD [of a] ok by (auto simp: dir_at_def smbiosDirIndex_def)
  obtain bs where bs: "refresh_baseboards cfg m (At 0) i = Some (Continues, i\<lparr>inv_baseboards := bs\<rparr>)"
    and names: "\<And>k d. k < min 255 (length (of_type 17 ss)) \<Longrightarrow>
      getSMBIOSTypeIndexPtr m (At 0) (type_code memoryDeviceType) (word_of_nat k) = Some d \<Longrightarrow>
      board_memory_name m d bs (''Memory_'' @ dec k) = Some (dimm_name cfg ss k)"
    using refresh_baseboards_names [OF assms(1), folded m_def] by blast
  let ?late = "and_then (refresh_pcies cfg env m (At 0) mb path) (and_then (refresh_tpm cfg env m (At 0) mb)
            (and_then (refresh_firmware cfg env m (At 0)) (refresh_system cfg env m (At 0) path)))"
  let ?i = "i\<lparr>inv_baseboards := bs\<rparr>"
  have pl: "placed cfg ?i" using ok unfolding steady_def placed_def by simp
  have prefix: "prefix_ok cfg" and dbus: "cpu_dbus cfg" using ok by simp_all
  have "and_then (refresh_cpus cfg env m (At 0) mb mods)
      (and_then (refresh_dimms cfg env m (At 0) mb) ?late) ?i = Some (e, i')"
    using assms(3) d and_then_Continues [of "refresh_baseboards cfg m (At 0)", OF bs]
    by (simp add: systemInfoUpdate_def Let_def m_def mb_def mods_def)
  then obtain e1 i1 where cpus: "refresh_cpus cfg env m (At 0) mb mods ?i = Some (e1, i1)"
    and rest: "e1 = Continues \<Longrightarrow> and_then (refresh_dimms cfg env m (At 0) mb) ?late i1 = Some (e, i')"
    by (auto simp: and_then_Some_iff)
  obtain cs ch where c: "e1 = Continues" "i1 = ?i\<lparr>inv_cpus := cs, inv_chassisCpus := ch\<rparr>"
    "list_all2 (cpu_built cfg m (At 0) mb mods) [0 ..< min 255 (length (of_type 4 ss))] cs"
    using refresh_cpus_result [OF env(1) prefix env(2) pl cpus dbus counts(1)] by (auto simp: min_le_iff_disj)
  have pl1: "placed cfg i1" using keeps_placed(2) pl cpus unfolding stage_keeps_def by blast
  let ?N = "min 255 (length (of_type 17 ss))"
  note step = refresh_dimms_result [OF assms(1) env(1) pl1, of mb, folded m_def]
  have names1: "\<And>k d. k < ?N \<Longrightarrow>
      getSMBIOSTypeIndexPtr m (At 0) (type_code memoryDeviceType) (word_of_nat k) = Some d \<Longrightarrow>
      board_memory_name m d (inv_baseboards i1) (''Memory_'' @ dec k) = Some (dimm_name cfg ss k)"
    using names c(2) by simp
  obtain e2 i2 where dimms: "refresh_dimms cfg env m (At 0) mb i1 = Some (e2, i2)"
    and last: "e2 = Continues \<Longrightarrow> ?late i2 = Some (e, i')" "e2 \<noteq> Continues \<Longrightarrow> e = e2 \<and> i' = i2"
    using rest [OF c(1)] by (auto simp: and_then_Some_iff)
  have pl2: "placed cfg i2" using keeps_placed(3) pl1 dimms unfolding stage_keeps_def by blast
  from step [OF names1 dimms] obtain n ds where "i2 = i1\<lparr>inv_dimms := ds\<rparr>"
    "list_all2 (dimm_built cfg m (At 0) mb (dimm_name cfg ss)) [0 ..< n] ds" "n \<le> ?N"
    "e2 = Continues \<and> n = ?N \<or> n < ?N \<and> bad_locator (locator_of ss n) \<and> (\<exists>x. e2 = Throws x)" by blast
  then show ?thesis
    using c last pl2 by (intro exI [of _ bs] exI [of _ cs] exI [of _ ch] exI [of _ ds] exI [of _ n]) auto
qed

lemma refresh_late:
  assumes "and_then (refresh_pcies cfg env m (At 0) mb path) (and_then (refresh_tpm cfg env m (At 0) mb)
      (and_then (refresh_firmware cfg env m (At 0)) (refresh_system cfg env m (At 0) path))) i = Some (e, i')"
    and "pcies_numbered (inv_pcies i)" and "placed cfg i" and "getTotalPcieSlot m (At 0) = Some (Some n)"
    and "getTotalNum m (At 0) (type_code firmwareInventoryInformationType) 0 = Some (Some f)"
    and "bus_works (bios_calls env)" and "bus_registers env" and "mb = [] \<or> well_placed mb" and "well_placed path"
  shows "\<exists>ps t fs s. e = Continues
    \<and> i' = i\<lparr>inv_pcies := ps, inv_tpm := t, inv_firmware := fs, inv_system := Some s\<rparr>
    \<and> length ps = n \<and> (\<forall>k < n. pcie_built m (At 0) mb k (ps ! k))
    \<and> (t \<noteq> None \<longleftrightarrow> getTotalNum m (At 0) (type_code tpmDeviceType) 0 = Some (Some 1))
    \<and> so_path s = path @ systemSuffix \<and> System_uuid m (At 0) = Some (so_uuid s)
    \<and> System_version m (At 0) (bios_calls env) (file_truncatable env) = Some (Inr (so_version s))
    \<and> placed cfg i'"
proof -
  obtain e1 i1 where i1: "refresh_pcies cfg env m (At 0) mb path i = Some (e1, i1)"
    and r1: "e1 = Continues \<Longrightarrow> and_then (refresh_tpm cfg env m (At 0) mb)
      (and_then (refresh_firmware cfg env m (At 0)) (refresh_system cfg env m (At 0) path)) i1 = Some (e, i')"
    using assms(1) unfolding and_then_Some_iff [of "refresh_pcies cfg env m (At 0) mb path"] by blast
  obtain ps where ps: "e1 = Continues" "i1 = i\<lparr>inv_pcies := ps\<rparr>" "length ps = n"
    "\<forall>k < n. pcie_built m (At 0) mb k (ps ! k)"
    using refresh_pcies_result [OF assms(7,8,9) i1 assms(2,3,4)] by blast
  have p1: "placed cfg i1" using keeps_placed(4) assms(3) i1 unfolding stage_keeps_def by blast
  obtain e2 i2 where i2: "refresh_tpm cfg env m (At 0) mb i1 = Some (e2, i2)"
    and r2: "e2 = Continues \<Longrightarrow> and_then (refresh_firmware cfg env m (At 0)) (refresh_system cfg env m (At 0) path) i2 = Some (e, i')"
    using r1 [OF ps(1)] unfolding and_then_Some_iff [of "refresh_tpm cfg env m (At 0) mb"] by blast
  obtain t where t: "e2 = Continues" "i2 = i1\<lparr>inv_tpm := t\<rparr>"
    "t \<noteq> None \<longleftrightarrow> getTotalNum m (At 0) (type_code tpmDeviceType) 0 = Some (Some 1)"
    using refresh_tpm_result [OF assms(7) p1 assms(8) i2] by blast
  have p2: "placed cfg i2" using keeps_placed(5) p1 i2 unfolding stage_keeps_def by blast
  obtain e3 i3 where i3: "refresh_firmware cfg env m (At 0) i2 = Some (e3, i3)"
    and r3: "e3 = Continues \<Longrightarrow> refresh_system cfg env m (At 0) path i3 = Some (e, i')"
    using r2 [OF t(1)] unfolding and_then_Some_iff by blast
  obtain fs where fs: "e3 = Continues" "i3 = i2\<lparr>inv_firmware := fs\<rparr>"
    using refresh_firmware_result [OF i3] assms(5) by blast
  have p3: "placed cfg i3" using keeps_placed(6) p2 i3 unfolding stage_keeps_def by blast
  have p4: "placed cfg i'" using keeps_placed(7) p3 r3 [OF fs(1)] unfolding stage_keeps_def by blast
  obtain s where "e = Continues" "i' = i3\<lparr>inv_system := Some s\<rparr>" "so_path s = path @ systemSuffix"
    "System_uuid m (At 0) = Some (so_uuid s)"
    "System_version m (At 0) (bios_calls env) (file_truncatable env) = Some (Inr (so_version s))"
    using refresh_system_result [OF assms(7) p3 assms(9) r3 [OF fs(1)]] assms(6) unfolding bus_works_def by blast
  then show ?thesis
    using ps t fs p4 by (intro exI [of _ ps] exI [of _ t] exI [of _ fs] exI [of _ s]) simp
qed

lemma dimm_built_locator:
  assumes "refreshable cfg path a q ss i"
    and "list_all2 (dimm_built cfg (smbiosTableStorage a) (At 0) mb nm) [0 ..< n] ds"
    and "n \<le> min 255 (length (of_type 17 ss))" and "k < n"
  shows "\<not> bad_locator (locator_of ss k)"
proof -
  obtain d where "memoryInfoUpdate (dimm_opts cfg) (trim_right cfg) (smbiosTableStorage a) (At 0)
      (word_of_nat k) mb (blank_dimm cfg) = Some (Inr d)"
    using list_all2_nthD [OF assms(2), of k] assms(4) by (auto simp: dimm_built_def)
  from dimm_outcome [OF assms(1) _ this] show ?thesis using assms(3,4) by simp
qed

text \<open>The paths of the processors, memory devices and slots.\<close>

definition object_paths :: "inventory \<Rightarrow> string list" where
  "object_paths i = map co_path (inv_cpus i) @ map fst (inv_dimms i) @ map po_path (inv_pcies i)"

text \<open>
  An inventory that shows a table, where the mapper gave the answers of \<open>env\<close>: one processor object
  per processor and one memory object per memory device, in order, up to 255 of each, each with the
  values that its update computes for that index; one object per PCIe slot; all of these at different
  paths; a TPM object exactly when the table has one TPM; and the system object.
\<close>

definition shows_table ::
  "inventory_config \<Rightarrow> bus_env \<Rightarrow> string \<Rightarrow> memory \<Rightarrow> smb_struct list \<Rightarrow> inventory \<Rightarrow> bool"
where
  "shows_table cfg env path m ss i' \<longleftrightarrow> (let mb = find_motherboard env path in
    list_all2 (cpu_built cfg m (At 0) mb (find_modules env)) [0 ..< min 255 (length (of_type 4 ss))] (inv_cpus i')
    \<and> list_all2 (dimm_built cfg m (At 0) mb (dimm_name cfg ss)) [0 ..< min 255 (length (of_type 17 ss))] (inv_dimms i')
    \<and> length (inv_pcies i') = min 255 (length (filter pcie_struct (of_type 9 ss)))
    \<and> (\<forall>k < length (inv_pcies i'). pcie_built m (At 0) mb k (inv_pcies i' ! k))
    \<and> distinct (object_paths i')
    \<and> (inv_tpm i' \<noteq> None \<longleftrightarrow> length (of_type 43 ss) = 1)
    \<and> (\<exists>s. inv_system i' = Some s \<and> so_path s = path @ systemSuffix \<and> System_uuid m (At 0) = Some (so_uuid s)
         \<and> System_version m (At 0) (bios_calls env) (file_truncatable env) = Some (Inr (so_version s))))"

lemma object_paths_distinct:
  assumes "placed cfg i" and "list_all2 (cpu_built cfg m st mb mods) [0 ..< k] (inv_cpus i)"
    and "list_all2 (dimm_built cfg m st mb nm) [0 ..< n] (inv_dimms i)" and "good_names n nm"
  shows "distinct (object_paths i)"
proof -
  have "list_all2 (numbered (cpu_stem (cpu_opts cfg))) [0 ..< k] (map co_path (inv_cpus i))"
    unfolding list_all2_map2
    by (rule list_all2_mono [OF assms(2)]) (use cpu_place_form cpu_numbered in \<open>fastforce simp: cpu_built_def\<close>)
  then have c: "distinct (map co_path (inv_cpus i))" by (rule cpu_paths.distinct_paths) simp
  have d: "distinct (map fst (inv_dimms i))"
    using dimm_paths [OF assms(3)] assms(4) dimm_path_inj by (auto simp: distinct_map inj_on_def good_names_def)
  have p: "distinct (map po_path (inv_pcies i))"
    using assms(1) by (auto simp: placed_def intro: pcie_paths.distinct_paths)
  have cd: "co_path c \<noteq> fst x" if "c \<in> set (inv_cpus i)" "x \<in> set (inv_dimms i)" for c x
    using placedD(1) [OF assms(1) that(1)] placedD(3) [OF assms(1) that(2)] stems_apart(2) by metis
  have cp: "co_path c \<noteq> po_path x" if "c \<in> set (inv_cpus i)" "x \<in> set (inv_pcies i)" for c x
    using placedD(1) [OF assms(1) that(1)] placedD(4) [OF assms(1) that(2)] stems_apart(3) by metis
  have dp: "fst y \<noteq> po_path x" if "y \<in> set (inv_dimms i)" "x \<in> set (inv_pcies i)" for y x
    using placedD(3) [OF assms(1) that(1)] placedD(4) [OF assms(1) that(2)] stems_apart(6) by metis
  have "set (map co_path (inv_cpus i)) \<inter> set (map fst (inv_dimms i)) = {}"
    "(set (map co_path (inv_cpus i)) \<union> set (map fst (inv_dimms i))) \<inter> set (map po_path (inv_pcies i)) = {}"
    using cd cp dp unfolding set_map by blast+
  then show ?thesis using c d p unfolding object_paths_def distinct_append set_append by blast
qed

lemma refresh_complete:
  assumes "refreshable cfg path a q ss i" and "bus_ready env" and "bus_works (bios_calls env)"
    and "\<forall>k < min 255 (length (of_type 17 ss)). \<not> bad_locator (locator_of ss k)"
  shows "\<exists>i'. systemInfoUpdate cfg env path a i = Some (Continues, i')
    \<and> shows_table cfg env path (smbiosTableStorage a) ss i'"
proof -
  define m where "m = smbiosTableStorage a"
  define mb where "mb = find_motherboard env path"
  note counts = table_counts [OF assms(1), folded m_def] and ok = assms(1) [unfolded refreshable_def]
  obtain e i' where run: "systemInfoUpdate cfg env path a i = Some (e, i')"
    using refresh_defined [of a cfg i env path] ok assms(3) by (auto simp: steady_def defined_def bus_works_def)
  let ?N = "min 255 (length (of_type 17 ss))"
  obtain bs cs ch ds n where pre: "list_all2 (cpu_built cfg m (At 0) mb (find_modules env)) [0 ..< min 255 (length (of_type 4 ss))] cs"
    "list_all2 (dimm_built cfg m (At 0) mb (dimm_name cfg ss)) [0 ..< n] ds"
    "(let i2 = i\<lparr>inv_baseboards := bs, inv_cpus := cs, inv_chassisCpus := ch, inv_dimms := ds\<rparr> in
       (n < ?N \<and> bad_locator (locator_of ss n) \<and> (\<exists>x. e = Throws x) \<and> i' = i2)
       \<or> (n = ?N \<and> placed cfg i2 \<and> and_then (refresh_pcies cfg env m (At 0) mb path) (and_then (refresh_tpm cfg env m (At 0) mb)
            (and_then (refresh_firmware cfg env m (At 0)) (refresh_system cfg env m (At 0) path))) i2 = Some (e, i')))"
    using refresh_prefix [OF assms(1,2) run, folded m_def mb_def] by blast
  define i2 where "i2 = i\<lparr>inv_baseboards := bs, inv_cpus := cs, inv_chassisCpus := ch, inv_dimms := ds\<rparr>"
  have n: "n = ?N" and pl: "placed cfg i2"
    and late: "and_then (refresh_pcies cfg env m (At 0) mb path) (and_then (refresh_tpm cfg env m (At 0) mb)
      (and_then (refresh_firmware cfg env m (At 0)) (refresh_system cfg env m (At 0) path))) i2 = Some (e, i')"
    using pre(3) assms(4) unfolding Let_def i2_def [symmetric] by blast+
  have num: "pcies_numbered (inv_pcies i2)" using ok by (simp add: steady_def i2_def)
  have mb: "mb = [] \<or> well_placed mb" "well_placed path"
    using motherboard_placed assms(2) ok unfolding bus_ready_def mb_def inventory_place_def by blast+
  obtain ps t fs s where r: "e = Continues"
    "i' = i2\<lparr>inv_pcies := ps, inv_tpm := t, inv_firmware := fs, inv_system := Some s\<rparr>"
    "length ps = min 255 (length (filter pcie_struct (of_type 9 ss)))"
    "\<forall>k < length ps. pcie_built m (At 0) mb k (ps ! k)"
    "t \<noteq> None \<longleftrightarrow> getTotalNum m (At 0) (type_code tpmDeviceType) 0 = Some (Some 1)"
    "so_path s = path @ systemSuffix" "System_uuid m (At 0) = Some (so_uuid s)"
    "System_version m (At 0) (bios_calls env) (file_truncatable env) = Some (Inr (so_version s))" "placed cfg i'"
    using refresh_late [OF late num pl counts(3,4) assms(3) _ mb] assms(2) unfolding bus_ready_def by metis
  have lists: "inv_cpus i' = cs" "inv_dimms i' = ds" using r(2) by (simp_all add: i2_def)
  have "good_names ?N (dimm_name cfg ss)" by (rule dimm_names_good) (use ok in simp)
  then have "distinct (object_paths i')"
    using object_paths_distinct [OF r(9)] pre(1,2) n unfolding lists by blast
  moreover have "min 255 (length (of_type 43 ss)) = Suc 0 \<longleftrightarrow> length (of_type 43 ss) = Suc 0" by (auto simp: min_def)
  ultimately have "shows_table cfg env path m ss i'"
    using pre(1,2) n r lists counts(4) [of 43] by (simp add: shows_table_def Let_def mb_def [symmetric])
  then show ?thesis using run r(1) by (simp add: m_def)
qed

subsection \<open>Properties of the refresh\<close>

text \<open>
  C4. The refresh on a table without a bad locator among the memory devices it shows, with complete
  memory devices and slots and, in a build with boards, complete boards and no handle twice, in a build
  that publishes processors and memory devices, on a bus that accepts unused paths and takes the BIOS
  version and with a mapper that answers below its query: it completes
  and replaces the whole inventory; no registration is refused. There is one processor object per
  processor and one memory object per memory device of the table, in order, up to 255 of each, each
  with the values that its update computes for that index; a memory object is named by its index, or
  by the board that contains the device and its position there. The list of slots, whatever it held
  before, has one object per PCIe slot. Processors, memory devices and slots have different paths.
  There is a TPM object exactly when the table has one TPM, and the system object shows the UUID
  and the BIOS version.
\<close>

theorem refresh_shows_table:
  assumes "refreshable cfg path a q ss i" and "bus_ready env" and "bus_works (bios_calls env)"
    and "\<forall>k < min 255 (length (of_type 17 ss)). \<not> bad_locator (locator_of ss k)"
  shows "let m = smbiosTableStorage a; mb = find_motherboard env path in
    \<exists>i'. systemInfoUpdate cfg env path a i = Some (Continues, i')
    \<and> list_all2 (cpu_built cfg m (At 0) mb (find_modules env)) [0 ..< min 255 (length (of_type 4 ss))] (inv_cpus i')
    \<and> list_all2 (dimm_built cfg m (At 0) mb (dimm_name cfg ss)) [0 ..< min 255 (length (of_type 17 ss))] (inv_dimms i')
    \<and> length (inv_pcies i') = min 255 (length (filter pcie_struct (of_type 9 ss)))
    \<and> (\<forall>k < length (inv_pcies i'). pcie_built m (At 0) mb k (inv_pcies i' ! k))
    \<and> distinct (object_paths i')
    \<and> (inv_tpm i' \<noteq> None \<longleftrightarrow> length (of_type 43 ss) = 1)
    \<and> (\<exists>s. inv_system i' = Some s \<and> so_path s = path @ systemSuffix \<and> System_uuid m (At 0) = Some (so_uuid s)
         \<and> System_version m (At 0) (bios_calls env) (file_truncatable env) = Some (Inr (so_version s)))"
  using refresh_complete [OF assms] by (simp add: shows_table_def Let_def)

subsection \<open>Examples\<close>

text \<open>A build without boards and one with boards; a bus library that keeps its promises and an empty mapper.\<close>

definition plain_build :: "inventory_config \<Rightarrow> inventory_config" where
  "plain_build cfg = cfg\<lparr>procmod_dbus := False, cpu_dbus := True, dimm_dbus := True,
     cpu_opts := (cpu_opts cfg)\<lparr>platformPrefix := None\<rparr>\<rparr>"

definition board_build :: "inventory_config \<Rightarrow> inventory_config" where
  "board_build cfg = (plain_build cfg)\<lparr>procmod_dbus := True, cpu_opts := (cpu_opts cfg)\<lparr>platformPrefix := Some ''HGX''\<rparr>\<rparr>"

definition ready_env :: "bus_env \<Rightarrow> bus_env" where
  "ready_env env = env\<lparr>system_subtree := \<lambda>root ifs. None, module_subtree := None,
     bus_accepts := \<lambda>keys path ifs. valid_object_path path \<and> unused keys path ifs, bios_calls := example_bus\<rparr>"

lemma ready_env_ok [simp]:
  "bus_ready (ready_env env)" "bios_calls (ready_env env) = example_bus" "file_truncatable (ready_env env) = file_truncatable env"
  by (simp_all add: ready_env_def bus_ready_def bus_registers_def mapper_below_def)

lemma default_inventory_place: "inventory_place defaultInventoryPath"
  using default_paths_placed(1) by (simp add: inventory_place_def)

lemma steady_empty: "steady cfg empty_inventory"
  by (simp add: steady_def placed_def empty_inventory_def pcies_numbered_def)

lemma loaded_agent_table:
  assumes "list_all wf_struct ss" and "length (encode_table ss) \<le> 32768"
  shows "table_from (smbiosTableStorage (loaded_agent (encode_table ss))) 0 0 ss"
proof (rule table_from_table)
  let ?z = "replicate (65536 - length (encode_table ss)) (0 :: u8)"
  have "holds (encode_table ss @ ?z) 0 (encode_table ss)"
    using holds_self [of "[]" "encode_table ss" ?z] by simp
  then show "at_table (smbiosTableStorage (loaded_agent (encode_table ss))) 0 ss"
    using assms by (simp add: at_table_def loaded_agent_def)
qed

lemma prefix_examples: "prefix_ok (plain_build cfg)" "prefix_ok (board_build cfg)"
  by (simp_all add: prefix_ok_def plain_build_def board_build_def element_char_def is_alpha_def)

lemma refreshable_example:
  assumes "list_all wf_struct ss" and "length (encode_table ss) \<le> 32768"
    and "\<forall>s \<in> set ss. s_type s = 17 \<longrightarrow> 41 \<le> s_length s"
    and "\<forall>s \<in> set ss. s_type s = 9 \<longrightarrow> 13 \<le> s_length s"
  shows "refreshable (plain_build cfg) defaultInventoryPath (loaded_agent (encode_table ss)) 0 ss empty_inventory"
    and "complete_boards ss \<Longrightarrow> distinct (map s_handle ss) \<Longrightarrow>
      refreshable (board_build cfg) defaultInventoryPath (loaded_agent (encode_table ss)) 0 ss empty_inventory"
  using assms loaded_agent_ok [OF assms(2)] loaded_agent_table [OF assms(1,2)] prefix_examples
  by (simp_all add: refreshable_def default_inventory_place steady_empty) (simp_all add: plain_build_def board_build_def)

text \<open>A processor module with two memory devices, and a third device beside it.\<close>

definition module_table :: "smb_struct list" where
  "module_table = [\<lparr>s_type = 2, s_handle = 3, s_body = replicate 9 0 @ [6, 2, 0x12, 0, 0x11, 0], s_strings = []\<rparr>,
     example_dimm, example_dimm\<lparr>s_handle := 0x12\<rparr>, example_dimm\<lparr>s_handle := 0x13\<rparr>]"

lemma module_table_ok:
  "list_all wf_struct module_table" "length (encode_table module_table) \<le> 32768"
  "\<forall>s \<in> set module_table. s_type s = 17 \<longrightarrow> 41 \<le> s_length s"
  "\<forall>s \<in> set module_table. s_type s = 9 \<longrightarrow> 13 \<le> s_length s"
  "of_type 17 module_table = tl module_table" "of_type 2 module_table = [hd module_table]"
  "complete_boards module_table" "distinct (map s_handle module_table)"
  by (simp_all add: module_table_def example_dimm_def wf_struct_def s_length_def structureHeaderSize_def wf_string_def
      encode_strings_def encode_string_def mdrSMBIOSSize_def byte_of_char_def encode_table_def encode_struct_def
      complete_boards_def sf8_def nth_append)

lemma module_table_names:
  "map (dimm_name (board_build cfg) module_table) [0 ..< 3] =
     [''ProcessorModule_0_Memory_1'', ''ProcessorModule_0_Memory_0'', ''Memory_2'']"
proof -
  let ?b = "hd module_table"
  have b: "sf8 ?b 14 = 2" "sf16 ?b 15 = 0x12" "sf16 ?b 17 = 0x11" "sf8 ?b 13 = 6"
    by (simp_all add: module_table_def sf8_def sf16_def le_word_def nth_append)
  have two: "[0 ..< 2] = [0, 1 :: nat]" and three: "[0 ..< 3] = [0, 1, 2 :: nat]" by (simp_all add: upt_rec)
  have "board_handles ?b = [0x12, 0x11]" by (simp add: board_handles_def b two)
  then have k: "known_handles module_table ?b = [0x12, 0x11]"
    by (simp add: known_handles_def) (simp add: module_table_def example_dimm_def)
  have t: "handle_type module_table 0x12 = 17" "handle_type module_table 0x11 = 17"
    by (simp_all add: handle_type_def module_table_def example_dimm_def)
  have boards: "boards_of module_table = [?b]" by (simp add: boards_of_def module_table_ok(6))
  have h: "s_handle (of_type 17 module_table ! 0) = 0x11" "s_handle (of_type 17 module_table ! 1) = 0x12"
    "s_handle (of_type 17 module_table ! 2) = 0x13"
    unfolding module_table_ok(5) by (simp_all add: module_table_def example_dimm_def)
  have hold: "holding_board module_table 0x11 = Some 0" "holding_board module_table 0x12 = Some 0"
    "holding_board module_table 0x13 = None"
    by (simp_all add: holding_board_def boards k)
  have digits: "dec 0 = ''0''" "dec 1 = ''1''" "dec 2 = ''2''" by code_simp+
  have label: "board_label (boards_of module_table) 0 = ''ProcessorModule_0''"
    by (simp add: board_label_def boards module_board_def b processor_board_def BT_ProcessorModule_def digits)
  have pos: "contained_position module_table ?b 0x11 = 1" "contained_position module_table ?b 0x12 = 0"
    by (simp_all add: contained_position_def k t)
  show ?thesis
    unfolding three
    by (simp add: dimm_name_def board_build_def dimm_label_def Let_def h [simplified] hold label)
       (simp add: boards pos digits [simplified])
qed

lemma module_table_locators: "\<forall>k < 3. \<not> bad_locator (locator_of module_table k)"
proof -
  have "locator_of module_table k = ''CPU0_DIMM_A''" if "k < 3" for k
  proof -
    have "k = 0 \<or> k = 1 \<or> k = 2" using that by auto
    then show ?thesis
      unfolding locator_of_def module_table_ok(5)
      by (auto simp: module_table_def example_dimm_def struct_string_def sf8_def)
  qed
  then show ?thesis using example_locator(1) by simp
qed

theorem refresh_shows_table_witness:
  "\<forall>cfg env. \<exists>i'. systemInfoUpdate (board_build cfg) (ready_env env) defaultInventoryPath
      (loaded_agent (encode_table module_table)) empty_inventory = Some (Continues, i')
    \<and> map fst (inv_dimms i') = map dimm_path [''ProcessorModule_0_Memory_1'', ''ProcessorModule_0_Memory_0'', ''Memory_2'']
    \<and> inv_tpm i' = None"
proof (intro allI)
  fix cfg env
  note ok = refreshable_example(2) [OF module_table_ok(1-4) module_table_ok(7,8), of cfg]
  have n: "length (of_type 17 module_table) = 3" "length (of_type 43 module_table) = 0"
    unfolding module_table_ok(5) by (simp_all add: module_table_def example_dimm_def)
  have loc: "\<forall>k < min 255 (length (of_type 17 module_table)). \<not> bad_locator (locator_of module_table k)"
    using module_table_locators n by simp
  have bus: "bus_works (bios_calls (ready_env env))" by (simp add: example_bus_works)
  from refresh_shows_table [OF ok ready_env_ok(1) bus loc] obtain i' where
    i': "systemInfoUpdate (board_build cfg) (ready_env env) defaultInventoryPath
      (loaded_agent (encode_table module_table)) empty_inventory = Some (Continues, i')"
    and ds: "list_all2 (dimm_built (board_build cfg) (smbiosTableStorage (loaded_agent (encode_table module_table))) (At 0)
      (find_motherboard (ready_env env) defaultInventoryPath) (dimm_name (board_build cfg) module_table)) [0 ..< 3] (inv_dimms i')"
    and tpm: "inv_tpm i' = None"
    unfolding Let_def n by (simp add: not_None_eq del: not_None_eq) blast
  have "map fst (inv_dimms i') = map dimm_path (map (dimm_name (board_build cfg) module_table) [0 ..< 3])"
    using dimm_paths [OF ds] by simp
  then show "\<exists>i'. systemInfoUpdate (board_build cfg) (ready_env env) defaultInventoryPath
      (loaded_agent (encode_table module_table)) empty_inventory = Some (Continues, i')
    \<and> map fst (inv_dimms i') = map dimm_path [''ProcessorModule_0_Memory_1'', ''ProcessorModule_0_Memory_0'', ''Memory_2'']
    \<and> inv_tpm i' = None"
    using i' tpm unfolding module_table_names by blast
qed

text \<open>
  A memory device whose locator makes the update throw stops the refresh: the exception leaves
  \<open>systemInfoUpdate\<close>, the memory objects before that device are the only ones shown, and the slots,
  the TPM, the firmware and the system object keep what an earlier table gave them.
\<close>

theorem bad_locator_stops_refresh:
  assumes "refreshable cfg path a q ss i" and "k < min 255 (length (of_type 17 ss))"
    and "bad_locator (locator_of ss k)" and "\<forall>j < k. \<not> bad_locator (locator_of ss j)"
    and "bus_ready env" and "mapper_answers (bios_calls env)"
  shows "\<exists>x i'. systemInfoUpdate cfg env path a i = Some (Throws x, i')
    \<and> map fst (inv_dimms i') = map (\<lambda>k. dimm_path (dimm_name cfg ss k)) [0 ..< k]
    \<and> inv_pcies i' = inv_pcies i \<and> inv_tpm i' = inv_tpm i
    \<and> inv_firmware i' = inv_firmware i \<and> inv_system i' = inv_system i"
proof -
  let ?m = "smbiosTableStorage a" and ?mb = "find_motherboard env path"
  obtain e i' where run: "systemInfoUpdate cfg env path a i = Some (e, i')"
    using refresh_defined [of a cfg i env path] assms(1,6) by (auto simp: refreshable_def steady_def defined_def)
  let ?N = "min 255 (length (of_type 17 ss))"
  obtain bs cs ch ds n where ds: "list_all2 (dimm_built cfg ?m (At 0) ?mb (dimm_name cfg ss)) [0 ..< n] ds" "n \<le> ?N"
    and cases: "(n < ?N \<and> bad_locator (locator_of ss n) \<and> (\<exists>x. e = Throws x)
        \<and> i' = i\<lparr>inv_baseboards := bs, inv_cpus := cs, inv_chassisCpus := ch, inv_dimms := ds\<rparr>) \<or> n = ?N"
    using refresh_prefix [OF assms(1,5) run] unfolding Let_def by blast
  have "n \<le> k" using dimm_built_locator [OF assms(1) ds, of k] assms(3) by force
  then have "n = k" using cases assms(2,4) by (metis nat_less_le not_le)
  then show ?thesis using cases assms(2) run dimm_paths [OF ds(1)] by auto
qed

definition odd_table :: "smb_struct list" where
  "odd_table = [example_dimm, example_dimm\<lparr>s_strings := [''CPUA'', ''BANK 0'', ''Samsung'', ''S1'', ''P1 '']\<rparr>]"

lemma odd_table_ok:
  "list_all wf_struct odd_table" "length (encode_table odd_table) \<le> 32768"
  "\<forall>s \<in> set odd_table. s_type s = 17 \<longrightarrow> 41 \<le> s_length s"
  "\<forall>s \<in> set odd_table. s_type s = 9 \<longrightarrow> 13 \<le> s_length s"
  "of_type 17 odd_table = odd_table"
  by (simp_all add: odd_table_def example_dimm_def wf_struct_def s_length_def structureHeaderSize_def wf_string_def
      encode_strings_def encode_string_def mdrSMBIOSSize_def byte_of_char_def encode_table_def encode_struct_def)

lemma odd_table_locators:
  "\<not> bad_locator (locator_of odd_table 0)" "bad_locator (locator_of odd_table 1)"
proof -
  show "\<not> bad_locator (locator_of odd_table 0)"
    unfolding locator_of_def odd_table_ok(5)
    by (simp add: odd_table_def example_dimm_values example_locator)
  have "locator_of odd_table 1 = ''CPUA''"
    unfolding locator_of_def odd_table_ok(5)
    by (simp add: odd_table_def example_dimm_def sf8_def struct_string_def)
  then show "bad_locator (locator_of odd_table 1)" by (simp add: bad_locator_def is_digit_def)
qed

theorem bad_locator_stops_refresh_witness:
  "\<forall>cfg env. \<exists>x i'. systemInfoUpdate (plain_build cfg) (ready_env env) defaultInventoryPath
      (loaded_agent (encode_table odd_table)) empty_inventory = Some (Throws x, i')
    \<and> map fst (inv_dimms i') = [dimm_path (''Memory_'' @ dec 0)] \<and> inv_system i' = None"
proof (intro allI)
  fix cfg env
  have "1 < min 255 (length (of_type 17 odd_table))" unfolding odd_table_ok(5) by (simp add: odd_table_def)
  moreover have "\<forall>j < 1. \<not> bad_locator (locator_of odd_table j)" using odd_table_locators(1) by simp
  moreover have "dimm_name (plain_build cfg) odd_table 0 = ''Memory_'' @ dec 0" by (simp add: dimm_name_def plain_build_def)
  ultimately show "\<exists>x i'. systemInfoUpdate (plain_build cfg) (ready_env env) defaultInventoryPath
      (loaded_agent (encode_table odd_table)) empty_inventory = Some (Throws x, i')
    \<and> map fst (inv_dimms i') = [dimm_path (''Memory_'' @ dec 0)] \<and> inv_system i' = None"
    using bad_locator_stops_refresh [OF refreshable_example(1) [OF odd_table_ok(1-4), of cfg] _ odd_table_locators(2),
        of "ready_env env"] example_bus_answers by (auto simp: empty_inventory_def)
qed

subsection \<open>Devices with one name\<close>

text \<open>The other half of the documented behaviour of the bus library: a key in use is refused.\<close>

definition bus_refuses :: "bus_env \<Rightarrow> bool" where
  "bus_refuses env \<longleftrightarrow> (\<forall>keys path ifs. bus_accepts env keys path ifs \<longrightarrow> unused keys path ifs)"

lemma dimm_loop_distinct:
  assumes "bus_refuses env"
    and "\<And>k d. k < n \<Longrightarrow> getSMBIOSTypeIndexPtr m st (type_code memoryDeviceType) (word_of_nat k) = Some d \<Longrightarrow>
      board_memory_name m d bs (''Memory_'' @ dec k) = Some (nm k)"
    and "dimm_loop cfg env m st mb [j ..< n] i = Some (Continues, i')" and "inv_baseboards i = bs"
    and "map fst (inv_dimms i) = map (\<lambda>k. dimm_path (nm k)) [0 ..< j]" and "distinct (map fst (inv_dimms i))"
    and "j \<le> n"
  shows "distinct (map (\<lambda>k. dimm_path (nm k)) [0 ..< n])"
  using assms(3-7)
proof (induction "n - j" arbitrary: j i)
  case 0
  then show ?case by simp
next
  case (Suc d)
  then have j: "j < n" and js: "[j ..< n] = j # [Suc j ..< n]" by (simp_all add: upt_rec)
  have d: "d = n - Suc j" using Suc.hyps(2) by simp
  from Suc.prems(1) [unfolded js] obtain p nm' r where
    p: "getSMBIOSTypeIndexPtr m st (type_code memoryDeviceType) (word_of_nat j) = Some p"
    and nm': "board_memory_name m p (inv_baseboards i) (''Memory_'' @ dec j) = Some nm'"
    and new: "Dimm_new cfg env m st (defaultMotherboardPath @ ''/'' @ nm') (word_of_nat j) mb i = Some r"
    and thrown: "\<And>x. r = Inl x \<Longrightarrow> Continues = Throws x \<and> i' = i"
    and rest: "\<And>y. r = Inr y \<Longrightarrow> dimm_loop cfg env m st mb [Suc j ..< n]
      (i\<lparr>inv_dimms := inv_dimms i @ [(defaultMotherboardPath @ ''/'' @ nm', y)]\<rparr>) = Some (Continues, i')"
    by (rule dimm_loop_step) blast
  have nm: "nm' = nm j" using assms(2) [OF j p] nm' Suc.prems(2) by simp
  note path = dimm_path_def [of "nm j", symmetric]
  obtain y where y: "r = Inr y" using thrown by (cases r) auto
  then have "bus_accepts env (registered cfg i) (dimm_path (nm j)) (Dimm_interfaces (dimm_opts cfg))"
    using new unfolding nm path by (auto simp: Dimm_new_def split: if_splits)
  then have unused: "unused (registered cfg i) (dimm_path (nm j)) (Dimm_interfaces (dimm_opts cfg))"
    using assms(1) unfolding bus_refuses_def by blast
  have "dimm_path (nm j) \<notin> set (map fst (inv_dimms i))"
  proof
    assume "dimm_path (nm j) \<in> set (map fst (inv_dimms i))"
    then obtain x where "(dimm_path (nm j), x) \<in> set (inv_dimms i)" by auto
    then have "(dimm_path (nm j), I_Dimm) \<in> set (registered cfg i)"
      unfolding registered_def by (force simp: Dimm_interfaces_def)
    then show False using unused by (simp add: unused_def Dimm_interfaces_def)
  qed
  then show ?case
    using Suc.hyps(1) [OF d rest [OF y, unfolded nm path]] Suc.prems(2-4) j by simp
qed

lemma refresh_cpus_ending:
  assumes "table_from m p q ss" and "refresh_cpus cfg env m (At p) mb mods i = Some (e, i')"
  shows "e \<noteq> Returns"
proof -
  have "getTotalCpuSlot m (At p) \<noteq> Some None" using count_all_from [OF assms(1)] by (simp add: getTotalCpuSlot_def)
  then have "e \<noteq> Returns \<or> (\<exists>n. cpu_loop cfg env m (At p) mb mods [0 ..< n] (i\<lparr>inv_cpus := []\<rparr>) = Some (e, i'))"
    using assms(2) by (auto simp: refresh_cpus_def Let_def bind_eq_Some_conv split: if_splits option.splits) blast
  then show ?thesis using cpu_loop_ending by blast
qed

lemma refresh_dimms_same_name:
  assumes "table_from m p q ss" and "length bs = length (boards_of ss)" and "\<forall>b < length bs. shows_board m ss b (bs ! b)"
    and "dimm_dbus cfg" and "j < k" and "k < min 255 (length (of_type 17 ss))" and "dimm_label ss j = dimm_label ss k"
    and "bus_refuses env" and "inv_baseboards i = bs" and "refresh_dimms cfg env m (At p) mb i = Some (e, i')"
  shows "\<exists>x. e = Throws x"
proof -
  let ?N = "min 255 (length (of_type 17 ss))"
  have loop: "dimm_loop cfg env m (At p) mb [0 ..< ?N] (i\<lparr>inv_dimms := []\<rparr>) = Some (e, i')"
    using assms(4,10) count_all_from [OF assms(1)] by (simp add: refresh_dimms_def Let_def getTotalDimmSlot_def)
  have "e \<noteq> Continues"
  proof
    assume c: "e = Continues"
    have "distinct (map (\<lambda>k. dimm_path (dimm_label ss k)) [0 ..< ?N])"
      by (rule dimm_loop_distinct [OF assms(8) dimm_label_table [OF assms(1) _ assms(2,3)] loop [unfolded c]])
         (simp_all add: assms(9))
    moreover have "dimm_path (dimm_label ss j) = dimm_path (dimm_label ss k)" using assms(7) by simp
    ultimately show False
      using inj_onD [of "\<lambda>k. dimm_path (dimm_label ss k)" "{0 ..< ?N}" j k] assms(5,6) by (simp add: distinct_map)
  qed
  moreover have "e \<noteq> Returns" using dimm_loop_ending loop by blast
  ultimately show ?thesis by (cases e) auto
qed

text \<open>
  C33. Two memory devices to which a board gives one name (as it does for devices with the same handle)
  stop the refresh: the registration of the second one is refused, and the exception leaves
  \<open>systemInfoUpdate\<close>.
\<close>

theorem same_name_stops_refresh:
  assumes "wf_agent a" and "safe_table (smbiosTableStorage a)" and "table_from (smbiosTableStorage a) 0 q ss"
    and "procmod_dbus cfg" and "dimm_dbus cfg" and "complete_boards ss"
    and "j < k" and "k < min 255 (length (of_type 17 ss))" and "dimm_label ss j = dimm_label ss k"
    and "bus_refuses env" and "mapper_answers (bios_calls env)"
  shows "\<exists>x i'. systemInfoUpdate cfg env path a i = Some (Throws x, i')"
proof -
  let ?m = "smbiosTableStorage a"
  obtain e i' where run: "systemInfoUpdate cfg env path a i = Some (e, i')"
    using refresh_defined [of a cfg i env path] assms(1,2,4,11) by (auto simp: defined_def)
  obtain d where d: "dir_at (smbiosDir a) smbiosDirIndex = Some d" "dataStorage d = At 0"
    using wf_agentD [OF assms(1)] by (auto simp: dir_at_def smbiosDirIndex_def)
  obtain bs where bs: "refresh_baseboards cfg ?m (At 0) i = Some (Continues, i\<lparr>inv_baseboards := bs\<rparr>)"
    "length bs = length (boards_of ss)" "\<forall>b < length bs. shows_board ?m ss b (bs ! b)"
    using refresh_baseboards_table [OF assms(3,6,4)] by blast
  let ?i = "i\<lparr>inv_baseboards := bs\<rparr>" and ?mb = "find_motherboard env path" and ?mods = "find_modules env"
  obtain e1 i1 s2 where cpus: "refresh_cpus cfg env ?m (At 0) ?mb ?mods ?i = Some (e1, i1)"
    and rest: "e1 = Continues \<Longrightarrow> and_then (refresh_dimms cfg env ?m (At 0) ?mb) s2 i1 = Some (e, i')"
    and stop1: "e1 \<noteq> Continues \<Longrightarrow> e = e1"
    using run d and_then_Continues [of "refresh_baseboards cfg ?m (At 0)", OF bs(1)]
    by (auto simp: systemInfoUpdate_def Let_def and_then_Some_iff
        [of "refresh_cpus cfg env ?m (At 0) ?mb ?mods"])
  have nr1: "e1 \<noteq> Returns" by (rule refresh_cpus_ending [OF assms(3) cpus])
  show ?thesis
  proof (cases "e1 = Continues")
    case True
    then obtain e2 i2 where dimms: "refresh_dimms cfg env ?m (At 0) ?mb i1 = Some (e2, i2)"
      and stop2: "e2 \<noteq> Continues \<Longrightarrow> e = e2"
      using rest by (auto simp: and_then_Some_iff)
    have "inv_baseboards i1 = bs" using refresh_cpus_frame [OF cpus] by auto
    from refresh_dimms_same_name [OF assms(3) bs(2,3) assms(5,7,8,9,10) this dimms]
    show ?thesis using stop2 run by blast
  next
    case False
    then show ?thesis using nr1 stop1 run by (cases e1) auto
  qed
qed

definition twin_table :: "smb_struct list" where
  "twin_table = [\<lparr>s_type = 2, s_handle = 3, s_body = replicate 9 0 @ [6, 1, 0x11, 0], s_strings = []\<rparr>,
     example_dimm, example_dimm]"

lemma twin_table_ok:
  "list_all wf_struct twin_table" "length (encode_table twin_table) \<le> 32768"
  "of_type 17 twin_table = [example_dimm, example_dimm]" "complete_boards twin_table"
  by (simp_all add: twin_table_def example_dimm_def wf_struct_def s_length_def structureHeaderSize_def wf_string_def
      encode_strings_def encode_string_def mdrSMBIOSSize_def byte_of_char_def encode_table_def encode_struct_def
      complete_boards_def sf8_def nth_append)

theorem same_name_stops_refresh_witness:
  "\<forall>cfg env. \<exists>x i'. systemInfoUpdate (board_build cfg) (ready_env env) defaultInventoryPath
      (loaded_agent (encode_table twin_table)) empty_inventory = Some (Throws x, i')"
proof (intro allI)
  fix cfg env
  let ?a = "loaded_agent (encode_table twin_table)"
  note a = loaded_agent_ok [OF twin_table_ok(2)] loaded_agent_table [OF twin_table_ok(1,2)]
  have b: "procmod_dbus (board_build cfg)" "dimm_dbus (board_build cfg)"
    by (simp_all add: board_build_def plain_build_def)
  have k: "0 < (1 :: nat)" "1 < min 255 (length (of_type 17 twin_table))"
    by (simp_all add: twin_table_ok(3))
  have same: "dimm_label twin_table 0 = dimm_label twin_table 1"
  proof -
    let ?b = "hd twin_table"
    have h: "board_handles ?b = [0x11]"
      by (simp add: board_handles_def twin_table_def sf8_def sf16_def le_word_def nth_append)
    have "known_handles twin_table ?b = [0x11]"
      by (simp add: known_handles_def h) (simp add: twin_table_def example_dimm_def)
    moreover have "boards_of twin_table = [?b]" by (simp add: boards_of_def twin_table_def example_dimm_def)
    ultimately have "holding_board twin_table 0x11 = Some 0" by (simp add: holding_board_def)
    then show ?thesis unfolding dimm_label_def twin_table_ok(3) by (simp add: example_dimm_def)
  qed
  have refuses: "bus_refuses (ready_env env)" by (simp add: bus_refuses_def ready_env_def)
  have answers: "mapper_answers (bios_calls (ready_env env))" by (simp add: example_bus_answers)
  show "\<exists>x i'. systemInfoUpdate (board_build cfg) (ready_env env) defaultInventoryPath ?a empty_inventory = Some (Throws x, i')"
    by (rule same_name_stops_refresh [OF a b twin_table_ok(4) k(1,2) same refuses answers])
qed

subsection \<open>Memory records\<close>

text \<open>What the code reads from a memory device of full length.\<close>

definition device_record :: "smb_struct \<Rightarrow> record_map" where
  "device_record s = (let str = (\<lambda>i. V_string (struct_string s (sf8 s i))) in
     [(''Type'', V_u8 (s_type s)), (''Length'', V_u8 (word_of_nat (s_length s))),
       (''Handle'', V_u16 (s_handle s)),
       (''Physical Memory Array Handle'', V_u16 (sf16 s 4)),
       (''Memory Error Information Handle'', V_u16 (sf16 s 6)),
       (''Total Width'', V_u16 (sf16 s 8)), (''Data Width'', V_u16 (sf16 s 10)), (''Size'', V_u16 (sf16 s 12)),
       (''Form Factor'', V_u8 (sf8 s 14)), (''Device Set'', V_u8 (sf8 s 15)),
       (''Device Locator'', str 16), (''Bank Locator'', str 17),
       (''Memory Type'', V_u8 (sf8 s 18)), (''Type Detail'', V_u16 (sf16 s 19)), (''Speed'', V_u16 (sf16 s 21)),
       (''Manufacturer'', str 23), (''Serial Number'', str 24),
       (''Asset Tag'', str 25), (''Part Number'', str 26),
       (''Attributes'', V_u32 (ucast (sf8 s 27))), (''Extended Size'', V_u32 (sf32 s 28)),
       (''Configured Memory Speed'', V_u32 (ucast (sf16 s 32))),
       (''Minimum voltage'', V_u16 (sf16 s 34)), (''Maximum voltage'', V_u16 (sf16 s 36)),
       (''Configured voltage'', V_u16 (sf16 s 38)), (''Memory Technology'', V_u8 (sf8 s 40)),
       (''Memory Operating Mode Capability'', V_u16 (sf16 s 41)), (''Firmware Version'', V_u8 (sf8 s 43)),
       (''Module Manufacturer ID'', V_u16 (sf16 s 44)), (''Module Product ID'', V_u16 (sf16 s 46)),
       (''Memory Subsystem Controller Manufacturer ID'', V_u16 (sf16 s 48)),
       (''Memory Subsystem Controller Product Id'', V_u16 (sf16 s 50)),
       (''Non-volatile Size'', V_u64 (sf64 s 52)), (''Volatile Size'', V_u64 (sf64 s 60)),
       (''Cache Size'', V_u64 (sf64 s 68)), (''Logical Size'', V_u64 (sf64 s 76))])"

lemma memory_record_table:
  assumes "at_table m p (s # rest)" and "84 \<le> s_length s"
  shows "memory_record m p = Some (device_record s)"
  using assms(2) at_table_header [OF assms(1)] at_table_fields [OF assms(1)]
    positionToString_table [OF assms(1)]
  by (simp add: memory_record_def field_defs device_record_def)

lemma record_loop_table:
  assumes "at_table m p ss"
  shows "record_loop m p ret =
    Some (ret @ map device_record (takeWhile (\<lambda>s. 84 \<le> s_length s) (of_type 17 ss)))"
  using assms
proof (induction "length ss" arbitrary: p ss ret rule: less_induct)
  case less
  have lookup: "getSMBIOSTypePtr m (At p) 17 84 = type_loop m p 17 84"
    using skip_entry_point_at_table [OF less.prems] by (simp add: getSMBIOSTypePtr_def)
  note loop = type_loop_table [OF less.prems, of 17 84]
  show ?case
  proof (cases "from_type 17 ss")
    case Nil
    then have "of_type 17 ss = []" by (subst of_type_from_type) simp
    then show ?thesis
      using lookup loop Nil by (subst record_loop.simps) (simp add: sizeof_MemoryInfo_def)
  next
    case (Cons s rest)
    have ofs: "of_type 17 ss = s # of_type 17 rest" using Cons by (subst of_type_from_type) simp
    show ?thesis
    proof (cases "84 \<le> s_length s")
      case False
      then show ?thesis
        using lookup loop Cons ofs by (subst record_loop.simps) (simp add: sizeof_MemoryInfo_def)
    next
      case True
      let ?q = "p + (enc_len ss - enc_len (s # rest))"
      have at: "at_table m ?q (s # rest)" by (rule at_table_from_type [OF less.prems Cons])
      have "length rest < length ss" using from_type_suffix [of ss 17] Cons by auto
      note IH = less.hyps [OF this at_tableD(3) [OF at], of "ret @ [device_record s]"]
      have "getSMBIOSTypePtr m (At p) 17 84 = Some (At ?q)" using lookup loop Cons True by simp
      then show ?thesis
        using memory_record_table [OF at True] smbiosNextPtr_table [OF at] IH ofs True
        by (subst record_loop.simps) (simp add: sizeof_MemoryInfo_def)
    qed
  qed
qed


lemma record_loop_from:
  assumes "table_from m p q ss"
  shows "record_loop m p ret = record_loop m q ret"
  using getSMBIOSTypePtr_from [OF assms, of 17 84]
  by (subst (1 2) record_loop.simps) (simp add: sizeof_MemoryInfo_def)

text \<open>
  C31. \<open>getRecordType\<close> on a table: the memory devices as property maps in table order, every field
  at its offset and every string resolved, up to the first device that is shorter than the
  complete structure of 84 bytes; that device and all devices after it are missing from the reply.
  Any other record type is an invalid argument.
\<close>

theorem getRecordType_records:
  assumes "wf_agent a" and "table_from (smbiosTableStorage a) 0 q ss"
  shows "getRecordType a ty = (if ty = 17
    then Some (Inr (map device_record (takeWhile (\<lambda>s. 84 \<le> s_length s) (of_type 17 ss))))
    else Some (Inl Invalid_argument))"
proof -
  have "at_table (smbiosTableStorage a) q ss" using assms(2) by (simp add: table_from_def)
  then show ?thesis
    using wf_agentD [OF assms(1)] record_loop_table record_loop_from [OF assms(2)]
    by (simp add: getRecordType_def dir_at_def smbiosDirIndex_def)
qed

definition mixed_devices :: "smb_struct list" where
  "mixed_devices = [example_dimm, example_dimm\<lparr>s_body := take 36 (s_body example_dimm)\<rparr>, example_dimm]"

theorem getRecordType_records_witness:
  "getRecordType (loaded_agent (encode_table mixed_devices)) 17 = Some (Inr [device_record example_dimm])
   \<and> map_of (device_record example_dimm) ''Serial Number'' = Some (V_string ''S1'')"
proof -
  have "list_all wf_struct mixed_devices" "length (encode_table mixed_devices) \<le> 32768"
    by (simp_all add: mixed_devices_def example_dimm_def wf_struct_def s_length_def structureHeaderSize_def
        wf_string_def encode_strings_def encode_string_def mdrSMBIOSSize_def byte_of_char_def encode_table_def
        encode_struct_def)
  then have "getRecordType (loaded_agent (encode_table mixed_devices)) 17 =
      Some (Inr (map device_record (takeWhile (\<lambda>s. 84 \<le> s_length s) (of_type 17 mixed_devices))))"
    using getRecordType_records [OF loaded_agent_ok(1) loaded_agent_table, of mixed_devices 17] by simp
  moreover have "takeWhile (\<lambda>s. 84 \<le> s_length s) (of_type 17 mixed_devices) = [example_dimm]"
    by (simp add: mixed_devices_def example_dimm_def s_length_def structureHeaderSize_def)
  moreover have "map_of (device_record example_dimm) ''Serial Number'' = Some (V_string ''S1'')"
    by (simp add: device_record_def example_dimm_values Let_def)
  ultimately show ?thesis by simp
qed

end
