(* ===== verification/Mdrv2_Service.thy ===== *)
theory Mdrv2_Service
  imports Event_Runs Table_Upload Inventory_Refresh
begin

text \<open>
  The agent as a process: \<open>main\<close> of \<open>src/mdrv2_main.cpp\<close>, the constructor and the destructor of
  \<open>include/mdrv2.hpp\<close> with the handler of added interfaces, the timer handlers of \<open>src/mdrv2.cpp\<close>, and
  the event loop that runs them one after the other together with the D-Bus methods. An exception
  that a timer handler lets out leaves \<open>io->run()\<close> and \<open>main\<close>, so the process ends.
\<close>

subsection \<open>The state of the process\<close>

definition defaultObjectPath :: string where
  "defaultObjectPath = ''/xyz/openbmc_project/Smbios/MDR_V2''"

definition placeGetRecordType :: "string \<Rightarrow> string" where
  "placeGetRecordType objectPath =
     (if objectPath \<noteq> defaultObjectPath then objectPath else parent_path objectPath)"

text \<open>
  \<open>sc_catches\<close>: the exceptions of a signal handler that the bus library catches; the others end
  the process as those of a timer handler do.
\<close>

record service_config =
  sc_inventory :: inventory_config
  sc_objectPath :: string
  sc_inventoryPath :: string
  sc_catches :: "exn \<Rightarrow> bool"

record service =
  sv_flash :: flash
  sv_agent :: MDRV2
  sv_inventory :: inventory
  sv_interface :: "string option"
  sv_sent :: "property_set list"
  sv_running :: bool

definition main_config :: "inventory_config \<Rightarrow> (exn \<Rightarrow> bool) \<Rightarrow> service_config" where
  "main_config cfg catches = \<lparr>sc_inventory = cfg, sc_objectPath = defaultObjectPath,
     sc_inventoryPath = defaultInventoryPath, sc_catches = catches\<rparr>"

text \<open>The constructor starts without objects; it adds the interface of \<open>GetRecordType\<close>.\<close>

definition MDRV2_new :: "service_config \<Rightarrow> Mdr2DirStruct \<Rightarrow> service \<Rightarrow> service checked" where
  "MDRV2_new cfg raw s = do {
     a \<leftarrow> MDRV2_init raw (sv_flash s);
     Some (s\<lparr>sv_agent := a, sv_inventory := empty_inventory,
             sv_interface := Some (placeGetRecordType (sc_objectPath cfg)), sv_running := True\<rparr>) }"

text \<open>The destructor removes the interface; with the process its objects leave the bus.\<close>

definition MDRV2_delete :: "service \<Rightarrow> service" where
  "MDRV2_delete s = s\<lparr>sv_interface := None, sv_inventory := empty_inventory, sv_running := False\<rparr>"

text \<open>The end of the process by an exception: the bus drops its objects and its interface.\<close>

definition terminated :: "service \<Rightarrow> service" where
  "terminated s = s\<lparr>sv_interface := None, sv_inventory := empty_inventory, sv_running := False\<rparr>"

subsection \<open>Handlers\<close>

text \<open>
  A refresh with its effects outside of the inventory. They come from the system object, which is
  built last, so only a refresh that runs to its end has them.
\<close>

definition refresh :: "service_config \<Rightarrow> bus_env \<Rightarrow> service \<Rightarrow> (ending \<times> service) checked" where
  "refresh cfg env s = do {
     r \<leftarrow> systemInfoUpdate (sc_inventory cfg) env (sc_inventoryPath cfg) (sv_agent s) (sv_inventory s);
     (case r of (e, i) \<Rightarrow>
        let s1 = s\<lparr>sv_inventory := i\<rparr> in
        (case inv_system i of
           Some sys \<Rightarrow>
             if e = Continues
             then Some (e, s1\<lparr>sv_flash := (if ve_truncated (so_version sys) then Some [] else sv_flash s),
                              sv_sent := sv_sent s @ (case ve_published (so_version sys) of
                                  None \<Rightarrow> [] | Some call \<Rightarrow> [call])\<rparr>)
             else Some (e, s1)
         | None \<Rightarrow> Some (e, s1))) }"

definition interestedInterfaces :: "string list" where
  "interestedInterfaces = [''xyz.openbmc_project.Inventory.Item.ProcessorModule'',
     ''xyz.openbmc_project.Inventory.Item.System'']"

text \<open>
  The handler of added interfaces: the interfaces of the message, with what the mapper answers
  should the interface cause a refresh.
\<close>

fun interfaces_added :: "service_config \<Rightarrow> (string \<times> bus_env) list \<Rightarrow> service \<Rightarrow> service checked" where
  "interfaces_added cfg [] s = Some s"
| "interfaces_added cfg ((intf, env) # rest) s =
     (if intf \<in> set interestedInterfaces then do {
        r \<leftarrow> refresh cfg env s;
        (case r of
           (Throws x, s') \<Rightarrow> Some (if sc_catches cfg x then s' else terminated s')
         | (e, s') \<Rightarrow> interfaces_added cfg rest s')
      } else interfaces_added cfg rest s)"

definition timer_expires :: "service_config \<Rightarrow> bus_env \<Rightarrow> service \<Rightarrow> service checked" where
  "timer_expires cfg env s = (let s0 = s\<lparr>sv_agent := (sv_agent s)\<lparr>timer := None\<rparr>\<rparr> in
     case timer (sv_agent s) of
       None \<Rightarrow> Some s
     | Some DeferSystemInfoUpdate \<Rightarrow> do {
         r \<leftarrow> refresh cfg env s0;
         Some (case r of (Throws x, s') \<Rightarrow> terminated s' | (e, s') \<Rightarrow> s') }
     | Some DeferAgentSynchronizeData \<Rightarrow> do {
         r \<leftarrow> agentSynchronizeData (sv_flash s0) (sv_agent s0);
         Some (s0\<lparr>sv_agent := snd r\<rparr>) })"

subsection \<open>The event loop\<close>

text \<open>
  The events: the service manager starts the process, somebody replaces the flash file, a D-Bus
  method is called, the timer expires, a signal of added interfaces arrives, \<open>io->run()\<close> returns.
\<close>

datatype event =
    Start Mdr2DirStruct
  | FlashReplaced flash
  | CallSendDirectoryInformation u8 u8 u8 u8 "u8 list"
  | CallSendDataInformation u8 u8 u32 u32 u32
  | CallDirectoryEntries u8
  | CallAgentSynchronizeData
  | CallSynchronizeDirectoryCommonData u8 u32
  | CallGetDirectoryInformation u8
  | CallGetDataInformation u8
  | CallGetDataOffer
  | CallFindIdIndex "u8 list"
  | CallGetRecordType nat
  | TimerExpires bus_env
  | InterfacesAdded "(string \<times> bus_env) list"
  | RunReturns

text \<open>A call that throws is an error reply and changes nothing; a call that reads changes nothing.\<close>

definition after_call :: "service \<Rightarrow> (bool \<times> MDRV2) reply \<Rightarrow> service checked" where
  "after_call s r = map_option (\<lambda>x. case x of Inl e \<Rightarrow> s | Inr (b, a) \<Rightarrow> s\<lparr>sv_agent := a\<rparr>) r"

definition after_reader :: "service \<Rightarrow> 'a checked \<Rightarrow> service checked" where
  "after_reader s r = map_option (\<lambda>x. s) r"

fun handle :: "service_config \<Rightarrow> event \<Rightarrow> service \<Rightarrow> service checked" where
  "handle cfg (Start raw) s = Some s"
| "handle cfg (FlashReplaced f) s = Some (s\<lparr>sv_flash := f\<rparr>)"
| "handle cfg (CallSendDirectoryInformation dv k n r es) s =
     after_call s (sendDirectoryInformation (sv_agent s) dv k n r es)"
| "handle cfg (CallSendDataInformation i flag len ver ts) s =
     after_call s (sendDataInformation (sv_agent s) i flag len ver ts)"
| "handle cfg (CallDirectoryEntries x) s =
     Some (s\<lparr>sv_agent := snd (directoryEntries (sv_flash s) x (sv_agent s))\<rparr>)"
| "handle cfg CallAgentSynchronizeData s =
     map_option (\<lambda>r. s\<lparr>sv_agent := snd r\<rparr>) (agentSynchronizeData (sv_flash s) (sv_agent s))"
| "handle cfg (CallSynchronizeDirectoryCommonData i sz) s =
     map_option (\<lambda>r. s\<lparr>sv_agent := snd r\<rparr>) (synchronizeDirectoryCommonData (sv_agent s) i sz)"
| "handle cfg (CallGetDirectoryInformation i) s =
     after_reader s (getDirectoryInformation (sv_flash s) (sv_agent s) i)"
| "handle cfg (CallGetDataInformation i) s = after_reader s (getDataInformation (sv_agent s) i)"
| "handle cfg CallGetDataOffer s = after_reader s (getDataOffer (sv_agent s))"
| "handle cfg (CallFindIdIndex info) s = after_reader s (findIdIndex (sv_agent s) info)"
| "handle cfg (CallGetRecordType ty) s = after_reader s (getRecordType (sv_agent s) ty)"
| "handle cfg (TimerExpires env) s = timer_expires cfg env s"
| "handle cfg (InterfacesAdded xs) s = interfaces_added cfg xs s"
| "handle cfg RunReturns s = Some (MDRV2_delete s)"

text \<open>Without the process only the service manager and the writers of the file act.\<close>

definition service_step :: "service_config \<Rightarrow> event \<Rightarrow> service \<Rightarrow> service checked" where
  "service_step cfg ev s = (if sv_running s then handle cfg ev s
     else (case ev of
         Start raw \<Rightarrow> MDRV2_new cfg raw s
       | FlashReplaced f \<Rightarrow> Some (s\<lparr>sv_flash := f\<rparr>)
       | _ \<Rightarrow> Some s))"

subsection \<open>Well-formed states\<close>

text \<open>At most 32 KiB of table data: half of the storage, as in \<^const>\<open>safe_table\<close>.\<close>

definition small_file :: "flash \<Rightarrow> bool" where
  "small_file f \<longleftrightarrow> (case payload f of None \<Rightarrow> True | Some (h, bs) \<Rightarrow> length bs \<le> mdrSMBIOSSize)"

definition holds_small :: "MDRV2 \<Rightarrow> bool" where
  "holds_small a \<longleftrightarrow> (\<exists>bs. length bs \<le> mdrSMBIOSSize \<and> smbiosTableStorage a = table_image bs)"

definition wf_service :: "service_config \<Rightarrow> service \<Rightarrow> bool" where
  "wf_service cfg s \<longleftrightarrow> small_file (sv_flash s)
     \<and> sv_interface s = (if sv_running s then Some (placeGetRecordType (sc_objectPath cfg)) else None)
     \<and> (sv_running s \<longrightarrow> agent_inv (sv_flash s, sv_agent s) \<and> holds_small (sv_agent s)
          \<and> steady (sc_inventory cfg) (sv_inventory s))"

text \<open>
  The events that the theorems admit: files of at most 32 KiB, directory calls that stay within
  the array, and a mapper that names a service whenever it answers.
\<close>

fun admissible :: "event \<Rightarrow> bool" where
  "admissible (Start raw) \<longleftrightarrow> raw_dir raw"
| "admissible (FlashReplaced f) \<longleftrightarrow> small_file f"
| "admissible (CallSendDirectoryInformation dv k n r es) \<longleftrightarrow> unat k + unat n \<le> maxDirEntries"
| "admissible (CallSynchronizeDirectoryCommonData i sz) \<longleftrightarrow> unat i < maxDirEntries"
| "admissible (TimerExpires env) \<longleftrightarrow> mapper_answers (bios_calls env)"
| "admissible (InterfacesAdded xs) \<longleftrightarrow> list_all (\<lambda>(intf, env). mapper_answers (bios_calls env)) xs"
| "admissible ev \<longleftrightarrow> True"

lemma small_empty [simp]: "small_file (Some [])" "payload (Some []) = None"
  by (simp_all add: small_file_def payload_def)

lemma holds_small_sync:
  assumes "small_file f"
  shows "holds_small (snd (sync_result f a))"
  using assms unfolding holds_small_def sync_result_def small_file_def
  by (auto split: option.splits intro: exI [of _ "[]"])

lemma agent_inv_flash: "agent_inv (f, a) \<Longrightarrow> agent_inv (f', a)"
  by (simp add: agent_inv_def)

lemma agent_inv_timer: "agent_inv (f, a) \<Longrightarrow> agent_inv (f, a\<lparr>timer := t\<rparr>)"
  by (simp add: agent_inv_def wf_agent_def entries_ok_def)

lemma wf_serviceI:
  assumes "small_file (sv_flash s)" and "agent_inv (f, sv_agent s)" and "holds_small (sv_agent s)"
    and "steady (sc_inventory cfg) (sv_inventory s)" and "sv_running s"
    and "sv_interface s = Some (placeGetRecordType (sc_objectPath cfg))"
  shows "wf_service cfg s"
  using assms agent_inv_flash by (auto simp: wf_service_def)

lemma wf_serviceD:
  assumes "wf_service cfg s" and "sv_running s"
  shows "small_file (sv_flash s)" "agent_inv (sv_flash s, sv_agent s)" "wf_agent (sv_agent s)"
    "safe_table (smbiosTableStorage (sv_agent s))" "holds_small (sv_agent s)"
    "steady (sc_inventory cfg) (sv_inventory s)"
    "sv_interface s = Some (placeGetRecordType (sc_objectPath cfg))"
proof -
  show "holds_small (sv_agent s)" using assms by (simp add: wf_service_def)
  then show "safe_table (smbiosTableStorage (sv_agent s))"
    by (auto simp: holds_small_def safe_table_image)
qed (use assms in \<open>auto simp: wf_service_def agent_inv_def\<close>)

lemma wf_terminated: "wf_service cfg s \<Longrightarrow> wf_service cfg (terminated s)"
  by (simp add: wf_service_def terminated_def)

subsection \<open>Progress and preservation\<close>

lemma refresh_progress:
  assumes "wf_service cfg s" and "sv_running s" and "mapper_answers (bios_calls env)"
  shows "\<exists>e s'. refresh cfg env s = Some (e, s') \<and> wf_service cfg s' \<and> sv_running s'
    \<and> sv_agent s' = sv_agent s"
proof -
  note w = wf_serviceD [OF assms(1,2)]
  let ?c = "sc_inventory cfg" and ?p = "sc_inventoryPath cfg"
  have "\<not> procmod_dbus ?c \<Longrightarrow> inv_baseboards (sv_inventory s) = []" using w(6) by (simp add: steady_def)
  then obtain e i where r: "systemInfoUpdate ?c env ?p (sv_agent s) (sv_inventory s) = Some (e, i)"
    using refresh_defined(1) [OF w(3,4) _ assms(3), of ?c "sv_inventory s" ?p] by (auto simp: defined_def)
  have "steady ?c i" by (rule systemInfoUpdate_steady [OF r w(6)])
  then show ?thesis
    using r w(1,2,5,7) assms(2)
    by (cases "inv_system i") (auto simp: refresh_def Let_def intro!: wf_serviceI)
qed

lemma interfaces_added_progress:
  assumes "wf_service cfg s" and "sv_running s"
    and "list_all (\<lambda>(intf, env). mapper_answers (bios_calls env)) xs"
  shows "\<exists>s'. interfaces_added cfg xs s = Some s' \<and> wf_service cfg s'"
  using assms
proof (induction xs arbitrary: s)
  case (Cons x xs)
  obtain intf env where x: "x = (intf, env)" by (cases x)
  then obtain e s1 where "refresh cfg env s = Some (e, s1)" "wf_service cfg s1" "sv_running s1"
    using refresh_progress [OF Cons.prems(1,2), of env] Cons.prems(3) by auto
  then show ?case
    using Cons.IH [of s] Cons.IH [of s1] Cons.prems x wf_terminated by (cases e) auto
qed simp

lemma timer_expires_progress:
  assumes "wf_service cfg s" and "sv_running s" and "mapper_answers (bios_calls env)"
  shows "\<exists>s'. timer_expires cfg env s = Some s' \<and> wf_service cfg s'"
proof -
  let ?s0 = "s\<lparr>sv_agent := (sv_agent s)\<lparr>timer := None\<rparr>\<rparr>"
  note w = wf_serviceD [OF assms(1,2)]
  have inv: "agent_inv (sv_flash s, (sv_agent s)\<lparr>timer := None\<rparr>)" by (rule agent_inv_timer [OF w(2)])
  have wf0: "wf_service cfg ?s0"
    using w(1,5-7) inv assms(2) by (intro wf_serviceI) (simp_all add: holds_small_def)
  obtain e s1 where r: "refresh cfg env ?s0 = Some (e, s1)" "wf_service cfg s1"
    using refresh_progress [OF wf0 _ assms(3)] assms(2) by auto
  have wa: "wf_agent ((sv_agent s)\<lparr>timer := None\<rparr>)" using inv by (simp add: agent_inv_def)
  have "wf_service cfg (?s0\<lparr>sv_agent := snd (sync_result (sv_flash s) (sv_agent ?s0))\<rparr>)"
    using w(1,6,7) assms(2) agent_inv_sync [OF w(2), of None] holds_small_sync
    by (intro wf_serviceI [where f = "sv_flash s"]) simp_all
  then show ?thesis
    using r assms(1) wf_terminated agentSynchronizeData_result [OF wa]
    by (cases e) (auto simp: timer_expires_def Let_def split: option.splits deferred.splits)
qed

lemma call_progress:
  assumes "wf_service cfg s" and "sv_running s" and "r \<noteq> None"
    and "\<And>b a. r = Some (Inr (b, a)) \<Longrightarrow> agent_step (sv_flash s, sv_agent s) (sv_flash s, a)
        \<and> smbiosTableStorage a = smbiosTableStorage (sv_agent s)"
  shows "\<exists>s'. after_call s r = Some s' \<and> wf_service cfg s'"
proof -
  note w = wf_serviceD [OF assms(1,2)]
  obtain x where x: "r = Some x" using assms(3) by blast
  show ?thesis
  proof (cases x)
    case (Inr ba)
    obtain b a where ba: "ba = (b, a)" by (cases ba)
    have "wf_service cfg (s\<lparr>sv_agent := a\<rparr>)"
      using w assms(2,4) x Inr ba agent_step_inv [of "(sv_flash s, sv_agent s)" "(sv_flash s, a)"]
      by (intro wf_serviceI [where f = "sv_flash s"]) (simp_all add: holds_small_def)
    then show ?thesis by (simp add: after_call_def x Inr ba)
  qed (use assms(1) x in \<open>simp add: after_call_def\<close>)
qed

lemma handle_progress:
  assumes "wf_service cfg s" and "sv_running s" and "admissible ev"
  shows "\<exists>s'. handle cfg ev s = Some s' \<and> wf_service cfg s'"
proof -
  note w = wf_serviceD [OF assms(1,2)] and d = agent_readers_defined [OF wf_serviceD(2) [OF assms(1,2)]]
  have reads: "\<And>i. \<exists>r. getDirectoryInformation (sv_flash s) (sv_agent s) i = Some r"
    "\<And>i. \<exists>r. getDataInformation (sv_agent s) i = Some r" "\<exists>r. getDataOffer (sv_agent s) = Some r"
    "\<And>info. \<exists>r. findIdIndex (sv_agent s) info = Some r" "\<And>ty. \<exists>r. getRecordType (sv_agent s) ty = Some r"
    using d getRecordType_defined [OF w(3,4)] unfolding defined_def by blast+
  have agent: "wf_service cfg (s\<lparr>sv_agent := a\<rparr>)" if "agent_inv (sv_flash s, a)" "holds_small a" for a
    using that w assms(2) by (intro wf_serviceI [where f = "sv_flash s"]) simp_all
  show ?thesis
  proof (cases ev)
    case (CallSendDirectoryInformation dv k n r es)
    have "sendDirectoryInformation (sv_agent s) dv k n r es \<noteq> None"
      using sendDirectoryInformation_defined [OF w(3)] assms(3) CallSendDirectoryInformation
      by (simp add: maxDirEntries_def)
    from call_progress [OF assms(1,2) this] show ?thesis
      unfolding CallSendDirectoryInformation using agent_calls_frame(1)
      by (simp add: agent_step.step_sendDirectoryInformation)
  next
    case (CallSendDataInformation i flag len ver ts)
    have "sendDataInformation (sv_agent s) i flag len ver ts \<noteq> None" using d by blast
    from call_progress [OF assms(1,2) this] show ?thesis
      unfolding CallSendDataInformation using agent_calls_frame(2)
      by simp (metis agent_step.step_sendDataInformation)
  next
    case (CallDirectoryEntries x)
    have "agent_inv (sv_flash s, snd (directoryEntries (sv_flash s) x (sv_agent s)))"
      using w(2) by (simp add: directoryEntries_def Let_def agent_inv_def wf_agent_def entries_ok_def)
    then show ?thesis
      using agent [of "snd (directoryEntries (sv_flash s) x (sv_agent s))"] w(5) CallDirectoryEntries
      by (simp add: directoryEntries_def Let_def holds_small_def)
  next
    case CallAgentSynchronizeData
    then show ?thesis
      using agent [of "snd (sync_result (sv_flash s) (sv_agent s))"] agentSynchronizeData_result [OF w(3)]
        agent_inv_sync [OF w(2), of "timer (sv_agent s)"] holds_small_sync [OF w(1)] by simp
  next
    case (CallSynchronizeDirectoryCommonData i sz)
    then obtain rs a where r: "synchronizeDirectoryCommonData (sv_agent s) i sz = Some (rs, a)"
      using assms(3) wf_agentD(1) [OF w(3)] by (auto simp: synchronizeDirectoryCommonData_def maxDirEntries_def)
    have "agent_inv (sv_flash s, a)"
      using agent_step_inv [OF w(2) agent_step.step_synchronizeDirectoryCommonData [OF r]] .
    then show ?thesis
      using agent [of a] wf_agent_syncCommon [OF w(3) r] w(5) r CallSynchronizeDirectoryCommonData
      by (simp add: holds_small_def)
  next
    case (FlashReplaced f)
    then show ?thesis
      using w assms(2,3) by (auto intro!: wf_serviceI)
  next
    case (TimerExpires env)
    then show ?thesis using timer_expires_progress [OF assms(1,2)] assms(3) by simp
  next
    case (InterfacesAdded xs)
    then show ?thesis using interfaces_added_progress [OF assms(1,2)] assms(3) by simp
  next
    case RunReturns
    then show ?thesis using w(1) by (simp add: MDRV2_delete_def wf_service_def)
  qed (use assms(1) reads in \<open>auto simp: after_reader_def\<close>)
qed

lemma service_progress:
  assumes "wf_service cfg s" and "admissible ev"
  shows "\<exists>s'. service_step cfg ev s = Some s' \<and> wf_service cfg s'"
proof (cases "sv_running s")
  case True
  then show ?thesis using handle_progress [OF assms(1) _ assms(2)] by (simp add: service_step_def)
next
  case False
  show ?thesis
  proof (cases ev)
    case (Start raw)
    then obtain a where a: "MDRV2_init raw (sv_flash s) = Some a" "holds_small a"
      using MDRV2_init_defined [of raw "sv_flash s"] assms holds_small_sync by (auto simp: wf_service_def)
    then have "agent_inv (sv_flash s, a)"
      using agent_init_inv [of "(sv_flash s, a)"] Start assms(2) by (auto simp: agent_init_def)
    then have "wf_service cfg (s\<lparr>sv_agent := a, sv_inventory := empty_inventory,
        sv_interface := Some (placeGetRecordType (sc_objectPath cfg)), sv_running := True\<rparr>)"
      using a assms(1) by (intro wf_serviceI [where f = "sv_flash s"])
        (simp_all add: wf_service_def steady_empty)
    then show ?thesis using False Start a(1) by (simp add: service_step_def MDRV2_new_def)
  next
    case (FlashReplaced f)
    then show ?thesis using False assms by (simp add: service_step_def wf_service_def)
  qed (use False assms(1) in \<open>simp_all add: service_step_def\<close>)
qed

interpretation service: typed_process "service_step cfg" admissible "wf_service cfg"
  for cfg
  by unfold_locales (rule service_progress)

subsection \<open>The service never leaves its data\<close>

text \<open>
  C7. Every sequence of events is defined and keeps the state of the process well formed: whatever the
  host, the bus and the service manager do, as long as files hold at most 32 KiB of table, directory
  calls stay within the four entries and the mapper never answers with an empty list, no handler
  leaves the storage, the directory or a list of objects; while the process runs, the directory and
  the storage are well formed, the objects of slots belong to their indices, and \<open>GetRecordType\<close> is
  offered at its place.
\<close>

theorem service_type_safe:
  assumes "wf_service cfg s" and "list_all admissible evs"
  shows "\<exists>s'. run_events (service_step cfg) evs s = Some s' \<and> wf_service cfg s'"
  by (rule service.run_good [OF assms])

definition stopped :: "flash \<Rightarrow> service" where
  "stopped f = \<lparr>sv_flash = f, sv_agent = example_agent, sv_inventory = empty_inventory, sv_interface = None,
     sv_sent = [], sv_running = False\<rparr>"

lemma wf_stopped: "small_file f \<Longrightarrow> wf_service cfg (stopped f)"
  by (simp add: wf_service_def stopped_def)

theorem service_type_safe_witness:
  "\<forall>cfg. \<exists>s'. run_events (service_step cfg) [Start (smbiosDir example_agent), CallGetRecordType 17,
       FlashReplaced (Some [1, 2, 3]), CallAgentSynchronizeData, CallSendDirectoryInformation 2 3 1 0 []]
     (stopped None) = Some s' \<and> wf_service cfg s'"
proof
  fix cfg
  show "\<exists>s'. run_events (service_step cfg) [Start (smbiosDir example_agent), CallGetRecordType 17,
       FlashReplaced (Some [1, 2, 3]), CallAgentSynchronizeData, CallSendDirectoryInformation 2 3 1 0 []]
     (stopped None) = Some s' \<and> wf_service cfg s'"
    by (rule service_type_safe)
       (simp_all add: wf_stopped small_file_def payload_def raw_dir_blank maxDirEntries_def)
qed

end
