(* ===== verification/Mdrv2_Liveness.thy ===== *)
theory Mdrv2_Liveness
  imports Mdrv2_Service
begin

text \<open>
  What becomes of a table in the file: the phases that lead from an upload over the deferred refresh to
  an inventory that shows the table and keeps showing it; tables that end the process; tables whose
  BIOS version makes the refresh empty the file.
\<close>

subsection \<open>A table on its way into the inventory\<close>

text \<open>
  What is asked of the file and of the build: a supported table of at most 32 KiB whose memory
  structures and slots are complete, without a locator that makes the update throw, and with a
  printable BIOS version; the build publishes processors and memory devices, and where it also names
  memory devices after their boards, the boards are complete and no two structures share a handle.
\<close>

definition shown_build :: "service_config \<Rightarrow> bool" where
  "shown_build cfg \<longleftrightarrow> cpu_dbus (sc_inventory cfg) \<and> dimm_dbus (sc_inventory cfg)
     \<and> prefix_ok (sc_inventory cfg) \<and> inventory_place (sc_inventoryPath cfg)"

definition complete_structs :: "service_config \<Rightarrow> smb_struct list \<Rightarrow> bool" where
  "complete_structs cfg ss \<longleftrightarrow> (\<forall>s \<in> set ss. s_type s = 17 \<longrightarrow> 41 \<le> s_length s)
     \<and> (\<forall>s \<in> set ss. s_type s = 9 \<longrightarrow> 13 \<le> s_length s)
     \<and> (procmod_dbus (sc_inventory cfg) \<longrightarrow> complete_boards ss \<and> distinct (map s_handle ss))"

definition good_table :: "service_config \<Rightarrow> flash \<Rightarrow> u8 list \<Rightarrow> nat \<Rightarrow> smb_struct list \<Rightarrow> bool" where
  "good_table cfg f bs q ss \<longleftrightarrow> (\<exists>h. payload f = Some (h, bs)) \<and> supported_table bs
     \<and> table_from (table_image bs) 0 q ss
     \<and> complete_structs cfg ss \<and> shown_build cfg"

definition showable :: "smb_struct list \<Rightarrow> bool" where
  "showable ss \<longleftrightarrow> (\<forall>k < min 255 (length (of_type 17 ss)). \<not> bad_locator (locator_of ss k))
     \<and> (\<forall>s rest. of_type 0 ss = s # rest \<longrightarrow> 6 \<le> s_length s \<and> list_all isprint_char (struct_string s (sf8 s 5)))"

definition displays :: "service_config \<Rightarrow> u8 list \<Rightarrow> smb_struct list \<Rightarrow> service \<Rightarrow> bool" where
  "displays cfg bs ss s \<longleftrightarrow>
     (\<exists>env. shows_table (sc_inventory cfg) env (sc_inventoryPath cfg) (table_image bs) ss (sv_inventory s))"

text \<open>The process runs and both the file and the storage hold the table.\<close>

definition serving :: "service_config \<Rightarrow> flash \<Rightarrow> u8 list \<Rightarrow> service \<Rightarrow> bool" where
  "serving cfg f bs s \<longleftrightarrow> wf_service cfg s \<and> sv_running s \<and> sv_flash s = f
     \<and> smbiosTableStorage (sv_agent s) = table_image bs"

lemma serving_refreshable:
  assumes "good_table cfg f bs q ss" and "serving cfg f bs s"
  shows "refreshable (sc_inventory cfg) (sc_inventoryPath cfg) (sv_agent s) q ss (sv_inventory s)"
  using assms wf_serviceD [of cfg s]
  by (simp add: refreshable_def good_table_def serving_def complete_structs_def shown_build_def)

lemma version_not_truncated:
  assumes "table_from m p q ss" and "showable ss"
    and "System_version m (At p) bus tr = Some (Inr v)"
  shows "\<not> ve_truncated v"
proof (cases "of_type 0 ss")
  case Nil
  then have "from_type 0 ss = []" using of_type_from_type [of 0 ss] by (auto split: list.splits)
  moreover have "at_table m q ss" using assms(1) by (simp add: table_from_def)
  ultimately have "getSMBIOSTypePtr m (At p) 0 0 = Some Null"
    using getSMBIOSTypePtr_from [OF assms(1), of 0 0] getSMBIOSTypePtr_table [of m q ss 0]
    by (simp add: table_ptr_def)
  then show ?thesis using assms(3) by (auto simp: System_version_def)
next
  case (Cons s rest)
  then show ?thesis
    using assms(2,3) bios_string_table [OF assms(1) Cons, of bus tr]
    by (auto simp: showable_def Let_def bind_eq_Some_conv rethrow_Inr_iff)
qed

text \<open>The bus keeps its promises: the library registers, the mapper answers, the BIOS version is taken.\<close>

definition bus_good :: "bus_env \<Rightarrow> bool" where
  "bus_good env \<longleftrightarrow> bus_ready env \<and> bus_works (bios_calls env)"

lemma bus_goodD:
  assumes "bus_good env"
  shows "bus_ready env" "bus_works (bios_calls env)" "mapper_answers (bios_calls env)"
  using assms by (simp_all add: bus_good_def bus_works_def)

lemma refresh_serving:
  assumes "good_table cfg f bs q ss" and "showable ss" and "serving cfg f bs s" and "bus_good env"
  shows "\<exists>s'. refresh cfg env s = Some (Continues, s') \<and> serving cfg f bs s' \<and> displays cfg bs ss s'
    \<and> sv_agent s' = sv_agent s"
proof -
  let ?c = "sc_inventory cfg" and ?p = "sc_inventoryPath cfg"
  note w = assms(3) [unfolded serving_def]
  have loc: "\<forall>k < min 255 (length (of_type 17 ss)). \<not> bad_locator (locator_of ss k)"
    using assms(2) by (simp add: showable_def)
  obtain i where i: "systemInfoUpdate ?c env ?p (sv_agent s) (sv_inventory s) = Some (Continues, i)"
    "shows_table ?c env ?p (table_image bs) ss i"
    using refresh_complete [OF serving_refreshable [OF assms(1,3)] bus_goodD(1,2) [OF assms(4)] loc] w by auto
  obtain sys where sys: "inv_system i = Some sys"
    "System_version (table_image bs) (At 0) (bios_calls env) (file_truncatable env) = Some (Inr (so_version sys))"
    using i(2) by (auto simp: shows_table_def Let_def)
  have tf: "table_from (table_image bs) 0 q ss" using assms(1) by (simp add: good_table_def)
  note nt = version_not_truncated [OF tf assms(2) sys(2)]
  obtain e s' where "refresh cfg env s = Some (e, s')" "wf_service cfg s'" "sv_running s'" "sv_agent s' = sv_agent s"
    using refresh_progress [of cfg s env] w bus_goodD(3) [OF assms(4)] by auto
  then show ?thesis
    using i sys(1) nt w by (auto simp: refresh_def Let_def serving_def displays_def)
qed

lemma interfaces_added_serving:
  assumes "good_table cfg f bs q ss" and "showable ss" and "serving cfg f bs s"
    and "list_all (\<lambda>(intf, env). bus_good env) xs"
  shows "\<exists>s'. interfaces_added cfg xs s = Some s' \<and> serving cfg f bs s' \<and> sv_agent s' = sv_agent s
    \<and> (displays cfg bs ss s \<longrightarrow> displays cfg bs ss s')"
  using assms(3,4)
proof (induction xs arbitrary: s)
  case (Cons x xs)
  obtain intf env where x: "x = (intf, env)" by (cases x)
  then obtain s1 where "refresh cfg env s = Some (Continues, s1)" "serving cfg f bs s1" "displays cfg bs ss s1"
    "sv_agent s1 = sv_agent s"
    using refresh_serving [OF assms(1,2) Cons.prems(1), of env] Cons.prems(2) by auto
  then show ?case
    using Cons.IH [of s] Cons.IH [of s1] Cons.prems x by auto
qed simp

text \<open>
  The phases of the way: the table waits for its refresh (\<open>awaiting\<close>), or it is displayed. Every
  event but a replaced file or the end of the process keeps the process serving.
\<close>

definition settled :: "service_config \<Rightarrow> flash \<Rightarrow> u8 list \<Rightarrow> smb_struct list \<Rightarrow> service \<Rightarrow> bool" where
  "settled cfg f bs ss s \<longleftrightarrow> serving cfg f bs s \<and> displays cfg bs ss s"

definition awaiting :: "service_config \<Rightarrow> flash \<Rightarrow> u8 list \<Rightarrow> deferred \<Rightarrow> service \<Rightarrow> bool" where
  "awaiting cfg f bs d s \<longleftrightarrow> serving cfg f bs s \<and> timer (sv_agent s) = Some d"

text \<open>The events of a run in which the file stays and the bus works.\<close>

fun quiet :: "event \<Rightarrow> bool" where
  "quiet (FlashReplaced f) \<longleftrightarrow> False"
| "quiet RunReturns \<longleftrightarrow> False"
| "quiet (TimerExpires env) \<longleftrightarrow> bus_good env"
| "quiet (InterfacesAdded xs) \<longleftrightarrow> list_all (\<lambda>(intf, env). bus_good env) xs"
| "quiet ev \<longleftrightarrow> admissible ev"

lemma quiet_admissible: "quiet ev \<Longrightarrow> admissible ev"
  by (cases ev) (auto simp: bus_goodD list_all_iff)

lemma sync_serving:
  assumes "good_table cfg f bs q ss" and "wf_agent a"
  shows "\<exists>a'. agentSynchronizeData f a = Some (True, a') \<and> smbiosTableStorage a' = table_image bs
    \<and> timer a' = Some DeferSystemInfoUpdate"
  using assms agentSynchronizeData_result [OF assms(2), of f]
  by (auto simp: good_table_def sync_result_def)

lemma agent_serving:
  assumes "serving cfg f bs s" and "wf_service cfg (s\<lparr>sv_agent := a\<rparr>)" and "smbiosTableStorage a = table_image bs"
  shows "serving cfg f bs (s\<lparr>sv_agent := a\<rparr>) \<and> (displays cfg bs ss s \<longrightarrow> displays cfg bs ss (s\<lparr>sv_agent := a\<rparr>))"
  using assms by (simp add: serving_def displays_def)

lemma serving_timer_reset:
  assumes "serving cfg f bs s"
  shows "serving cfg f bs (s\<lparr>sv_agent := (sv_agent s)\<lparr>timer := None\<rparr>\<rparr>)"
  using assms agent_inv_timer by (auto simp: serving_def wf_service_def holds_small_def)

lemma call_serving:
  assumes "serving cfg f bs s" and "after_call s r = Some s'" and "wf_service cfg s'"
    and "\<And>b a. r = Some (Inr (b, a)) \<Longrightarrow>
      timer a = timer (sv_agent s) \<and> smbiosTableStorage a = smbiosTableStorage (sv_agent s)"
  shows "serving cfg f bs s' \<and> (displays cfg bs ss s \<longrightarrow> displays cfg bs ss s') \<and> timer (sv_agent s') = timer (sv_agent s)"
proof -
  obtain x where x: "r = Some x" using assms(2) by (cases r) (auto simp: after_call_def)
  show ?thesis
  proof (cases x)
    case (Inl e)
    then have "s' = s" using assms(2) x by (simp add: after_call_def)
    then show ?thesis using assms(1) by simp
  next
    case (Inr ba)
    obtain b a where ba: "ba = (b, a)" by (cases ba)
    then have s': "s' = s\<lparr>sv_agent := a\<rparr>" using assms(2) x Inr by (simp add: after_call_def)
    then show ?thesis
      using assms(3,4) x Inr ba agent_serving [OF assms(1), of a] assms(1) by (simp add: serving_def)
  qed
qed

lemma timer_serving:
  assumes "good_table cfg f bs q ss" and "showable ss" and "serving cfg f bs s"
    and "bus_good env" and "timer_expires cfg env s = Some s'"
  shows "serving cfg f bs s'" and "displays cfg bs ss s \<longrightarrow> displays cfg bs ss s'"
    and "case timer (sv_agent s) of None \<Rightarrow> s' = s | Some DeferSystemInfoUpdate \<Rightarrow> displays cfg bs ss s'
      | Some DeferAgentSynchronizeData \<Rightarrow> timer (sv_agent s') = Some DeferSystemInfoUpdate"
proof -
  let ?s0 = "s\<lparr>sv_agent := (sv_agent s)\<lparr>timer := None\<rparr>\<rparr>"
  note w = assms(3) [unfolded serving_def]
  have wf: "wf_service cfg s'"
    using timer_expires_progress [of cfg s env] w assms(5) bus_goodD(3) [OF assms(4)] by auto
  have s0: "serving cfg f bs ?s0" by (rule serving_timer_reset [OF assms(3)])
  obtain s1 where s1: "refresh cfg env ?s0 = Some (Continues, s1)" "serving cfg f bs s1" "displays cfg bs ss s1"
    using refresh_serving [OF assms(1,2) s0 assms(4)] by blast
  have "wf_agent (sv_agent ?s0)" using wf_serviceD(3) [of cfg s] w by (simp add: wf_agent_def)
  from sync_serving [OF assms(1) this] obtain a where
    a: "agentSynchronizeData f (sv_agent ?s0) = Some (True, a)" "smbiosTableStorage a = table_image bs"
    "timer a = Some DeferSystemInfoUpdate" by blast
  have "serving cfg f bs s' \<and> (displays cfg bs ss s \<longrightarrow> displays cfg bs ss s')
    \<and> (case timer (sv_agent s) of None \<Rightarrow> s' = s | Some DeferSystemInfoUpdate \<Rightarrow> displays cfg bs ss s'
      | Some DeferAgentSynchronizeData \<Rightarrow> timer (sv_agent s') = Some DeferSystemInfoUpdate)"
  proof (cases "timer (sv_agent s)")
    case None
    then show ?thesis using assms(3,5) by (simp add: timer_expires_def)
  next
    case (Some d)
    then show ?thesis
    proof (cases d)
      case DeferAgentSynchronizeData
      then have "s' = s\<lparr>sv_agent := a\<rparr>" using a assms(5) Some w by (simp add: timer_expires_def Let_def)
      then show ?thesis using agent_serving [OF assms(3) _ a(2), of ss] wf a(3) Some DeferAgentSynchronizeData by simp
    qed (use s1 assms(5) in \<open>simp add: timer_expires_def Let_def\<close>)
  qed
  then show "serving cfg f bs s'" and "displays cfg bs ss s \<longrightarrow> displays cfg bs ss s'"
    and "case timer (sv_agent s) of None \<Rightarrow> s' = s | Some DeferSystemInfoUpdate \<Rightarrow> displays cfg bs ss s'
      | Some DeferAgentSynchronizeData \<Rightarrow> timer (sv_agent s') = Some DeferSystemInfoUpdate"
    by blast+
qed

text \<open>What the other quiet events do to a process that serves the table.\<close>

lemma quiet_serving:
  assumes "good_table cfg f bs q ss" and "showable ss" and "serving cfg f bs s" and "quiet ev"
    and "handle cfg ev s = Some s'" and "wf_service cfg s'" and "\<nexists>env. ev = TimerExpires env"
  shows "serving cfg f bs s' \<and> (displays cfg bs ss s \<longrightarrow> displays cfg bs ss s')
    \<and> (timer (sv_agent s') = timer (sv_agent s) \<or> timer (sv_agent s') = Some DeferSystemInfoUpdate
      \<or> (\<exists>i sz. ev = CallSynchronizeDirectoryCommonData i sz) \<and> timer (sv_agent s') \<noteq> None)"
proof -
  note w = assms(3) [unfolded serving_def]
  have wa: "wf_agent (sv_agent s)" using wf_serviceD(3) w by blast
  show ?thesis
  proof (cases ev)
    case (InterfacesAdded xs)
    then show ?thesis
      using interfaces_added_serving [OF assms(1,2,3), of xs] assms(4,5) by auto
  next
    case (CallSendDirectoryInformation dv k n r es)
    then show ?thesis using call_serving [OF assms(3) _ assms(6), of _ ss] assms(5) agent_calls_frame(1) by fastforce
  next
    case (CallSendDataInformation i flag len ver ts)
    then show ?thesis using call_serving [OF assms(3) _ assms(6), of _ ss] assms(5) agent_calls_frame(2) by fastforce
  next
    case (CallDirectoryEntries x)
    then show ?thesis
      using agent_serving [OF assms(3), of "snd (directoryEntries f x (sv_agent s))" ss] assms(5,6) w
      by (auto simp: directoryEntries_def Let_def)
  next
    case CallAgentSynchronizeData
    then show ?thesis
      using agent_serving [OF assms(3), of _ ss] sync_serving [OF assms(1) wa] assms(5,6) w by auto
  next
    case (CallSynchronizeDirectoryCommonData i sz)
    then obtain rs a where r: "synchronizeDirectoryCommonData (sv_agent s) i sz = Some (rs, a)" "s' = s\<lparr>sv_agent := a\<rparr>"
      using assms(5) by auto
    moreover from r(1) have "timer a = Some DeferAgentSynchronizeData"
      by (auto simp: synchronizeDirectoryCommonData_def bind_eq_Some_conv)
    ultimately show ?thesis
      using agent_serving [OF assms(3), of a ss] wf_agent_syncCommon [OF wa r(1)] assms(6) w
        CallSynchronizeDirectoryCommonData by simp
  qed (use assms(3,4,5,7) in \<open>auto simp: after_reader_def\<close>)
qed

lemma serving_step:
  assumes "good_table cfg f bs q ss" and "showable ss" and "serving cfg f bs s" and "quiet ev"
    and "service_step cfg ev s = Some s'"
  shows "serving cfg f bs s'" and "displays cfg bs ss s \<longrightarrow> displays cfg bs ss s'"
    and "(\<exists>env. ev = TimerExpires env) \<longrightarrow> (case timer (sv_agent s) of None \<Rightarrow> s' = s
      | Some DeferSystemInfoUpdate \<Rightarrow> displays cfg bs ss s'
      | Some DeferAgentSynchronizeData \<Rightarrow> timer (sv_agent s') = Some DeferSystemInfoUpdate)"
    and "(\<nexists>env. ev = TimerExpires env) \<longrightarrow> timer (sv_agent s') = timer (sv_agent s)
      \<or> timer (sv_agent s') = Some DeferSystemInfoUpdate
      \<or> (\<exists>i sz. ev = CallSynchronizeDirectoryCommonData i sz) \<and> timer (sv_agent s') \<noteq> None"
proof -
  have wf: "wf_service cfg s'"
    using service.step_good [OF _ quiet_admissible [OF assms(4)] assms(5)] assms(3) by (simp add: serving_def)
  have run: "handle cfg ev s = Some s'" using assms(3,5) by (simp add: service_step_def serving_def)
  note timer = timer_serving [OF assms(1-3)] and other = quiet_serving [OF assms(1-4) run wf]
  show "serving cfg f bs s'" and "displays cfg bs ss s \<longrightarrow> displays cfg bs ss s'"
    and "(\<exists>env. ev = TimerExpires env) \<longrightarrow> (case timer (sv_agent s) of None \<Rightarrow> s' = s
      | Some DeferSystemInfoUpdate \<Rightarrow> displays cfg bs ss s'
      | Some DeferAgentSynchronizeData \<Rightarrow> timer (sv_agent s') = Some DeferSystemInfoUpdate)"
    and "(\<nexists>env. ev = TimerExpires env) \<longrightarrow> timer (sv_agent s') = timer (sv_agent s)
      \<or> timer (sv_agent s') = Some DeferSystemInfoUpdate
      \<or> (\<exists>i sz. ev = CallSynchronizeDirectoryCommonData i sz) \<and> timer (sv_agent s') \<noteq> None"
    using timer other run assms(4) by (cases "\<exists>env. ev = TimerExpires env"; force)+
qed

definition common_call :: "event \<Rightarrow> bool" where
  "common_call ev \<longleftrightarrow> (\<exists>i sz. ev = CallSynchronizeDirectoryCommonData i sz)"

definition timer_event :: "event \<Rightarrow> bool" where
  "timer_event ev \<longleftrightarrow> (\<exists>env. ev = TimerExpires env)"

lemma awaiting_step:
  assumes "good_table cfg f bs q ss" and "showable ss" and "awaiting cfg f bs d s" and "quiet ev"
    and "service_step cfg ev s = Some s'"
  shows "\<not> common_call ev \<Longrightarrow> awaiting cfg f bs d s' \<or> awaiting cfg f bs DeferSystemInfoUpdate s' \<or> settled cfg f bs ss s'"
    and "timer_event ev \<Longrightarrow> d = DeferAgentSynchronizeData \<Longrightarrow> awaiting cfg f bs DeferSystemInfoUpdate s'"
    and "timer_event ev \<Longrightarrow> d = DeferSystemInfoUpdate \<Longrightarrow> settled cfg f bs ss s'"
    and "(\<exists>d. awaiting cfg f bs d s') \<or> settled cfg f bs ss s'"
proof -
  have a: "serving cfg f bs s" "timer (sv_agent s) = Some d" using assms(3) by (auto simp: awaiting_def)
  note st = serving_step [OF assms(1,2) a(1) assms(4,5)]
  note defs = awaiting_def settled_def timer_event_def common_call_def
  show "\<not> common_call ev \<Longrightarrow> awaiting cfg f bs d s' \<or> awaiting cfg f bs DeferSystemInfoUpdate s' \<or> settled cfg f bs ss s'"
    and "timer_event ev \<Longrightarrow> d = DeferAgentSynchronizeData \<Longrightarrow> awaiting cfg f bs DeferSystemInfoUpdate s'"
    and "timer_event ev \<Longrightarrow> d = DeferSystemInfoUpdate \<Longrightarrow> settled cfg f bs ss s'"
    and "(\<exists>d. awaiting cfg f bs d s') \<or> settled cfg f bs ss s'"
    using st(1,3,4) a(2) unfolding defs by (cases d; auto)+
qed

lemma settled_step:
  assumes "good_table cfg f bs q ss" and "showable ss" and "settled cfg f bs ss s" and "quiet ev"
    and "service_step cfg ev s = Some s'"
  shows "settled cfg f bs ss s'"
  using serving_step(1,2) [OF assms(1,2) _ assms(4,5)] assms(3) by (auto simp: settled_def)

lemma eventually_settled:
  assumes "good_table cfg f bs q ss" and "showable ss" and "trace (service_step cfg) ev r"
    and "awaiting cfg f bs d (r 0)" and "\<forall>n. quiet (ev n)"
    and "\<forall>n \<ge> N. \<not> common_call (ev n)" and "\<forall>n. \<exists>m \<ge> n. timer_event (ev m)"
  shows "\<exists>k. \<forall>j \<ge> k. settled cfg f bs ss (r j)"
proof -
  let ?S = "settled cfg f bs ss" and ?A = "\<lambda>s. \<exists>d. awaiting cfg f bs d s" and ?B = "awaiting cfg f bs DeferSystemInfoUpdate"
  note aw = awaiting_step [OF assms(1,2)] and se = settled_step [OF assms(1,2)]
  have "?A (r N) \<or> ?S (r N)"
    by (rule trace_stable [OF assms(3), where n = 0 and P = "\<lambda>s. ?A s \<or> ?S s"])
       (use assms(4,5) aw(4) se in blast)+
  then have "\<exists>k \<ge> N. ?S (r k)"
  proof
    assume "?A (r N)"
    then have "\<exists>k \<ge> N. ?B (r k) \<or> ?S (r k)"
    proof (rule trace_leads_to [OF assms(3), where P = ?A and Q = "\<lambda>s. ?B s \<or> ?S s" and trigger = "\<lambda>k. timer_event (ev k)"])
      show "?A s' \<or> ?B s' \<or> ?S s'" if "?A (r k)" "service_step cfg (ev k) (r k) = Some s'" for k s'
        using aw(4) that assms(5) by blast
      fix k s' assume "?A (r k)" "timer_event (ev k)" "service_step cfg (ev k) (r k) = Some s'"
      then obtain d where "awaiting cfg f bs d (r k)" by blast
      then show "?B s' \<or> ?S s'"
        using aw(2,3) [of d "r k" "ev k" s'] \<open>timer_event (ev k)\<close> \<open>service_step cfg (ev k) (r k) = Some s'\<close> assms(5)
        by (cases d) auto
    qed (use assms(7) in blast)
    then obtain k where k: "N \<le> k" "?B (r k) \<or> ?S (r k)" by blast
    from k(2) have "\<exists>l \<ge> k. ?S (r l)"
    proof
      assume "?B (r k)"
      then show ?thesis
      proof (rule trace_leads_to [OF assms(3), where P = ?B and Q = ?S and trigger = "\<lambda>k. timer_event (ev k)"])
        show "?B s' \<or> ?S s'" if "k \<le> l" "?B (r l)" "service_step cfg (ev l) (r l) = Some s'" for l s'
          using aw(1) [OF that(2) _ that(3)] that(1) k(1) assms(5,6) by (meson le_trans)
        show "?S s'" if "?B (r l)" "timer_event (ev l)" "service_step cfg (ev l) (r l) = Some s'" for l s'
          using aw(3) that assms(5) by blast
      qed (use assms(7) in blast)
    qed blast
    then show ?thesis using k(1) by (meson le_trans)
  qed blast
  then obtain k where "?S (r k)" by blast
  then have "?S (r j)" if "k \<le> j" for j
    using trace_stable [OF assms(3), where P = ?S and n = k and k = j] se assms(5) that by blast
  then show ?thesis by blast
qed

subsection \<open>An upload is two events of the agent\<close>

lemma upload_events:
  assumes "distinct_flags F" and "flags AND of_read F = 0" and "flags AND of_write F \<noteq> 0"
    and "list_all (\<lambda>c. c \<noteq> []) chunks" and "length (concat chunks) \<le> maxBufferSize"
    and "env_writable env" and "wf_agent (sv_agent s)" and "sv_running s"
  defines "f' \<equiv> Some (file_image (now env) (concat chunks))"
  defines "a' \<equiv> snd (sync_result f' (sv_agent s))"
  shows "\<exists>b. upload_table F env session flags chunks (sv_flash s) (sv_agent s) =
      (fst (sync_result f' (sv_agent s)), Some b, f', a')"
    and "run_events (service_step cfg) [FlashReplaced f', CallAgentSynchronizeData] s =
      Some (s\<lparr>sv_flash := f', sv_agent := a'\<rparr>)"
proof -
  obtain b where b: "upload_table F env session flags chunks (sv_flash s) (sv_agent s) =
      blob_commit F env agent_call session [] (Some b, sv_flash s, sv_agent s)"
    "wf_blob F b" "sessionId b = session" "\<not> has_flag b (sf_committed F)" "buffer b = concat chunks"
    using upload_table_commit [OF assms(1-5)] by blast
  have "\<not> has_flag b (sf_committing F)" using b(2) by (simp add: wf_blob_def)
  from commit_written [OF assms(6) b(3) this b(4), of agent_call "sv_flash s" "sv_agent s"]
  show "\<exists>b. upload_table F env session flags chunks (sv_flash s) (sv_agent s) =
      (fst (sync_result f' (sv_agent s)), Some b, f', a')"
    using b(1,5) by (cases "fst (sync_result f' (sv_agent s))")
      (auto simp: syncSmbiosData_def agent_call_eq [OF assms(7)] Let_def f'_def a'_def)
  show "run_events (service_step cfg) [FlashReplaced f', CallAgentSynchronizeData] s =
      Some (s\<lparr>sv_flash := f', sv_agent := a'\<rparr>)"
    using assms(8) agentSynchronizeData_result [OF assms(7), of f'] by (simp add: service_step_def a'_def)
qed

lemma good_upload:
  assumes "list_all wf_struct ss" and "length (smbios30_file major minor maxSize ss) \<le> mdrSMBIOSSize"
    and "\<lparr>majorVersion = major, minorVersion = minor\<rparr> \<in> set supportedSMBIOSVersions"
    and "search anchorString21 (smbios30_file major minor maxSize ss) = None"
    and "complete_structs cfg ss" and "shown_build cfg"
  defines "bs \<equiv> smbios30_file major minor maxSize ss"
  shows "good_table cfg (Some (file_image t bs)) bs 24 ss" and "small_file (Some (file_image t bs))"
proof -
  have len: "length bs + 3 \<le> smbiosTableStorageSize"
    using assms(2) by (simp add: bs_def mdrSMBIOSSize_def smbiosTableStorageSize_def)
  then have pl: "payload (Some (file_image t bs)) =
      Some (\<lparr>dirVer = 1, mdrType = 2, hdr_timestamp = t, dataSize = word_of_nat (length bs)\<rparr>, bs)"
    by (intro payload_file_image) simp
  then show "small_file (Some (file_image t bs))" using assms(2) by (simp add: small_file_def bs_def)
  have "supported_table bs" using supported_smbios30_file [OF assms(4,3)] len by (simp add: bs_def)
  moreover have "table_from (table_image bs) 0 24 ss"
    unfolding bs_def by (rule table_from_file [OF assms(1)]) (use len in \<open>simp add: bs_def\<close>)
  ultimately show "good_table cfg (Some (file_image t bs)) bs 24 ss"
    using pl assms(5,6) by (simp add: good_table_def)
qed

lemma upload_awaiting:
  assumes "distinct_flags F" and "flags AND of_read F = 0" and "flags AND of_write F \<noteq> 0"
    and "list_all (\<lambda>c. c \<noteq> []) chunks" and "env_writable env" and "wf_service cfg s" and "sv_running s"
    and "good_table cfg (Some (file_image (now env) (concat chunks))) (concat chunks) q ss"
    and "small_file (Some (file_image (now env) (concat chunks)))"
    and "length (concat chunks) \<le> maxBufferSize"
  shows "\<exists>b a'. upload_table F env session flags chunks (sv_flash s) (sv_agent s) =
      (True, Some b, Some (file_image (now env) (concat chunks)), a')
    \<and> awaiting cfg (Some (file_image (now env) (concat chunks))) (concat chunks) DeferSystemInfoUpdate
        (s\<lparr>sv_flash := Some (file_image (now env) (concat chunks)), sv_agent := a'\<rparr>)"
proof -
  let ?f = "Some (file_image (now env) (concat chunks))"
  note wa = wf_serviceD(3) [OF assms(6,7)]
  note up = upload_events [OF assms(1-4,10,5) wa assms(7)]
  have sync: "fst (sync_result ?f (sv_agent s))" "timer (snd (sync_result ?f (sv_agent s))) = Some DeferSystemInfoUpdate"
    "smbiosTableStorage (snd (sync_result ?f (sv_agent s))) = table_image (concat chunks)"
    using sync_serving [OF assms(8) wa] agentSynchronizeData_result [OF wa, of ?f] by (auto simp: prod_eq_iff)
  have "wf_service cfg (s\<lparr>sv_flash := ?f, sv_agent := snd (sync_result ?f (sv_agent s))\<rparr>)"
    using service.run_good [OF assms(6), of "[FlashReplaced ?f, CallAgentSynchronizeData]"] up(2) assms(9) by auto
  then show ?thesis
    using up(1) [of session] sync assms(7) by (auto simp: awaiting_def serving_def)
qed

subsection \<open>An uploaded table is shown\<close>

text \<open>
  C3. A table that the host uploads reaches the inventory and stays there. The upload is that of a
  well-formed file of a supported version, of at most 32 KiB and without a 2.1 anchor, in non-empty chunks to
  a running agent, where the file can be written. The table has complete memory devices and slots
  (and, in a build with boards, complete boards and no handle twice), no locator that makes the
  update throw, and, if it has a BIOS structure, a printable version in it. The build publishes
  processors and memory devices at well-formed paths. In the run after the upload the file is not
  replaced and the process not stopped, calls stay within the directory array, the bus
  registers and answers as documented, \<open>synchronizeDirectoryCommonData\<close> is called finitely often (each
  call puts off the refresh) and the timer expires again and again. Then the upload is
  accepted, and from some moment on the process runs and its inventory has one object per
  processor and per memory device, in order, and one per PCIe slot, up to 255 of each, at different
  paths, a TPM object exactly when the table has one TPM, and a system object. Each object holds the values
  that its update computes from the stored table for its index; an index without a slot of its
  own keeps what the object held before. Firmware and base board objects are not part of the statement.
\<close>

theorem uploaded_table_is_shown:
  assumes "distinct_flags F" and "flags AND of_read F = 0" and "flags AND of_write F \<noteq> 0"
    and "list_all (\<lambda>c. c \<noteq> []) chunks" and "env_writable env" and "wf_service cfg s" and "sv_running s"
    and "concat chunks = smbios30_file major minor maxSize ss" and "list_all wf_struct ss"
    and "length (concat chunks) \<le> 32768"
    and "\<lparr>majorVersion = major, minorVersion = minor\<rparr> \<in> set supportedSMBIOSVersions"
    and "search anchorString21 (concat chunks) = None"
    and "complete_structs cfg ss" and "shown_build cfg" and "showable ss"
    and "upload_table F env session flags chunks (sv_flash s) (sv_agent s) = (accepted, h, f', a')"
    and "trace (service_step cfg) ev r" and "r 0 = s\<lparr>sv_flash := f', sv_agent := a'\<rparr>"
    and "\<forall>n. quiet (ev n)" and "\<exists>N. \<forall>n \<ge> N. \<not> common_call (ev n)" and "\<forall>n. \<exists>m \<ge> n. timer_event (ev m)"
  shows "accepted \<and> (\<exists>k. \<forall>j \<ge> k. sv_running (r j) \<and> displays cfg (concat chunks) ss (r j))"
proof -
  let ?f = "Some (file_image (now env) (concat chunks))"
  have len: "length (smbios30_file major minor maxSize ss) \<le> mdrSMBIOSSize"
    "length (concat chunks) \<le> maxBufferSize"
    using assms(8,10) by (simp_all add: mdrSMBIOSSize_def maxBufferSize_def)
  note gt = good_upload [OF assms(9) len(1) assms(11) assms(12) [unfolded assms(8)] assms(13,14),
      of "now env", folded assms(8)]
  obtain N where N: "\<forall>n \<ge> N. \<not> common_call (ev n)" using assms(20) by blast
  have up: "accepted" "awaiting cfg ?f (concat chunks) DeferSystemInfoUpdate (r 0)"
    using upload_awaiting [OF assms(1-7) gt len(2), of session] assms(16,18) by auto
  from eventually_settled [OF gt(1) assms(15,17) up(2) assms(19) N assms(21)] show ?thesis
    using up(1) by (auto simp: settled_def serving_def)
qed

definition example_service :: "inventory_config \<Rightarrow> service_config" where
  "example_service c = main_config (plain_build c) (\<lambda>x. False)"

lemma example_running:
  "\<exists>s. service_step cfg (Start (smbiosDir example_agent)) (stopped None) = Some s \<and> wf_service cfg s \<and> sv_running s"
proof -
  have "wf_service cfg (stopped None)" by (rule wf_stopped) (simp add: small_file_def payload_def)
  then obtain s where s: "service_step cfg (Start (smbiosDir example_agent)) (stopped None) = Some s" "wf_service cfg s"
    using service_progress [of cfg "stopped None" "Start (smbiosDir example_agent)"] raw_dir_blank by auto
  then have "sv_running s" by (auto simp: service_step_def stopped_def MDRV2_new_def bind_eq_Some_conv)
  then show ?thesis using s by blast
qed

lemma ready_env_good: "bus_good (ready_env env)"
  by (simp add: bus_good_def example_bus_works)

lemma example_upload_shown:
  "showable [example_bios]" "complete_structs (example_service c) [example_bios]" "shown_build (example_service c)"
  "list_all wf_struct [example_bios]" "\<lparr>majorVersion = 3, minorVersion = 3\<rparr> \<in> set supportedSMBIOSVersions"
proof -
  have "struct_string example_bios (sf8 example_bios 5) = ''1.02''"
    by (simp add: example_bios_def struct_string_def sf8_def)
  moreover have "list_all isprint_char ''1.02''"
    by (simp add: isprint_char_def isprint_byte_def byte_of_char_def)
  moreover have "6 \<le> s_length example_bios" "s_type example_bios = 0"
    by (simp_all add: example_bios_def s_length_def structureHeaderSize_def)
  ultimately show "showable [example_bios]" by (simp add: showable_def)
qed (use example_wf prefix_examples default_inventory_place in \<open>simp_all add: complete_structs_def example_bios_def
    example_service_def main_config_def shown_build_def example_table_def supportedSMBIOSVersions_def plain_build_def\<close>)

theorem uploaded_table_is_shown_witness:
  "\<forall>c env0. \<exists>s b f' a' r k. service_step (example_service c) (Start (smbiosDir example_agent)) (stopped None) = Some s
    \<and> upload_table example_flags example_env 7 2 [example_upload] (sv_flash s) (sv_agent s) = (True, b, f', a')
    \<and> trace (service_step (example_service c)) (\<lambda>n. TimerExpires (ready_env env0)) r
    \<and> r 0 = s\<lparr>sv_flash := f', sv_agent := a'\<rparr>
    \<and> sv_running (r k) \<and> displays (example_service c) example_upload [example_bios] (r k)"
proof (intro allI)
  fix c and env0 :: bus_env
  let ?cfg = "example_service c" and ?ev = "\<lambda>n :: nat. TimerExpires (ready_env env0)"
  obtain s where s: "service_step ?cfg (Start (smbiosDir example_agent)) (stopped None) = Some s"
    "wf_service ?cfg s" "sv_running s" using example_running by blast
  obtain x b f' a' where up: "upload_table example_flags example_env 7 2 [example_upload] (sv_flash s) (sv_agent s) = (x, b, f', a')"
    using prod_cases4 by blast
  have pre: "2 AND of_read example_flags = 0" "2 AND of_write example_flags \<noteq> 0" "env_writable example_env"
    "list_all (\<lambda>c. c \<noteq> []) [example_upload]" "length (concat [example_upload]) \<le> 32768"
    "concat [example_upload] = smbios30_file 3 3 50 [example_bios]" "search anchorString21 (concat [example_upload]) = None"
    using example_upload_no21
    by (simp_all add: example_flags_def env_writable_def example_env_def example_upload_bytes)
       (simp add: example_upload_bytes [symmetric] example_upload_def)
  note ex = example_upload_shown
  have len: "length (smbios30_file 3 3 50 [example_bios]) \<le> mdrSMBIOSSize"
    "length (concat [example_upload]) \<le> maxBufferSize"
    using pre(5,6) by (simp_all add: mdrSMBIOSSize_def maxBufferSize_def)
  note gt = good_upload [OF ex(4) len(1) ex(5) pre(7) [unfolded pre(6)] ex(2) [of c] ex(3) [of c],
      of "now example_env", folded pre(6)]
  have "wf_service ?cfg (s\<lparr>sv_flash := f', sv_agent := a'\<rparr>)"
    using upload_awaiting [OF example_flags_distinct pre(1,2,4,3) s(2,3) gt len(2), of 7] up
    by (auto simp: awaiting_def serving_def)
  from service.trace_exists [OF this, of ?ev] obtain r where r: "r 0 = s\<lparr>sv_flash := f', sv_agent := a'\<rparr>"
    "trace (service_step ?cfg) ?ev r" using example_bus_answers by auto
  have run: "\<forall>n. quiet (?ev n)" "\<exists>N. \<forall>n \<ge> N. \<not> common_call (?ev n)" "\<forall>n. \<exists>m \<ge> n. timer_event (?ev m)"
    using ready_env_good by (auto simp: common_call_def timer_event_def)
  from uploaded_table_is_shown [OF example_flags_distinct pre(1,2,4,3) s(2,3) pre(6) ex(4) pre(5) ex(5) pre(7)
      ex(2) [of c] ex(3) [of c] ex(1) up r(2,1) run]
  obtain k where "x" "sv_running (r k)" "displays ?cfg (concat [example_upload]) [example_bios] (r k)"
    by blast
  then show "\<exists>s b f' a' r k. service_step ?cfg (Start (smbiosDir example_agent)) (stopped None) = Some s
    \<and> upload_table example_flags example_env 7 2 [example_upload] (sv_flash s) (sv_agent s) = (True, b, f', a')
    \<and> trace (service_step ?cfg) ?ev r \<and> r 0 = s\<lparr>sv_flash := f', sv_agent := a'\<rparr>
    \<and> sv_running (r k) \<and> displays ?cfg example_upload [example_bios] (r k)"
    using s(1) up r by auto
qed

subsection \<open>Tables that end the process or empty the file\<close>

lemma service_start:
  assumes "good_table cfg f bs q ss" and "wf_service cfg s" and "\<not> sv_running s" and "sv_flash s = f"
    and "raw_dir raw"
  shows "\<exists>s'. service_step cfg (Start raw) s = Some s' \<and> awaiting cfg f bs DeferSystemInfoUpdate s'
    \<and> sv_sent s' = sv_sent s"
proof -
  obtain s' where s': "service_step cfg (Start raw) s = Some s'" "wf_service cfg s'"
    using service_progress [OF assms(2), of "Start raw"] assms(5) by auto
  obtain a0 where a0: "MDRV2_init raw f = Some (snd (sync_result f a0))" "wf_agent a0"
    using MDRV2_init_defined [OF assms(5), of f] by blast
  obtain a where "agentSynchronizeData f a0 = Some (True, a)" "smbiosTableStorage a = table_image bs"
    "timer a = Some DeferSystemInfoUpdate" using sync_serving [OF assms(1) a0(2)] by blast
  moreover from this have "a = snd (sync_result f a0)" using agentSynchronizeData_result [OF a0(2), of f] by simp
  ultimately show ?thesis
    using s' a0(1) assms(3,4) by (auto simp: service_step_def MDRV2_new_def awaiting_def serving_def)
qed

lemma refresh_bad_locator:
  assumes "good_table cfg f bs q ss" and "serving cfg f bs s" and "bus_ready env" and "mapper_answers (bios_calls env)"
    and "k < min 255 (length (of_type 17 ss))" and "bad_locator (locator_of ss k)"
  shows "\<exists>x s'. refresh cfg env s = Some (Throws x, s') \<and> sv_flash s' = f \<and> sv_sent s' = sv_sent s \<and> wf_service cfg s'"
proof -
  note ok = serving_refreshable [OF assms(1,2)] and w = assms(2) [unfolded serving_def]
  let ?u = "systemInfoUpdate (sc_inventory cfg) env (sc_inventoryPath cfg) (sv_agent s) (sv_inventory s)"
  obtain e s' where r: "refresh cfg env s = Some (e, s')" "wf_service cfg s'"
    using refresh_progress [of cfg s env] w assms(4) by auto
  then obtain e1 i where i: "?u = Some (e1, i)" by (cases ?u) (auto simp: refresh_def)
  obtain n ds where "list_all2 (dimm_built (sc_inventory cfg) (smbiosTableStorage (sv_agent s)) (At 0)
        (find_motherboard env (sc_inventoryPath cfg)) (dimm_name (sc_inventory cfg) ss)) [0 ..< n] ds" "n \<le> min 255 (length (of_type 17 ss))"
    "n < min 255 (length (of_type 17 ss)) \<and> (\<exists>x. e1 = Throws x) \<or> n = min 255 (length (of_type 17 ss))"
    using refresh_prefix [OF ok assms(3) i] unfolding Let_def by blast
  then obtain x where "e1 = Throws x"
    using dimm_built_locator [OF ok, of _ _ n ds k] assms(5,6) by blast
  then have "refresh cfg env s = Some (Throws x, s\<lparr>sv_inventory := i\<rparr>)"
    using i by (simp add: refresh_def Let_def split: option.split)
  then show ?thesis using r w by auto
qed

lemma crash_round:
  assumes "good_table cfg f bs q ss" and "k < min 255 (length (of_type 17 ss))" and "bad_locator (locator_of ss k)"
    and "raw_dir raw" and "bus_ready env" and "mapper_answers (bios_calls env)" and "wf_service cfg s" and "\<not> sv_running s" and "sv_flash s = f"
  shows "\<exists>s1 s2. service_step cfg (Start raw) s = Some s1 \<and> sv_running s1
    \<and> timer (sv_agent s1) = Some DeferSystemInfoUpdate \<and> service_step cfg (TimerExpires env) s1 = Some s2
    \<and> wf_service cfg s2 \<and> \<not> sv_running s2 \<and> sv_flash s2 = f \<and> sv_inventory s2 = empty_inventory \<and> sv_sent s2 = sv_sent s"
proof -
  obtain s1 where s1: "service_step cfg (Start raw) s = Some s1" "awaiting cfg f bs DeferSystemInfoUpdate s1"
    "sv_sent s1 = sv_sent s"
    using service_start [OF assms(1,7,8,9,4)] by blast
  then have sv: "serving cfg f bs s1" "timer (sv_agent s1) = Some DeferSystemInfoUpdate" "sv_running s1"
    by (auto simp: awaiting_def serving_def)
  obtain x s2 where "refresh cfg env (s1\<lparr>sv_agent := (sv_agent s1)\<lparr>timer := None\<rparr>\<rparr>) = Some (Throws x, s2)"
    "sv_flash s2 = f" "sv_sent s2 = sv_sent s1" "wf_service cfg s2"
    using refresh_bad_locator [OF assms(1) serving_timer_reset [OF sv(1)] assms(5,6,2,3)] by auto
  then have "service_step cfg (TimerExpires env) s1 = Some (terminated s2)" "sv_flash (terminated s2) = f"
    "sv_sent (terminated s2) = sv_sent s" "wf_service cfg (terminated s2)"
    using sv s1(3) wf_terminated by (simp_all add: service_step_def timer_expires_def Let_def) (simp_all add: terminated_def)
  then show ?thesis using s1(1) sv(2,3) by (auto simp: terminated_def)
qed

text \<open>
  C8. A table with a memory device whose locator makes the update throw stops the agent for as long as it
  is in the file: every time the process is started it accepts the table and schedules the refresh,
  and when the timer expires the exception ends the process; no object is on the bus and the file is
  unchanged, so the next start ends in the same way.
\<close>

theorem bad_locator_crash_loop:
  assumes "good_table cfg f bs q ss" and "k < min 255 (length (of_type 17 ss))" and "bad_locator (locator_of ss k)"
    and "raw_dir raw" and "bus_ready env" and "mapper_answers (bios_calls env)" and "wf_service cfg s" and "\<not> sv_running s" and "sv_flash s = f"
  shows "\<exists>s1 s2. run_events (service_step cfg) (concat (replicate n [Start raw, TimerExpires env])) s = Some s1
    \<and> \<not> sv_running s1 \<and> sv_flash s1 = f \<and> sv_sent s1 = sv_sent s
    \<and> service_step cfg (Start raw) s1 = Some s2 \<and> sv_running s2 \<and> timer (sv_agent s2) = Some DeferSystemInfoUpdate"
proof -
  let ?P = "\<lambda>x. wf_service cfg x \<and> \<not> sv_running x \<and> sv_flash x = f \<and> sv_sent x = sv_sent s"
  have "\<exists>x'. run_events (service_step cfg) [Start raw, TimerExpires env] x = Some x' \<and> ?P x'" if "?P x" for x
    using crash_round [OF assms(1-6), of x] that by auto
  then have "\<exists>x'. run_events (service_step cfg) (concat (replicate n [Start raw, TimerExpires env])) s = Some x' \<and> ?P x'"
    by (rule run_events_repeat) (use assms(7-9) in auto)
  then obtain s1 where "run_events (service_step cfg) (concat (replicate n [Start raw, TimerExpires env])) s = Some s1"
    "?P s1" by blast
  then show ?thesis using crash_round [OF assms(1-6), of s1] by blast
qed

text \<open>
  C32. A BIOS version with a character that cannot be printed costs the table: the refresh that meets it
  empties the file and publishes no version; the inventory shows the rest of the table, but the next
  synchronisation fails and leaves the storage cleared.
\<close>

theorem unprintable_version_empties_file:
  assumes "good_table cfg f bs q ss" and "\<forall>k < min 255 (length (of_type 17 ss)). \<not> bad_locator (locator_of ss k)"
    and "of_type 0 ss = b # rest" and "6 \<le> s_length b" and "\<not> list_all isprint_char (struct_string b (sf8 b 5))"
    and "bus_good env" and "file_truncatable env" and "serving cfg f bs s"
    and "timer (sv_agent s) = Some DeferSystemInfoUpdate"
  shows "\<exists>s1 s2. service_step cfg (TimerExpires env) s = Some s1 \<and> displays cfg bs ss s1
    \<and> sv_flash s1 = Some [] \<and> sv_sent s1 = sv_sent s
    \<and> service_step cfg CallAgentSynchronizeData s1 = Some s2 \<and> sv_running s2
    \<and> smbiosTableStorage (sv_agent s2) = table_image [] \<and> timer (sv_agent s2) = None"
proof -
  let ?s0 = "s\<lparr>sv_agent := (sv_agent s)\<lparr>timer := None\<rparr>\<rparr>" and ?c = "sc_inventory cfg" and ?p = "sc_inventoryPath cfg"
  have s0: "serving cfg f bs ?s0" by (rule serving_timer_reset [OF assms(8)])
  note w = s0 [unfolded serving_def]
  obtain i where i: "systemInfoUpdate ?c env ?p (sv_agent ?s0) (sv_inventory ?s0) = Some (Continues, i)"
    "shows_table ?c env ?p (table_image bs) ss i"
    using refresh_complete [OF serving_refreshable [OF assms(1) s0] bus_goodD(1,2) [OF assms(6)] assms(2)] w by auto
  obtain sys where sys: "inv_system i = Some sys"
    "System_version (table_image bs) (At 0) (bios_calls env) (file_truncatable env) = Some (Inr (so_version sys))"
    using i(2) by (auto simp: shows_table_def Let_def)
  have tf: "table_from (table_image bs) 0 q ss" using assms(1) by (simp add: good_table_def)
  have "so_version sys = \<lparr>ve_property = Some ''No BIOS Version'', ve_truncated = True, ve_published = None\<rparr>"
    using sys(2) bios_string_table [OF tf assms(3,4)] assms(5,7) by (simp add: Let_def)
  then have t: "timer_expires cfg env s = Some (?s0\<lparr>sv_inventory := i, sv_flash := Some []\<rparr>)"
    using i(1) sys(1) assms(9) by (simp add: timer_expires_def refresh_def Let_def)
  have "wf_agent (sv_agent ?s0)" using wf_serviceD(3) [of cfg ?s0] w by blast
  from agentSynchronizeData_result [OF this, of "Some []"] show ?thesis
    using t i(2) assms(8) by (auto simp: service_step_def serving_def displays_def sync_result_def)
qed

definition odd_file :: "u8 list" where
  "odd_file = smbios30_file 3 3 50 odd_table"

lemma odd_file_checks: "search anchorString21 odd_file = None" "length odd_file \<le> mdrSMBIOSSize"
  by code_simp+

lemma odd_file_good:
  "good_table (example_service c) (Some (file_image 5 odd_file)) odd_file 24 odd_table"
  "small_file (Some (file_image 5 odd_file))"
proof -
  have "complete_structs (example_service c) odd_table"
    using odd_table_ok(3,4) by (simp add: complete_structs_def example_service_def main_config_def plain_build_def)
  note * = good_upload [OF odd_table_ok(1) odd_file_checks(2) [unfolded odd_file_def] example_upload_shown(5)
      odd_file_checks(1) [unfolded odd_file_def] this example_upload_shown(3) [of c], of 5]
  show "good_table (example_service c) (Some (file_image 5 odd_file)) odd_file 24 odd_table"
    "small_file (Some (file_image 5 odd_file))"
    using * by (simp_all add: odd_file_def)
qed

theorem bad_locator_crash_loop_witness:
  "\<forall>c env0. \<exists>s1 s2. run_events (service_step (example_service c))
      (concat (replicate 10 [Start (smbiosDir example_agent), TimerExpires (ready_env env0)]))
      (stopped (Some (file_image 5 odd_file))) = Some s1
    \<and> \<not> sv_running s1 \<and> sv_flash s1 = Some (file_image 5 odd_file)
    \<and> service_step (example_service c) (Start (smbiosDir example_agent)) s1 = Some s2 \<and> sv_running s2"
proof (intro allI)
  fix c and env0 :: bus_env
  let ?env = "ready_env env0" and ?s = "stopped (Some (file_image 5 odd_file))"
  have k: "1 < min 255 (length (of_type 17 odd_table))" unfolding odd_table_ok(5) by (simp add: odd_table_def)
  have env: "bus_ready ?env" "mapper_answers (bios_calls ?env)" by (simp_all add: example_bus_answers)
  have s: "\<not> sv_running ?s" "sv_flash ?s = Some (file_image 5 odd_file)" by (simp_all add: stopped_def)
  from bad_locator_crash_loop [OF odd_file_good(1) [of c] k odd_table_locators(2) raw_dir_blank env
      wf_stopped [OF odd_file_good(2)] s, of 10]
  show "\<exists>s1 s2. run_events (service_step (example_service c))
      (concat (replicate 10 [Start (smbiosDir example_agent), TimerExpires ?env])) ?s = Some s1
    \<and> \<not> sv_running s1 \<and> sv_flash s1 = Some (file_image 5 odd_file)
    \<and> service_step (example_service c) (Start (smbiosDir example_agent)) s1 = Some s2 \<and> sv_running s2"
    by blast
qed

definition tab_bios :: smb_struct where
  "tab_bios = example_bios\<lparr>s_strings := [''Vendor'', [CHR ''1'', CHR 0x09, CHR ''2'']]\<rparr>"

definition tab_file :: "u8 list" where
  "tab_file = smbios30_file 3 3 50 [tab_bios]"

lemma tab_bios_ok:
  "list_all wf_struct [tab_bios]" "complete_structs (example_service c) [tab_bios]" "of_type 0 [tab_bios] = [tab_bios]"
  "of_type 17 [tab_bios] = []" "6 \<le> s_length tab_bios"
  "\<not> list_all isprint_char (struct_string tab_bios (sf8 tab_bios 5))"
  "search anchorString21 tab_file = None" "length tab_file \<le> mdrSMBIOSSize"
proof -
  show "search anchorString21 tab_file = None" "length tab_file \<le> mdrSMBIOSSize" by code_simp+
qed (simp_all add: tab_bios_def example_bios_def complete_structs_def example_service_def main_config_def plain_build_def wf_struct_def s_length_def structureHeaderSize_def
    wf_string_def encode_strings_def encode_string_def mdrSMBIOSSize_def byte_of_char_def sf8_def struct_string_def
    isprint_char_def isprint_byte_def)

lemma tab_file_good:
  "good_table (example_service c) (Some (file_image 5 tab_file)) tab_file 24 [tab_bios]"
  "small_file (Some (file_image 5 tab_file))"
  using good_upload [OF tab_bios_ok(1) tab_bios_ok(8) [unfolded tab_file_def] example_upload_shown(5)
      tab_bios_ok(7) [unfolded tab_file_def] tab_bios_ok(2) example_upload_shown(3) [of c], of 5]
  by (simp_all add: tab_file_def)

theorem unprintable_version_empties_file_witness:
  "\<forall>c env0. \<exists>s s1 s2. service_step (example_service c) (Start (smbiosDir example_agent))
      (stopped (Some (file_image 5 tab_file))) = Some s
    \<and> service_step (example_service c)
        (TimerExpires (ready_env (env0\<lparr>file_truncatable := True\<rparr>))) s = Some s1
    \<and> sv_flash s1 = Some [] \<and> service_step (example_service c) CallAgentSynchronizeData s1 = Some s2
    \<and> smbiosTableStorage (sv_agent s2) = table_image []"
proof (intro allI)
  fix c and env0 :: bus_env
  let ?cfg = "example_service c" and ?env = "ready_env (env0\<lparr>file_truncatable := True\<rparr>)"
  have st: "\<not> sv_running (stopped (Some (file_image 5 tab_file)))"
    "sv_flash (stopped (Some (file_image 5 tab_file))) = Some (file_image 5 tab_file)"
    by (simp_all add: stopped_def)
  obtain s where s: "service_step ?cfg (Start (smbiosDir example_agent)) (stopped (Some (file_image 5 tab_file))) = Some s"
    "serving ?cfg (Some (file_image 5 tab_file)) tab_file s" "timer (sv_agent s) = Some DeferSystemInfoUpdate"
    using service_start [OF tab_file_good(1) wf_stopped [OF tab_file_good(2)] st raw_dir_blank]
    by (auto simp: awaiting_def)
  have pre: "\<forall>k < min 255 (length (of_type 17 [tab_bios])). \<not> bad_locator (locator_of [tab_bios] k)"
    "bus_good ?env" "file_truncatable ?env"
    using tab_bios_ok(4) ready_env_good by simp_all
  from unprintable_version_empties_file [OF tab_file_good(1) pre(1) tab_bios_ok(3,5,6) pre(2,3) s(2,3)]
  show "\<exists>s s1 s2. service_step ?cfg (Start (smbiosDir example_agent)) (stopped (Some (file_image 5 tab_file))) = Some s
    \<and> service_step ?cfg (TimerExpires ?env) s = Some s1
    \<and> sv_flash s1 = Some [] \<and> service_step ?cfg CallAgentSynchronizeData s1 = Some s2
    \<and> smbiosTableStorage (sv_agent s2) = table_image []"
    using s(1) by blast
qed

end
