(* ===== verification/Sst_Mailbox.thy ===== *)
theory Sst_Mailbox
  imports Smbios_Prelude
begin

text \<open>
  The Intel Speed Select mailbox of \<open>src/sst_mailbox.cpp\<close>: the manager of the PECI connection with
  its wake-on-PECI handling, the protocol of the OS mailbox, the mailbox commands with their bit
  fields, and the operations of \<open>SSTMailbox\<close>, the implementation of the interface \<open>SSTInterface\<close> of
  \<open>include/speed_select.hpp\<close>.

  The PECI library is a parameter: a record of the functions the code calls, over an abstract
  device. Nothing is assumed of what they return. An operation takes the object with the device
  and returns a result or a \<open>PECIError\<close>, with the object and the device as they are then.
\<close>

unbundle bit_operations_syntax

subsection \<open>The PECI library\<close>

datatype EPECIStatus = PECI_CC_SUCCESS | PECI_CC_TIMEOUT | PECI_CC_CPU_NOT_PRESENT | PECI_CC_OTHER nat

datatype CPUModel = iceLake | iceLakeD | sapphireRapids | emeraldRapids | graniteRapids | graniteRapidsD
  | sierraForest | otherModel nat

record 'd peci =
  PECI_DEV_CC_SUCCESS :: u8
  peci_WrPkgConfig :: "u8 \<Rightarrow> u8 \<Rightarrow> u16 \<Rightarrow> u32 \<Rightarrow> 'd \<Rightarrow> (EPECIStatus \<times> u8) \<times> 'd"
  peci_WrEndPointPCIConfigLocal ::
    "u8 \<Rightarrow> nat \<Rightarrow> u8 \<Rightarrow> nat \<Rightarrow> nat \<Rightarrow> u16 \<Rightarrow> u32 \<Rightarrow> 'd \<Rightarrow> (EPECIStatus \<times> u8) \<times> 'd"
  peci_RdEndPointConfigPciLocal ::
    "u8 \<Rightarrow> nat \<Rightarrow> u8 \<Rightarrow> nat \<Rightarrow> nat \<Rightarrow> u16 \<Rightarrow> 'd \<Rightarrow> (EPECIStatus \<times> u8 \<times> u32) \<times> 'd"
  peci_RdIAMSR :: "u8 \<Rightarrow> u8 \<Rightarrow> u16 \<Rightarrow> 'd \<Rightarrow> (EPECIStatus \<times> u8 \<times> u64) \<times> 'd"
  peci_GetCPUID :: "u8 \<Rightarrow> 'd \<Rightarrow> (EPECIStatus \<times> u8 \<times> CPUModel) \<times> 'd"
  peci_RdPkgConfig :: "u8 \<Rightarrow> u8 \<Rightarrow> u16 \<Rightarrow> 'd \<Rightarrow> (EPECIStatus \<times> u8 \<times> u32) \<times> 'd"

datatype PECIError = PECIError string

type_synonym ('s, 'd, 'a) sst_op = "'s \<times> 'd \<Rightarrow> (PECIError + 'a) \<times> 's \<times> 'd"

text \<open>Sequencing: an error ends the operation and keeps the state that was reached.\<close>

definition op_return :: "'a \<Rightarrow> ('s, 'd, 'a) sst_op" where
  "op_return x s = (Inr x, s)"

definition op_throw :: "string \<Rightarrow> ('s, 'd, 'a) sst_op" where
  "op_throw msg s = (Inl (PECIError msg), s)"

definition op_bind :: "('s, 'd, 'a) sst_op \<Rightarrow> ('a \<Rightarrow> ('s, 'd, 'b) sst_op) \<Rightarrow> ('s, 'd, 'b) sst_op" where
  "op_bind p f s = (case p s of (Inl e, t) \<Rightarrow> (Inl e, t) | (Inr x, t) \<Rightarrow> f x t)"

definition op_map :: "('a \<Rightarrow> 'b) \<Rightarrow> ('s, 'd, 'a) sst_op \<Rightarrow> ('s, 'd, 'b) sst_op" where
  "op_map f p = op_bind p (\<lambda>x. op_return (f x))"

lemma op_bind_cong [fundef_cong]:
  assumes "p = q" and "s = t" and "\<And>x u. q t = (Inr x, u) \<Longrightarrow> f x u = g x u"
  shows "op_bind p f s = op_bind q g t"
  using assms by (cases "q t") (auto simp: op_bind_def split: sum.split)

definition checkPECIStatus :: "'d peci \<Rightarrow> EPECIStatus \<Rightarrow> u8 \<Rightarrow> bool" where
  "checkPECIStatus L libStatus completionCode \<longleftrightarrow>
     \<not> (libStatus \<noteq> PECI_CC_SUCCESS \<or> completionCode \<noteq> PECI_DEV_CC_SUCCESS L)"

subsection \<open>The PECI manager\<close>

datatype WakePolicy = wakeAllowed | dontWake

record PECIManager =
  peciAddress :: u8
  peciWoken :: bool
  pm_cpuModel :: CPUModel
  mbBus :: u8
  wakePolicy :: WakePolicy

definition mbBusIceLake :: u8 where "mbBusIceLake = 14"

definition mbBusOther :: u8 where "mbBusOther = 31"

definition mbSegment :: nat where "mbSegment = 0"

definition mbDevice :: nat where "mbDevice = 30"

definition mbFunction :: nat where "mbFunction = 1"

definition mbDataReg :: u16 where "mbDataReg = 0xA0"

definition mbInterfaceReg :: u16 where "mbInterfaceReg = 0xA4"

definition PECIManager_new :: "u8 \<Rightarrow> CPUModel \<Rightarrow> WakePolicy \<Rightarrow> PECIManager" where
  "PECIManager_new address cmodel policy = \<lparr>peciAddress = address, peciWoken = False, pm_cpuModel = cmodel,
     mbBus = (if cmodel = iceLake then mbBusIceLake else mbBusOther), wakePolicy = policy\<rparr>"

definition isSleeping :: "EPECIStatus \<Rightarrow> u8 \<Rightarrow> bool" where
  "isSleeping libStatus completionCode \<longleftrightarrow> libStatus \<noteq> PECI_CC_SUCCESS \<and> completionCode = 0x82"

definition setWakeOnPECI :: "'d peci \<Rightarrow> bool \<Rightarrow> (PECIManager, 'd, unit) sst_op" where
  "setWakeOnPECI L enable = (\<lambda>(pm, d).
     case peci_WrPkgConfig L (peciAddress pm) 5 (if enable then 1 else 0) 0 d of
       ((libStatus, completionCode), d') \<Rightarrow>
         if \<not> checkPECIStatus L libStatus completionCode
         then op_throw ''Failed to set Wake-On-PECI mode bit'' (pm, d')
         else op_return () (if enable then pm\<lparr>peciWoken := True\<rparr> else pm, d'))"

text \<open>The destructor: the bit is cleared if this manager set it, and an error of that is ignored.\<close>

definition PECIManager_delete :: "'d peci \<Rightarrow> PECIManager \<times> 'd \<Rightarrow> 'd" where
  "PECIManager_delete L = (\<lambda>(pm, d). if peciWoken pm then snd (snd (setWakeOnPECI L False (pm, d))) else d)"

text \<open>The loops of the register accesses; the flag is the local variable \<open>tryWaking\<close>.\<close>

function wr_loop :: "'d peci \<Rightarrow> u16 \<Rightarrow> u32 \<Rightarrow> bool \<Rightarrow> (PECIManager, 'd, unit) sst_op" where
  "wr_loop L regAddress data tryWaking (pm, d) =
     (case peci_WrEndPointPCIConfigLocal L (peciAddress pm) mbSegment (mbBus pm) mbDevice mbFunction
             regAddress data d of
        ((libStatus, completionCode), d') \<Rightarrow>
          if tryWaking \<and> isSleeping libStatus completionCode
          then op_bind (setWakeOnPECI L True) (\<lambda>_. wr_loop L regAddress data False) (pm, d')
          else if \<not> checkPECIStatus L libStatus completionCode
          then op_throw ''Failed to write mailbox reg'' (pm, d')
          else op_return () (pm, d'))"
  by pat_completeness auto
termination
  by (relation "measure (\<lambda>(L, r, w, t, s). if t then 1 else 0)") simp_all

function rd_loop :: "'d peci \<Rightarrow> u16 \<Rightarrow> bool \<Rightarrow> (PECIManager, 'd, u32) sst_op" where
  "rd_loop L regAddress tryWaking (pm, d) =
     (case peci_RdEndPointConfigPciLocal L (peciAddress pm) mbSegment (mbBus pm) mbDevice mbFunction
             regAddress d of
        ((libStatus, completionCode, outputData), d') \<Rightarrow>
          if tryWaking \<and> isSleeping libStatus completionCode
          then op_bind (setWakeOnPECI L True) (\<lambda>_. rd_loop L regAddress False) (pm, d')
          else if \<not> checkPECIStatus L libStatus completionCode
          then op_throw ''Failed to read mailbox reg'' (pm, d')
          else op_return outputData (pm, d'))"
  by pat_completeness auto
termination
  by (relation "measure (\<lambda>(L, r, t, s). if t then 1 else 0)") simp_all

declare wr_loop.simps [simp del] rd_loop.simps [simp del]

definition wrMailboxReg :: "'d peci \<Rightarrow> u16 \<Rightarrow> u32 \<Rightarrow> (PECIManager, 'd, unit) sst_op" where
  "wrMailboxReg L regAddress data s = wr_loop L regAddress data (wakePolicy (fst s) = wakeAllowed) s"

definition rdMailboxReg :: "'d peci \<Rightarrow> u16 \<Rightarrow> (PECIManager, 'd, u32) sst_op" where
  "rdMailboxReg L regAddress s = rd_loop L regAddress (wakePolicy (fst s) = wakeAllowed) s"

subsection \<open>The OS mailbox\<close>

definition bit_at :: "nat \<Rightarrow> u64" where
  "bit_at index = push_bit index 1"

definition mbRetries :: nat where "mbRetries = 10"

definition mbBusyBit :: u32 where "mbBusyBit = push_bit 31 1"

text \<open>
  Waiting for the busy bit. The variable \<open>attempts\<close> is decremented only after a busy answer, and zero
  means that the mailbox stayed busy. The case \<open>0\<close> is never reached from \<open>mbRetries\<close>.
\<close>

fun wait_free :: "'d peci \<Rightarrow> nat \<Rightarrow> (PECIManager, 'd, nat) sst_op" where
  "wait_free L 0 = op_return 0"
| "wait_free L (Suc attempts) = op_bind (rdMailboxReg L mbInterfaceReg) (\<lambda>v.
     if v AND mbBusyBit \<noteq> 0
     then if 0 < attempts then wait_free L attempts else op_return attempts
     else op_return (Suc attempts))"

fun wait_done :: "'d peci \<Rightarrow> nat \<Rightarrow> (PECIManager, 'd, nat \<times> u32) sst_op" where
  "wait_done L 0 = op_return (0, 0)"
| "wait_done L (Suc attempts) = op_bind (rdMailboxReg L mbInterfaceReg) (\<lambda>interfaceReg.
     if interfaceReg AND mbBusyBit \<noteq> 0
     then if 0 < attempts then wait_done L attempts else op_return (attempts, interfaceReg)
     else op_return (Suc attempts, interfaceReg))"

definition MailboxStatus_NoError :: u32 where "MailboxStatus_NoError = 0x0"

definition MailboxStatus_InvalidCommand :: u32 where "MailboxStatus_InvalidCommand = 0x1"

definition MailboxStatus_IllegalData :: u32 where "MailboxStatus_IllegalData = 0x16"

text \<open>The flag says whether the caller passes a place for the response code.\<close>

definition sendPECIOSMailboxCmd ::
  "'d peci \<Rightarrow> u8 \<Rightarrow> u8 \<Rightarrow> u32 \<Rightarrow> bool \<Rightarrow> (PECIManager, 'd, u32 \<times> u32) sst_op"
where
  "sendPECIOSMailboxCmd L command subCommand inputData responseWanted =
     op_bind (wait_free L mbRetries) (\<lambda>attempts.
     if attempts = 0 then op_throw ''OS Mailbox failed to become free''
     else
       op_bind (wrMailboxReg L mbDataReg inputData) (\<lambda>_.
       op_bind (wrMailboxReg L mbInterfaceReg (mbBusyBit OR push_bit 8 (ucast subCommand) OR ucast command)) (\<lambda>_.
       op_bind (wait_done L mbRetries) (\<lambda>(attempts', interfaceReg).
       if attempts' = 0 then op_throw ''OS Mailbox failed to return''
       else
         let mstatus = interfaceReg AND 0xFF in
         if \<not> responseWanted \<and> mstatus \<noteq> MailboxStatus_NoError
         then op_throw (''OS Mailbox returned with error: '' @ dec (unat mstatus))
         else op_map (\<lambda>v. (v, mstatus)) (rdMailboxReg L mbDataReg)))))"

datatype ErrorPolicy = Throw | NoThrow

text \<open>A mailbox command object: the value and the status.\<close>

record OsMailboxCommand =
  cmd_value :: u32
  cmd_status :: u32

definition command_param :: "u8 \<Rightarrow> u8 \<Rightarrow> u8 \<Rightarrow> u8 \<Rightarrow> u32" where
  "command_param param1 param2 param3 param4 =
     push_bit 24 (ucast param4) OR push_bit 16 (ucast param3) OR push_bit 8 (ucast param2) OR ucast param1"

definition OsMailboxCommand_new ::
  "'d peci \<Rightarrow> u8 \<Rightarrow> ErrorPolicy \<Rightarrow> u8 \<Rightarrow> u8 \<Rightarrow> u8 \<Rightarrow> u8 \<Rightarrow> (PECIManager, 'd, OsMailboxCommand) sst_op"
where
  "OsMailboxCommand_new L subcommand errorPolicy param1 param2 param3 param4 =
     op_map (\<lambda>(v, st). \<lparr>cmd_value = v,
                        cmd_status = (if errorPolicy = Throw then MailboxStatus_NoError else st)\<rparr>)
       (sendPECIOSMailboxCmd L 0x7F subcommand (command_param param1 param2 param3 param4)
          (errorPolicy \<noteq> Throw))"

definition success :: "OsMailboxCommand \<Rightarrow> bool" where
  "success c \<longleftrightarrow> cmd_status c = MailboxStatus_NoError"

text \<open>
  The macro \<open>FIELD\<close>: the shift is on the 32-bit value, the mask is a 64-bit number, and the result is
  converted to the type of the accessor, \<open>bool\<close> or a 32-bit integer.
\<close>

definition FIELD :: "nat \<Rightarrow> nat \<Rightarrow> OsMailboxCommand \<Rightarrow> u64" where
  "FIELD hibit lobit c = ucast (drop_bit lobit (cmd_value c)) AND (bit_at (hibit - lobit + 1) - 1)"

definition FIELD_bool :: "nat \<Rightarrow> nat \<Rightarrow> OsMailboxCommand \<Rightarrow> bool" where
  "FIELD_bool hibit lobit c \<longleftrightarrow> FIELD hibit lobit c \<noteq> 0"

definition FIELD_unsigned :: "nat \<Rightarrow> nat \<Rightarrow> OsMailboxCommand \<Rightarrow> u32" where
  "FIELD_unsigned hibit lobit c = ucast (FIELD hibit lobit c)"

definition GetLevelsInfo :: "'d peci \<Rightarrow> (PECIManager, 'd, OsMailboxCommand) sst_op" where
  "GetLevelsInfo L = OsMailboxCommand_new L 0x0 Throw 0 0 0 0"

definition enabled :: "OsMailboxCommand \<Rightarrow> bool" where "enabled = FIELD_bool 31 31"

definition level_lock :: "OsMailboxCommand \<Rightarrow> bool" where "level_lock = FIELD_bool 24 24"

definition currentConfigTdpLevel :: "OsMailboxCommand \<Rightarrow> u32" where
  "currentConfigTdpLevel = FIELD_unsigned 23 16"

definition configTdpLevels :: "OsMailboxCommand \<Rightarrow> u32" where
  "configTdpLevels = FIELD_unsigned 15 8"

definition level_version :: "OsMailboxCommand \<Rightarrow> u32" where "level_version = FIELD_unsigned 7 0"

definition GetConfigTdpControl :: "'d peci \<Rightarrow> ErrorPolicy \<Rightarrow> u8 \<Rightarrow> (PECIManager, 'd, OsMailboxCommand) sst_op" where
  "GetConfigTdpControl L policy param1 = OsMailboxCommand_new L 0x1 policy param1 0 0 0"

definition pbfEnabled :: "OsMailboxCommand \<Rightarrow> bool" where "pbfEnabled = FIELD_bool 17 17"

definition factEnabled :: "OsMailboxCommand \<Rightarrow> bool" where "factEnabled = FIELD_bool 16 16"

definition pbfSupport :: "OsMailboxCommand \<Rightarrow> bool" where "pbfSupport = FIELD_bool 1 1"

definition factSupport :: "OsMailboxCommand \<Rightarrow> bool" where "factSupport = FIELD_bool 0 0"

definition SetConfigTdpControl :: "'d peci \<Rightarrow> u8 \<Rightarrow> u8 \<Rightarrow> u8 \<Rightarrow> (PECIManager, 'd, OsMailboxCommand) sst_op" where
  "SetConfigTdpControl L param1 param2 param3 = OsMailboxCommand_new L 0x2 Throw param1 param2 param3 0"

definition GetTdpInfo :: "'d peci \<Rightarrow> u8 \<Rightarrow> (PECIManager, 'd, OsMailboxCommand) sst_op" where
  "GetTdpInfo L param1 = OsMailboxCommand_new L 0x3 Throw param1 0 0 0"

definition tdpRatio :: "OsMailboxCommand \<Rightarrow> u32" where "tdpRatio = FIELD_unsigned 23 16"

definition pkgTdp :: "OsMailboxCommand \<Rightarrow> u32" where "pkgTdp = FIELD_unsigned 14 0"

definition GetCoreMask :: "'d peci \<Rightarrow> u8 \<Rightarrow> u8 \<Rightarrow> (PECIManager, 'd, OsMailboxCommand) sst_op" where
  "GetCoreMask L param1 param2 = OsMailboxCommand_new L 0x6 Throw param1 param2 0 0"

definition coresMask :: "OsMailboxCommand \<Rightarrow> u32" where "coresMask = FIELD_unsigned 31 0"

definition GetTurboLimitRatios :: "'d peci \<Rightarrow> u8 \<Rightarrow> u8 \<Rightarrow> (PECIManager, 'd, OsMailboxCommand) sst_op" where
  "GetTurboLimitRatios L param1 param2 = OsMailboxCommand_new L 0x7 Throw param1 param2 0 0"

definition SetLevel :: "'d peci \<Rightarrow> u8 \<Rightarrow> (PECIManager, 'd, OsMailboxCommand) sst_op" where
  "SetLevel L param1 = OsMailboxCommand_new L 0x8 Throw param1 0 0 0"

definition GetRatioInfo :: "'d peci \<Rightarrow> u8 \<Rightarrow> (PECIManager, 'd, OsMailboxCommand) sst_op" where
  "GetRatioInfo L param1 = OsMailboxCommand_new L 0xC Throw param1 0 0 0"

definition ratio_pm :: "OsMailboxCommand \<Rightarrow> u32" where "ratio_pm = FIELD_unsigned 31 24"

definition ratio_pn :: "OsMailboxCommand \<Rightarrow> u32" where "ratio_pn = FIELD_unsigned 23 16"

definition ratio_p1 :: "OsMailboxCommand \<Rightarrow> u32" where "ratio_p1 = FIELD_unsigned 15 8"

definition ratio_p0 :: "OsMailboxCommand \<Rightarrow> u32" where "ratio_p0 = FIELD_unsigned 7 0"

definition GetTjmaxInfo :: "'d peci \<Rightarrow> u8 \<Rightarrow> (PECIManager, 'd, OsMailboxCommand) sst_op" where
  "GetTjmaxInfo L param1 = OsMailboxCommand_new L 0x5 Throw param1 0 0 0"

definition tProchot :: "OsMailboxCommand \<Rightarrow> u32" where "tProchot = FIELD_unsigned 7 0"

definition PbfGetCoreMaskInfo :: "'d peci \<Rightarrow> u8 \<Rightarrow> u8 \<Rightarrow> (PECIManager, 'd, OsMailboxCommand) sst_op" where
  "PbfGetCoreMaskInfo L param1 param2 = OsMailboxCommand_new L 0x20 Throw param1 param2 0 0"

definition p1HiCoreMask :: "OsMailboxCommand \<Rightarrow> u32" where "p1HiCoreMask = FIELD_unsigned 31 0"

definition PbfGetP1HiP1LoInfo :: "'d peci \<Rightarrow> u8 \<Rightarrow> (PECIManager, 'd, OsMailboxCommand) sst_op" where
  "PbfGetP1HiP1LoInfo L param1 = OsMailboxCommand_new L 0x21 Throw param1 0 0 0"

definition bf_p1Hi :: "OsMailboxCommand \<Rightarrow> u32" where "bf_p1Hi = FIELD_unsigned 15 8"

definition bf_p1Lo :: "OsMailboxCommand \<Rightarrow> u32" where "bf_p1Lo = FIELD_unsigned 7 0"

subsection \<open>The operations of the mailbox backend\<close>

record SSTMailbox =
  sm_address :: u8
  sm_model :: CPUModel
  sm_pm :: PECIManager

definition SSTMailbox_new :: "u8 \<Rightarrow> CPUModel \<Rightarrow> WakePolicy \<Rightarrow> SSTMailbox" where
  "SSTMailbox_new address cmodel policy =
     \<lparr>sm_address = address, sm_model = cmodel, sm_pm = PECIManager_new address cmodel policy\<rparr>"

definition SSTMailbox_delete :: "'d peci \<Rightarrow> SSTMailbox \<times> 'd \<Rightarrow> 'd" where
  "SSTMailbox_delete L = (\<lambda>(m, d). PECIManager_delete L (sm_pm m, d))"

text \<open>A command of the manager that is a member of the mailbox object.\<close>

definition with_pm :: "(PECIManager, 'd, 'a) sst_op \<Rightarrow> (SSTMailbox, 'd, 'a) sst_op" where
  "with_pm p = (\<lambda>(m, d). case p (sm_pm m, d) of (r, pm, d') \<Rightarrow> (r, m\<lparr>sm_pm := pm\<rparr>, d'))"

definition mhzPerRatio :: u32 where "mhzPerRatio = 100"

definition mb_ready :: "SSTMailbox \<Rightarrow> bool" where "mb_ready m = True"

definition mb_supportsControl :: "SSTMailbox \<Rightarrow> bool" where
  "mb_supportsControl m = (case sm_model m of sapphireRapids \<Rightarrow> True | emeraldRapids \<Rightarrow> True | _ \<Rightarrow> False)"

definition mb_currentLevel :: "'d peci \<Rightarrow> (SSTMailbox, 'd, u32) sst_op" where
  "mb_currentLevel L = with_pm (op_map currentConfigTdpLevel (GetLevelsInfo L))"

definition mb_maxLevel :: "'d peci \<Rightarrow> (SSTMailbox, 'd, u32) sst_op" where
  "mb_maxLevel L = with_pm (op_map configTdpLevels (GetLevelsInfo L))"

definition mb_ppEnabled :: "'d peci \<Rightarrow> (SSTMailbox, 'd, bool) sst_op" where
  "mb_ppEnabled L = with_pm (op_map enabled (GetLevelsInfo L))"

definition mb_levelSupported :: "'d peci \<Rightarrow> u32 \<Rightarrow> (SSTMailbox, 'd, bool) sst_op" where
  "mb_levelSupported L level = with_pm (op_map success (GetConfigTdpControl L NoThrow (ucast level)))"

definition mb_bfSupported :: "'d peci \<Rightarrow> u32 \<Rightarrow> (SSTMailbox, 'd, bool) sst_op" where
  "mb_bfSupported L level = with_pm (op_map pbfSupport (GetConfigTdpControl L Throw (ucast level)))"

definition mb_tfSupported :: "'d peci \<Rightarrow> u32 \<Rightarrow> (SSTMailbox, 'd, bool) sst_op" where
  "mb_tfSupported L level = with_pm (op_map factSupport (GetConfigTdpControl L Throw (ucast level)))"

definition mb_bfEnabled :: "'d peci \<Rightarrow> u32 \<Rightarrow> (SSTMailbox, 'd, bool) sst_op" where
  "mb_bfEnabled L level = with_pm (op_map pbfEnabled (GetConfigTdpControl L Throw (ucast level)))"

definition mb_tfEnabled :: "'d peci \<Rightarrow> u32 \<Rightarrow> (SSTMailbox, 'd, bool) sst_op" where
  "mb_tfEnabled L level = with_pm (op_map factEnabled (GetConfigTdpControl L Throw (ucast level)))"

definition mb_tdp :: "'d peci \<Rightarrow> u32 \<Rightarrow> (SSTMailbox, 'd, u32) sst_op" where
  "mb_tdp L level = with_pm (op_map pkgTdp (GetTdpInfo L (ucast level)))"

text \<open>\<open>convertMaskToList\<close> of \<open>src/speed_select.cpp\<close>: the loop over the 64 bits.\<close>

fun mask_loop :: "u64 \<Rightarrow> nat list \<Rightarrow> nat list" where
  "mask_loop cores [] = []"
| "mask_loop cores (i # js) = (if bit cores i then i # mask_loop cores js else mask_loop cores js)"

definition convertMaskToList :: "u64 \<Rightarrow> nat list" where
  "convertMaskToList cores = mask_loop cores [0 ..< 64]"

definition two_words :: "u32 \<Rightarrow> u32 \<Rightarrow> u64" where
  "two_words hi lo = push_bit 32 (ucast hi) OR ucast lo"

definition mb_enabledCoreList :: "'d peci \<Rightarrow> u32 \<Rightarrow> (SSTMailbox, 'd, nat list) sst_op" where
  "mb_enabledCoreList L level = with_pm (
     op_bind (op_map coresMask (GetCoreMask L (ucast level) 0)) (\<lambda>coreMaskLo.
     op_bind (op_map coresMask (GetCoreMask L (ucast level) 1)) (\<lambda>coreMaskHi.
     op_return (convertMaskToList (two_words coreMaskHi coreMaskLo)))))"

definition mb_coreCount :: "'d peci \<Rightarrow> u32 \<Rightarrow> (SSTMailbox, 'd, u32) sst_op" where
  "mb_coreCount L level = op_map (\<lambda>cores. word_of_nat (length cores)) (mb_enabledCoreList L level)"

definition maxTFBuckets :: nat where "maxTFBuckets = 8"

fun turbo_loop :: "nat \<Rightarrow> u64 \<Rightarrow> u64 \<Rightarrow> (u32 \<times> nat) list" where
  "turbo_loop 0 trlCores limitRatios = []"
| "turbo_loop (Suc n) trlCores limitRatios =
     (let bucketCount = trlCores AND 0xFF; bucketSpeed = ucast (limitRatios AND 0xFF) :: u32;
          rest = turbo_loop n (drop_bit 8 trlCores) (drop_bit 8 limitRatios)
      in if bucketCount \<noteq> 0 \<and> bucketSpeed \<noteq> 0
         then (bucketSpeed * mhzPerRatio, unat bucketCount) # rest else rest)"

definition mb_sseTurboProfile :: "'d peci \<Rightarrow> u32 \<Rightarrow> (SSTMailbox, 'd, (u32 \<times> nat) list) sst_op" where
  "mb_sseTurboProfile L level = (\<lambda>(m, d).
     case peci_RdIAMSR L (sm_address m) 0 0x1AE d of
       ((st, cc, trlCores), d') \<Rightarrow>
         if \<not> checkPECIStatus L st cc then op_throw ''Failed to read TRL MSR'' (m, d')
         else with_pm (
           op_bind (op_map cmd_value (GetTurboLimitRatios L (ucast level) 0)) (\<lambda>limitRatioLo.
           op_bind (op_map cmd_value (GetTurboLimitRatios L (ucast level) 1)) (\<lambda>limitRatioHi.
           op_return (turbo_loop maxTFBuckets trlCores (two_words limitRatioHi limitRatioLo))))) (m, d'))"

definition mb_p1Freq :: "'d peci \<Rightarrow> u32 \<Rightarrow> (SSTMailbox, 'd, u32) sst_op" where
  "mb_p1Freq L level = with_pm (op_map (\<lambda>c. ratio_p1 c * mhzPerRatio) (GetRatioInfo L (ucast level)))"

definition mb_p0Freq :: "'d peci \<Rightarrow> u32 \<Rightarrow> (SSTMailbox, 'd, u32) sst_op" where
  "mb_p0Freq L level = with_pm (op_map (\<lambda>c. ratio_p0 c * mhzPerRatio) (GetRatioInfo L (ucast level)))"

definition mb_prochotTemp :: "'d peci \<Rightarrow> u32 \<Rightarrow> (SSTMailbox, 'd, u32) sst_op" where
  "mb_prochotTemp L level = with_pm (op_map tProchot (GetTjmaxInfo L (ucast level)))"

definition mb_bfHighPriorityCoreList :: "'d peci \<Rightarrow> u32 \<Rightarrow> (SSTMailbox, 'd, nat list) sst_op" where
  "mb_bfHighPriorityCoreList L level = with_pm (
     op_bind (op_map p1HiCoreMask (PbfGetCoreMaskInfo L (ucast level) 0)) (\<lambda>coreMaskLo.
     op_bind (op_map p1HiCoreMask (PbfGetCoreMaskInfo L (ucast level) 1)) (\<lambda>coreMaskHi.
     op_return (convertMaskToList (two_words coreMaskHi coreMaskLo)))))"

definition mb_bfHighPriorityFreq :: "'d peci \<Rightarrow> u32 \<Rightarrow> (SSTMailbox, 'd, u32) sst_op" where
  "mb_bfHighPriorityFreq L level = with_pm (op_map (\<lambda>c. bf_p1Hi c * mhzPerRatio) (PbfGetP1HiP1LoInfo L (ucast level)))"

definition mb_bfLowPriorityFreq :: "'d peci \<Rightarrow> u32 \<Rightarrow> (SSTMailbox, 'd, u32) sst_op" where
  "mb_bfLowPriorityFreq L level = with_pm (op_map (\<lambda>c. bf_p1Lo c * mhzPerRatio) (PbfGetP1HiP1LoInfo L (ucast level)))"

text \<open>Both setters write the other feature as disabled; the value read by the first is not used.\<close>

definition mb_setBfEnabled :: "'d peci \<Rightarrow> bool \<Rightarrow> (SSTMailbox, 'd, unit) sst_op" where
  "mb_setBfEnabled L enable = with_pm (
     op_bind (GetConfigTdpControl L Throw 0) (\<lambda>getTDPControl.
     let tfEnabled = False;
         param = (if enable then ucast (bit_at 1) else 0) OR (if tfEnabled then ucast (bit_at 0) else 0)
     in op_map (\<lambda>_. ()) (SetConfigTdpControl L 0 0 param)))"

definition mb_setTfEnabled :: "'d peci \<Rightarrow> bool \<Rightarrow> (SSTMailbox, 'd, unit) sst_op" where
  "mb_setTfEnabled L enable = with_pm (
     let bfEnabled = False;
         param = (if bfEnabled then ucast (bit_at 1) else 0) OR (if enable then ucast (bit_at 0) else 0)
     in op_map (\<lambda>_. ()) (SetConfigTdpControl L 0 0 param))"

definition mb_setCurrentLevel :: "'d peci \<Rightarrow> u32 \<Rightarrow> (SSTMailbox, 'd, unit) sst_op" where
  "mb_setCurrentLevel L level = with_pm (op_map (\<lambda>_. ()) (SetLevel L (ucast level)))"

definition createMailbox :: "u8 \<Rightarrow> CPUModel \<Rightarrow> WakePolicy \<Rightarrow> SSTMailbox option" where
  "createMailbox address cmodel policy = (case cmodel of
      iceLake \<Rightarrow> Some (SSTMailbox_new address cmodel policy)
    | iceLakeD \<Rightarrow> Some (SSTMailbox_new address cmodel policy)
    | sapphireRapids \<Rightarrow> Some (SSTMailbox_new address cmodel policy)
    | emeraldRapids \<Rightarrow> Some (SSTMailbox_new address cmodel policy)
    | _ \<Rightarrow> None)"

end
