(* ===== verification/Sst_Protocol.thy ===== *)
theory Sst_Protocol
  imports Sst_Mailbox
begin

text \<open>
  The mailbox of \<open>Sst_Mailbox\<close> is correct: the bit fields and core masks as numbers and sets, the
  outcome of a command on a device that follows the documented protocol, the number of bus
  transactions of a command on any device, and what the wake policies allow.
\<close>

unbundle bit_operations_syntax

subsection \<open>Bit fields and core masks\<close>

lemma mask_as_bit_at: "n < 64 \<Longrightarrow> bit_at n - 1 = (mask n :: u64)"
  by (simp add: bit_at_def mask_eq_exp_minus_1 push_bit_eq_mult)

lemma FIELD_div_mod:
  assumes "lobit \<le> hibit" and "hibit < 32"
  shows "unat (FIELD hibit lobit c) = unat (cmd_value c) div 2 ^ lobit mod 2 ^ (hibit - lobit + 1)"
proof -
  let ?n = "hibit - lobit + 1"
  have "FIELD hibit lobit c = take_bit ?n (ucast (drop_bit lobit (cmd_value c)) :: u64)"
    using mask_as_bit_at [of ?n] assms by (simp add: FIELD_def take_bit_eq_mask)
  then show ?thesis
    by (simp add: unsigned_take_bit_eq unat_ucast_up unat_drop_bit_eq take_bit_eq_mod [where ?'a = nat]
        drop_bit_eq_div [where ?'a = nat] del: take_bit_of_nat)
qed

lemma FIELD_unsigned_div_mod:
  assumes "lobit \<le> hibit" and "hibit < 32"
  shows "unat (FIELD_unsigned hibit lobit c) = unat (cmd_value c) div 2 ^ lobit mod 2 ^ (hibit - lobit + 1)"
proof -
  have "unat (cmd_value c) div 2 ^ lobit mod 2 ^ (hibit - lobit + 1) \<le> unat (cmd_value c)"
    by (meson div_le_dividend le_trans mod_less_eq_dividend)
  also have "\<dots> < 2 ^ 32" using unsigned_less [of "cmd_value c", where ?'a = nat] by simp
  finally show ?thesis
    using FIELD_div_mod [OF assms, of c] by (simp add: FIELD_unsigned_def unsigned_ucast_eq take_bit_nat_eq_self)
qed

lemma mask_loop_filter: "mask_loop cores js = filter (bit cores) js"
  by (induction js) auto

lemma two_words_bit: "bit (two_words hi lo) i \<longleftrightarrow> (if i < 32 then bit lo i else i < 64 \<and> bit hi (i - 32))"
  by (auto simp: two_words_def bit_or_iff bit_push_bit_iff bit_unsigned_iff dest: bit_imp_le_length)

lemma two_words_value: "unat (two_words hi lo) = unat lo + 2 ^ 32 * unat hi"
proof -
  have "two_words hi lo = push_bit 32 (ucast hi) + ucast lo"
    unfolding two_words_def
    by (rule disjunctive_add [symmetric]) (auto simp: bit_push_bit_iff bit_unsigned_iff dest: bit_imp_le_length)
  moreover have "unat hi < 2 ^ 32" "unat lo < 2 ^ 32"
    using unsigned_less [of lo, where ?'a = nat] unsigned_less [of hi, where ?'a = nat] by simp_all
  ultimately show ?thesis
    by (simp add: unat_word_ariths unat_ucast_up push_bit_eq_mult mult.commute)
qed

lemma convertMaskToList_correct:
  "sorted_wrt (<) (convertMaskToList cores)" "set (convertMaskToList cores) = {i. bit cores i}"
proof -
  show "sorted_wrt (<) (convertMaskToList cores)"
    unfolding convertMaskToList_def mask_loop_filter by (rule sorted_wrt_filter) simp
  show "set (convertMaskToList cores) = {i. bit cores i}"
    by (auto simp: convertMaskToList_def mask_loop_filter dest: bit_imp_le_length)
qed

lemma bits_sum_nat: "(\<Sum>i \<leftarrow> filter (bit (k :: nat)) [0 ..< n]. 2 ^ i) = take_bit n k"
proof (induction n)
  case (Suc n)
  then show ?case by (simp add: take_bit_Suc_from_most)
qed simp

lemma convertMaskToList_sum: "(\<Sum>i \<leftarrow> convertMaskToList cores. 2 ^ i) = unat cores"
proof -
  have "convertMaskToList cores = filter (bit (unat cores)) [0 ..< 64]"
    by (auto simp: convertMaskToList_def mask_loop_filter bit_unsigned_iff dest: bit_imp_le_length intro: filter_cong)
  moreover have "take_bit 64 (unat cores) = unat cores"
    using unsigned_less [of cores, where ?'a = nat] by (simp add: take_bit_nat_eq_self)
  ultimately show ?thesis using bits_sum_nat [of "unat cores" 64] by simp
qed

lemma command_param_bytes:
  "ucast (command_param p1 p2 p3 p4) = p1" "ucast (drop_bit 8 (command_param p1 p2 p3 p4)) = p2"
  "ucast (drop_bit 16 (command_param p1 p2 p3 p4)) = p3" "ucast (drop_bit 24 (command_param p1 p2 p3 p4)) = p4"
  by (rule bit_word_eqI; auto simp: command_param_def bit_or_iff bit_push_bit_iff bit_unsigned_iff bit_drop_bit_eq
      dest: bit_imp_le_length)+

subsection \<open>The mailbox protocol\<close>

text \<open>
  What the code relies on of the device, as the comments of the source describe it. The view of a
  device has the state of the package, the number of reads of the interface register that still
  answer busy, and the two registers. A sleeping package refuses register accesses with the
  completion code for an unavailable resource until the wake bit is set. Writing the interface
  register starts a command: \<open>reply\<close> gives how long it takes and the registers afterwards.
\<close>

record mailbox_view =
  mv_asleep :: bool
  mv_busy :: nat
  mv_interface :: u32
  mv_data :: u32

type_synonym pcode = "u32 \<Rightarrow> u32 \<Rightarrow> nat \<times> u32 \<times> u32"

definition started :: "pcode \<Rightarrow> u32 \<Rightarrow> mailbox_view \<Rightarrow> mailbox_view" where
  "started reply w v = (case reply w (mv_data v) of
     (lag, intf, out) \<Rightarrow> v\<lparr>mv_busy := lag, mv_interface := intf, mv_data := out\<rparr>)"

definition read_value :: "u16 \<Rightarrow> mailbox_view \<Rightarrow> u32" where
  "read_value reg v = (if reg = mbDataReg then mv_data v
     else if 0 < mv_busy v then mv_interface v OR mbBusyBit else mv_interface v)"

definition after_read :: "u16 \<Rightarrow> mailbox_view \<Rightarrow> mailbox_view" where
  "after_read reg v = (if reg = mbDataReg then v else v\<lparr>mv_busy := mv_busy v - 1\<rparr>)"

definition after_write :: "pcode \<Rightarrow> u16 \<Rightarrow> u32 \<Rightarrow> mailbox_view \<Rightarrow> mailbox_view" where
  "after_write reply reg w v = (if reg = mbDataReg then v\<lparr>mv_data := w\<rparr> else started reply w v)"

definition read_ok :: "'d peci \<Rightarrow> ('d \<Rightarrow> mailbox_view) \<Rightarrow> bool" where
  "read_ok L view \<longleftrightarrow> (\<forall>address bus d st cc w d'. \<forall>reg \<in> {mbDataReg, mbInterfaceReg}.
     peci_RdEndPointConfigPciLocal L address mbSegment bus mbDevice mbFunction reg d = ((st, cc, w), d') \<longrightarrow>
       (if mv_asleep (view d) then isSleeping st cc \<and> view d' = view d
        else st = PECI_CC_SUCCESS \<and> cc = PECI_DEV_CC_SUCCESS L
          \<and> w = read_value reg (view d) \<and> view d' = after_read reg (view d)))"

definition write_ok :: "'d peci \<Rightarrow> ('d \<Rightarrow> mailbox_view) \<Rightarrow> pcode \<Rightarrow> bool" where
  "write_ok L view reply \<longleftrightarrow> (\<forall>address bus w d st cc d'. \<forall>reg \<in> {mbDataReg, mbInterfaceReg}.
     peci_WrEndPointPCIConfigLocal L address mbSegment bus mbDevice mbFunction reg w d = ((st, cc), d') \<longrightarrow>
       (if mv_asleep (view d) then isSleeping st cc \<and> view d' = view d
        else st = PECI_CC_SUCCESS \<and> cc = PECI_DEV_CC_SUCCESS L \<and> view d' = after_write reply reg w (view d)))"

definition wake_ok :: "'d peci \<Rightarrow> ('d \<Rightarrow> mailbox_view) \<Rightarrow> bool" where
  "wake_ok L view \<longleftrightarrow> (\<forall>address d st cc d'. peci_WrPkgConfig L address 5 1 0 d = ((st, cc), d') \<longrightarrow>
     st = PECI_CC_SUCCESS \<and> cc = PECI_DEV_CC_SUCCESS L \<and> view d' = (view d)\<lparr>mv_asleep := False\<rparr>)"

definition os_mailbox :: "'d peci \<Rightarrow> ('d \<Rightarrow> mailbox_view) \<Rightarrow> pcode \<Rightarrow> bool" where
  "os_mailbox L view reply \<longleftrightarrow> read_ok L view \<and> write_ok L view reply \<and> wake_ok L view"

text \<open>An access wakes a sleeping package, if the policy allows it, and records that it did.\<close>

definition roused :: "mailbox_view \<Rightarrow> mailbox_view" where
  "roused v = v\<lparr>mv_asleep := False\<rparr>"

definition woken_by :: "mailbox_view \<Rightarrow> PECIManager \<Rightarrow> PECIManager" where
  "woken_by v pm = (if mv_asleep v then pm\<lparr>peciWoken := True\<rparr> else pm)"

definition accessible :: "PECIManager \<Rightarrow> mailbox_view \<Rightarrow> bool" where
  "accessible pm v \<longleftrightarrow> wakePolicy pm = wakeAllowed \<or> \<not> mv_asleep v"

lemma roused_awake [simp]: "\<not> mv_asleep v \<Longrightarrow> roused v = v" "\<not> mv_asleep (roused v)"
  by (cases v, simp_all add: roused_def)

lemma woken_by_awake [simp]: "\<not> mv_asleep v \<Longrightarrow> woken_by v pm = pm"
  by (simp add: woken_by_def)

lemma isSleeping_not_ok: "isSleeping st cc \<Longrightarrow> checkPECIStatus L st cc = False"
  by (simp add: isSleeping_def checkPECIStatus_def)

lemma setWake_ok:
  assumes "wake_ok L view"
  shows "\<exists>d'. setWakeOnPECI L True (pm, d) = (Inr (), pm\<lparr>peciWoken := True\<rparr>, d') \<and> view d' = roused (view d)"
proof -
  obtain st cc d' where w: "peci_WrPkgConfig L (peciAddress pm) 5 1 0 d = ((st, cc), d')"
    by (metis surj_pair)
  then have "st = PECI_CC_SUCCESS" "cc = PECI_DEV_CC_SUCCESS L" "view d' = roused (view d)"
    using assms unfolding wake_ok_def roused_def by blast+
  then show ?thesis using w by (simp add: setWakeOnPECI_def checkPECIStatus_def op_return_def)
qed

lemma rd_loop_awake:
  assumes "read_ok L view" and "\<not> mv_asleep (view d)" and "reg \<in> {mbDataReg, mbInterfaceReg}"
  shows "\<exists>d'. rd_loop L reg wk (pm, d) = (Inr (read_value reg (view d)), pm, d')
    \<and> view d' = after_read reg (view d)"
proof -
  obtain st cc w d' where r: "peci_RdEndPointConfigPciLocal L (peciAddress pm) mbSegment (mbBus pm) mbDevice
      mbFunction reg d = ((st, cc, w), d')" by (metis surj_pair)
  note law = assms(1) [unfolded read_ok_def, rule_format, OF assms(3) r]
  then have "checkPECIStatus L st cc" "\<not> isSleeping st cc"
    using assms(2) by (auto simp: checkPECIStatus_def isSleeping_def)
  then show ?thesis
    using r law assms(2) by (subst rd_loop.simps) (auto simp: op_return_def)
qed

lemma wr_loop_awake:
  assumes "write_ok L view reply" and "\<not> mv_asleep (view d)" and "reg \<in> {mbDataReg, mbInterfaceReg}"
  shows "\<exists>d'. wr_loop L reg w wk (pm, d) = (Inr (), pm, d') \<and> view d' = after_write reply reg w (view d)"
proof -
  obtain st cc d' where r: "peci_WrEndPointPCIConfigLocal L (peciAddress pm) mbSegment (mbBus pm) mbDevice
      mbFunction reg w d = ((st, cc), d')" by (metis surj_pair)
  note law = assms(1) [unfolded write_ok_def, rule_format, OF assms(3) r]
  then have "checkPECIStatus L st cc" "\<not> isSleeping st cc"
    using assms(2) by (auto simp: checkPECIStatus_def isSleeping_def)
  then show ?thesis
    using r law assms(2) by (subst wr_loop.simps) (auto simp: op_return_def)
qed

lemma loop_asleep:
  assumes "os_mailbox L view reply" and "mv_asleep (view d)" and "reg \<in> {mbDataReg, mbInterfaceReg}"
  shows "\<exists>d'. rd_loop L reg True (pm, d) = rd_loop L reg False (pm\<lparr>peciWoken := True\<rparr>, d') \<and> view d' = roused (view d)"
    and "\<exists>d'. rd_loop L reg False (pm, d) = (Inl (PECIError ''Failed to read mailbox reg''), pm, d') \<and> view d' = view d"
    and "\<exists>d'. wr_loop L reg w True (pm, d) = wr_loop L reg w False (pm\<lparr>peciWoken := True\<rparr>, d') \<and> view d' = roused (view d)"
proof -
  note laws = assms(1) [unfolded os_mailbox_def]
  have wk: "wake_ok L view" using laws by blast
  obtain st cc v d1 where r: "peci_RdEndPointConfigPciLocal L (peciAddress pm) mbSegment (mbBus pm) mbDevice
      mbFunction reg d = ((st, cc, v), d1)" by (metis surj_pair)
  have s: "isSleeping st cc" "view d1 = view d"
    using laws [unfolded read_ok_def, THEN conjunct1, rule_format, OF assms(3) r] assms(2) by auto
  obtain d2 where "setWakeOnPECI L True (pm, d1) = (Inr (), pm\<lparr>peciWoken := True\<rparr>, d2)" "view d2 = roused (view d1)"
    using setWake_ok [OF wk] by blast
  then show "\<exists>d'. rd_loop L reg True (pm, d) = rd_loop L reg False (pm\<lparr>peciWoken := True\<rparr>, d') \<and> view d' = roused (view d)"
    using r s by (subst rd_loop.simps) (auto simp: op_bind_def)
  show "\<exists>d'. rd_loop L reg False (pm, d) = (Inl (PECIError ''Failed to read mailbox reg''), pm, d') \<and> view d' = view d"
    using r s by (subst rd_loop.simps) (simp add: op_throw_def isSleeping_not_ok)
  obtain st' cc' d3 where wr: "peci_WrEndPointPCIConfigLocal L (peciAddress pm) mbSegment (mbBus pm) mbDevice
      mbFunction reg w d = ((st', cc'), d3)" by (metis surj_pair)
  have s': "isSleeping st' cc'" "view d3 = view d"
    using laws [unfolded write_ok_def, THEN conjunct2, THEN conjunct1, rule_format, OF assms(3) wr] assms(2) by auto
  obtain d4 where "setWakeOnPECI L True (pm, d3) = (Inr (), pm\<lparr>peciWoken := True\<rparr>, d4)" "view d4 = roused (view d3)"
    using setWake_ok [OF wk] by blast
  then show "\<exists>d'. wr_loop L reg w True (pm, d) = wr_loop L reg w False (pm\<lparr>peciWoken := True\<rparr>, d') \<and> view d' = roused (view d)"
    using wr s' by (subst wr_loop.simps) (auto simp: op_bind_def)
qed

lemma rdMailboxReg_view:
  assumes "os_mailbox L view reply" and "accessible pm (view d)" and "reg \<in> {mbDataReg, mbInterfaceReg}"
  shows "\<exists>d'. rdMailboxReg L reg (pm, d) = (Inr (read_value reg (view d)), woken_by (view d) pm, d')
    \<and> view d' = after_read reg (roused (view d))"
proof (cases "mv_asleep (view d)")
  case False
  then show ?thesis
    using rd_loop_awake [of L view d reg] assms by (simp add: rdMailboxReg_def os_mailbox_def)
next
  case True
  then obtain d1 where d1: "rd_loop L reg True (pm, d) = rd_loop L reg False (pm\<lparr>peciWoken := True\<rparr>, d1)"
    "view d1 = roused (view d)"
    using loop_asleep(1) [OF assms(1) _ assms(3)] by blast
  have "read_value reg (roused (view d)) = read_value reg (view d)" by (simp add: read_value_def roused_def)
  then show ?thesis
    using rd_loop_awake [of L view d1 reg False "pm\<lparr>peciWoken := True\<rparr>"] d1 True assms
    by (simp add: rdMailboxReg_def os_mailbox_def accessible_def woken_by_def)
qed

lemma wrMailboxReg_view:
  assumes "os_mailbox L view reply" and "accessible pm (view d)" and "reg \<in> {mbDataReg, mbInterfaceReg}"
  shows "\<exists>d'. wrMailboxReg L reg w (pm, d) = (Inr (), woken_by (view d) pm, d')
    \<and> view d' = after_write reply reg w (roused (view d))"
proof (cases "mv_asleep (view d)")
  case False
  then show ?thesis
    using wr_loop_awake [of L view reply d reg] assms by (simp add: wrMailboxReg_def os_mailbox_def)
next
  case True
  then obtain d1 where d1: "wr_loop L reg w True (pm, d) = wr_loop L reg w False (pm\<lparr>peciWoken := True\<rparr>, d1)"
    "view d1 = roused (view d)"
    using loop_asleep(3) [OF assms(1) _ assms(3)] by blast
  then show ?thesis
    using wr_loop_awake [of L view reply d1 reg w False "pm\<lparr>peciWoken := True\<rparr>"] True assms
    by (simp add: wrMailboxReg_def os_mailbox_def accessible_def woken_by_def)
qed


lemma busy_word: "(w OR mbBusyBit) AND mbBusyBit = mbBusyBit" "mbBusyBit \<noteq> 0"
  by (rule bit_word_eqI, auto simp: bit_or_iff bit_and_iff) (simp add: mbBusyBit_def)

lemma wait_free_view:
  assumes "os_mailbox L view reply" and "accessible pm (view d)" and "mv_interface (view d) AND mbBusyBit = 0"
    and "0 < n"
  shows "\<exists>d'. wait_free L n (pm, d) = (Inr (n - mv_busy (view d)), woken_by (view d) pm, d')
    \<and> view d' = (roused (view d))\<lparr>mv_busy := mv_busy (view d) - (if mv_busy (view d) < n then mv_busy (view d) + 1 else n)\<rparr>"
  using assms(2-4)
proof (induction n arbitrary: pm d)
  case (Suc n)
  let ?v = "view d"
  obtain d1 where d1: "rdMailboxReg L mbInterfaceReg (pm, d) = (Inr (read_value mbInterfaceReg ?v), woken_by ?v pm, d1)"
    "view d1 = after_read mbInterfaceReg (roused ?v)"
    using rdMailboxReg_view [OF assms(1) Suc.prems(1), of mbInterfaceReg] by blast
  have reg: "mbInterfaceReg \<noteq> mbDataReg" by (simp add: mbInterfaceReg_def mbDataReg_def)
  have busy: "read_value mbInterfaceReg ?v AND mbBusyBit \<noteq> 0 \<longleftrightarrow> 0 < mv_busy ?v"
    using reg Suc.prems(2) busy_word by (simp add: read_value_def)
  have v1: "view d1 = (roused ?v)\<lparr>mv_busy := mv_busy ?v - 1\<rparr>" using d1(2) reg by (simp add: after_read_def roused_def)
  show ?case
  proof (cases "0 < mv_busy ?v \<and> 0 < n")
    case True
    have "accessible (woken_by ?v pm) (view d1)" "mv_interface (view d1) AND mbBusyBit = 0"
      "\<not> mv_asleep (view d1)" "mv_busy (view d1) = mv_busy ?v - 1"
      using v1 Suc.prems(2) by (simp_all add: accessible_def roused_def)
    then obtain d2 where "wait_free L n (woken_by ?v pm, d1) = (Inr (n - (mv_busy ?v - 1)), woken_by ?v pm, d2)"
      "view d2 = (view d1)\<lparr>mv_busy := mv_busy ?v - 1 - (if mv_busy ?v - 1 < n then mv_busy ?v - 1 + 1 else n)\<rparr>"
      using Suc.IH [of "woken_by ?v pm" d1] True by auto
    then show ?thesis
      using d1(1) busy True v1 by (auto simp: op_bind_def)
  next
    case False
    then show ?thesis
      using d1(1) busy v1 by (auto simp: op_bind_def op_return_def)
  qed
qed simp

lemma wait_done_view:
  assumes "os_mailbox L view reply" and "\<not> mv_asleep (view d)" and "mv_interface (view d) AND mbBusyBit = 0"
    and "mv_busy (view d) < n"
  shows "\<exists>k d'. wait_done L n (pm, d) = (Inr (Suc k, mv_interface (view d)), pm, d')
    \<and> view d' = (view d)\<lparr>mv_busy := 0\<rparr>"
  using assms(2-4)
proof (induction n arbitrary: d)
  case (Suc n)
  let ?v = "view d"
  obtain d1 where d1: "rdMailboxReg L mbInterfaceReg (pm, d) = (Inr (read_value mbInterfaceReg ?v), pm, d1)"
    "view d1 = after_read mbInterfaceReg ?v"
    using rdMailboxReg_view [OF assms(1), of pm d mbInterfaceReg] Suc.prems(1) by (auto simp: accessible_def)
  have reg: "mbInterfaceReg \<noteq> mbDataReg" by (simp add: mbInterfaceReg_def mbDataReg_def)
  have v1: "view d1 = ?v\<lparr>mv_busy := mv_busy ?v - 1\<rparr>" using d1(2) reg by (simp add: after_read_def)
  show ?case
  proof (cases "0 < mv_busy ?v")
    case True
    have "\<exists>k d'. wait_done L n (pm, d1) = (Inr (Suc k, mv_interface (view d1)), pm, d') \<and> view d' = (view d1)\<lparr>mv_busy := 0\<rparr>"
      by (rule Suc.IH) (use v1 Suc.prems True in auto)
    moreover have "0 < n" using Suc.prems(3) True by simp
    ultimately show ?thesis
      using d1(1) reg True v1 busy_word by (auto simp: op_bind_def read_value_def)
  next
    case False
    then show ?thesis
      using d1(1) reg Suc.prems v1 by (auto simp: op_bind_def op_return_def read_value_def)
  qed
qed simp


definition request_word :: "u8 \<Rightarrow> u8 \<Rightarrow> u32" where
  "request_word command subCommand = mbBusyBit OR push_bit 8 (ucast subCommand) OR ucast command"

lemma mbBusyBit_bit: "bit mbBusyBit n \<longleftrightarrow> n = 31"
  unfolding mbBusyBit_def
  by (subst bit_push_bit_iff) (auto simp: bit_1_iff)

lemma request_word_fields:
  "bit (request_word command subCommand) 31"
  "ucast (request_word command subCommand) = command" "ucast (drop_bit 8 (request_word command subCommand)) = subCommand"
proof -
  show "bit (request_word command subCommand) 31"
    by (simp add: request_word_def bit_or_iff mbBusyBit_bit)
  show "ucast (request_word command subCommand) = command"
    by (rule bit_word_eqI) (auto simp: request_word_def mbBusyBit_bit bit_or_iff bit_push_bit_iff bit_unsigned_iff
      dest: bit_imp_le_length)
  show "ucast (drop_bit 8 (request_word command subCommand)) = subCommand"
    by (rule bit_word_eqI) (auto simp: request_word_def mbBusyBit_bit bit_or_iff bit_push_bit_iff bit_unsigned_iff
      bit_drop_bit_eq dest: bit_imp_le_length)
qed

lemma op_bind_Inr: "p s = (Inr x, t) \<Longrightarrow> op_bind p f s = f x t"
  by (simp add: op_bind_def)

lemma op_bind_Inl: "p s = (Inl e, t) \<Longrightarrow> op_bind p f s = (Inl e, t)"
  by (simp add: op_bind_def)

lemma sendPECIOSMailboxCmd_view:
  assumes "os_mailbox L view reply" and "accessible pm (view d)" and "mv_interface (view d) AND mbBusyBit = 0"
    and "mv_busy (view d) < mbRetries"
    and "reply (request_word command subCommand) inputData = (lag, intf, out)"
    and "lag < mbRetries" and "intf AND mbBusyBit = 0"
  shows "\<exists>d'. sendPECIOSMailboxCmd L command subCommand inputData responseWanted (pm, d) =
      (if responseWanted \<or> intf AND 0xFF = 0 then Inr (out, intf AND 0xFF)
       else Inl (PECIError (''OS Mailbox returned with error: '' @ dec (unat (intf AND 0xFF)))),
       woken_by (view d) pm, d')
    \<and> view d' = \<lparr>mv_asleep = False, mv_busy = 0, mv_interface = intf, mv_data = out\<rparr>"
proof -
  let ?pm = "woken_by (view d) pm"
  have n: "0 < mbRetries" by (simp add: mbRetries_def)
  have reg: "mbInterfaceReg \<noteq> mbDataReg" by (simp add: mbInterfaceReg_def mbDataReg_def)
  obtain d1 where w1: "wait_free L mbRetries (pm, d) = (Inr (mbRetries - mv_busy (view d)), ?pm, d1)"
    and v1: "view d1 = (roused (view d))\<lparr>mv_busy := 0\<rparr>"
    using wait_free_view [OF assms(1-3) n] assms(4) by auto
  obtain d2 where w2: "wrMailboxReg L mbDataReg inputData (?pm, d1) = (Inr (), ?pm, d2)"
    and v2: "view d2 = (view d1)\<lparr>mv_data := inputData\<rparr>"
    using wrMailboxReg_view [OF assms(1), of ?pm d1 mbDataReg inputData] v1
    by (auto simp: accessible_def roused_def after_write_def)
  obtain d3 where w3: "wrMailboxReg L mbInterfaceReg (request_word command subCommand) (?pm, d2) = (Inr (), ?pm, d3)"
    and v3: "view d3 = (view d2)\<lparr>mv_busy := lag, mv_interface := intf, mv_data := out\<rparr>"
    using wrMailboxReg_view [OF assms(1), of ?pm d2 mbInterfaceReg "request_word command subCommand"] v1 v2 reg assms(5)
    by (auto simp: accessible_def roused_def after_write_def started_def)
  have "mv_interface (view d3) AND mbBusyBit = 0" "\<not> mv_asleep (view d3)" "mv_busy (view d3) < mbRetries"
    using v1 v2 v3 assms(6,7) by (simp_all add: roused_def)
  then obtain k d4 where w4: "wait_done L mbRetries (?pm, d3) = (Inr (Suc k, intf), ?pm, d4)"
    and v4: "view d4 = (view d3)\<lparr>mv_busy := 0\<rparr>"
    using wait_done_view [OF assms(1), of d3 mbRetries ?pm] v3 by auto
  have fin: "view d4 = \<lparr>mv_asleep = False, mv_busy = 0, mv_interface = intf, mv_data = out\<rparr>"
    using v1 v2 v3 v4 by (simp add: roused_def)
  then obtain d5 where w5: "rdMailboxReg L mbDataReg (?pm, d4) = (Inr out, ?pm, d5)" and v5: "view d5 = view d4"
    using rdMailboxReg_view [OF assms(1), of ?pm d4 mbDataReg]
    by (auto simp: accessible_def after_read_def read_value_def)
  have free: "mbRetries - mv_busy (view d) \<noteq> 0" using assms(4) by simp
  show ?thesis
    using free w5 v5 fin
    unfolding sendPECIOSMailboxCmd_def op_bind_Inr [of "wait_free L mbRetries" "(pm, d)", OF w1] if_not_P [OF free]
      op_bind_Inr [of "wrMailboxReg L mbDataReg inputData", OF w2] request_word_def [symmetric]
      op_bind_Inr [of "wrMailboxReg L mbInterfaceReg (request_word command subCommand)", OF w3]
      op_bind_Inr [of "wait_done L mbRetries", OF w4] MailboxStatus_NoError_def
    by (auto simp: Let_def op_map_def op_bind_def op_return_def op_throw_def)
qed

lemma sendPECIOSMailboxCmd_busy:
  assumes "os_mailbox L view reply" and "accessible pm (view d)" and "mv_interface (view d) AND mbBusyBit = 0"
    and "mbRetries \<le> mv_busy (view d)"
  shows "\<exists>d'. sendPECIOSMailboxCmd L command subCommand inputData responseWanted (pm, d) =
      (Inl (PECIError ''OS Mailbox failed to become free''), woken_by (view d) pm, d')
    \<and> view d' = (roused (view d))\<lparr>mv_busy := mv_busy (view d) - mbRetries\<rparr>"
proof -
  obtain d1 where "wait_free L mbRetries (pm, d) = (Inr 0, woken_by (view d) pm, d1)"
    "view d1 = (roused (view d))\<lparr>mv_busy := mv_busy (view d) - mbRetries\<rparr>"
    using wait_free_view [OF assms(1-3), of mbRetries] assms(4) by (auto simp: mbRetries_def)
  then show ?thesis by (simp add: sendPECIOSMailboxCmd_def op_bind_Inr op_throw_def)
qed

lemma sendPECIOSMailboxCmd_asleep:
  assumes "os_mailbox L view reply" and "mv_asleep (view d)" and "wakePolicy pm = dontWake"
  shows "\<exists>d'. sendPECIOSMailboxCmd L command subCommand inputData responseWanted (pm, d) =
      (Inl (PECIError ''Failed to read mailbox reg''), pm, d') \<and> view d' = view d"
proof -
  obtain d1 where "rdMailboxReg L mbInterfaceReg (pm, d) = (Inl (PECIError ''Failed to read mailbox reg''), pm, d1)"
    "view d1 = view d"
    using loop_asleep(2) [OF assms(1,2), of mbInterfaceReg pm] assms(3) by (auto simp: rdMailboxReg_def)
  moreover obtain k where k: "mbRetries = Suc k" by (simp add: mbRetries_def)
  ultimately have "wait_free L mbRetries (pm, d) = (Inl (PECIError ''Failed to read mailbox reg''), pm, d1)"
    unfolding k by (simp add: op_bind_def)
  then show ?thesis using \<open>view d1 = view d\<close> by (simp add: sendPECIOSMailboxCmd_def op_bind_def)
qed


subsection \<open>The number of transactions\<close>

text \<open>A device that counts the transactions of the library, and programs that need at most \<open>k\<close> of them.\<close>

definition counted :: "'d peci \<Rightarrow> (nat \<times> 'd) peci" where
  "counted L = \<lparr>PECI_DEV_CC_SUCCESS = PECI_DEV_CC_SUCCESS L,
     peci_WrPkgConfig = (\<lambda>a i p v (n, d). case peci_WrPkgConfig L a i p v d of (r, d') \<Rightarrow> (r, n + 1, d')),
     peci_WrEndPointPCIConfigLocal = (\<lambda>a s b dv f r w (n, d).
       case peci_WrEndPointPCIConfigLocal L a s b dv f r w d of (x, d') \<Rightarrow> (x, n + 1, d')),
     peci_RdEndPointConfigPciLocal = (\<lambda>a s b dv f r (n, d).
       case peci_RdEndPointConfigPciLocal L a s b dv f r d of (x, d') \<Rightarrow> (x, n + 1, d')),
     peci_RdIAMSR = (\<lambda>a th r (n, d). case peci_RdIAMSR L a th r d of (x, d') \<Rightarrow> (x, n + 1, d')),
     peci_GetCPUID = (\<lambda>a (n, d). case peci_GetCPUID L a d of (x, d') \<Rightarrow> (x, n + 1, d')),
     peci_RdPkgConfig = (\<lambda>a i p (n, d). case peci_RdPkgConfig L a i p d of (x, d') \<Rightarrow> (x, n + 1, d'))\<rparr>"

definition costs :: "nat \<Rightarrow> (PECIManager, nat \<times> 'd, 'a) sst_op \<Rightarrow> (PECIManager, 'd, 'a) sst_op \<Rightarrow> bool" where
  "costs k p q \<longleftrightarrow> (\<forall>pm n d r pm' d'. q (pm, d) = (r, pm', d') \<longrightarrow>
     (\<exists>n' \<le> n + k. p (pm, n, d) = (r, pm', n', d')))"

lemma costs_mono: "costs k p q \<Longrightarrow> k \<le> k' \<Longrightarrow> costs k' p q"
  unfolding costs_def by (meson add_left_mono order_trans)

lemma costs_pure: "costs k (op_return x) (op_return x)" "costs k (op_throw msg) (op_throw msg)"
  by (auto simp: costs_def op_return_def op_throw_def)

lemma costs_bind:
  assumes "costs k p q" and "\<And>x. costs k' (f x) (g x)"
  shows "costs (k + k') (op_bind p f) (op_bind q g)"
  unfolding costs_def
proof (intro allI impI)
  fix pm n d r pm' d' assume run: "op_bind q g (pm, d) = (r, pm', d')"
  obtain r1 pm1 d1 where q: "q (pm, d) = (r1, pm1, d1)" by (metis surj_pair)
  obtain n1 where p: "n1 \<le> n + k" "p (pm, n, d) = (r1, pm1, n1, d1)"
    using assms(1) q unfolding costs_def by blast
  show "\<exists>n' \<le> n + (k + k'). op_bind p f (pm, n, d) = (r, pm', n', d')"
  proof (cases r1)
    case (Inl e)
    then show ?thesis using run q p by (auto simp: op_bind_def)
  next
    case (Inr x)
    then have "g x (pm1, d1) = (r, pm', d')" using run q by (simp add: op_bind_def)
    then obtain n2 where "n2 \<le> n1 + k'" "f x (pm1, n1, d1) = (r, pm', n2, d')"
      using assms(2) [of x] unfolding costs_def by blast
    then show ?thesis using p Inr by (intro exI [of _ n2]) (auto simp: op_bind_def)
  qed
qed

lemma costs_setWake: "costs 1 (setWakeOnPECI (counted L) b) (setWakeOnPECI L b)"
  by (auto simp: costs_def setWakeOnPECI_def counted_def checkPECIStatus_def op_throw_def op_return_def
      split: prod.splits if_splits)

lemma costs_rd_once: "costs 1 (rd_loop (counted L) reg False) (rd_loop L reg False)"
  unfolding costs_def
  by (auto simp: rd_loop.simps counted_def checkPECIStatus_def op_throw_def op_return_def split: prod.splits if_splits)

lemma costs_wr_once: "costs 1 (wr_loop (counted L) reg w False) (wr_loop L reg w False)"
  unfolding costs_def
  by (auto simp: wr_loop.simps counted_def checkPECIStatus_def op_throw_def op_return_def split: prod.splits if_splits)

lemma costs_rd_wake: "costs 3 (rd_loop (counted L) reg True) (rd_loop L reg True)"
  unfolding costs_def
proof (intro allI impI)
  fix pm n d r pm' d' assume run: "rd_loop L reg True (pm, d) = (r, pm', d')"
  obtain st cc w d1 where rd: "peci_RdEndPointConfigPciLocal L (peciAddress pm) mbSegment (mbBus pm) mbDevice
      mbFunction reg d = ((st, cc, w), d1)" by (metis surj_pair)
  note unrolled = rd_loop.simps [of _ reg True pm]
  have two: "costs (1 + 1) (op_bind (setWakeOnPECI (counted L) True) (\<lambda>_. rd_loop (counted L) reg False))
      (op_bind (setWakeOnPECI L True) (\<lambda>_. rd_loop L reg False))"
    by (intro costs_bind costs_setWake costs_rd_once)
  show "\<exists>n' \<le> n + 3. rd_loop (counted L) reg True (pm, n, d) = (r, pm', n', d')"
  proof (cases "isSleeping st cc")
    case True
    then have "op_bind (setWakeOnPECI L True) (\<lambda>_. rd_loop L reg False) (pm, d1) = (r, pm', d')"
      using run rd by (simp add: unrolled)
    then obtain n' where "n' \<le> Suc n + (1 + 1)"
      "op_bind (setWakeOnPECI (counted L) True) (\<lambda>_. rd_loop (counted L) reg False) (pm, Suc n, d1) = (r, pm', n', d')"
      using two unfolding costs_def by blast
    then show ?thesis using rd True by (intro exI [of _ n']) (simp add: unrolled counted_def)
  next
    case False
    then show ?thesis
      using run rd by (auto simp: unrolled counted_def checkPECIStatus_def op_throw_def op_return_def split: if_splits)
  qed
qed

lemma costs_wr_wake: "costs 3 (wr_loop (counted L) reg w True) (wr_loop L reg w True)"
  unfolding costs_def
proof (intro allI impI)
  fix pm n d r pm' d' assume run: "wr_loop L reg w True (pm, d) = (r, pm', d')"
  obtain st cc d1 where wr: "peci_WrEndPointPCIConfigLocal L (peciAddress pm) mbSegment (mbBus pm) mbDevice
      mbFunction reg w d = ((st, cc), d1)" by (metis surj_pair)
  note unrolled = wr_loop.simps [of _ reg w True pm]
  have two: "costs (1 + 1) (op_bind (setWakeOnPECI (counted L) True) (\<lambda>_. wr_loop (counted L) reg w False))
      (op_bind (setWakeOnPECI L True) (\<lambda>_. wr_loop L reg w False))"
    by (intro costs_bind costs_setWake costs_wr_once)
  show "\<exists>n' \<le> n + 3. wr_loop (counted L) reg w True (pm, n, d) = (r, pm', n', d')"
  proof (cases "isSleeping st cc")
    case True
    then have "op_bind (setWakeOnPECI L True) (\<lambda>_. wr_loop L reg w False) (pm, d1) = (r, pm', d')"
      using run wr by (simp add: unrolled)
    then obtain n' where "n' \<le> Suc n + (1 + 1)"
      "op_bind (setWakeOnPECI (counted L) True) (\<lambda>_. wr_loop (counted L) reg w False) (pm, Suc n, d1) = (r, pm', n', d')"
      using two unfolding costs_def by blast
    then show ?thesis using wr True by (intro exI [of _ n']) (simp add: unrolled counted_def)
  next
    case False
    then show ?thesis
      using run wr by (auto simp: unrolled counted_def checkPECIStatus_def op_throw_def op_return_def split: if_splits)
  qed
qed

lemma costs_flag:
  assumes "\<And>wk. costs k (p wk) (q wk)"
  shows "costs k (\<lambda>s. p (f (fst s)) s) (\<lambda>s. q (f (fst s)) s)"
  unfolding costs_def fst_conv
proof (intro allI impI)
  fix pm n d r pm' d' assume "q (f pm) (pm, d) = (r, pm', d')"
  then show "\<exists>n' \<le> n + k. p (f pm) (pm, n, d) = (r, pm', n', d')"
    using assms [of "f pm"] unfolding costs_def by blast
qed

lemma costs_access:
  "costs 3 (rdMailboxReg (counted L) reg) (rdMailboxReg L reg)"
  "costs 3 (wrMailboxReg (counted L) reg w) (wrMailboxReg L reg w)"
proof -
  have rd: "costs 3 (rd_loop (counted L) reg wk) (rd_loop L reg wk)" for wk
    using costs_rd_wake costs_mono [OF costs_rd_once, of 3] by (cases wk) simp_all
  have wr: "costs 3 (wr_loop (counted L) reg w wk) (wr_loop L reg w wk)" for wk
    using costs_wr_wake costs_mono [OF costs_wr_once, of 3] by (cases wk) simp_all
  show "costs 3 (rdMailboxReg (counted L) reg) (rdMailboxReg L reg)"
    using costs_flag [OF rd, of "\<lambda>pm. wakePolicy pm = wakeAllowed"] by (simp add: rdMailboxReg_def [abs_def])
  show "costs 3 (wrMailboxReg (counted L) reg w) (wrMailboxReg L reg w)"
    using costs_flag [OF wr, of "\<lambda>pm. wakePolicy pm = wakeAllowed"] by (simp add: wrMailboxReg_def [abs_def])
qed

lemma costs_if: "(b \<Longrightarrow> costs k p q) \<Longrightarrow> (\<not> b \<Longrightarrow> costs k p' q') \<Longrightarrow> costs k (if b then p else p') (if b then q else q')"
  by simp

lemma costs_wait: "costs (3 * n) (wait_free (counted L) n) (wait_free L n)" "costs (3 * n) (wait_done (counted L) n) (wait_done L n)"
proof (induction n)
  case (Suc n)
  have eq: "3 * Suc n = 3 + 3 * n" by simp
  { case 1 show ?case unfolding eq wait_free.simps
      by (intro costs_bind costs_access costs_if costs_pure Suc) }
  { case 2 show ?case unfolding eq wait_done.simps
      by (intro costs_bind costs_access costs_if costs_pure Suc) }
qed (simp_all add: costs_pure)

lemma costs_command:
  "costs 69 (sendPECIOSMailboxCmd (counted L) c s w b) (sendPECIOSMailboxCmd L c s w b)"
proof -
  have eq: "(69 :: nat) = 3 * mbRetries + (3 + (3 + (3 * mbRetries + (3 + 0))))" by (simp add: mbRetries_def)
  show ?thesis
    unfolding eq sendPECIOSMailboxCmd_def op_map_def Let_def case_prod_beta
    by (intro costs_bind costs_wait costs_if costs_pure costs_access)
qed


subsection \<open>Policy \<open>dontWake\<close>\<close>

text \<open>
  Two programs that agree, and keep the manager as it is, when the policy forbids waking. Comparing
  a program with itself over a library with another \<open>peci_WrPkgConfig\<close> shows that the wake bit is
  never written.
\<close>

definition same_unwoken :: "(PECIManager, 'd, 'a) sst_op \<Rightarrow> (PECIManager, 'd, 'a) sst_op \<Rightarrow> bool" where
  "same_unwoken p q \<longleftrightarrow> (\<forall>pm d. wakePolicy pm = dontWake \<longrightarrow>
     p (pm, d) = q (pm, d) \<and> fst (snd (p (pm, d))) = pm)"

lemma same_pure: "same_unwoken (op_return x) (op_return x)" "same_unwoken (op_throw msg) (op_throw msg)"
  by (simp_all add: same_unwoken_def op_return_def op_throw_def)

lemma same_bind:
  assumes "same_unwoken p q" and "\<And>x. same_unwoken (f x) (g x)"
  shows "same_unwoken (op_bind p f) (op_bind q g)"
  unfolding same_unwoken_def
proof (intro allI impI)
  fix pm :: PECIManager and d assume pol: "wakePolicy pm = dontWake"
  obtain r pm1 d1 where p: "p (pm, d) = (r, pm1, d1)" by (metis surj_pair)
  moreover have "p (pm, d) = q (pm, d) \<and> fst (snd (p (pm, d))) = pm"
    using assms(1) pol unfolding same_unwoken_def by blast
  ultimately have "q (pm, d) = (r, pm1, d1)" "pm1 = pm" by (metis, metis fst_conv snd_conv)
  moreover have "f x (pm, d1) = g x (pm, d1) \<and> fst (snd (f x (pm, d1))) = pm" for x
    using assms(2) [of x] pol unfolding same_unwoken_def by blast
  ultimately show "op_bind p f (pm, d) = op_bind q g (pm, d) \<and> fst (snd (op_bind p f (pm, d))) = pm"
    using p by (cases r) (simp add: op_bind_def, metis op_bind_Inr)
qed

lemma same_if: "(b \<Longrightarrow> same_unwoken p q) \<Longrightarrow> (\<not> b \<Longrightarrow> same_unwoken p' q') \<Longrightarrow> same_unwoken (if b then p else p') (if b then q else q')"
  by simp

lemma same_access:
  "same_unwoken (rdMailboxReg L reg) (rdMailboxReg (L\<lparr>peci_WrPkgConfig := wk\<rparr>) reg)"
  "same_unwoken (wrMailboxReg L reg w) (wrMailboxReg (L\<lparr>peci_WrPkgConfig := wk\<rparr>) reg w)"
  by (auto simp: same_unwoken_def rdMailboxReg_def wrMailboxReg_def rd_loop.simps wr_loop.simps
      checkPECIStatus_def op_throw_def op_return_def split: prod.splits)

lemma same_wait:
  "same_unwoken (wait_free L n) (wait_free (L\<lparr>peci_WrPkgConfig := wk\<rparr>) n)"
  "same_unwoken (wait_done L n) (wait_done (L\<lparr>peci_WrPkgConfig := wk\<rparr>) n)"
  by (induction n) (auto intro!: same_bind same_access same_pure same_if)

lemma same_command:
  "same_unwoken (OsMailboxCommand_new L s e p1 p2 p3 p4) (OsMailboxCommand_new (L\<lparr>peci_WrPkgConfig := wk\<rparr>) s e p1 p2 p3 p4)"
  unfolding OsMailboxCommand_new_def sendPECIOSMailboxCmd_def op_map_def Let_def case_prod_beta
  by (intro same_bind same_wait same_if same_pure same_access)

subsection \<open>Properties\<close>

text \<open>
  C16. The mailbox protocol against a device that behaves as the source describes, for a free or busy
  mailbox and for a sleeping or waking package. If the package sleeps and may not be woken, the
  command fails and changes nothing. Otherwise it wakes the package if needed and remembers that.
  A mailbox that answers busy ten times is an error, and the data register is not written. In all
  other cases the command that is started is the requested one with its input data, and the result is its
  output with the status of the command, or an error with that status when the caller does not
  ask for it.
\<close>

theorem mailbox_command_outcome:
  assumes "os_mailbox L view reply" and "mv_interface (view d) AND mbBusyBit = 0"
    and "reply (request_word command subCommand) inputData = (lag, intf, out)"
    and "lag < mbRetries" and "intf AND mbBusyBit = 0"
  shows "\<exists>r pm' d'. sendPECIOSMailboxCmd L command subCommand inputData responseWanted (pm, d) = (r, pm', d')
    \<and> (if mv_asleep (view d) \<and> wakePolicy pm = dontWake
       then r = Inl (PECIError ''Failed to read mailbox reg'') \<and> pm' = pm \<and> view d' = view d
       else pm' = (if mv_asleep (view d) then pm\<lparr>peciWoken := True\<rparr> else pm)
         \<and> (if mbRetries \<le> mv_busy (view d)
            then r = Inl (PECIError ''OS Mailbox failed to become free'') \<and> mv_data (view d') = mv_data (view d)
            else r = (if responseWanted \<or> intf AND 0xFF = 0 then Inr (out, intf AND 0xFF)
                      else Inl (PECIError (''OS Mailbox returned with error: '' @ dec (unat (intf AND 0xFF)))))
               \<and> view d' = \<lparr>mv_asleep = False, mv_busy = 0, mv_interface = intf, mv_data = out\<rparr>))"
proof (cases "mv_asleep (view d) \<and> wakePolicy pm = dontWake")
  case True
  then show ?thesis using sendPECIOSMailboxCmd_asleep [OF assms(1)] by auto
next
  case False
  then have acc: "accessible pm (view d)" by (cases "wakePolicy pm") (auto simp: accessible_def)
  show ?thesis
  proof (cases "mbRetries \<le> mv_busy (view d)")
    case True
    then obtain d' where "sendPECIOSMailboxCmd L command subCommand inputData responseWanted (pm, d) =
      (Inl (PECIError ''OS Mailbox failed to become free''), woken_by (view d) pm, d')"
      "view d' = (roused (view d))\<lparr>mv_busy := mv_busy (view d) - mbRetries\<rparr>"
      using sendPECIOSMailboxCmd_busy [OF assms(1) acc assms(2)] by blast
    then show ?thesis using False True by (auto simp: woken_by_def roused_def)
  next
    case idle: False
    then have "mv_busy (view d) < mbRetries" by simp
    from sendPECIOSMailboxCmd_view [OF assms(1) acc assms(2) this assms(3-5), of responseWanted]
    show ?thesis using False idle by (auto simp: woken_by_def)
  qed
qed

text \<open>A device for examples: its own view, with a command that echoes its input plus one.\<close>

definition demo_peci :: "pcode \<Rightarrow> mailbox_view peci" where
  "demo_peci reply = \<lparr>PECI_DEV_CC_SUCCESS = 0x40,
     peci_WrPkgConfig = (\<lambda>a i p v d. ((PECI_CC_SUCCESS, 0x40), if p = 1 then roused d else d)),
     peci_WrEndPointPCIConfigLocal = (\<lambda>a s b dv f r w d. if mv_asleep d then ((PECI_CC_TIMEOUT, 0x82), d)
       else ((PECI_CC_SUCCESS, 0x40), after_write reply r w d)),
     peci_RdEndPointConfigPciLocal = (\<lambda>a s b dv f r d. if mv_asleep d then ((PECI_CC_TIMEOUT, 0x82, 0), d)
       else ((PECI_CC_SUCCESS, 0x40, read_value r d), after_read r d)),
     peci_RdIAMSR = (\<lambda>a th r d. ((PECI_CC_SUCCESS, 0x40, 0), d)),
     peci_GetCPUID = (\<lambda>a d. ((PECI_CC_SUCCESS, 0x40, sapphireRapids), d)),
     peci_RdPkgConfig = (\<lambda>a i p d. ((PECI_CC_SUCCESS, 0x40, 0), d))\<rparr>"

lemma demo_mailbox: "os_mailbox (demo_peci reply) id reply"
  by (auto simp: os_mailbox_def read_ok_def write_ok_def wake_ok_def demo_peci_def isSleeping_def roused_def)

definition sleeping_view :: mailbox_view where
  "sleeping_view = \<lparr>mv_asleep = True, mv_busy = 4, mv_interface = 0, mv_data = 0\<rparr>"

theorem mailbox_command_outcome_witness:
  "\<exists>pm' d'. sendPECIOSMailboxCmd (demo_peci (\<lambda>w x. (3, 0, x + 1))) 0x7F 0x3 41 False
     (PECIManager_new 48 iceLake wakeAllowed, sleeping_view) = (Inr (42, 0), pm', d') \<and> peciWoken pm'"
  using mailbox_command_outcome [OF demo_mailbox, where d = sleeping_view and command = "0x7F" and subCommand = "0x3"
      and inputData = 41 and lag = 3 and intf = 0 and out = 42 and responseWanted = False
      and pm = "PECIManager_new 48 iceLake wakeAllowed" and reply = "\<lambda>w x. (3, 0, x + 1)"]
  by (auto simp: sleeping_view_def PECIManager_new_def mbRetries_def)

text \<open>
  C29. Every mailbox command ends: whatever the device answers, it takes at most 69 transactions of the
  PECI library, with the result it has when they are not counted.
\<close>

theorem mailbox_command_bounded:
  "case sendPECIOSMailboxCmd L command subCommand inputData responseWanted (pm, d) of (r, pm', d') \<Rightarrow>
     \<exists>n'. n' \<le> n + 69
       \<and> sendPECIOSMailboxCmd (counted L) command subCommand inputData responseWanted (pm, n, d) = (r, pm', n', d')"
proof -
  obtain r pm' d' where run: "sendPECIOSMailboxCmd L command subCommand inputData responseWanted (pm, d) = (r, pm', d')"
    by (metis surj_pair)
  show ?thesis
    using costs_command [of L command subCommand inputData responseWanted, unfolded costs_def, rule_format, OF run, of n]
      run by auto
qed

text \<open>
  The accessors of the commands are the documented bit fields of the value, as quotients and
  remainders.
\<close>

theorem command_fields:
  "unat (currentConfigTdpLevel c) = unat (cmd_value c) div 2 ^ 16 mod 2 ^ 8
   \<and> unat (configTdpLevels c) = unat (cmd_value c) div 2 ^ 8 mod 2 ^ 8
   \<and> (enabled c \<longleftrightarrow> 2 ^ 31 \<le> unat (cmd_value c))
   \<and> unat (pkgTdp c) = unat (cmd_value c) mod 2 ^ 15
   \<and> unat (tProchot c) = unat (cmd_value c) mod 2 ^ 8
   \<and> unat (ratio_p1 c) = unat (cmd_value c) div 2 ^ 8 mod 2 ^ 8
   \<and> unat (ratio_p0 c) = unat (cmd_value c) mod 2 ^ 8
   \<and> unat (bf_p1Hi c) = unat (cmd_value c) div 2 ^ 8 mod 2 ^ 8
   \<and> unat (bf_p1Lo c) = unat (cmd_value c) mod 2 ^ 8
   \<and> coresMask c = cmd_value c \<and> p1HiCoreMask c = cmd_value c
   \<and> (pbfSupport c \<longleftrightarrow> odd (unat (cmd_value c) div 2)) \<and> (factSupport c \<longleftrightarrow> odd (unat (cmd_value c)))
   \<and> (pbfEnabled c \<longleftrightarrow> odd (unat (cmd_value c) div 2 ^ 17)) \<and> (factEnabled c \<longleftrightarrow> odd (unat (cmd_value c) div 2 ^ 16))"
proof -
  have small: "unat (cmd_value c) < 2 ^ 32" using unsigned_less [of "cmd_value c", where ?'a = nat] by simp
  have u: "unat (FIELD_unsigned h l c) = unat (cmd_value c) div 2 ^ l mod 2 ^ (h - l + 1)" if "l \<le> h" "h < 32" for h l
    using FIELD_unsigned_div_mod that .
  have b: "FIELD_bool i i c \<longleftrightarrow> odd (unat (cmd_value c) div 2 ^ i)" if "i < 32" for i
    using FIELD_div_mod [of i i c] that by (simp add: FIELD_bool_def unat_eq_0 [symmetric] odd_iff_mod_2_eq_one)
  have "odd (unat (cmd_value c) div 2 ^ 31) \<longleftrightarrow> 2 ^ 31 \<le> unat (cmd_value c)"
  proof -
    have "unat (cmd_value c) div 2 ^ 31 < 2" using small by (simp add: less_mult_imp_div_less)
    then have "odd (unat (cmd_value c) div 2 ^ 31) \<longleftrightarrow> unat (cmd_value c) div 2 ^ 31 \<noteq> 0"
      by (cases "unat (cmd_value c) div 2 ^ 31") auto
    then show ?thesis by (simp add: div_eq_0_iff not_less)
  qed
  moreover have "FIELD_unsigned 31 0 c = cmd_value c"
  proof (rule word_unat_eq_iff [THEN iffD2])
    show "unat (FIELD_unsigned 31 0 c) = unat (cmd_value c)" using u [of 0 31] small by simp
  qed
  moreover have "unat (FIELD_unsigned 23 16 c) = unat (cmd_value c) div 2 ^ 16 mod 2 ^ 8"
    "unat (FIELD_unsigned 15 8 c) = unat (cmd_value c) div 2 ^ 8 mod 2 ^ 8"
    "unat (FIELD_unsigned 14 0 c) = unat (cmd_value c) mod 2 ^ 15"
    "unat (FIELD_unsigned 7 0 c) = unat (cmd_value c) mod 2 ^ 8"
    using u [of 16 23] u [of 8 15] u [of 0 14] u [of 0 7] by simp_all
  moreover have "FIELD_bool 31 31 c \<longleftrightarrow> odd (unat (cmd_value c) div 2 ^ 31)"
    "FIELD_bool 1 1 c \<longleftrightarrow> odd (unat (cmd_value c) div 2)" "FIELD_bool 0 0 c \<longleftrightarrow> odd (unat (cmd_value c))"
    "FIELD_bool 17 17 c \<longleftrightarrow> odd (unat (cmd_value c) div 2 ^ 17)" "FIELD_bool 16 16 c \<longleftrightarrow> odd (unat (cmd_value c) div 2 ^ 16)"
    using b [of 31] b [of 1] b [of 0] b [of 17] b [of 16] by simp_all
  ultimately show ?thesis
    unfolding currentConfigTdpLevel_def configTdpLevels_def enabled_def pkgTdp_def tProchot_def ratio_p1_def ratio_p0_def
      bf_p1Hi_def bf_p1Lo_def coresMask_def p1HiCoreMask_def pbfSupport_def factSupport_def pbfEnabled_def factEnabled_def
    by (intro conjI) blast+
qed


text \<open>
  The core lists: the two masks of a level become the ascending list of the indices of their set
  bits, each once, from which the masks can be recovered.
\<close>

theorem core_list_round_trip:
  "sorted_wrt (<) (convertMaskToList (two_words hi lo))
   \<and> set (convertMaskToList (two_words hi lo)) = {i. bit lo i} \<union> {i + 32 | i. bit hi i}
   \<and> (\<Sum>i \<leftarrow> convertMaskToList (two_words hi lo). 2 ^ i) = unat lo + 2 ^ 32 * unat hi"
proof -
  have "{i. bit (two_words hi lo) i} = {i. bit lo i} \<union> {i + 32 | i. bit hi i}"
  proof (intro set_eqI iffI)
    fix i assume "i \<in> {i. bit (two_words hi lo) i}"
    then show "i \<in> {i. bit lo i} \<union> {i + 32 | i. bit hi i}"
      by (auto simp: two_words_bit split: if_splits)
  qed (auto simp: two_words_bit dest: bit_imp_le_length)
  then show ?thesis
    using convertMaskToList_correct convertMaskToList_sum two_words_value by metis
qed

text \<open>
  The setter of SST-TF switches SST-BF off: the only value that is written for the current
  configuration has the bit of SST-TF alone, whatever was enabled before.
\<close>

lemma set_control_view:
  assumes "os_mailbox L view reply" and "accessible (sm_pm m) (view d)"
    and "mv_interface (view d) AND mbBusyBit = 0" and "mv_busy (view d) < mbRetries"
    and "reply (request_word 0x7F 0x2) (push_bit 16 (ucast w)) = (lag, 0, out)" and "lag < mbRetries"
  shows "\<exists>m' d'. with_pm (op_map (\<lambda>_. ()) (SetConfigTdpControl L 0 0 w)) (m, d) = (Inr (), m', d') \<and> mv_data (view d') = out"
proof -
  have p: "command_param 0 0 w 0 = push_bit 16 (ucast w)" by (simp add: command_param_def)
  obtain d' where "sendPECIOSMailboxCmd L 0x7F 0x2 (command_param 0 0 w 0) False (sm_pm m, d) =
      (Inr (out, 0), woken_by (view d) (sm_pm m), d')"
    "view d' = \<lparr>mv_asleep = False, mv_busy = 0, mv_interface = 0, mv_data = out\<rparr>"
    using sendPECIOSMailboxCmd_view [OF assms(1-4), where command = "0x7F" and subCommand = "0x2"
        and inputData = "command_param 0 0 w 0" and lag = lag and intf = 0 and out = out and responseWanted = False]
      assms(5,6) p by auto
  then show ?thesis
    by (simp add: with_pm_def op_map_def op_bind_def op_return_def SetConfigTdpControl_def OsMailboxCommand_new_def)
qed

lemma setTfEnabled_writes_only_tf:
  assumes "os_mailbox L view reply" and "accessible (sm_pm m) (view d)"
    and "mv_interface (view d) AND mbBusyBit = 0" and "mv_busy (view d) < mbRetries"
    and "reply (request_word 0x7F 0x2) (if enable then 0x10000 else 0) = (lag, 0, out)" and "lag < mbRetries"
  shows "\<exists>m' d'. mb_setTfEnabled L enable (m, d) = (Inr (), m', d') \<and> mv_data (view d') = out"
proof -
  have "mb_setTfEnabled L enable = with_pm (op_map (\<lambda>_. ()) (SetConfigTdpControl L 0 0 (if enable then 1 else 0)))"
    by (simp add: mb_setTfEnabled_def bit_at_def)
  moreover have "(push_bit 16 (ucast (if enable then 1 else 0 :: u8)) :: u32) = (if enable then 0x10000 else 0)"
    by simp
  ultimately show ?thesis
    using set_control_view [OF assms(1-4), where w = "if enable then 1 else 0" and lag = lag and out = out] assms(5,6) by presburger
qed

end
