(* ===== verification/Cpu_Host.thy ===== *)
theory Cpu_Host
  imports Smbios_Prelude
begin

text \<open>
  The host state of the CPU daemons, \<open>src/cpuinfo_utils.cpp\<close> and \<open>include/cpuinfo_utils.hpp\<close>: the three
  sources it is computed from, the D-Bus messages that change them, and the callbacks that are run
  on a change.

  The enumerations of the D-Bus interfaces with their conversions from strings are generated code and
  a parameter, \<open>host_enums\<close>; the source names one constant of each, the others are numbered. A
  callback is a function on the world of its component.
\<close>

subsection \<open>The host state\<close>

datatype HostState = host_off | postInProgress | postComplete

datatype PowerState = PowerState_Off | PowerState_other nat

datatype OsState = OsState_Inactive | OsState_other nat

record host_enums =
  convertHostStateFromString :: "string \<Rightarrow> PowerState option"
  convertOSStatusFromString :: "string \<Rightarrow> OsState option"

type_synonym 'w HostStateHandler = "HostState \<Rightarrow> HostState \<Rightarrow> 'w \<Rightarrow> 'w"

record 'w host =
  hostState :: HostState
  powerState :: PowerState
  osState :: OsState
  biosDone :: bool
  hostStateCallbacks :: "'w HostStateHandler list"
  host_initialized :: bool

datatype host_error = InvalidEnumString

type_synonym 'w host_op = "'w host \<times> 'w \<Rightarrow> host_error + 'w host \<times> 'w"

definition host_start :: "'w host" where
  "host_start = \<lparr>hostState = host_off, powerState = PowerState_Off, osState = OsState_Inactive, biosDone = False,
     hostStateCallbacks = [], host_initialized = False\<rparr>"

definition addHostStateCallback :: "'w HostStateHandler \<Rightarrow> 'w host \<Rightarrow> 'w host" where
  "addHostStateCallback cb h = h\<lparr>hostStateCallbacks := hostStateCallbacks h @ [cb]\<rparr>"

fun run_callbacks :: "'w HostStateHandler list \<Rightarrow> HostState \<Rightarrow> HostState \<Rightarrow> 'w \<Rightarrow> 'w" where
  "run_callbacks [] prevState newState w = w"
| "run_callbacks (cb # cbs) prevState newState w = run_callbacks cbs prevState newState (cb prevState newState w)"

definition updateHostState :: "'w host \<times> 'w \<Rightarrow> 'w host \<times> 'w" where
  "updateHostState = (\<lambda>(h, w).
     let prevState = hostState h;
         h' = (if powerState h = PowerState_Off
               then h\<lparr>hostState := host_off, biosDone := False, osState := OsState_Inactive\<rparr>
               else if \<not> biosDone h \<and> osState h = OsState_Inactive
               then h\<lparr>hostState := postInProgress\<rparr>
               else h\<lparr>hostState := postComplete\<rparr>)
     in if prevState \<noteq> hostState h'
        then (h', run_callbacks (hostStateCallbacks h') prevState (hostState h') w)
        else (h', w))"

definition updatePowerState :: "host_enums \<Rightarrow> string \<Rightarrow> 'w host_op" where
  "updatePowerState E newState = (\<lambda>(h, w).
     case convertHostStateFromString E newState of
       None \<Rightarrow> Inl InvalidEnumString
     | Some p \<Rightarrow> Inr (updateHostState (h\<lparr>powerState := p\<rparr>, w)))"

definition updateBiosDone :: "bool \<Rightarrow> 'w host_op" where
  "updateBiosDone newState = (\<lambda>(h, w). Inr (updateHostState (h\<lparr>biosDone := newState\<rparr>, w)))"

definition os_full_path :: "string \<Rightarrow> string" where
  "os_full_path newState = (if search ''xyz.'' newState = None
     then ''xyz.openbmc_project.State.OperatingSystem.Status.OSStatus.'' @ newState else newState)"

definition updateOsState :: "host_enums \<Rightarrow> string \<Rightarrow> 'w host_op" where
  "updateOsState E newState = (\<lambda>(h, w).
     Inr (updateHostState (h\<lparr>osState := (case convertOSStatusFromString E (os_full_path newState) of
        Some s \<Rightarrow> s | None \<Rightarrow> OsState_Inactive)\<rparr>, w)))"

subsection \<open>The subscriptions\<close>

datatype variant_value = V_bool bool | V_string string | V_other nat

type_synonym properties = "(string \<times> variant_value) list"

datatype subscription = CurrentHostState | CoreBiosDone | OperatingSystemState

fun sub_object :: "subscription \<Rightarrow> string" where
  "sub_object CurrentHostState = ''/xyz/openbmc_project/state/host0''"
| "sub_object CoreBiosDone = ''/xyz/openbmc_project/misc/platform_state''"
| "sub_object OperatingSystemState = ''/xyz/openbmc_project/state/host0''"

fun sub_interface :: "subscription \<Rightarrow> string" where
  "sub_interface CurrentHostState = ''xyz.openbmc_project.State.Host''"
| "sub_interface CoreBiosDone = ''xyz.openbmc_project.State.Host.Misc''"
| "sub_interface OperatingSystemState = ''xyz.openbmc_project.State.OperatingSystem.Status''"

fun sub_property :: "subscription \<Rightarrow> string" where
  "sub_property CurrentHostState = ''CurrentHostState''"
| "sub_property CoreBiosDone = ''CoreBiosDone''"
| "sub_property OperatingSystemState = ''OperatingSystemState''"

text \<open>The handler of a subscription on a value; a value of another type is only reported.\<close>

fun sub_handler :: "host_enums \<Rightarrow> subscription \<Rightarrow> variant_value \<Rightarrow> 'w host_op" where
  "sub_handler E CurrentHostState (V_string s) = updatePowerState E s"
| "sub_handler E CoreBiosDone (V_bool b) = updateBiosDone b"
| "sub_handler E OperatingSystemState (V_string s) = updateOsState E s"
| "sub_handler E _ _ = Inr"

fun commonPropHandler :: "host_enums \<Rightarrow> subscription \<Rightarrow> properties \<Rightarrow> 'w host_op" where
  "commonPropHandler E sub [] st = Inr st"
| "commonPropHandler E sub ((changedProp, newValue) # props) st =
     (if changedProp = sub_property sub then sub_handler E sub newValue st
      else commonPropHandler E sub props st)"

fun changed_interfaces :: "host_enums \<Rightarrow> subscription \<Rightarrow> (string \<times> properties) list \<Rightarrow> 'w host_op" where
  "changed_interfaces E sub [] st = Inr st"
| "changed_interfaces E sub ((changedInterface, changedProps) # rest) st =
     (if changedInterface \<noteq> sub_interface sub then changed_interfaces E sub rest st
      else case commonPropHandler E sub changedProps st of
             Inl e \<Rightarrow> Inl e
           | Inr st' \<Rightarrow> changed_interfaces E sub rest st')"

text \<open>
  What the bus delivers to a subscription: the answer to the initial read (\<^const>\<open>None\<close> for an error,
  which includes a value of another type), a signal of changed properties, or a signal of added
  interfaces of some object of the service.
\<close>

datatype host_event =
    PropertyRead subscription "variant_value option"
  | PropertiesChanged subscription properties
  | InterfacesAdded subscription string "(string \<times> properties) list"

fun subscribeToProperty :: "host_enums \<Rightarrow> host_event \<Rightarrow> 'w host_op" where
  "subscribeToProperty E (PropertyRead sub None) st = Inr st"
| "subscribeToProperty E (PropertyRead sub (Some newValue)) st = sub_handler E sub newValue st"
| "subscribeToProperty E (PropertiesChanged sub changedProps) st = commonPropHandler E sub changedProps st"
| "subscribeToProperty E (InterfacesAdded sub changedObject changedInterfaces) st =
     (if changedObject \<noteq> sub_object sub then Inr st else changed_interfaces E sub changedInterfaces st)"

text \<open>The set-up runs once; a second call changes nothing.\<close>

definition hostStateSetup :: "'w host \<Rightarrow> 'w host" where
  "hostStateSetup h = (if host_initialized h then h else h\<lparr>host_initialized := True\<rparr>)"

subsection \<open>The state follows its sources\<close>

definition host_of :: "PowerState \<Rightarrow> bool \<Rightarrow> OsState \<Rightarrow> HostState" where
  "host_of p done os = (if p = PowerState_Off then host_off
     else if \<not> done \<and> os = OsState_Inactive then postInProgress else postComplete)"

definition host_ok :: "'w host \<Rightarrow> bool" where
  "host_ok h \<longleftrightarrow> hostState h = host_of (powerState h) (biosDone h) (osState h)
     \<and> (powerState h = PowerState_Off \<longrightarrow> \<not> biosDone h \<and> osState h = OsState_Inactive)"

text \<open>The transitions that a callback can see, and histories of them.\<close>

definition allowed_transition :: "HostState \<times> HostState \<Rightarrow> bool" where
  "allowed_transition = (\<lambda>(p, q). p \<noteq> q \<and> \<not> (p = host_off \<and> q = postComplete))"

fun history :: "HostState \<Rightarrow> (HostState \<times> HostState) list \<Rightarrow> HostState \<Rightarrow> bool" where
  "history s [] t \<longleftrightarrow> s = t"
| "history s (pq # log) t \<longleftrightarrow> fst pq = s \<and> allowed_transition pq \<and> history (snd pq) log t"

lemma history_snoc: "history s (log @ [(p, q)]) t \<longleftrightarrow> history s log p \<and> allowed_transition (p, q) \<and> q = t"
  by (induction log arbitrary: s) auto

definition recorder :: "(HostState \<times> HostState) list HostStateHandler" where
  "recorder p q log = log @ [(p, q)]"

definition recorded :: "(HostState \<times> HostState) list host \<times> (HostState \<times> HostState) list \<Rightarrow> bool" where
  "recorded = (\<lambda>(h, log). hostStateCallbacks h = [recorder] \<and> host_ok h \<and> history host_off log (hostState h))"

text \<open>
  An update after one source was changed. The only way out of the state \<open>off\<close> is a change of the power
  state, and then the two other sources still are what the power-off left.
\<close>

lemma recorded_update:
  assumes "recorded (h, log)" and "h' = h\<lparr>powerState := p\<rparr> \<or> h' = h\<lparr>biosDone := b\<rparr> \<or> h' = h\<lparr>osState := s\<rparr>"
  shows "recorded (updateHostState (h', log))"
proof -
  have ok: "host_ok h" and hist: "history host_off log (hostState h)" and cbs: "hostStateCallbacks h = [recorder]"
    using assms(1) by (simp_all add: recorded_def)
  obtain h'' log' where upd: "updateHostState (h', log) = (h'', log')" by fastforce
  have cbs': "hostStateCallbacks h' = [recorder]" and prev: "hostState h' = hostState h"
    using assms(2) cbs by auto
  have new: "hostStateCallbacks h'' = [recorder]" "host_ok h''"
    using upd cbs' by (auto simp: updateHostState_def Let_def host_ok_def host_of_def split: if_splits)
  have log': "log' = (if hostState h'' = hostState h then log else log @ [(hostState h, hostState h'')])"
    using upd cbs' prev by (auto simp: updateHostState_def Let_def recorder_def split: if_splits)
  have "\<not> (hostState h = host_off \<and> hostState h'' = postComplete)"
    using upd ok assms(2) by (auto simp: updateHostState_def Let_def host_ok_def host_of_def split: if_splits)
  then have "history host_off log' (hostState h'')"
    using log' hist by (simp add: history_snoc allowed_transition_def)
  then show ?thesis using new upd by (simp add: recorded_def)
qed

lemma recorded_handler:
  assumes "recorded st" and "sub_handler E sub v st = Inr st'"
  shows "recorded st'"
proof -
  obtain h log where st: "st = (h, log)" by fastforce
  show ?thesis
    using assms(2) recorded_update [of h log] assms(1)
    by (cases "(E, sub, v)" rule: sub_handler.cases)
      (auto simp: st updatePowerState_def updateBiosDone_def updateOsState_def split: option.splits)
qed

lemma recorded_props:
  "recorded st \<Longrightarrow> commonPropHandler E sub props st = Inr st' \<Longrightarrow> recorded st'"
  by (induction E sub props st rule: commonPropHandler.induct) (auto split: if_splits intro: recorded_handler)

lemma recorded_interfaces:
  "recorded st \<Longrightarrow> changed_interfaces E sub ifs st = Inr st' \<Longrightarrow> recorded st'"
  by (induction E sub ifs st rule: changed_interfaces.induct) (auto split: if_splits sum.splits intro: recorded_props)

inductive host_step ::
  "host_enums \<Rightarrow> (HostState \<times> HostState) list host \<times> (HostState \<times> HostState) list \<Rightarrow>
     (HostState \<times> HostState) list host \<times> (HostState \<times> HostState) list \<Rightarrow> bool"
  for E
where
  deliver: "subscribeToProperty E ev st = Inr st' \<Longrightarrow> host_step E st st'"

inductive_cases host_stepE: "host_step E st st'"

definition host_init ::
  "(HostState \<times> HostState) list host \<times> (HostState \<times> HostState) list \<Rightarrow> bool"
where
  "host_init st \<longleftrightarrow> st = (hostStateSetup (addHostStateCallback recorder host_start), [])"

lemma recorded_step: "recorded st \<Longrightarrow> host_step E st st' \<Longrightarrow> recorded st'"
  by (erule host_stepE, rename_tac ev, case_tac "(E, ev, st)" rule: subscribeToProperty.cases)
    (auto split: if_splits intro: recorded_handler recorded_props recorded_interfaces)

interpretation host: machine_invariant host_init "host_step E" recorded for E
proof
  show "recorded st" if "host_init st" for st
    using that by (simp add: host_init_def recorded_def hostStateSetup_def addHostStateCallback_def host_start_def
        host_ok_def host_of_def)
  show "recorded st'" if "recorded st" and "host_step E st st'" for st st'
    using that by (rule recorded_step)
qed

text \<open>
  C26. In every sequence of D-Bus messages the host state is the one its three sources give, a power-off
  forgets the two that report the end of POST, and the callbacks see every change once, in order, as a
  connected history from the state \<open>off\<close>. The host never goes from \<open>off\<close> to \<open>postComplete\<close> directly,
  in whatever order the messages of the services arrive.
\<close>

theorem host_state_history:
  assumes "reachable host_init (host_step E) (h, log)"
  shows "hostState h = host_of (powerState h) (biosDone h) (osState h)
    \<and> (hostState h = host_off \<longrightarrow> \<not> biosDone h \<and> osState h = OsState_Inactive)
    \<and> history host_off log (hostState h) \<and> (host_off, postComplete) \<notin> set log"
proof -
  have rec: "recorded (h, log)" using host.reachable_inv [OF assms] .
  have "(host_off, postComplete) \<notin> set log" if "history s log t" for s t
    using that by (induction s log t rule: history.induct) (auto simp: allowed_transition_def)
  then show ?thesis
    using rec by (auto simp: recorded_def host_ok_def host_of_def split: if_splits)
qed

definition demo_enums :: host_enums where
  "demo_enums = \<lparr>convertHostStateFromString = (\<lambda>s. if s = ''Off'' then Some PowerState_Off
       else if s = ''Running'' then Some (PowerState_other 0) else None),
     convertOSStatusFromString = (\<lambda>s. if s = ''xyz.openbmc_project.State.OperatingSystem.Status.OSStatus.Standby''
       then Some (OsState_other 0) else None)\<rparr>"

theorem host_state_history_witness:
  "\<exists>h. reachable host_init (host_step demo_enums) (h, [(host_off, postInProgress), (postInProgress, postComplete)])
     \<and> hostState h = postComplete \<and> history host_off [(host_off, postInProgress), (postInProgress, postComplete)] (hostState h)"
proof -
  let ?a = "(hostStateSetup (addHostStateCallback recorder host_start), [])"
  obtain b where b: "subscribeToProperty demo_enums (PropertyRead CurrentHostState (Some (V_string ''Running''))) ?a = Inr b"
    "snd b = [(host_off, postInProgress)]" "hostState (fst b) = postInProgress" "hostStateCallbacks (fst b) = [recorder]"
    "powerState (fst b) = PowerState_other 0" "biosDone (fst b) = False"
    by (simp add: updatePowerState_def demo_enums_def updateHostState_def hostStateSetup_def addHostStateCallback_def
        host_start_def recorder_def)
  obtain c where c: "subscribeToProperty demo_enums (PropertiesChanged OperatingSystemState
      [(''OperatingSystemState'', V_string ''Standby'')]) b = Inr c"
    "snd c = [(host_off, postInProgress), (postInProgress, postComplete)]" "hostState (fst c) = postComplete"
    using b by (cases b) (simp add: updateOsState_def os_full_path_def demo_enums_def updateHostState_def recorder_def)
  have "host_init ?a" by (simp add: host_init_def)
  then have "reachable host_init (host_step demo_enums) b"
    using deliver [OF b(1)] by (blast intro: reach_init reach_step)
  then have r: "reachable host_init (host_step demo_enums) (fst c, snd c)"
    unfolding prod.collapse by (rule reach_step) (rule deliver [OF c(1)])
  show ?thesis
    using host_state_history [OF r] r c(3) unfolding c(2) by blast
qed

end
