(* ===== verification/Speed_Select.thy ===== *)
theory Speed_Select
  imports Sst_Protocol Cpu_Host
begin

text \<open>
  Intel Speed Select control, \<open>src/speed_select.cpp\<close> and \<open>include/speed_select.hpp\<close>: the interface of
  the backends with its registry, the D-Bus objects of a CPU and its operating configurations, and
  the discovery with its retries.

  The abstract class \<open>SSTInterface\<close> is a record of operations on objects of some type \<open>'s\<close> and the device;
  \<open>mailbox_interface\<close> is its implementation by \<open>SSTMailbox\<close>. The configuration record has what the
  code takes from its surroundings: the PECI library with its range of addresses, the registered
  backends, and \<open>io_context::poll\<close>, which may change the host state and the device in any way. The
  handlers that a poll runs do not start a discovery inside the running one.
\<close>

subsection \<open>The interface of the backends\<close>

record ('s, 'd) SSTInterface =
  sst_delete :: "'s \<times> 'd \<Rightarrow> 'd"
  sst_ready :: "('s, 'd, bool) sst_op"
  sst_supportsControl :: "('s, 'd, bool) sst_op"
  sst_ppEnabled :: "('s, 'd, bool) sst_op"
  sst_currentLevel :: "('s, 'd, u32) sst_op"
  sst_maxLevel :: "('s, 'd, u32) sst_op"
  sst_levelSupported :: "u32 \<Rightarrow> ('s, 'd, bool) sst_op"
  sst_bfSupported :: "u32 \<Rightarrow> ('s, 'd, bool) sst_op"
  sst_tfSupported :: "u32 \<Rightarrow> ('s, 'd, bool) sst_op"
  sst_bfEnabled :: "u32 \<Rightarrow> ('s, 'd, bool) sst_op"
  sst_tfEnabled :: "u32 \<Rightarrow> ('s, 'd, bool) sst_op"
  sst_tdp :: "u32 \<Rightarrow> ('s, 'd, u32) sst_op"
  sst_coreCount :: "u32 \<Rightarrow> ('s, 'd, u32) sst_op"
  sst_enabledCoreList :: "u32 \<Rightarrow> ('s, 'd, nat list) sst_op"
  sst_sseTurboProfile :: "u32 \<Rightarrow> ('s, 'd, (u32 \<times> nat) list) sst_op"
  sst_p1Freq :: "u32 \<Rightarrow> ('s, 'd, u32) sst_op"
  sst_p0Freq :: "u32 \<Rightarrow> ('s, 'd, u32) sst_op"
  sst_prochotTemp :: "u32 \<Rightarrow> ('s, 'd, u32) sst_op"
  sst_bfHighPriorityCoreList :: "u32 \<Rightarrow> ('s, 'd, nat list) sst_op"
  sst_bfHighPriorityFreq :: "u32 \<Rightarrow> ('s, 'd, u32) sst_op"
  sst_bfLowPriorityFreq :: "u32 \<Rightarrow> ('s, 'd, u32) sst_op"
  sst_setBfEnabled :: "bool \<Rightarrow> ('s, 'd, unit) sst_op"
  sst_setTfEnabled :: "bool \<Rightarrow> ('s, 'd, unit) sst_op"
  sst_setCurrentLevel :: "u32 \<Rightarrow> ('s, 'd, unit) sst_op"

definition mailbox_interface :: "'d peci \<Rightarrow> (SSTMailbox, 'd) SSTInterface" where
  "mailbox_interface L = \<lparr>
     sst_delete = SSTMailbox_delete L,
     sst_ready = (\<lambda>(m, d). op_return (mb_ready m) (m, d)),
     sst_supportsControl = (\<lambda>(m, d). op_return (mb_supportsControl m) (m, d)),
     sst_ppEnabled = mb_ppEnabled L, sst_currentLevel = mb_currentLevel L, sst_maxLevel = mb_maxLevel L,
     sst_levelSupported = mb_levelSupported L, sst_bfSupported = mb_bfSupported L,
     sst_tfSupported = mb_tfSupported L, sst_bfEnabled = mb_bfEnabled L, sst_tfEnabled = mb_tfEnabled L,
     sst_tdp = mb_tdp L, sst_coreCount = mb_coreCount L, sst_enabledCoreList = mb_enabledCoreList L,
     sst_sseTurboProfile = mb_sseTurboProfile L, sst_p1Freq = mb_p1Freq L, sst_p0Freq = mb_p0Freq L,
     sst_prochotTemp = mb_prochotTemp L, sst_bfHighPriorityCoreList = mb_bfHighPriorityCoreList L,
     sst_bfHighPriorityFreq = mb_bfHighPriorityFreq L, sst_bfLowPriorityFreq = mb_bfLowPriorityFreq L,
     sst_setBfEnabled = mb_setBfEnabled L, sst_setTfEnabled = mb_setTfEnabled L,
     sst_setCurrentLevel = mb_setCurrentLevel L\<rparr>"

text \<open>A provider returns an object, a null pointer (\<open>Inr None\<close>), or throws (\<open>Inl\<close>).\<close>

type_synonym 's BackendProvider = "u8 \<Rightarrow> CPUModel \<Rightarrow> WakePolicy \<Rightarrow> unit + 's option"

definition registerBackend :: "'s BackendProvider \<Rightarrow> 's BackendProvider list \<Rightarrow> 's BackendProvider list" where
  "registerBackend providerFn providers = providers @ [providerFn]"

fun getInstance :: "'s BackendProvider list \<Rightarrow> u8 \<Rightarrow> CPUModel \<Rightarrow> WakePolicy \<Rightarrow> 's option" where
  "getInstance [] address cmodel policy = None"
| "getInstance (provider # providers) address cmodel policy =
     (case provider address cmodel policy of
        Inr (Some s) \<Rightarrow> Some s
      | _ \<Rightarrow> getInstance providers address cmodel policy)"

definition mailbox_providers :: "SSTMailbox BackendProvider list" where
  "mailbox_providers = registerBackend (\<lambda>address cmodel policy. Inr (createMailbox address cmodel policy)) []"

record ('s, 'd) sst_config =
  cf_peci :: "'d peci"
  cf_interface :: "('s, 'd) SSTInterface"
  cf_providers :: "'s BackendProvider list"
  cf_poll :: "'d \<Rightarrow> HostState \<times> 'd"
  MIN_CLIENT_ADDR :: u8
  MAX_CLIENT_ADDR :: u8

text \<open>The life of an object in a scope: it is destroyed on every way out.\<close>

definition scoped :: "('s, 'd) SSTInterface \<Rightarrow> 's \<Rightarrow> ('s, 'd, 'a) sst_op \<Rightarrow> 'd \<Rightarrow> (PECIError + 'a) \<times> 'd" where
  "scoped I s p d = (case p (s, d) of (r, t) \<Rightarrow> (r, sst_delete I t))"

definition op_catch :: "'a \<Rightarrow> ('s, 'd, 'a) sst_op \<Rightarrow> ('s, 'd, 'a) sst_op" where
  "op_catch x p s = (case p s of (Inl e, t) \<Rightarrow> (Inr x, t) | (Inr y, t) \<Rightarrow> (Inr y, t))"

subsection \<open>The D-Bus objects\<close>

record OperatingConfig =
  oc_path :: string
  oc_level :: u32
  powerLimit :: u32
  availableCoreCount :: u32
  baseSpeed :: u32
  maxSpeed :: u32
  maxJunctionTemperature :: u32
  baseSpeedPrioritySettings :: "(u32 \<times> nat list) list"
  turboProfile :: "(u32 \<times> nat) list"
  oc_added :: bool

record CPUConfig =
  availConfigs :: "OperatingConfig list"
  cpu_address :: u8
  cpu_path :: string
  cpu_model :: CPUModel
  cpu_currentLevel :: u32
  cpu_bfEnabled :: bool
  cpu_added :: bool

datatype dbus_error = InvalidArgument | NotAllowed | Unavailable | WriteFailure

definition cpuInfo_cpuPath :: string where
  "cpuInfo_cpuPath = ''/xyz/openbmc_project/inventory/system/chassis/motherboard/cpu''"

definition generatePath :: "nat \<Rightarrow> string" where
  "generatePath index = cpuInfo_cpuPath @ dec index"

definition generateConfigPath :: "CPUConfig \<Rightarrow> u32 \<Rightarrow> string" where
  "generateConfigPath c level = cpu_path c @ ''/config'' @ dec (unat level)"

definition CPUConfig_new :: "u8 \<Rightarrow> u8 \<Rightarrow> CPUModel \<Rightarrow> u32 \<Rightarrow> bool \<Rightarrow> CPUConfig" where
  "CPUConfig_new minAddr index cmodel level bf = \<lparr>availConfigs = [], cpu_address = index + minAddr,
     cpu_path = generatePath (unat index), cpu_model = cmodel, cpu_currentLevel = level, cpu_bfEnabled = bf,
     cpu_added = False\<rparr>"

text \<open>The properties of a new configuration are not visible before \<open>getSingleConfig\<close> has set them all.\<close>

definition OperatingConfig_new :: "u32 \<Rightarrow> string \<Rightarrow> OperatingConfig" where
  "OperatingConfig_new level path = \<lparr>oc_path = path, oc_level = level, powerLimit = 0, availableCoreCount = 0,
     baseSpeed = 0, maxSpeed = 0, maxJunctionTemperature = 0, baseSpeedPrioritySettings = [],
     turboProfile = [], oc_added = False\<rparr>"

definition newConfig :: "CPUConfig \<Rightarrow> u32 \<Rightarrow> OperatingConfig" where
  "newConfig c level = OperatingConfig_new level (generateConfigPath c level)"

definition CPUConfig_finalize :: "CPUConfig \<Rightarrow> CPUConfig" where
  "CPUConfig_finalize c = c\<lparr>cpu_added := True, availConfigs := map (\<lambda>oc. oc\<lparr>oc_added := True\<rparr>) (availConfigs c)\<rparr>"

text \<open>
  What the two getters share: with the host on, an object that may not wake the CPU is asked, and
  the cached value stays on any error of the query.
\<close>

definition cached_read ::
  "('s, 'd) sst_config \<Rightarrow> HostState \<Rightarrow> CPUConfig \<Rightarrow> ('s, 'd, 'a) sst_op \<Rightarrow> 'a \<Rightarrow> 'd \<Rightarrow> (PECIError + 'a) \<times> 'd"
where
  "cached_read C hs c query cached d =
     (if hs \<noteq> host_off
      then case getInstance (cf_providers C) (cpu_address c) (cpu_model c) dontWake of
             None \<Rightarrow> (Inr cached, d)
           | Some s \<Rightarrow> scoped (cf_interface C) s (op_bind (sst_ready (cf_interface C)) (\<lambda>rdy.
               if \<not> rdy then op_return cached else op_catch cached query)) d
      else (Inr cached, d))"

definition appliedConfig_get ::
  "('s, 'd) sst_config \<Rightarrow> HostState \<Rightarrow> CPUConfig \<times> 'd \<Rightarrow> (PECIError + string) \<times> CPUConfig \<times> 'd"
where
  "appliedConfig_get C hs = (\<lambda>(c, d).
     case cached_read C hs c (sst_currentLevel (cf_interface C)) (cpu_currentLevel c) d of
       (Inl e, d') \<Rightarrow> (Inl e, c, d')
     | (Inr l, d') \<Rightarrow> (Inr (generateConfigPath c l), c\<lparr>cpu_currentLevel := l\<rparr>, d'))"

definition baseSpeedPriorityEnabled_get ::
  "('s, 'd) sst_config \<Rightarrow> HostState \<Rightarrow> CPUConfig \<times> 'd \<Rightarrow> (PECIError + bool) \<times> CPUConfig \<times> 'd"
where
  "baseSpeedPriorityEnabled_get C hs = (\<lambda>(c, d).
     case cached_read C hs c (sst_bfEnabled (cf_interface C) (cpu_currentLevel c)) (cpu_bfEnabled c) d of
       (Inl e, d') \<Rightarrow> (Inl e, c, d')
     | (Inr b, d') \<Rightarrow> (Inr b, c\<lparr>cpu_bfEnabled := b\<rparr>, d'))"

definition setPropertyCheckOrThrow ::
  "('s, 'd) SSTInterface \<Rightarrow> HostState \<Rightarrow> ('s, 'd, dbus_error option) sst_op"
where
  "setPropertyCheckOrThrow I hs = op_bind (sst_supportsControl I) (\<lambda>control.
     if \<not> control then op_return (Some NotAllowed)
     else if hs \<noteq> postComplete then op_return (Some Unavailable)
     else op_bind (sst_ready I) (\<lambda>rdy. op_return (if \<not> rdy then Some Unavailable else None)))"

fun find_config :: "string \<Rightarrow> OperatingConfig list \<Rightarrow> OperatingConfig option \<Rightarrow> OperatingConfig option" where
  "find_config val [] found = found"
| "find_config val (config # configs) found =
     find_config val configs (if oc_path config = val then Some config else found)"

text \<open>The body of the setter's \<open>try\<close>: an error of the D-Bus interface is a value here, a PECI error is thrown.\<close>

definition set_checked :: "('s, 'd) SSTInterface \<Rightarrow> HostState \<Rightarrow> u32 \<Rightarrow> ('s, 'd, dbus_error option) sst_op" where
  "set_checked I hs level = op_bind (setPropertyCheckOrThrow I hs) (\<lambda>err.
     if err \<noteq> None then op_return err else op_map (\<lambda>_. None) (sst_setCurrentLevel I level))"

definition appliedConfig_set ::
  "('s, 'd) sst_config \<Rightarrow> HostState \<Rightarrow> string \<Rightarrow> CPUConfig \<times> 'd \<Rightarrow> (dbus_error + string) \<times> CPUConfig \<times> 'd"
where
  "appliedConfig_set C hs val = (\<lambda>(c, d).
     case find_config val (availConfigs c) None of
       None \<Rightarrow> (Inl InvalidArgument, c, d)
     | Some config \<Rightarrow>
         (case getInstance (cf_providers C) (cpu_address c) (cpu_model c) wakeAllowed of
            None \<Rightarrow> (Inr [], c, d)
          | Some s \<Rightarrow>
              (case scoped (cf_interface C) s (set_checked (cf_interface C) hs (oc_level config)) d of
                 (Inl e, d') \<Rightarrow> (Inl WriteFailure, c, d')
               | (Inr (Some e), d') \<Rightarrow> (Inl e, c, d')
               | (Inr None, d') \<Rightarrow> (Inr [], c\<lparr>cpu_currentLevel := oc_level config\<rparr>, d'))))"

definition baseSpeedPriorityEnabled_set :: "bool \<Rightarrow> CPUConfig \<times> 'd \<Rightarrow> (dbus_error + bool) \<times> CPUConfig \<times> 'd" where
  "baseSpeedPriorityEnabled_set val s = (Inl NotAllowed, s)"

subsection \<open>Discovery\<close>

text \<open>\<open>std::set_difference\<close> on two ascending ranges.\<close>

fun set_difference :: "nat list \<Rightarrow> nat list \<Rightarrow> nat list" where
  "set_difference [] ys = []"
| "set_difference xs [] = xs"
| "set_difference (x # xs) (y # ys) =
     (if x < y then x # set_difference xs (y # ys)
      else if y < x then set_difference (x # xs) ys
      else set_difference xs ys)"

definition base_speeds :: "('s, 'd) SSTInterface \<Rightarrow> u32 \<Rightarrow> ('s, 'd, (u32 \<times> nat list) list) sst_op" where
  "base_speeds I level = op_bind (sst_bfSupported I level) (\<lambda>supported.
     if \<not> supported then op_return []
     else
       op_bind (sst_enabledCoreList I level) (\<lambda>totalCoreList.
       op_bind (sst_bfHighPriorityCoreList I level) (\<lambda>hiFreqCoreList.
       op_bind (sst_bfHighPriorityFreq I level) (\<lambda>hiFreq.
       op_bind (sst_bfLowPriorityFreq I level) (\<lambda>loFreq.
       op_return [(hiFreq, hiFreqCoreList), (loFreq, set_difference totalCoreList hiFreqCoreList)])))))"

definition getSingleConfig ::
  "('s, 'd) SSTInterface \<Rightarrow> u32 \<Rightarrow> OperatingConfig \<Rightarrow> ('s, 'd, OperatingConfig) sst_op"
where
  "getSingleConfig I level config =
     op_bind (sst_tdp I level) (\<lambda>tdp.
     op_bind (sst_coreCount I level) (\<lambda>cores.
     op_bind (sst_p1Freq I level) (\<lambda>p1.
     op_bind (sst_p0Freq I level) (\<lambda>p0.
     op_bind (sst_prochotTemp I level) (\<lambda>temp.
     op_bind (base_speeds I level) (\<lambda>speeds.
     op_bind (sst_sseTurboProfile I level) (\<lambda>turbo.
     op_return (config\<lparr>powerLimit := tdp, availableCoreCount := cores, baseSpeed := p1, maxSpeed := p0,
       maxJunctionTemperature := temp, baseSpeedPrioritySettings := speeds, turboProfile := turbo\<rparr>))))))))"

text \<open>
  The loop over the levels asks for the maximum before every round, so that it ends only if the
  backend lets it: \<^const>\<open>None\<close> means that the fuel ran out.
\<close>

fun level_loop ::
  "('s, 'd) SSTInterface \<Rightarrow> nat \<Rightarrow> u32 \<Rightarrow> u32 \<Rightarrow> CPUConfig \<Rightarrow> bool \<Rightarrow> ('s, 'd, (CPUConfig \<times> bool) option) sst_op"
where
  "level_loop I 0 level currentLevel cpu foundCurrentLevel = op_return None"
| "level_loop I (Suc fuel) level currentLevel cpu foundCurrentLevel =
     op_bind (sst_maxLevel I) (\<lambda>mx.
     if \<not> level \<le> mx then op_return (Some (cpu, foundCurrentLevel))
     else op_bind (sst_levelSupported I level) (\<lambda>supported.
       if \<not> supported then level_loop I fuel (level + 1) currentLevel cpu foundCurrentLevel
       else op_bind (getSingleConfig I level (newConfig cpu level)) (\<lambda>config.
         level_loop I fuel (level + 1) currentLevel
           (cpu\<lparr>availConfigs := availConfigs cpu @ [config]\<rparr>) (foundCurrentLevel \<or> level = currentLevel))))"

datatype cpu_result = cpu_skipped | cpu_not_ready | cpu_found CPUConfig

definition discover_cpu ::
  "('s, 'd) SSTInterface \<Rightarrow> nat \<Rightarrow> u8 \<Rightarrow> u8 \<Rightarrow> CPUModel \<Rightarrow> ('s, 'd, cpu_result option) sst_op"
where
  "discover_cpu I fuel minAddr cpuIndex cmodel =
     op_bind (sst_ready I) (\<lambda>rdy. if \<not> rdy then op_return (Some cpu_not_ready)
     else op_bind (sst_ppEnabled I) (\<lambda>pp. if \<not> pp then op_return (Some cpu_skipped)
     else op_bind (sst_currentLevel I) (\<lambda>currentLevel.
       op_bind (sst_bfEnabled I currentLevel) (\<lambda>bf.
       op_map (map_option (\<lambda>(cpu, found). if found then cpu_found cpu else cpu_skipped))
         (level_loop I fuel 0 currentLevel (CPUConfig_new minAddr cpuIndex cmodel currentLevel bf) False)))))"

text \<open>
  The loop over the addresses. The result is \<^const>\<open>None\<close> without fuel, an error, or whether the
  discovery is complete, with the staged list.
\<close>

fun discover_loop ::
  "('s, 'd) sst_config \<Rightarrow> nat \<Rightarrow> u8 list \<Rightarrow> CPUConfig list \<Rightarrow> 'd \<Rightarrow> (PECIError + bool \<times> CPUConfig list) option \<times> 'd"
where
  "discover_loop C fuel [] cpuList d = (Some (Inr (True, cpuList)), d)"
| "discover_loop C fuel (i # rest) cpuList d =
     (case cf_poll C d of (hs, d1) \<Rightarrow>
        if hs = host_off then (Some (Inr (False, cpuList)), d1)
        else case peci_GetCPUID (cf_peci C) i d1 of ((status, cc, cmodel), d2) \<Rightarrow>
          if status = PECI_CC_TIMEOUT then (Some (Inl (PECIError ''Get CPUID timed out'')), d2)
          else if status = PECI_CC_CPU_NOT_PRESENT then discover_loop C fuel rest cpuList d2
          else if status \<noteq> PECI_CC_SUCCESS \<or> cc \<noteq> PECI_DEV_CC_SUCCESS (cf_peci C)
          then discover_loop C fuel rest cpuList d2
          else case getInstance (cf_providers C) i cmodel wakeAllowed of
            None \<Rightarrow> discover_loop C fuel rest cpuList d2
          | Some s \<Rightarrow>
              (case scoped (cf_interface C) s
                      (discover_cpu (cf_interface C) fuel (MIN_CLIENT_ADDR C) (i - MIN_CLIENT_ADDR C) cmodel) d2 of
                 (Inl e, d3) \<Rightarrow> (Some (Inl e), d3)
               | (Inr None, d3) \<Rightarrow> (None, d3)
               | (Inr (Some cpu_skipped), d3) \<Rightarrow> discover_loop C fuel rest cpuList d3
               | (Inr (Some cpu_not_ready), d3) \<Rightarrow> (Some (Inr (False, cpuList)), d3)
               | (Inr (Some (cpu_found cpu)), d3) \<Rightarrow> discover_loop C fuel rest (cpuList @ [cpu]) d3))"

definition client_addresses :: "u8 \<Rightarrow> u8 \<Rightarrow> u8 list" where
  "client_addresses lo hi = map word_of_nat [unat lo ..< unat hi + 1]"

text \<open>The result, and the static list of published objects: cleared first, filled only at the end.\<close>

definition discoverCPUsAndConfigs ::
  "('s, 'd) sst_config \<Rightarrow> nat \<Rightarrow> 'd \<Rightarrow> ((PECIError + bool) \<times> CPUConfig list) option \<times> 'd"
where
  "discoverCPUsAndConfigs C fuel d =
     (case discover_loop C fuel (client_addresses (MIN_CLIENT_ADDR C) (MAX_CLIENT_ADDR C)) [] d of
        (None, d') \<Rightarrow> (None, d')
      | (Some (Inl e), d') \<Rightarrow> (Some (Inl e, []), d')
      | (Some (Inr (False, cpuList)), d') \<Rightarrow> (Some (Inr False, []), d')
      | (Some (Inr (True, cpuList)), d') \<Rightarrow> (Some (Inr True, map CPUConfig_finalize cpuList), d'))"

subsection \<open>Retries\<close>

record sst_state =
  sst_cpus :: "CPUConfig list"
  peciErrorCount :: nat
  retryArmed :: bool

definition sst_start :: sst_state where
  "sst_start = \<lparr>sst_cpus = [], peciErrorCount = 0, retryArmed = False\<rparr>"

definition discoverOrWait :: "('s, 'd) sst_config \<Rightarrow> nat \<Rightarrow> sst_state \<times> 'd \<Rightarrow> (sst_state \<times> 'd) option" where
  "discoverOrWait C fuel = (\<lambda>(st, d).
     case discoverCPUsAndConfigs C fuel d of
       (None, d') \<Rightarrow> None
     | (Some (Inl e, cpus), d') \<Rightarrow>
         let n = peciErrorCount st + 1 in
         Some (if n \<ge> 50 then st\<lparr>sst_cpus := cpus, peciErrorCount := n, retryArmed := False\<rparr>
               else st\<lparr>sst_cpus := cpus, peciErrorCount := n, retryArmed := True\<rparr>, d')
     | (Some (Inr finished, cpus), d') \<Rightarrow>
         Some (st\<lparr>sst_cpus := cpus, retryArmed := \<not> finished\<rparr>, d'))"

text \<open>The retry timer: an error code (which includes a cancelled wait) ends the chain.\<close>

definition retryTimer_handler ::
  "('s, 'd) sst_config \<Rightarrow> nat \<Rightarrow> bool \<Rightarrow> sst_state \<times> 'd \<Rightarrow> (sst_state \<times> 'd) option"
where
  "retryTimer_handler C fuel ec = (\<lambda>(st, d).
     let st' = st\<lparr>retryArmed := False\<rparr> in if ec then Some (st', d) else discoverOrWait C fuel (st', d))"

definition hostStateHandler :: "('s, 'd) sst_config \<Rightarrow> nat \<Rightarrow> (sst_state \<times> 'd) option HostStateHandler" where
  "hostStateHandler C fuel prevState newState w =
     (if prevState = host_off then Option.bind w (discoverOrWait C fuel) else w)"

definition sst_init ::
  "('s, 'd) sst_config \<Rightarrow> nat \<Rightarrow> (sst_state \<times> 'd) option host \<Rightarrow> (sst_state \<times> 'd) option host"
where
  "sst_init C fuel h = addHostStateCallback (hostStateHandler C fuel) h"

end
