(* ===== verification/Speed_Discovery.thy ===== *)
theory Speed_Discovery
  imports Speed_Select "HOL-Library.Sublist"
begin

text \<open>
  Speed Select control is correct: the discovery ends and publishes complete objects only, the
  getters never wake a CPU, every other operation leaves wake-on-PECI disabled, the setter has the
  documented errors, and the retries are bounded. What the control relies on of a backend is stated
  in the locales \<open>sst_levels\<close> and \<open>sst_session\<close>, which the mailbox implements.
\<close>

subsection \<open>Results and invariants of operations\<close>

named_theorems op_rules \<open>rules for the results and invariants of sequenced operations\<close>

definition yields :: "('s, 'd, 'a) sst_op \<Rightarrow> ('a \<Rightarrow> bool) \<Rightarrow> bool" where
  "yields p Q \<longleftrightarrow> (\<forall>s x t. p s = (Inr x, t) \<longrightarrow> Q x)"

definition keeps :: "('s \<times> 'd \<Rightarrow> bool) \<Rightarrow> ('s, 'd, 'a) sst_op \<Rightarrow> bool" where
  "keeps P p \<longleftrightarrow> (\<forall>s. P s \<longrightarrow> P (snd (p s)))"

lemma yields_return: "Q x \<Longrightarrow> yields (op_return x) Q"
  by (simp add: yields_def op_return_def)

lemma yields_throw: "yields (op_throw msg) Q"
  by (simp add: yields_def op_throw_def)

lemma yields_bind:
  assumes "yields p R" and "\<And>x. R x \<Longrightarrow> yields (f x) Q"
  shows "yields (op_bind p f) Q"
  unfolding yields_def
proof (intro allI impI)
  fix s x t assume run: "op_bind p f s = (Inr x, t)"
  then obtain y u where "p s = (Inr y, u)" "f y u = (Inr x, t)"
    by (auto simp: op_bind_def split: prod.splits sum.splits)
  then show "Q x" using assms unfolding yields_def by blast
qed

lemma yields_any: "yields p (\<lambda>_. True)"
  by (simp add: yields_def)

lemmas yields_after = yields_bind [OF yields_any]

lemma yields_map: "yields p (\<lambda>x. Q (f x)) \<Longrightarrow> yields (op_map f p) Q"
  unfolding op_map_def by (erule yields_bind) (rule yields_return)

lemma yields_if: "(b \<Longrightarrow> yields p Q) \<Longrightarrow> (\<not> b \<Longrightarrow> yields q Q) \<Longrightarrow> yields (if b then p else q) Q"
  by simp

lemma yields_with_pm: "yields p Q \<Longrightarrow> yields (with_pm p) Q"
  unfolding yields_def with_pm_def by (auto split: prod.splits) blast

lemma yields_weaken: "yields p R \<Longrightarrow> (\<And>x. R x \<Longrightarrow> Q x) \<Longrightarrow> yields p Q"
  unfolding yields_def by blast

lemma keeps_return [op_rules]: "keeps P (op_return x)"
  by (simp add: keeps_def op_return_def)

lemma keeps_throw [op_rules]: "keeps P (op_throw msg)"
  by (simp add: keeps_def op_throw_def)

lemma keeps_bind [op_rules]:
  assumes "keeps P p" and "\<And>x. keeps P (f x)"
  shows "keeps P (op_bind p f)"
  unfolding keeps_def
proof (intro allI impI)
  fix s assume "P s"
  then have "P (snd (p s))" using assms(1) unfolding keeps_def by blast
  then show "P (snd (op_bind p f s))"
    using assms(2) unfolding keeps_def by (auto simp: op_bind_def split: prod.splits sum.splits)
qed

lemma keeps_map [op_rules]: "keeps P p \<Longrightarrow> keeps P (op_map f p)"
  unfolding op_map_def by (intro op_rules)

lemma keeps_if [op_rules]: "keeps P p \<Longrightarrow> keeps P q \<Longrightarrow> keeps P (if b then p else q)"
  by simp

lemma keeps_catch [op_rules]: "keeps P p \<Longrightarrow> keeps P (op_catch x p)"
  unfolding keeps_def
proof (intro allI impI)
  fix s assume kept: "\<forall>s. P s \<longrightarrow> P (snd (p s))" and "P s"
  then have "P (snd (p s))" by blast
  then show "P (snd (op_catch x p s))"
    by (cases "p s", cases "fst (p s)") (simp_all add: op_catch_def)
qed

subsection \<open>Ascending core lists\<close>

lemma set_difference_below: "(\<And>y. y \<in> set xs \<Longrightarrow> x < y) \<Longrightarrow> y \<in> set (set_difference xs ys) \<Longrightarrow> x < y"
  by (induction xs ys rule: set_difference.induct) (auto split: if_splits)

lemma set_difference_correct:
  assumes "sorted_wrt (<) xs" and "sorted_wrt (<) ys"
  shows "set (set_difference xs ys) = set xs - set ys" "sorted_wrt (<) (set_difference xs ys)"
  using assms
proof (induction xs ys rule: set_difference.induct)
  case (3 x xs y ys)
  { case 1 then show ?case using 3 by (cases x y rule: linorder_cases) force+ }
  { case 2 then show ?case using 3 set_difference_below [of xs x _ "y # ys"] by (cases x y rule: linorder_cases) auto }
qed auto

subsection \<open>The levels of a backend\<close>

text \<open>A configuration as the discovery leaves it, and a CPU with all its configurations.\<close>

definition disjoint_priorities :: "(u32 \<times> nat list) list \<Rightarrow> bool" where
  "disjoint_priorities speeds \<longleftrightarrow> speeds = [] \<or>
     (\<exists>hiFreq hi loFreq lo. speeds = [(hiFreq, hi), (loFreq, lo)]
        \<and> sorted_wrt (<) hi \<and> sorted_wrt (<) lo \<and> set hi \<inter> set lo = {})"

definition config_wf :: "CPUConfig \<Rightarrow> OperatingConfig \<Rightarrow> bool" where
  "config_wf c oc \<longleftrightarrow> oc_path oc = generateConfigPath c (oc_level oc) \<and> unat (oc_level oc) < 256
     \<and> disjoint_priorities (baseSpeedPrioritySettings oc)"

definition cpu_wf :: "CPUConfig \<Rightarrow> bool" where
  "cpu_wf c \<longleftrightarrow> list_all (config_wf c) (availConfigs c) \<and> sorted_wrt (<) (map oc_level (availConfigs c))"

definition current_listed :: "CPUConfig \<Rightarrow> bool" where
  "current_listed c \<longleftrightarrow> cpu_currentLevel c \<in> set (map oc_level (availConfigs c))"

text \<open>A CPU during the loop over its levels, below the one that is next.\<close>

definition staged :: "CPUConfig \<Rightarrow> u32 \<Rightarrow> u32 \<Rightarrow> CPUConfig \<Rightarrow> bool \<Rightarrow> bool" where
  "staged c0 cur level c found \<longleftrightarrow> c = c0\<lparr>availConfigs := availConfigs c\<rparr> \<and> cpu_wf c
     \<and> (\<forall>oc \<in> set (availConfigs c). oc_level oc < level)
     \<and> (found \<longleftrightarrow> cur \<in> set (map oc_level (availConfigs c)))"

lemma next_level: "unat (level :: u32) < 256 \<Longrightarrow> unat (level + 1) = Suc (unat level)"
  by (subst unat_word_ariths) simp

lemma level_below: "level \<le> mx \<Longrightarrow> unat (mx :: u32) < 256 \<Longrightarrow> unat level < 256"
  by (meson le_less_trans word_le_nat_alt)

lemma config_wf_update [simp]: "config_wf (c\<lparr>availConfigs := xs\<rparr>) = config_wf c"
  by (rule ext) (simp add: config_wf_def generateConfigPath_def)

lemma staged_skip:
  assumes "staged c0 cur level c found" and "unat level < 256"
  shows "staged c0 cur (level + 1) c found"
proof -
  have "l < level \<Longrightarrow> l < level + 1" for l
    using next_level [OF assms(2)] by (simp add: word_less_nat_alt)
  then show ?thesis using assms(1) by (auto simp: staged_def)
qed

lemma staged_add:
  assumes "staged c0 cur level c found" and "config_wf c oc" and "oc_level oc = level" and "unat level < 256"
  shows "staged c0 cur (level + 1) (c\<lparr>availConfigs := availConfigs c @ [oc]\<rparr>) (found \<or> level = cur)"
proof -
  have up: "l < level + 1 \<longleftrightarrow> l < level \<or> l = level" for l
    using next_level [OF assms(4)] by (auto simp: word_less_nat_alt word_unat_eq_iff)
  obtain xs where "c = c0\<lparr>availConfigs := xs\<rparr>" using assms(1) by (auto simp: staged_def)
  then show ?thesis
    using assms up unfolding staged_def cpu_wf_def by (auto simp: sorted_wrt_append)
qed

definition discovered :: "u8 \<Rightarrow> u8 \<Rightarrow> CPUConfig \<Rightarrow> bool" where
  "discovered lo i c \<longleftrightarrow> cpu_wf c \<and> current_listed c \<and> cpu_address c = i \<and> cpu_path c = generatePath (unat (i - lo))"

locale sst_levels =
  fixes I :: "('s, 'd) SSTInterface"
  assumes max_level: "yields (sst_maxLevel I) (\<lambda>l. unat l < 256)"
    and enabled_cores: "yields (sst_enabledCoreList I level) (sorted_wrt (<))"
    and high_cores: "yields (sst_bfHighPriorityCoreList I level) (sorted_wrt (<))"
begin

lemma base_speeds_disjoint: "yields (base_speeds I level) disjoint_priorities"
  unfolding base_speeds_def
  by (rule yields_after, rule yields_if, rule yields_return, simp add: disjoint_priorities_def,
      rule yields_bind [OF enabled_cores], rule yields_bind [OF high_cores], rule yields_after, rule yields_after,
      rule yields_return)
    (auto simp: disjoint_priorities_def set_difference_correct)

lemma getSingleConfig_wf:
  assumes "unat level < 256"
  shows "yields (getSingleConfig I level (newConfig c level)) (\<lambda>oc. config_wf c oc \<and> oc_level oc = level)"
  unfolding getSingleConfig_def
  by (rule yields_after, rule yields_after, rule yields_after, rule yields_after, rule yields_after,
      rule yields_bind [OF base_speeds_disjoint], rule yields_after, rule yields_return)
    (use assms in \<open>auto simp: config_wf_def newConfig_def OperatingConfig_new_def\<close>)

text \<open>The loop ends with 257 rounds, whatever the device answers.\<close>

lemma level_loop_ends:
  "unat level \<le> 256 \<Longrightarrow> 257 \<le> fuel + unat level \<Longrightarrow> yields (level_loop I fuel level cur c found) (\<lambda>r. r \<noteq> None)"
proof (induction fuel arbitrary: level c found)
  case (Suc fuel)
  have more: "yields (level_loop I fuel (level + 1) cur c' found') (\<lambda>r. r \<noteq> None)"
    if "\<not> \<not> level \<le> mx" "unat mx < 256" for mx c' found'
  proof -
    have "unat level < 256" using level_below [of level mx] that by simp
    then show ?thesis using Suc.prems next_level by (intro Suc.IH) simp_all
  qed
  show ?case
    unfolding level_loop.simps
    by (rule yields_bind [OF max_level], rule yields_if, rule yields_return, simp, rule yields_after, rule yields_if,
        erule (1) more, rule yields_after, erule (1) more)
qed simp

text \<open>And it adds well-formed configurations in ascending order of their levels.\<close>

lemma level_loop_staged:
  "staged c0 cur level c found \<Longrightarrow>
   yields (level_loop I fuel level cur c found) (\<lambda>r. \<forall>c' found'. r = Some (c', found') \<longrightarrow> (\<exists>l. staged c0 cur l c' found'))"
proof (induction fuel arbitrary: level c found)
  case 0
  then show ?case by (simp add: yields_return)
next
  case (Suc fuel)
  have small: "unat level < 256" if "\<not> \<not> level \<le> mx" "unat mx < 256" for mx
    using level_below [of level mx] that by simp
  show ?case
    unfolding level_loop.simps
  proof (rule yields_bind [OF max_level], rule yields_if)
    fix mx assume "unat mx < 256" "\<not> \<not> level \<le> mx"
    note lt = small [OF this(2,1)]
    show "yields (op_bind (sst_levelSupported I level) (\<lambda>supported.
       if \<not> supported then level_loop I fuel (level + 1) cur c found
       else op_bind (getSingleConfig I level (newConfig c level)) (\<lambda>config.
         level_loop I fuel (level + 1) cur (c\<lparr>availConfigs := availConfigs c @ [config]\<rparr>) (found \<or> level = cur))))
       (\<lambda>r. \<forall>c' found'. r = Some (c', found') \<longrightarrow> (\<exists>l. staged c0 cur l c' found'))"
      by (rule yields_after, rule yields_if, rule Suc.IH [OF staged_skip [OF Suc.prems lt]],
          rule yields_bind [OF getSingleConfig_wf [OF lt]], rule Suc.IH, rule staged_add [OF Suc.prems _ _ lt]) auto
  qed (rule yields_return, use Suc.prems in auto)
qed

lemma discover_cpu_ends: "257 \<le> fuel \<Longrightarrow> yields (discover_cpu I fuel lo i m) (\<lambda>r. r \<noteq> None)"
  unfolding discover_cpu_def
  by (rule yields_after, rule yields_if, rule yields_return, simp, rule yields_after, rule yields_if, rule yields_return,
      simp, rule yields_after, rule yields_after, rule yields_map, rule yields_weaken, rule level_loop_ends) auto

lemma discover_cpu_found:
  "yields (discover_cpu I fuel lo (i - lo) m) (\<lambda>r. \<forall>c. r = Some (cpu_found c) \<longrightarrow> discovered lo i c)"
proof -
  have start: "staged (CPUConfig_new lo (i - lo) m cur bf) cur 0 (CPUConfig_new lo (i - lo) m cur bf) False" for cur bf
    by (simp add: staged_def CPUConfig_new_def cpu_wf_def)
  have fin: "discovered lo i c" if st: "staged (CPUConfig_new lo (i - lo) m cur bf) cur l c True" for cur bf l c
  proof -
    obtain xs where "c = (CPUConfig_new lo (i - lo) m cur bf)\<lparr>availConfigs := xs\<rparr>"
      using st unfolding staged_def by blast
    then show ?thesis
      using st by (auto simp: staged_def discovered_def CPUConfig_new_def current_listed_def)
  qed
  show ?thesis
    unfolding discover_cpu_def
    by (rule yields_after, rule yields_if, rule yields_return, simp, rule yields_after, rule yields_if, rule yields_return,
        simp, rule yields_after, rule yields_after, rule yields_map, rule yields_weaken, rule level_loop_staged [OF start])
      (auto split: if_splits intro: fin)
qed

lemma scoped_result: "yields p Q \<Longrightarrow> scoped I s p d = (Inr x, d') \<Longrightarrow> Q x"
  unfolding yields_def scoped_def by (cases "p (s, d)") (metis case_prod_conv fst_conv)

lemma discover_loop_ends:
  assumes "cf_interface C = I" and "257 \<le> fuel"
  shows "fst (discover_loop C fuel js l d) \<noteq> None"
proof (induction js arbitrary: l d)
  case (Cons i js)
  moreover have "scoped I s (discover_cpu I fuel lo j m) d1 \<noteq> (Inr None, d2)" for s lo j m d1 d2
    using scoped_result [OF discover_cpu_ends [OF assms(2)], of s lo j m d1 None d2] by blast
  ultimately show ?case
    by (auto simp: assms(1) split: prod.splits option.splits sum.splits cpu_result.splits)
qed simp

lemma discover_loop_lists:
  assumes "cf_interface C = I"
  shows "discover_loop C fuel js l d = (Some (Inr (fin, l')), d') \<Longrightarrow>
    \<exists>new. l' = l @ new \<and> subseq (map cpu_address new) js
      \<and> list_all (\<lambda>c. discovered (MIN_CLIENT_ADDR C) (cpu_address c) c) new"
proof (induction js arbitrary: l d)
  case (Cons i js)
  have here: "(l' = l) \<or> (\<exists>d1. discover_loop C fuel js l d1 = (Some (Inr (fin, l')), d'))
      \<or> (\<exists>c d1. discovered (MIN_CLIENT_ADDR C) i c \<and> discover_loop C fuel js (l @ [c]) d1 = (Some (Inr (fin, l')), d'))"
    using Cons.prems scoped_result [OF discover_cpu_found]
    by (auto simp: assms(1) split: prod.splits option.splits sum.splits cpu_result.splits if_splits)
  then show ?case
  proof (elim disjE exE conjE)
    fix c d1 assume c: "discovered (MIN_CLIENT_ADDR C) i c"
      and "discover_loop C fuel js (l @ [c]) d1 = (Some (Inr (fin, l')), d')"
    then obtain new where "l' = (l @ [c]) @ new" "subseq (map cpu_address new) js"
      "list_all (\<lambda>c. discovered (MIN_CLIENT_ADDR C) (cpu_address c) c) new"
      using Cons.IH by blast
    moreover have "cpu_address c = i" using c by (simp add: discovered_def)
    ultimately show ?thesis using c by (intro exI [of _ "c # new"]) auto
  qed (use Cons.IH in \<open>auto, fastforce\<close>)
qed simp

end

lemma mailbox_max_level: "yields (mb_maxLevel L) (\<lambda>l. unat l < 256)"
proof -
  have "unat (configTdpLevels c) < 256" for c
    using FIELD_unsigned_div_mod [of 8 15 c] by (simp add: configTdpLevels_def)
  then show ?thesis
    unfolding mb_maxLevel_def by (intro yields_with_pm yields_map) (simp add: yields_any)
qed

lemma mailbox_cores:
  "yields (mb_enabledCoreList L level) (sorted_wrt (<))" "yields (mb_bfHighPriorityCoreList L level) (sorted_wrt (<))"
  unfolding mb_enabledCoreList_def mb_bfHighPriorityCoreList_def
  by (intro yields_with_pm yields_after yields_return convertMaskToList_correct)+

interpretation mailbox: sst_levels "mailbox_interface L" for L
  by unfold_locales (simp_all add: mailbox_interface_def mailbox_max_level mailbox_cores)

subsection \<open>The life of an object\<close>

text \<open>
  A contract of a backend for what its objects leave behind: an object that is created when the device is
  settled is in good order, all its operations keep it so, and destroying it settles the device.
\<close>

locale sst_session =
  fixes I :: "('s, 'd) SSTInterface" and providers :: "'s BackendProvider list"
    and good :: "'s \<times> 'd \<Rightarrow> bool" and settled :: "'d \<Rightarrow> bool"
  assumes created: "settled d \<Longrightarrow> getInstance providers a m w = Some s \<Longrightarrow> good (s, d)"
    and deleted: "good (s, d) \<Longrightarrow> settled (sst_delete I (s, d))"
    and kept_state [op_rules]: "keeps good (sst_ready I)" "keeps good (sst_supportsControl I)"
      "keeps good (sst_ppEnabled I)" "keeps good (sst_currentLevel I)" "keeps good (sst_maxLevel I)"
    and kept_level [op_rules]: "keeps good (sst_levelSupported I l)" "keeps good (sst_bfSupported I l)"
      "keeps good (sst_bfEnabled I l)" "keeps good (sst_tdp I l)" "keeps good (sst_coreCount I l)"
      "keeps good (sst_enabledCoreList I l)" "keeps good (sst_sseTurboProfile I l)" "keeps good (sst_p1Freq I l)"
      "keeps good (sst_p0Freq I l)" "keeps good (sst_prochotTemp I l)" "keeps good (sst_bfHighPriorityCoreList I l)"
      "keeps good (sst_bfHighPriorityFreq I l)" "keeps good (sst_bfLowPriorityFreq I l)"
    and kept_set [op_rules]: "keeps good (sst_setCurrentLevel I l)"
begin

lemma scoped_settles:
  assumes "settled d" and "getInstance providers a m w = Some s" and "keeps good p" and "scoped I s p d = (r, d')"
  shows "settled d'"
proof -
  have "good (snd (p (s, d)))" using assms created unfolding keeps_def by blast
  then show ?thesis using assms(4) deleted by (auto simp: scoped_def split: prod.splits)
qed

lemma keeps_single: "keeps good (getSingleConfig I level config)"
  unfolding getSingleConfig_def base_speeds_def by (intro op_rules)

lemma keeps_levels: "keeps good (level_loop I fuel level cur c found)"
  by (induction fuel arbitrary: level c found) (auto intro!: op_rules keeps_single)

lemma keeps_discover: "keeps good (discover_cpu I fuel lo i m)"
  unfolding discover_cpu_def by (intro op_rules keeps_levels)

lemma discover_settles:
  assumes "cf_interface C = I" and "cf_providers C = providers"
    and "\<And>d. settled d \<Longrightarrow> settled (snd (cf_poll C d))" and "\<And>i d. settled d \<Longrightarrow> settled (snd (peci_GetCPUID (cf_peci C) i d))"
  shows "settled d \<Longrightarrow> settled (snd (discover_loop C fuel js l d))"
proof (induction js arbitrary: l d)
  case (Cons i js)
  obtain hs d1 where p: "cf_poll C d = (hs, d1)" by fastforce
  obtain st cc m d2 where g: "peci_GetCPUID (cf_peci C) i d1 = ((st, cc, m), d2)" by (metis surj_pair)
  have s1: "settled d1" and s2: "settled d2" using assms(3,4) Cons.prems p g by (metis snd_conv)+
  show ?case
  proof (cases "getInstance providers i m wakeAllowed")
    case None
    then show ?thesis using p g s1 s2 Cons.IH assms by auto
  next
    case (Some s)
    obtain r d3 where sc: "scoped I s (discover_cpu I fuel (MIN_CLIENT_ADDR C) (i - MIN_CLIENT_ADDR C) m) d2 = (r, d3)"
      by fastforce
    have "settled d3" by (rule scoped_settles [OF s2 Some keeps_discover sc])
    then show ?thesis
      using p g s1 s2 Cons.IH Some sc by (auto simp: assms(1,2) split: sum.splits option.splits cpu_result.splits)
  qed
qed simp

lemma set_settles:
  assumes "cf_interface C = I" and "cf_providers C = providers" and "settled d"
  shows "settled (snd (snd (appliedConfig_set C hs val (c, d))))"
proof (cases "find_config val (availConfigs c) None")
  case (Some config)
  show ?thesis
  proof (cases "getInstance providers (cpu_address c) (cpu_model c) wakeAllowed")
    case inst: (Some s)
    obtain r d' where sc: "scoped I s (set_checked I hs (oc_level config)) d = (r, d')" by fastforce
    have "keeps good (set_checked I hs (oc_level config))"
      unfolding set_checked_def setPropertyCheckOrThrow_def by (intro op_rules)
    then have "settled d'" using scoped_settles [OF assms(3) inst _ sc] by blast
    then show ?thesis
      using sc Some inst by (auto simp: appliedConfig_set_def assms(1,2) split: sum.splits option.splits)
  qed (use Some assms in \<open>simp add: appliedConfig_set_def\<close>)
qed (use assms in \<open>simp add: appliedConfig_set_def\<close>)

lemma get_settles:
  assumes "cf_interface C = I" and "cf_providers C = providers" and "settled d"
  shows "settled (snd (snd (appliedConfig_get C hs (c, d))))"
    and "settled (snd (snd (baseSpeedPriorityEnabled_get C hs (c, d))))"
proof -
  have read: "settled d'" if "keeps good q" and run: "cached_read C hs c q x d = (r, d')" for q x r d'
  proof (cases "hs = host_off \<or> getInstance providers (cpu_address c) (cpu_model c) dontWake = None")
    case False
    then obtain s where inst: "getInstance providers (cpu_address c) (cpu_model c) dontWake = Some s" by auto
    have "keeps good (op_bind (sst_ready I) (\<lambda>rdy. if \<not> rdy then op_return x else op_catch x q))"
      by (intro op_rules that)
    then show ?thesis
      using scoped_settles [OF assms(3) inst] run False inst by (auto simp: cached_read_def assms(1,2))
  qed (use assms run in \<open>auto simp: cached_read_def split: if_splits\<close>)
  show "settled (snd (snd (appliedConfig_get C hs (c, d))))"
    using read [OF kept_state(4)] by (auto simp: appliedConfig_get_def assms(1) split: prod.splits sum.splits)
  show "settled (snd (snd (baseSpeedPriorityEnabled_get C hs (c, d))))"
    using read [OF kept_level(3)] by (auto simp: baseSpeedPriorityEnabled_get_def assms(1) split: prod.splits sum.splits)
qed

end

end
