(* ===== verification/Speed_Control.thy ===== *)
theory Speed_Control
  imports Speed_Discovery
begin

text \<open>
  The properties of Speed Select control with the mailbox backend: the discovery ends, publishes
  complete objects or nothing, leaves wake-on-PECI disabled; the properties of a published CPU are
  read without waking it and written with the documented errors; and the retries of a failing
  discovery stop.
\<close>

unbundle bit_operations_syntax

definition mailbox_config ::
  "'d peci \<Rightarrow> ('d \<Rightarrow> HostState \<times> 'd) \<Rightarrow> u8 \<Rightarrow> u8 \<Rightarrow> (SSTMailbox, 'd) sst_config"
where
  "mailbox_config L poll lo hi = \<lparr>cf_peci = L, cf_interface = mailbox_interface L,
     cf_providers = mailbox_providers, cf_poll = poll, MIN_CLIENT_ADDR = lo, MAX_CLIENT_ADDR = hi\<rparr>"

lemma mailbox_config_simps [simp]:
  "cf_peci (mailbox_config L poll lo hi) = L" "cf_interface (mailbox_config L poll lo hi) = mailbox_interface L"
  "cf_providers (mailbox_config L poll lo hi) = mailbox_providers" "cf_poll (mailbox_config L poll lo hi) = poll"
  "MIN_CLIENT_ADDR (mailbox_config L poll lo hi) = lo" "MAX_CLIENT_ADDR (mailbox_config L poll lo hi) = hi"
  by (simp_all add: mailbox_config_def)

lemma mailbox_instance: "getInstance mailbox_providers a m w = createMailbox a m w"
  by (simp add: mailbox_providers_def registerBackend_def split: option.split)

lemma createMailbox_new: "createMailbox a m w = Some s \<Longrightarrow> s = SSTMailbox_new a m w"
  by (auto simp: createMailbox_def split: CPUModel.splits)

subsection \<open>Wake bits\<close>

text \<open>
  A device that remembers for which addresses wake-on-PECI was last enabled with success, and
  the state of an object that knows about the one bit it may have set.
\<close>

definition tracked :: "'d peci \<Rightarrow> ((u8 \<Rightarrow> bool) \<times> 'd) peci" where
  "tracked L = \<lparr>PECI_DEV_CC_SUCCESS = PECI_DEV_CC_SUCCESS L,
     peci_WrPkgConfig = (\<lambda>a i p v (b, d). case peci_WrPkgConfig L a i p v d of ((st, cc), d') \<Rightarrow>
       ((st, cc), if i = 5 \<and> checkPECIStatus L st cc then b(a := (p = 1)) else b, d')),
     peci_WrEndPointPCIConfigLocal = (\<lambda>a s bs dv f r w (b, d).
       case peci_WrEndPointPCIConfigLocal L a s bs dv f r w d of (x, d') \<Rightarrow> (x, b, d')),
     peci_RdEndPointConfigPciLocal = (\<lambda>a s bs dv f r (b, d).
       case peci_RdEndPointConfigPciLocal L a s bs dv f r d of (x, d') \<Rightarrow> (x, b, d')),
     peci_RdIAMSR = (\<lambda>a th r (b, d). case peci_RdIAMSR L a th r d of (x, d') \<Rightarrow> (x, b, d')),
     peci_GetCPUID = (\<lambda>a (b, d). case peci_GetCPUID L a d of (x, d') \<Rightarrow> (x, b, d')),
     peci_RdPkgConfig = (\<lambda>a i p (b, d). case peci_RdPkgConfig L a i p d of (x, d') \<Rightarrow> (x, b, d'))\<rparr>"

definition tracked_poll :: "('d \<Rightarrow> HostState \<times> 'd) \<Rightarrow> (u8 \<Rightarrow> bool) \<times> 'd \<Rightarrow> HostState \<times> (u8 \<Rightarrow> bool) \<times> 'd" where
  "tracked_poll poll = (\<lambda>(b, d). case poll d of (hs, d') \<Rightarrow> (hs, b, d'))"

text \<open>Disabling the bit always succeeds.\<close>

definition wake_clears :: "'d peci \<Rightarrow> bool" where
  "wake_clears L \<longleftrightarrow> (\<forall>a d st cc d'. peci_WrPkgConfig L a 5 0 0 d = ((st, cc), d') \<longrightarrow> checkPECIStatus L st cc)"

definition own_bit :: "PECIManager \<times> (u8 \<Rightarrow> bool) \<times> 'd \<Rightarrow> bool" where
  "own_bit = (\<lambda>(pm, b, d). \<forall>a. b a \<longrightarrow> a = peciAddress pm \<and> peciWoken pm)"

lemma own_bit_wake: "keeps own_bit (setWakeOnPECI (tracked L) True)"
  by (auto simp: keeps_def own_bit_def setWakeOnPECI_def tracked_def checkPECIStatus_def op_throw_def op_return_def
      split: prod.splits if_splits)

lemma own_bit_once:
  "keeps own_bit (rd_loop (tracked L) reg False)" "keeps own_bit (wr_loop (tracked L) reg w False)"
  by (auto simp: keeps_def own_bit_def rd_loop.simps wr_loop.simps tracked_def checkPECIStatus_def op_throw_def op_return_def
      split: prod.splits)

lemma own_bit_retry:
  "keeps own_bit (rd_loop (tracked L) reg wk)" "keeps own_bit (wr_loop (tracked L) reg w wk)"
proof -
  have again: "keeps own_bit (op_bind (setWakeOnPECI (tracked L) True) (\<lambda>_. rd_loop (tracked L) reg False))"
    "keeps own_bit (op_bind (setWakeOnPECI (tracked L) True) (\<lambda>_. wr_loop (tracked L) reg w False))"
    by (intro op_rules own_bit_wake own_bit_once)+
  have "own_bit (snd (rd_loop (tracked L) reg True (pm, b, d)))" if ok: "own_bit (pm, b, d)" for pm b d
  proof -
    obtain st cc v d' where rd: "peci_RdEndPointConfigPciLocal L (peciAddress pm) mbSegment (mbBus pm) mbDevice
        mbFunction reg d = ((st, cc, v), d')" by (metis surj_pair)
    have "own_bit (pm, b, d')" using ok by (simp add: own_bit_def)
    then show ?thesis
      using rd again(1) unfolding keeps_def
      by (subst rd_loop.simps) (auto simp: tracked_def op_throw_def op_return_def)
  qed
  moreover have "own_bit (snd (wr_loop (tracked L) reg w True (pm, b, d)))" if ok: "own_bit (pm, b, d)" for pm b d
  proof -
    obtain st cc d' where wr: "peci_WrEndPointPCIConfigLocal L (peciAddress pm) mbSegment (mbBus pm) mbDevice
        mbFunction reg w d = ((st, cc), d')" by (metis surj_pair)
    have "own_bit (pm, b, d')" using ok by (simp add: own_bit_def)
    then show ?thesis
      using wr again(2) unfolding keeps_def
      by (subst wr_loop.simps) (auto simp: tracked_def op_throw_def op_return_def)
  qed
  ultimately have "keeps own_bit (rd_loop (tracked L) reg True)" "keeps own_bit (wr_loop (tracked L) reg w True)"
    unfolding keeps_def by (metis surj_pair)+
  then show "keeps own_bit (rd_loop (tracked L) reg wk)" "keeps own_bit (wr_loop (tracked L) reg w wk)"
    by (cases wk; (assumption | simp only: own_bit_once))+
qed

lemma own_bit_access [op_rules]:
  "keeps own_bit (rdMailboxReg (tracked L) reg)" "keeps own_bit (wrMailboxReg (tracked L) reg w)"
  using own_bit_retry unfolding keeps_def rdMailboxReg_def wrMailboxReg_def by blast+

lemma own_bit_wait [op_rules]:
  "keeps own_bit (wait_free (tracked L) n)" "keeps own_bit (wait_done (tracked L) n)"
  by (induction n) (auto intro!: op_rules)

lemma own_bit_command [op_rules]: "keeps own_bit (OsMailboxCommand_new (tracked L) sc ep p1 p2 p3 p4)"
  unfolding OsMailboxCommand_new_def sendPECIOSMailboxCmd_def Let_def case_prod_beta by (intro op_rules)

text \<open>The contract of a session: the device is settled when no bit is set.\<close>

definition session_good :: "'d peci \<Rightarrow> SSTMailbox \<times> (u8 \<Rightarrow> bool) \<times> 'd \<Rightarrow> bool" where
  "session_good L = (\<lambda>(m, b, d). wake_clears L \<longrightarrow> own_bit (sm_pm m, b, d))"

definition session_settled :: "'d peci \<Rightarrow> (u8 \<Rightarrow> bool) \<times> 'd \<Rightarrow> bool" where
  "session_settled L = (\<lambda>(b, d). wake_clears L \<longrightarrow> b = (\<lambda>_. False))"

lemma session_with_pm [op_rules]:
  assumes "keeps own_bit p"
  shows "keeps (session_good L) (with_pm p)"
  unfolding keeps_def
proof (intro allI impI)
  fix s assume good: "session_good L s"
  obtain m b d where s: "s = (m, b, d)" by (metis surj_pair)
  obtain r pm b' d' where run: "p (sm_pm m, b, d) = (r, pm, b', d')" by (metis surj_pair)
  have "wake_clears L \<Longrightarrow> own_bit (pm, b', d')"
    using assms good run unfolding s keeps_def session_good_def by (metis case_prod_conv snd_conv)
  then show "session_good L (snd (with_pm p s))"
    using run by (simp add: s with_pm_def session_good_def)
qed

lemma session_msr [op_rules]: "keeps (session_good L) (mb_sseTurboProfile (tracked L) level)"
proof -
  have prog: "keeps (session_good L) (with_pm (
      op_bind (op_map cmd_value (GetTurboLimitRatios (tracked L) (ucast level) 0)) (\<lambda>limitRatioLo.
      op_bind (op_map cmd_value (GetTurboLimitRatios (tracked L) (ucast level) 1)) (\<lambda>limitRatioHi.
      op_return (turbo_loop maxTFBuckets t (two_words limitRatioHi limitRatioLo))))))" for t
    unfolding GetTurboLimitRatios_def by (intro op_rules)
  show ?thesis
    unfolding keeps_def
  proof (intro allI impI)
    fix s assume "session_good L s"
    then obtain m b d where s: "s = (m, b, d)" and good: "session_good L (m, b, d')" for d'
      by (cases s) (auto simp: session_good_def own_bit_def)
    obtain st cc t d' where "peci_RdIAMSR L (sm_address m) 0 0x1AE d = ((st, cc, t), d')" by (metis surj_pair)
    then show "session_good L (snd (mb_sseTurboProfile (tracked L) level s))"
      using good prog [of t] unfolding keeps_def
      by (simp add: s mb_sseTurboProfile_def tracked_def op_throw_def)
  qed
qed

lemma session_deleted:
  assumes "session_good L (m, b, d)"
  shows "session_settled L (SSTMailbox_delete (tracked L) (m, b, d))"
proof (cases "wake_clears L")
  case True
  obtain st cc d' where w: "peci_WrPkgConfig L (peciAddress (sm_pm m)) 5 0 0 d = ((st, cc), d')" by (metis surj_pair)
  then have "checkPECIStatus L st cc" using True unfolding wake_clears_def by blast
  then show ?thesis
    using w assms True
    by (auto simp: SSTMailbox_delete_def PECIManager_delete_def setWakeOnPECI_def tracked_def session_good_def
        session_settled_def own_bit_def checkPECIStatus_def op_return_def fun_eq_iff)
qed (simp add: session_settled_def split: prod.split)

lemma session_pure [op_rules]: "keeps P (\<lambda>(m, d). op_return (f m) (m, d))"
  by (simp add: keeps_def op_return_def split: prod.split)

lemmas mailbox_operations = mb_ppEnabled_def mb_currentLevel_def mb_maxLevel_def mb_levelSupported_def
  mb_bfSupported_def mb_tfSupported_def mb_bfEnabled_def mb_tfEnabled_def mb_tdp_def mb_coreCount_def
  mb_enabledCoreList_def mb_p1Freq_def mb_p0Freq_def mb_prochotTemp_def mb_bfHighPriorityCoreList_def
  mb_bfHighPriorityFreq_def mb_bfLowPriorityFreq_def mb_setCurrentLevel_def
  GetLevelsInfo_def GetConfigTdpControl_def GetTdpInfo_def GetCoreMask_def GetRatioInfo_def GetTjmaxInfo_def
  PbfGetCoreMaskInfo_def PbfGetP1HiP1LoInfo_def SetLevel_def

interpretation wake: sst_session "mailbox_interface (tracked L)" mailbox_providers "session_good L" "session_settled L" for L
proof
  show "session_good L (s, d)" if "session_settled L d" and "getInstance mailbox_providers a m w = Some s" for d a m w s
    using that by (cases d) (simp add: session_good_def session_settled_def own_bit_def)
  show "session_settled L (sst_delete (mailbox_interface (tracked L)) (s, d))" if "session_good L (s, d)" for s d
    using that session_deleted by (cases d) (simp add: mailbox_interface_def)
qed (simp_all only: mailbox_interface_def SSTInterface.simps mailbox_operations, (intro op_rules)+)

subsection \<open>The discovery\<close>

lemma discovered_finalize:
  assumes "discovered lo i c"
  shows "discovered lo i (CPUConfig_finalize c)"
proof -
  have "config_wf (CPUConfig_finalize c) (oc\<lparr>oc_added := True\<rparr>) = config_wf c oc" for oc
    by (simp add: config_wf_def generateConfigPath_def CPUConfig_finalize_def)
  then show ?thesis
    using assms
    by (auto simp: discovered_def cpu_wf_def current_listed_def CPUConfig_finalize_def list_all_iff comp_def)
qed

lemma generatePath_inj: "generatePath (unat (a - lo)) = generatePath (unat (b - lo)) \<Longrightarrow> a = (b :: u8)"
  by (auto simp: generatePath_def word_unat_eq_iff [symmetric] dest!: dec_inj)

lemma distinct_client_addresses: "distinct (client_addresses lo hi)"
proof -
  have "inj_on (word_of_nat :: nat \<Rightarrow> u8) {unat lo ..< unat hi + 1}"
  proof (rule inj_onI)
    fix a b assume "a \<in> {unat lo ..< unat hi + 1}" "b \<in> {unat lo ..< unat hi + 1}"
      and eq: "(word_of_nat a :: u8) = word_of_nat b"
    then have "a < 256" "b < 256" using unsigned_less [of hi, where ?'a = nat] by auto
    then show "a = b" using arg_cong [OF eq, of unat] by (simp add: unat_of_nat)
  qed
  then show ?thesis by (simp add: client_addresses_def distinct_map del: upt_Suc)
qed

definition published :: "u8 \<Rightarrow> CPUConfig \<Rightarrow> bool" where
  "published lo c \<longleftrightarrow> discovered lo (cpu_address c) c \<and> cpu_added c \<and> list_all oc_added (availConfigs c)"

lemma published_finalize: "discovered lo (cpu_address c) c \<Longrightarrow> published lo (CPUConfig_finalize c)"
  using discovered_finalize [of lo "cpu_address c" c]
  by (simp add: published_def CPUConfig_finalize_def list_all_iff)

lemma discover_outcome:
  assumes "discoverCPUsAndConfigs (mailbox_config L poll lo hi) fuel d = (Some (r, cpus), d')"
  shows "if r = Inr True
    then subseq (map cpu_address cpus) (client_addresses lo hi) \<and> list_all (published lo) cpus
    else cpus = []"
proof -
  obtain q d1 where run: "discover_loop (mailbox_config L poll lo hi) fuel (client_addresses lo hi) [] d = (q, d1)"
    by fastforce
  show ?thesis
  proof (cases "\<exists>l. q = Some (Inr (True, l))")
    case True
    then obtain l where q: "q = Some (Inr (True, l))" by blast
    have l: "subseq (map cpu_address l) (client_addresses lo hi)" "list_all (\<lambda>c. discovered lo (cpu_address c) c) l"
      using mailbox.discover_loop_lists [OF _ run [unfolded q]] by auto
    have "r = Inr True" "cpus = map CPUConfig_finalize l"
      using assms run q by (auto simp: discoverCPUsAndConfigs_def)
    moreover have "map cpu_address (map CPUConfig_finalize l) = map cpu_address l"
      by (simp add: CPUConfig_finalize_def)
    moreover have "list_all (published lo) (map CPUConfig_finalize l)"
      using l(2) published_finalize by (simp add: list_all_iff)
    ultimately show ?thesis using l(1) by presburger
  next
    case False
    then show ?thesis
      using assms run by (auto simp: discoverCPUsAndConfigs_def split: option.splits sum.splits prod.splits bool.splits)
  qed
qed

lemma subseq_distinct: "subseq xs ys \<Longrightarrow> distinct ys \<Longrightarrow> distinct xs"
  by (induction rule: list_emb.induct) (auto dest: list_emb_set)

lemma published_paths:
  assumes "subseq (map cpu_address cpus) (client_addresses lo hi)" and "list_all (published lo) cpus"
  shows "distinct (map cpu_path cpus)"
proof -
  have "map cpu_path cpus = map (\<lambda>a. generatePath (unat (a - lo))) (map cpu_address cpus)"
    using assms(2) by (auto simp: list_all_iff published_def discovered_def)
  moreover have "distinct (map cpu_address cpus)"
    using subseq_distinct [OF assms(1) distinct_client_addresses] .
  ultimately show ?thesis
    using generatePath_inj by (simp add: distinct_map inj_on_def)
qed

text \<open>
  C20. A discovery ends, whatever the CPUs answer: the loop over the levels, whose bound is read again
  in every round, takes at most 257 rounds.
\<close>

theorem discovery_terminates:
  "fst (discoverCPUsAndConfigs (mailbox_config L poll lo hi) (257 + n) d) \<noteq> None"
proof -
  have "fst (discover_loop (mailbox_config L poll lo hi) (257 + n) (client_addresses lo hi) [] d) \<noteq> None"
    by (rule mailbox.discover_loop_ends) simp_all
  then show ?thesis
    by (auto simp: discoverCPUsAndConfigs_def split: prod.splits option.splits sum.splits bool.splits)
qed

text \<open>
  C19. A discovery publishes complete objects or nothing. When it reports success, the objects belong to
  different client addresses in ascending order, with different paths; each is announced, lists its
  configurations in ascending order of their levels under the path of the CPU, has its current level
  among them, and no core is in both priority groups of a configuration. In all other cases nothing is
  published, not even what an earlier discovery had found.
\<close>

theorem discovery_publishes_complete:
  "case discoverCPUsAndConfigs (mailbox_config L poll lo hi) fuel d of
     (None, d') \<Rightarrow> fuel < 257
   | (Some (r, cpus), d') \<Rightarrow>
       (if r = Inr True
        then subseq (map cpu_address cpus) (client_addresses lo hi) \<and> distinct (map cpu_path cpus)
          \<and> list_all (published lo) cpus
        else cpus = [])"
proof -
  obtain q d' where run: "discoverCPUsAndConfigs (mailbox_config L poll lo hi) fuel d = (q, d')" by fastforce
  show ?thesis
  proof (cases q)
    case None
    have "fst (discover_loop (mailbox_config L poll lo hi) fuel (client_addresses lo hi) [] d) = None"
      using run None
      by (auto simp: discoverCPUsAndConfigs_def split: prod.splits option.splits sum.splits bool.splits)
    then have "\<not> 257 \<le> fuel"
      using mailbox.discover_loop_ends [of "mailbox_config L poll lo hi"] by fastforce
    then show ?thesis using run None by simp
  next
    case (Some rc)
    obtain r cpus where rc: "rc = (r, cpus)" by fastforce
    show ?thesis
      using discover_outcome [OF run [unfolded Some rc]] published_paths run Some rc by (auto split: if_splits)
  qed
qed

text \<open>
  C21. Speed Select leaves wake-on-PECI disabled. If disabling it succeeds, then after a discovery and
  after setting the applied configuration no CPU has the bit set, on every way out of them, PECI errors
  included.
\<close>

theorem wake_bit_restored:
  assumes "wake_clears L"
  shows "fst (snd (discoverCPUsAndConfigs (mailbox_config (tracked L) (tracked_poll poll) lo hi) fuel (\<lambda>_. False, d))) = (\<lambda>_. False)
    \<and> fst (snd (snd (appliedConfig_set (mailbox_config (tracked L) (tracked_poll poll) lo hi) hs val (c, \<lambda>_. False, d)))) = (\<lambda>_. False)"
proof -
  let ?C = "mailbox_config (tracked L) (tracked_poll poll) lo hi"
  have start: "session_settled L (\<lambda>_. False, d)" by (simp add: session_settled_def)
  have poll: "session_settled L (snd (cf_poll ?C s))" if "session_settled L s" for s
    using that by (cases s) (simp add: tracked_poll_def session_settled_def split: prod.split)
  have id: "session_settled L (snd (peci_GetCPUID (cf_peci ?C) i s))" if "session_settled L s" for i s
    using that by (cases s) (simp add: tracked_def session_settled_def split: prod.split)
  have "session_settled L (snd (discover_loop ?C fuel (client_addresses lo hi) [] (\<lambda>_. False, d)))"
    by (rule wake.discover_settles [OF _ _ poll id start]) simp_all
  moreover have "snd (discoverCPUsAndConfigs ?C fuel s) = snd (discover_loop ?C fuel (client_addresses lo hi) [] s)" for s
    by (auto simp: discoverCPUsAndConfigs_def split: prod.splits option.splits sum.splits bool.splits)
  moreover have "session_settled L (snd (snd (appliedConfig_set ?C hs val (c, \<lambda>_. False, d))))"
    by (rule wake.set_settles [OF _ _ start]) simp_all
  ultimately show ?thesis
    using assms by (auto simp: session_settled_def split: prod.splits)
qed

theorem wake_bit_restored_witness:
  "fst (snd (discoverCPUsAndConfigs (mailbox_config (tracked (demo_peci (\<lambda>w x. (3, 0, x)))) (tracked_poll (\<lambda>d. (postComplete, d))) 48 55)
     257 (\<lambda>_. False, sleeping_view))) = (\<lambda>_. False)"
proof -
  have "wake_clears (demo_peci (\<lambda>w x. (3, 0, x)))" by (simp add: wake_clears_def demo_peci_def checkPECIStatus_def)
  from wake_bit_restored [OF this] show ?thesis by blast
qed

subsection \<open>Reading and writing the properties of a CPU\<close>

text \<open>
  A query by an object that may not wake the CPU: two libraries that differ in the write of the
  package configuration only give the same result, and no error leaves the getter.
\<close>

lemma unwoken_query:
  assumes "same_unwoken p (p' :: (PECIManager, 'd, 'a) sst_op)"
  shows "cached_read (mailbox_config L poll lo hi) hs c (with_pm p) x d =
      cached_read (mailbox_config (L\<lparr>peci_WrPkgConfig := wk\<rparr>) poll lo hi) hs c (with_pm p') x d"
    and "\<exists>y d'. cached_read (mailbox_config L poll lo hi) hs c (with_pm p) x d = (Inr y, d')"
proof -
  let ?L' = "L\<lparr>peci_WrPkgConfig := wk\<rparr>"
  let ?s = "SSTMailbox_new (cpu_address c) (cpu_model c) dontWake"
  define pm where "pm = sm_pm ?s"
  have pol: "wakePolicy pm = dontWake" "\<not> peciWoken pm" by (simp_all add: pm_def SSTMailbox_new_def PECIManager_new_def)
  obtain r d1 where run: "p (pm, d) = (r, pm, d1)" "p' (pm, d) = (r, pm, d1)"
    using assms pol(1) unfolding same_unwoken_def by (metis fst_conv snd_conv surj_pair)
  obtain y where y: "(case r of Inl e \<Rightarrow> Inr x | Inr z \<Rightarrow> (Inr z :: PECIError + 'a)) = Inr y" by (cases r) auto
  have q: "scoped (mailbox_interface M) ?s (op_bind (sst_ready (mailbox_interface M)) (\<lambda>rdy.
      if \<not> rdy then op_return x else op_catch x (with_pm q))) d = (Inr y, d1)"
    if "q (pm, d) = (r, pm, d1)" for M q
    using that y pol
    by (cases r) (simp_all add: scoped_def op_bind_def op_return_def op_catch_def with_pm_def mailbox_interface_def
        mb_ready_def SSTMailbox_delete_def PECIManager_delete_def pm_def [symmetric])
  show "cached_read (mailbox_config L poll lo hi) hs c (with_pm p) x d =
      cached_read (mailbox_config ?L' poll lo hi) hs c (with_pm p') x d"
    "\<exists>y d'. cached_read (mailbox_config L poll lo hi) hs c (with_pm p) x d = (Inr y, d')"
    using q [of p L, OF run(1)] q [of p' ?L', OF run(2)]
    by (auto simp: cached_read_def mailbox_instance split: option.split dest!: createMailbox_new)
qed

lemma same_map: "same_unwoken p q \<Longrightarrow> same_unwoken (op_map f p) (op_map f q)"
  unfolding op_map_def by (intro same_bind same_pure)

text \<open>
  C22. Reading the properties of a CPU never wakes it and never fails: with any other behaviour of the only
  PECI command that sets the wake bit the two getters do the same, and they return a value, the cached one if
  the CPU does not answer.
\<close>

theorem getters_never_wake:
  "appliedConfig_get (mailbox_config L poll lo hi) hs (c, d) =
     appliedConfig_get (mailbox_config (L\<lparr>peci_WrPkgConfig := wk\<rparr>) poll lo hi) hs (c, d)
   \<and> baseSpeedPriorityEnabled_get (mailbox_config L poll lo hi) hs (c, d) =
     baseSpeedPriorityEnabled_get (mailbox_config (L\<lparr>peci_WrPkgConfig := wk\<rparr>) poll lo hi) hs (c, d)
   \<and> \<not> isl (fst (appliedConfig_get (mailbox_config L poll lo hi) hs (c, d)))
   \<and> \<not> isl (fst (baseSpeedPriorityEnabled_get (mailbox_config L poll lo hi) hs (c, d)))"
proof -
  let ?L' = "L\<lparr>peci_WrPkgConfig := wk\<rparr>"
  have level: "same_unwoken (op_map currentConfigTdpLevel (GetLevelsInfo L)) (op_map currentConfigTdpLevel (GetLevelsInfo ?L'))"
    unfolding GetLevelsInfo_def by (intro same_map same_command)
  have bf: "same_unwoken (op_map pbfEnabled (GetConfigTdpControl L Throw l)) (op_map pbfEnabled (GetConfigTdpControl ?L' Throw l))" for l
    unfolding GetConfigTdpControl_def by (intro same_map same_command)
  have ops: "sst_currentLevel (mailbox_interface M) = with_pm (op_map currentConfigTdpLevel (GetLevelsInfo M))"
    "sst_bfEnabled (mailbox_interface M) l = with_pm (op_map pbfEnabled (GetConfigTdpControl M Throw (ucast l)))" for M :: "'a peci" and l
    by (simp_all add: mailbox_interface_def mb_currentLevel_def mb_bfEnabled_def)
  obtain y d1 where q1: "cached_read (mailbox_config L poll lo hi) hs c (with_pm (op_map currentConfigTdpLevel (GetLevelsInfo L)))
      (cpu_currentLevel c) d = (Inr y, d1)" using unwoken_query(2) [OF level] by blast
  obtain z d2 where q2: "cached_read (mailbox_config L poll lo hi) hs c
      (with_pm (op_map pbfEnabled (GetConfigTdpControl L Throw (ucast (cpu_currentLevel c))))) (cpu_bfEnabled c) d = (Inr z, d2)"
    using unwoken_query(2) [OF bf] by blast
  show ?thesis
    using q1 q2 unwoken_query(1) [OF level, of L poll lo hi hs c "cpu_currentLevel c" d wk]
      unwoken_query(1) [OF bf, of L poll lo hi hs c "ucast (cpu_currentLevel c)" "cpu_bfEnabled c" d wk]
    by (simp add: appliedConfig_get_def baseSpeedPriorityEnabled_get_def ops)
qed

lemma find_config_some:
  "find_config val cs found = Some oc \<Longrightarrow> oc \<in> set cs \<and> oc_path oc = val \<or> found = Some oc"
  by (induction val cs found rule: find_config.induct) (auto split: if_splits)

lemma find_config_none: "find_config val cs found = None \<longleftrightarrow> found = None \<and> val \<notin> set (map oc_path cs)"
  by (induction cs arbitrary: found) auto

lemma set_checked_mailbox:
  "set_checked (mailbox_interface L) hs level (m, d) =
     (if \<not> mb_supportsControl m then (Inr (Some NotAllowed), m, d)
      else if hs \<noteq> postComplete then (Inr (Some Unavailable), m, d)
      else op_map (\<lambda>_. None) (mb_setCurrentLevel L level) (m, d))"
  by (simp add: set_checked_def setPropertyCheckOrThrow_def op_bind_def op_return_def mailbox_interface_def mb_ready_def)

text \<open>
  What setting a level does to the device. Clearing the wake bit, which ends the session, leaves the
  registers of the mailbox alone; the package may sleep again.
\<close>

definition sleep_keeps_registers :: "'d peci \<Rightarrow> ('d \<Rightarrow> mailbox_view) \<Rightarrow> bool" where
  "sleep_keeps_registers L view \<longleftrightarrow> (\<forall>address d r d'. peci_WrPkgConfig L address 5 0 0 d = (r, d') \<longrightarrow>
     mv_interface (view d') = mv_interface (view d) \<and> mv_data (view d') = mv_data (view d))"

lemma deleted_registers:
  assumes "sleep_keeps_registers L view"
  shows "mv_interface (view (SSTMailbox_delete L (m, d))) = mv_interface (view d)
    \<and> mv_data (view (SSTMailbox_delete L (m, d))) = mv_data (view d)"
proof (cases "peci_WrPkgConfig L (peciAddress (sm_pm m)) 5 0 0 d")
  case (Pair r d')
  with assms show ?thesis
    unfolding sleep_keeps_registers_def
    by (cases r) (auto simp: SSTMailbox_delete_def PECIManager_delete_def setWakeOnPECI_def op_throw_def op_return_def)
qed

text \<open>The request a level is set with, to a device that answers \<open>intf\<close> and \<open>out\<close> after \<open>lag\<close> reads.\<close>

definition level_answer :: "pcode \<Rightarrow> u32 \<Rightarrow> nat \<Rightarrow> u32 \<Rightarrow> u32 \<Rightarrow> bool" where
  "level_answer reply level lag intf out \<longleftrightarrow> reply 0x8000087F level = (lag, intf, out)
     \<and> lag < mbRetries \<and> intf AND mbBusyBit = 0"

lemma setCurrentLevel_view:
  assumes "os_mailbox L view reply" and "wakePolicy (sm_pm m) = wakeAllowed"
    and "mv_interface (view d) AND mbBusyBit = 0" and "level_answer reply level lag intf out"
    and "unat level < 256" and "mb_setCurrentLevel L level (m, d) = (r, m', d')"
  shows "if mbRetries \<le> mv_busy (view d) then isl r \<and> mv_data (view d') = mv_data (view d)
    else (isl r \<longleftrightarrow> intf AND 0xFF \<noteq> 0) \<and> mv_interface (view d') = intf \<and> mv_data (view d') = out"
proof -
  have param: "command_param (ucast level) 0 0 0 = level"
  proof -
    have "(ucast (ucast level :: u8) :: u32) = level"
      using assms(5) by (simp add: word_unat_eq_iff unsigned_ucast_eq unsigned_take_bit_eq take_bit_nat_eq_self)
    then show ?thesis by (simp add: command_param_def)
  qed
  have req: "request_word 0x7F 0x8 = 0x8000087F" by (simp add: request_word_def mbBusyBit_def)
  have acc: "accessible (sm_pm m) (view d)" using assms(2) by (simp add: accessible_def)
  note run = assms(6) [unfolded mb_setCurrentLevel_def SetLevel_def OsMailboxCommand_new_def param]
  show ?thesis
  proof (cases "mbRetries \<le> mv_busy (view d)")
    case True
    then show ?thesis
      using run sendPECIOSMailboxCmd_busy [OF assms(1) acc assms(3) True, of "0x7F" "0x8" level False]
      by (auto simp: with_pm_def op_map_def op_bind_def op_return_def roused_def)
  next
    case False
    then have "mv_busy (view d) < mbRetries" by simp
    from sendPECIOSMailboxCmd_view [OF assms(1) acc assms(3) this, of "0x7F" "0x8" level lag intf out False]
      assms(4) False run
    show ?thesis
      by (auto simp: req level_answer_def with_pm_def op_map_def op_bind_def op_return_def split: if_splits)
  qed
qed

text \<open>The mailbox object that the setter makes.\<close>

lemma setter_mailbox:
  "getInstance mailbox_providers a cm wakeAllowed =
     (if cm \<in> {iceLake, iceLakeD, sapphireRapids, emeraldRapids} then Some (SSTMailbox_new a cm wakeAllowed) else None)"
  "mb_supportsControl (SSTMailbox_new a cm wakeAllowed) \<longleftrightarrow> cm \<in> {sapphireRapids, emeraldRapids}"
  "SSTMailbox_delete L (SSTMailbox_new a cm wakeAllowed, d) = d"
  "wakePolicy (sm_pm (SSTMailbox_new a cm wakeAllowed)) = wakeAllowed"
  by (cases cm; simp add: mailbox_instance createMailbox_def mb_supportsControl_def SSTMailbox_new_def
      PECIManager_new_def SSTMailbox_delete_def PECIManager_delete_def)+

lemma sst_delete_mailbox: "sst_delete (mailbox_interface L) = SSTMailbox_delete L"
  by (simp add: mailbox_interface_def)

lemmas set_eqs = appliedConfig_set_def scoped_def set_checked_mailbox op_map_def op_bind_def op_return_def
  sst_delete_mailbox setter_mailbox

text \<open>
  C24. Setting the applied configuration of a published CPU. A path that is not one of its configurations is an
  invalid argument; a model without control is not allowed, and before the end of POST the
  operation is unavailable; all these leave the object and the device as they are. Otherwise the
  level of the configuration with that path is sent to the CPU. If that is a write failure, nothing of the object
  changes; if not, the object has that level, and the getter returns the path while the host is off.
  What reaches a CPU that follows the mailbox protocol and keeps its registers when it may sleep again:
  if the mailbox stays busy for ten reads it is a write failure and the data register is
  not written; else the command 0x7F with the subcommand 8 and the level as its data has been started, the
  registers hold its answer, and the operation succeeds exactly when the status in that answer is zero.
\<close>

theorem set_applied_config:
  assumes "cpu_wf c"
  shows "case appliedConfig_set (mailbox_config L poll lo hi) hs val (c, d) of (r, c', d') \<Rightarrow>
    if val \<notin> set (map oc_path (availConfigs c)) then r = Inl InvalidArgument \<and> c' = c \<and> d' = d
    else if cpu_model c \<notin> {iceLake, iceLakeD, sapphireRapids, emeraldRapids} then r = Inr [] \<and> c' = c \<and> d' = d
    else if cpu_model c \<in> {iceLake, iceLakeD} then r = Inl NotAllowed \<and> c' = c \<and> d' = d
    else if hs \<noteq> postComplete then r = Inl Unavailable \<and> c' = c \<and> d' = d
    else \<exists>level \<in> set (map oc_level (availConfigs c)). generateConfigPath c level = val
      \<and> (r = Inl WriteFailure \<and> c' = c \<or>
         r = Inr [] \<and> c' = c\<lparr>cpu_currentLevel := level\<rparr>
           \<and> appliedConfig_get (mailbox_config L poll lo hi) host_off (c', d') = (Inr val, c', d'))
      \<and> (\<forall>view reply lag intf out. os_mailbox L view reply \<and> sleep_keeps_registers L view
            \<and> mv_interface (view d) AND mbBusyBit = 0 \<and> level_answer reply level lag intf out \<longrightarrow>
          (if mbRetries \<le> mv_busy (view d)
           then r = Inl WriteFailure \<and> mv_data (view d') = mv_data (view d)
           else r = (if intf AND 0xFF = 0 then Inr [] else Inl WriteFailure)
             \<and> mv_interface (view d') = intf \<and> mv_data (view d') = out))"
proof (cases "find_config val (availConfigs c) None")
  case None
  then show ?thesis using find_config_none [of val "availConfigs c" None] by (simp add: appliedConfig_set_def)
next
  case (Some oc)
  then have oc: "oc \<in> set (availConfigs c)" "oc_path oc = val" using find_config_some by fastforce+
  then have path: "generateConfigPath c (oc_level oc) = val" and small: "unat (oc_level oc) < 256"
    using assms by (auto simp: cpu_wf_def config_wf_def list_all_iff)
  let ?s = "SSTMailbox_new (cpu_address c) (cpu_model c) wakeAllowed"
  have reads: "appliedConfig_get (mailbox_config L poll lo hi) host_off (c\<lparr>cpu_currentLevel := oc_level oc\<rparr>, d') =
      (Inr val, c\<lparr>cpu_currentLevel := oc_level oc\<rparr>, d')" for d'
    using path by (simp add: appliedConfig_get_def cached_read_def generateConfigPath_def)
  obtain r m' d' where run: "mb_setCurrentLevel L (oc_level oc) (?s, d) = (r, m', d')" by (metis surj_pair)
  have found: "val \<in> set (map oc_path (availConfigs c))" and lev: "oc_level oc \<in> set (map oc_level (availConfigs c))"
    using oc by auto
  show ?thesis
  proof (cases "cpu_model c \<in> {sapphireRapids, emeraldRapids} \<and> hs = postComplete")
    case False
    then show ?thesis
      using Some found by (auto simp: set_eqs)
  next
    case True
    have res: "appliedConfig_set (mailbox_config L poll lo hi) hs val (c, d) =
        (if isl r then Inl WriteFailure else Inr [], if isl r then c else c\<lparr>cpu_currentLevel := oc_level oc\<rparr>,
         SSTMailbox_delete L (m', d'))"
      using True Some run by (cases r) (auto simp: set_eqs)
    define r' d1 where "r' = (if isl r then Inl WriteFailure else Inr [] :: dbus_error + string)"
      and "d1 = SSTMailbox_delete L (m', d')"
    have sent: "if mbRetries \<le> mv_busy (view d) then r' = Inl WriteFailure \<and> mv_data (view d1) = mv_data (view d)
        else r' = (if intf AND 0xFF = 0 then Inr [] else Inl WriteFailure)
          \<and> mv_interface (view d1) = intf \<and> mv_data (view d1) = out"
      if "os_mailbox L view reply" "sleep_keeps_registers L view" "mv_interface (view d) AND mbBusyBit = 0"
        "level_answer reply (oc_level oc) lag intf out" for view reply lag intf out
      using setCurrentLevel_view [OF that(1) setter_mailbox(4) that(3,4) small run] deleted_registers [OF that(2), of m' d']
      by (auto simp: r'_def d1_def)
    have outcome: "r' = Inl WriteFailure \<and> (if isl r then c else c\<lparr>cpu_currentLevel := oc_level oc\<rparr>) = c \<or>
        r' = Inr [] \<and> (if isl r then c else c\<lparr>cpu_currentLevel := oc_level oc\<rparr>) = c\<lparr>cpu_currentLevel := oc_level oc\<rparr>
          \<and> appliedConfig_get (mailbox_config L poll lo hi) host_off
              (if isl r then c else c\<lparr>cpu_currentLevel := oc_level oc\<rparr>, d1) =
            (Inr val, if isl r then c else c\<lparr>cpu_currentLevel := oc_level oc\<rparr>, d1)"
      using reads [of d1] by (simp add: r'_def)
    have conds: "\<not> val \<notin> set (map oc_path (availConfigs c))"
      "\<not> cpu_model c \<notin> {iceLake, iceLakeD, sapphireRapids, emeraldRapids}"
      "\<not> cpu_model c \<in> {iceLake, iceLakeD}" "\<not> hs \<noteq> postComplete"
      using True found by auto
    show ?thesis
      unfolding res r'_def [symmetric] d1_def [symmetric] prod.case if_not_P [OF conds(1)] if_not_P [OF conds(2)]
        if_not_P [OF conds(3)] if_not_P [OF conds(4)]
      by (intro bexI [OF _ lev] conjI allI impI path outcome sent) blast+
  qed
qed

definition demo_cpu :: CPUConfig where
  "demo_cpu = (CPUConfig_new 48 1 sapphireRapids 0 False)\<lparr>
     availConfigs := [newConfig (CPUConfig_new 48 1 sapphireRapids 0 False) 0, newConfig (CPUConfig_new 48 1 sapphireRapids 0 False) 3]\<rparr>"

lemma demo_cpu_facts:
  "cpu_wf demo_cpu" "generateConfigPath demo_cpu 3 \<in> set (map oc_path (availConfigs demo_cpu))" "cpu_model demo_cpu = sapphireRapids"
  by (simp_all add: demo_cpu_def cpu_wf_def config_wf_def newConfig_def OperatingConfig_new_def generateConfigPath_def
      CPUConfig_new_def disjoint_priorities_def)

lemma demo_level: "level \<in> set (map oc_level (availConfigs demo_cpu)) \<Longrightarrow>
    generateConfigPath demo_cpu level = generateConfigPath demo_cpu 3 \<Longrightarrow> level = 3"
  by (auto simp: demo_cpu_def newConfig_def OperatingConfig_new_def generateConfigPath_def dec.simps digit.simps)

theorem set_applied_config_witness:
  "\<exists>d'. appliedConfig_set (mailbox_config (demo_peci (\<lambda>w x. (3, 0, x + 1))) (\<lambda>d. (postComplete, d)) 48 55) postComplete
     (generateConfigPath demo_cpu 3) (demo_cpu, sleeping_view) = (Inr [], demo_cpu\<lparr>cpu_currentLevel := 3\<rparr>, d')
     \<and> mv_data d' = 4"
proof -
  obtain r c' d' where run: "appliedConfig_set (mailbox_config (demo_peci (\<lambda>w x. (3, 0, x + 1))) (\<lambda>d. (postComplete, d)) 48 55)
      postComplete (generateConfigPath demo_cpu 3) (demo_cpu, sleeping_view) = (r, c', d')"
    by (metis surj_pair)
  have calm: "sleep_keeps_registers (demo_peci reply) id" for reply
    by (auto simp: sleep_keeps_registers_def demo_peci_def)
  have answer: "level_answer (\<lambda>w x. (3, 0, x + 1)) 3 3 0 4"
    by (simp add: level_answer_def mbRetries_def)
  have conds: "\<not> generateConfigPath demo_cpu 3 \<notin> set (map oc_path (availConfigs demo_cpu))"
    "\<not> cpu_model demo_cpu \<notin> {iceLake, iceLakeD, sapphireRapids, emeraldRapids}"
    "\<not> cpu_model demo_cpu \<in> {iceLake, iceLakeD}" "\<not> postComplete \<noteq> postComplete"
    using demo_cpu_facts(2,3) by auto
  note spec = set_applied_config [OF demo_cpu_facts(1), where L = "demo_peci (\<lambda>w x. (3, 0, x + 1))"
      and poll = "\<lambda>d. (postComplete, d)" and lo = 48 and hi = 55 and hs = postComplete
      and val = "generateConfigPath demo_cpu 3" and d = sleeping_view, unfolded run prod.case
      if_not_P [OF conds(1)] if_not_P [OF conds(2)] if_not_P [OF conds(3)] if_not_P [OF conds(4)]]
  then obtain level where level: "level \<in> set (map oc_level (availConfigs demo_cpu))"
      "generateConfigPath demo_cpu level = generateConfigPath demo_cpu 3"
    and out: "r = Inl WriteFailure \<and> c' = demo_cpu \<or> r = Inr [] \<and> c' = demo_cpu\<lparr>cpu_currentLevel := level\<rparr>"
    and sent: "os_mailbox (demo_peci (\<lambda>w x. (3, 0, x + 1))) id (\<lambda>w x. (3, 0, x + 1))
        \<and> sleep_keeps_registers (demo_peci (\<lambda>w x. (3, 0, x + 1))) id
        \<and> mv_interface (id sleeping_view) AND mbBusyBit = 0 \<and> level_answer (\<lambda>w x. (3, 0, x + 1)) level 3 0 4 \<longrightarrow>
      (if mbRetries \<le> mv_busy (id sleeping_view)
       then r = Inl WriteFailure \<and> mv_data (id d') = mv_data (id sleeping_view)
       else r = (if (0 :: u32) AND 0xFF = 0 then Inr [] else Inl WriteFailure)
         \<and> mv_interface (id d') = 0 \<and> mv_data (id d') = 4)"
    by blast
  have l: "level = 3" by (rule demo_level [OF level])
  have "r = Inr [] \<and> mv_data d' = 4"
    using sent demo_mailbox calm answer by (simp add: l sleeping_view_def mbRetries_def)
  then show ?thesis using run out l by auto
qed

subsection \<open>Retries\<close>

text \<open>The timer goes off \<open>k\<close> times.\<close>

fun retries :: "('s, 'd) sst_config \<Rightarrow> nat \<Rightarrow> nat \<Rightarrow> sst_state \<times> 'd \<Rightarrow> (sst_state \<times> 'd) option" where
  "retries C fuel 0 s = Some s"
| "retries C fuel (Suc k) s = Option.bind (retries C fuel k s) (retryTimer_handler C fuel False)"

lemma discoverOrWait_fails:
  assumes "discoverCPUsAndConfigs C fuel d = (Some (Inl e, cpus), d')"
  shows "discoverOrWait C fuel (st, d) = Some (st\<lparr>sst_cpus := cpus, peciErrorCount := peciErrorCount st + 1,
    retryArmed := (peciErrorCount st + 1 < 50)\<rparr>, d')"
  using assms by (simp add: discoverOrWait_def Let_def)

text \<open>
  C27. A discovery that always fails is given up: it is started when the host leaves the state \<open>off\<close>, the timer
  is set again after each of the first 49 failures, and after the 50th there is no further retry.
\<close>

theorem retries_stop:
  assumes "\<forall>d. \<exists>e cpus d'. discoverCPUsAndConfigs C fuel d = (Some (Inl e, cpus), d')" and "k < 50"
  shows "\<exists>st d'. Option.bind (hostStateHandler C fuel host_off newState (Some (sst_start, d))) (retries C fuel k) = Some (st, d')
    \<and> peciErrorCount st = k + 1 \<and> (retryArmed st \<longleftrightarrow> k < 49)"
  using assms(2)
proof (induction k)
  case 0
  obtain e cpus d' where "discoverCPUsAndConfigs C fuel d = (Some (Inl e, cpus), d')" using assms(1) by blast
  from discoverOrWait_fails [OF this, of sst_start] show ?case by (simp add: hostStateHandler_def sst_start_def)
next
  case (Suc k)
  then obtain st d1 where st: "Option.bind (hostStateHandler C fuel host_off newState (Some (sst_start, d))) (retries C fuel k) = Some (st, d1)"
    "peciErrorCount st = k + 1" by auto
  obtain e cpus d' where "discoverCPUsAndConfigs C fuel d1 = (Some (Inl e, cpus), d')" using assms(1) by blast
  note again = discoverOrWait_fails [OF this, of "st\<lparr>retryArmed := False\<rparr>"]
  have "Option.bind (hostStateHandler C fuel host_off newState (Some (sst_start, d))) (retries C fuel (Suc k)) =
      retryTimer_handler C fuel False (st, d1)"
    using st(1) by (cases "hostStateHandler C fuel host_off newState (Some (sst_start, d))") simp_all
  also have "\<dots> = Some (st\<lparr>sst_cpus := cpus, peciErrorCount := k + 2, retryArmed := k + 2 < 50\<rparr>, d')"
    using again st(2) by (simp add: retryTimer_handler_def)
  finally have "Option.bind (hostStateHandler C fuel host_off newState (Some (sst_start, d))) (retries C fuel (Suc k)) =
      Some (st\<lparr>sst_cpus := cpus, peciErrorCount := k + 2, retryArmed := k + 2 < 50\<rparr>, d')" .
  then show ?case
    by (intro exI [of _ "st\<lparr>sst_cpus := cpus, peciErrorCount := k + 2, retryArmed := k + 2 < 50\<rparr>"] exI [of _ d'])
      (simp del: retries.simps)
qed

definition mute_peci :: "mailbox_view peci" where
  "mute_peci = (demo_peci (\<lambda>w x. (0, 0, x)))\<lparr>peci_GetCPUID := (\<lambda>a d. ((PECI_CC_TIMEOUT, 0, iceLake), d))\<rparr>"

theorem retries_stop_witness:
  "\<exists>st d'. Option.bind (hostStateHandler (mailbox_config mute_peci (\<lambda>d. (postInProgress, d)) 48 55) 257 host_off postInProgress
       (Some (sst_start, sleeping_view))) (retries (mailbox_config mute_peci (\<lambda>d. (postInProgress, d)) 48 55) 257 49) = Some (st, d')
     \<and> peciErrorCount st = 50 \<and> \<not> retryArmed st"
proof -
  have addrs: "client_addresses 48 55 = 48 # client_addresses 49 55"
    by (simp add: client_addresses_def upt_rec)
  have "\<forall>d. \<exists>e cpus d'. discoverCPUsAndConfigs (mailbox_config mute_peci (\<lambda>d. (postInProgress, d)) 48 55) 257 d = (Some (Inl e, cpus), d')"
    by (simp add: discoverCPUsAndConfigs_def addrs mute_peci_def)
  from retries_stop [OF this, of 49 postInProgress sleeping_view] show ?thesis by auto
qed

subsection \<open>The published objects\<close>

text \<open>
  What can happen to the objects: the timer, a change of the host state, and the D-Bus requests on a
  published CPU.
\<close>

inductive sst_step ::
  "(SSTMailbox, 'd) sst_config \<Rightarrow> sst_state \<times> 'd \<Rightarrow> sst_state \<times> 'd \<Rightarrow> bool"
  for C
where
  timer: "retryArmed st \<Longrightarrow> retryTimer_handler C 257 ec (st, d) = Some s' \<Longrightarrow> sst_step C (st, d) s'"
| host_change: "hostStateHandler C 257 prevState newState (Some (st, d)) = Some s' \<Longrightarrow> sst_step C (st, d) s'"
| get_applied: "i < length (sst_cpus st) \<Longrightarrow> appliedConfig_get C hs (sst_cpus st ! i, d) = (r, c', d') \<Longrightarrow>
    sst_step C (st, d) (st\<lparr>sst_cpus := (sst_cpus st)[i := c']\<rparr>, d')"
| get_priority: "i < length (sst_cpus st) \<Longrightarrow> baseSpeedPriorityEnabled_get C hs (sst_cpus st ! i, d) = (r, c', d') \<Longrightarrow>
    sst_step C (st, d) (st\<lparr>sst_cpus := (sst_cpus st)[i := c']\<rparr>, d')"
| set_applied: "i < length (sst_cpus st) \<Longrightarrow> appliedConfig_set C hs val (sst_cpus st ! i, d) = (r, c', d') \<Longrightarrow>
    sst_step C (st, d) (st\<lparr>sst_cpus := (sst_cpus st)[i := c']\<rparr>, d')"
| set_priority: "i < length (sst_cpus st) \<Longrightarrow> baseSpeedPriorityEnabled_set v (sst_cpus st ! i, d) = (r, c', d') \<Longrightarrow>
    sst_step C (st, d) (st\<lparr>sst_cpus := (sst_cpus st)[i := c']\<rparr>, d')"

inductive_cases sst_stepE: "sst_step C s s'"

definition object_ok :: "u8 \<Rightarrow> CPUConfig \<Rightarrow> bool" where
  "object_ok lo c \<longleftrightarrow> cpu_wf c \<and> cpu_added c \<and> list_all oc_added (availConfigs c) \<and> availConfigs c \<noteq> []
     \<and> cpu_path c = generatePath (unat (cpu_address c - lo))"

lemma object_ok_update [simp]:
  "object_ok lo (c\<lparr>cpu_currentLevel := l\<rparr>) = object_ok lo c" "object_ok lo (c\<lparr>cpu_bfEnabled := b\<rparr>) = object_ok lo c"
  by (simp_all add: object_ok_def cpu_wf_def config_wf_def [abs_def] generateConfigPath_def)

lemma published_object: "published lo c \<Longrightarrow> object_ok lo c"
  by (auto simp: published_def discovered_def object_ok_def current_listed_def)

definition sst_inv :: "u8 \<Rightarrow> u8 \<Rightarrow> sst_state \<times> 'd \<Rightarrow> bool" where
  "sst_inv lo hi = (\<lambda>(st, d). list_all (object_ok lo) (sst_cpus st) \<and> (retryArmed st \<longrightarrow> sst_cpus st = [])
     \<and> subseq (map cpu_address (sst_cpus st)) (client_addresses lo hi))"

lemma discoverOrWait_inv:
  assumes "discoverOrWait (mailbox_config L poll lo hi) 257 (st, d) = Some s'"
  shows "sst_inv lo hi s'"
proof -
  obtain q d' where run: "discoverCPUsAndConfigs (mailbox_config L poll lo hi) 257 d = (q, d')" by fastforce
  show ?thesis
  proof (cases q)
    case (Some rc)
    obtain r cpus where rc: "rc = (r, cpus)" by fastforce
    show ?thesis
      using assms run discover_outcome [OF run [unfolded Some rc]] published_object
      by (auto simp: discoverOrWait_def Some rc Let_def sst_inv_def list_all_iff split: sum.splits if_splits)
  qed (use assms run in \<open>simp add: discoverOrWait_def\<close>)
qed

lemma sst_inv_object:
  assumes "sst_inv lo hi (st, d)" and "i < length (sst_cpus st)"
    and "object_ok lo (sst_cpus st ! i) \<Longrightarrow> object_ok lo c'" and "cpu_address c' = cpu_address (sst_cpus st ! i)"
  shows "sst_inv lo hi (st\<lparr>sst_cpus := (sst_cpus st)[i := c']\<rparr>, d')"
proof -
  have "map cpu_address ((sst_cpus st)[i := c']) = map cpu_address (sst_cpus st)"
    using assms(2,4) by (simp add: map_update list_update_same_conv)
  moreover have "object_ok lo c'" using assms(1-3) by (auto simp: sst_inv_def list_all_length)
  then have "list_all (object_ok lo) ((sst_cpus st)[i := c'])"
    using assms(1,2) by (auto simp: sst_inv_def list_all_length nth_list_update)
  ultimately show ?thesis using assms(1,2) by (auto simp: sst_inv_def)
qed

lemma objects_kept:
  "appliedConfig_get C hs (c, d) = (r, c', d') \<Longrightarrow> \<exists>l. c' = c\<lparr>cpu_currentLevel := l\<rparr>"
  "baseSpeedPriorityEnabled_get C hs (c, d) = (q, c', d') \<Longrightarrow> \<exists>b. c' = c\<lparr>cpu_bfEnabled := b\<rparr>"
  "appliedConfig_set C hs val (c, d) = (w, c', d') \<Longrightarrow> \<exists>l. c' = c\<lparr>cpu_currentLevel := l\<rparr>"
proof -
  have same: "\<exists>l. c = c\<lparr>cpu_currentLevel := l\<rparr>" "\<exists>b. c = c\<lparr>cpu_bfEnabled := b\<rparr>"
    by (rule exI [of _ "cpu_currentLevel c"], simp, rule exI [of _ "cpu_bfEnabled c"], simp)
  show "appliedConfig_get C hs (c, d) = (r, c', d') \<Longrightarrow> \<exists>l. c' = c\<lparr>cpu_currentLevel := l\<rparr>"
    "baseSpeedPriorityEnabled_get C hs (c, d) = (q, c', d') \<Longrightarrow> \<exists>b. c' = c\<lparr>cpu_bfEnabled := b\<rparr>"
    "appliedConfig_set C hs val (c, d) = (w, c', d') \<Longrightarrow> \<exists>l. c' = c\<lparr>cpu_currentLevel := l\<rparr>"
    using same by (auto simp: appliedConfig_get_def baseSpeedPriorityEnabled_get_def appliedConfig_set_def
        split: prod.splits sum.splits option.splits)
qed

lemma sst_step_inv:
  assumes "sst_inv lo hi s" and "sst_step (mailbox_config L poll lo hi) s s'"
  shows "sst_inv lo hi s'"
  using assms(2)
proof cases
  case (timer st ec d)
  show ?thesis
  proof (cases ec)
    case True
    then show ?thesis using timer assms(1) by (auto simp: retryTimer_handler_def sst_inv_def)
  next
    case False
    then show ?thesis
      using timer(3) discoverOrWait_inv [of L poll lo hi "st\<lparr>retryArmed := False\<rparr>" d s'] by (simp add: retryTimer_handler_def)
  qed
next
  case (host_change prevState newState st d)
  then show ?thesis
    using assms(1) discoverOrWait_inv [of L poll lo hi st d s'] by (auto simp: hostStateHandler_def split: if_splits)
next
  case (get_applied i st hs d r c' d')
  from objects_kept(1) [OF get_applied(4)] show ?thesis
    unfolding get_applied(2) by (intro sst_inv_object [OF assms(1) [unfolded get_applied(1)] get_applied(3)]) auto
next
  case (get_priority i st hs d r c' d')
  from objects_kept(2) [OF get_priority(4)] show ?thesis
    unfolding get_priority(2) by (intro sst_inv_object [OF assms(1) [unfolded get_priority(1)] get_priority(3)]) auto
next
  case (set_applied i st hs val d r c' d')
  from objects_kept(3) [OF set_applied(4)] show ?thesis
    unfolding set_applied(2) by (intro sst_inv_object [OF assms(1) [unfolded set_applied(1)] set_applied(3)]) auto
next
  case (set_priority i st v d r c' d')
  then have "c' = sst_cpus st ! i" by (simp add: baseSpeedPriorityEnabled_set_def)
  then show ?thesis
    unfolding set_priority(2) by (intro sst_inv_object [OF assms(1) [unfolded set_priority(1)] set_priority(3)]) auto
qed

definition sst_initial :: "sst_state \<times> 'd \<Rightarrow> bool" where
  "sst_initial s \<longleftrightarrow> fst s = sst_start"

interpretation sst: machine_invariant sst_initial "sst_step (mailbox_config L poll lo hi)" "sst_inv lo hi" for L poll lo hi
proof
  show "sst_inv lo hi s" if "sst_initial s" for s :: "sst_state \<times> 'a"
    using that by (cases s) (simp add: sst_initial_def sst_inv_def sst_start_def)
  show "sst_inv lo hi s'" if "sst_inv lo hi s" and "sst_step (mailbox_config L poll lo hi) s s'" for s s'
    using that by (rule sst_step_inv)
qed

text \<open>
  C23. At every moment the published CPUs are complete: each has at least one configuration, all of them well
  formed and announced, in ascending order of their levels, its path is the one of its address, no two
  have the same path, and while a retry is pending nothing is published.
\<close>

theorem sst_objects_complete:
  assumes "reachable sst_initial (sst_step (mailbox_config L poll lo hi)) (st, d)"
  shows "list_all (object_ok lo) (sst_cpus st) \<and> distinct (map cpu_path (sst_cpus st))
    \<and> (retryArmed st \<longrightarrow> sst_cpus st = [])"
proof -
  have inv: "sst_inv lo hi (st, d)" by (rule sst.reachable_inv [OF assms])
  have "map cpu_path (sst_cpus st) = map (\<lambda>a. generatePath (unat (a - lo))) (map cpu_address (sst_cpus st))"
    using inv by (auto simp: sst_inv_def list_all_iff object_ok_def)
  moreover have "distinct (map cpu_address (sst_cpus st))"
    using inv subseq_distinct [OF _ distinct_client_addresses] by (auto simp: sst_inv_def)
  ultimately have "distinct (map cpu_path (sst_cpus st))"
    using generatePath_inj by (simp add: distinct_map inj_on_def)
  then show ?thesis using inv by (simp add: sst_inv_def)
qed

theorem sst_objects_complete_witness:
  "\<exists>st d. reachable sst_initial (sst_step (mailbox_config mute_peci (\<lambda>d. (postInProgress, d)) 48 55)) (st, d)
     \<and> retryArmed st \<and> sst_cpus st = []"
proof -
  let ?C = "mailbox_config mute_peci (\<lambda>d. (postInProgress, d)) 48 55"
  have addrs: "client_addresses 48 55 = 48 # client_addresses 49 55"
    by (simp add: client_addresses_def upt_rec)
  obtain st where st: "hostStateHandler ?C 257 host_off postInProgress (Some (sst_start, sleeping_view)) = Some (st, sleeping_view)"
    "retryArmed st"
    by (simp add: hostStateHandler_def discoverOrWait_def discoverCPUsAndConfigs_def addrs mute_peci_def sst_start_def Let_def)
  have "reachable sst_initial (sst_step ?C) (sst_start, sleeping_view)"
    by (rule reach_init) (simp add: sst_initial_def)
  then have r: "reachable sst_initial (sst_step ?C) (st, sleeping_view)"
    by (rule reach_step) (rule host_change [OF st(1)])
  from sst_objects_complete [OF r] show ?thesis using r st(2) by blast
qed

end
