(* ===== verification/Cpu_Info.thy ===== *)
theory Cpu_Info
  imports Speed_Control Inventory_Board
begin

text \<open>
  The CPU info daemon, \<open>src/cpuinfo_main.cpp\<close> and \<open>include/cpuinfo.hpp\<close>: reading the specification
  string of a CPU from its PIROM with confirmation and retries, the properties it sets on
  the objects of the SMBIOS agent, the protected processor inventory number, and the configuration it starts from.

  The I2C calls of the C library and the PECI library are parameters over an abstract device. The
  state of the daemon has its static variables, the timers that are pending, and the D-Bus calls it
  has made, in order; a handler takes the state with the device.
\<close>

unbundle bit_operations_syntax

subsection \<open>The specification string\<close>

text \<open>The file descriptor, the answers of the two \<open>ioctl\<close> calls and the bytes are as the C library returns them.\<close>

record 'd i2c =
  i2c_open :: "string \<Rightarrow> 'd \<Rightarrow> int \<times> 'd"
  i2c_funcs :: "int \<Rightarrow> 'd \<Rightarrow> (int \<times> u64) \<times> 'd"
  I2C_FUNC_SMBUS_READ_BYTE_DATA :: u64
  i2c_slave_force :: "int \<Rightarrow> u8 \<Rightarrow> 'd \<Rightarrow> int \<times> 'd"
  i2c_smbus_read_byte_data :: "int \<Rightarrow> u8 \<Rightarrow> 'd \<Rightarrow> int \<times> 'd"
  i2c_close :: "int \<Rightarrow> 'd \<Rightarrow> 'd"

definition sspecRegAddr :: u8 where "sspecRegAddr = 0xd"

definition sspecSize :: nat where "sspecSize = 6"

definition defaultI2cBus :: u8 where "defaultI2cBus = 13"

definition defaultI2cSlaveAddr0 :: u8 where "defaultI2cSlaveAddr0 = 0x50"

function sspec_loop ::
  "'d i2c \<Rightarrow> int \<Rightarrow> u8 \<Rightarrow> nat \<Rightarrow> nat \<Rightarrow> string \<Rightarrow> 'd \<Rightarrow> string option \<times> 'd"
where
  "sspec_loop B fd regAddr count i sspec d =
     (if i < count
      then case i2c_smbus_read_byte_data B fd (regAddr + word_of_nat i) d of (val, d') \<Rightarrow>
        if val < 0 then (None, d')
        else if \<not> isprint_byte (word_of_int val) then sspec_loop B fd regAddr count (i + 1) sspec d'
        else if i = 0 \<and> char_of_byte (word_of_int val) \<noteq> CHR ''S'' then sspec_loop B fd regAddr count 2 sspec d'
        else sspec_loop B fd regAddr count (i + 1) (sspec @ [char_of_byte (word_of_int val)]) d'
      else (Some sspec, d))"
  by pat_completeness auto
termination
  by (relation "measure (\<lambda>(B, fd, regAddr, count, i, sspec, d). count - i)") auto

declare sspec_loop.simps [simp del]

definition readSSpec :: "'d i2c \<Rightarrow> u8 \<Rightarrow> u8 \<Rightarrow> u8 \<Rightarrow> nat \<Rightarrow> 'd \<Rightarrow> string option \<times> 'd" where
  "readSSpec B bus slaveAddr regAddr count d =
     (case i2c_open B (''/dev/i2c-'' @ dec (unat bus)) d of (fd, d1) \<Rightarrow>
      if fd < 0 then (None, d1)
      else case i2c_funcs B fd d1 of ((ret, funcs), d2) \<Rightarrow>
      if ret < 0 then (None, i2c_close B fd d2)
      else if funcs AND I2C_FUNC_SMBUS_READ_BYTE_DATA B = 0 then (None, i2c_close B fd d2)
      else case i2c_slave_force B fd slaveAddr d2 of (ret', d3) \<Rightarrow>
      if ret' < 0 then (None, i2c_close B fd d3)
      else case sspec_loop B fd regAddr count 0 [] d3 of (sspec, d4) \<Rightarrow>
        (case sspec of
           None \<Rightarrow> (None, i2c_close B fd d4)
         | Some s \<Rightarrow> (if length s < 4 then None else Some s, i2c_close B fd d4)))"

subsection \<open>The state of the daemon\<close>

record CPUInfo =
  uuidInterface :: "(string \<times> string) option"
  ci_id :: u8
  ci_peciAddr :: u8
  ci_i2cBus :: u8
  ci_i2cDevice :: u8
  ci_sSpec :: string

definition CPUInfo_new :: "u64 \<Rightarrow> u8 \<Rightarrow> u8 \<Rightarrow> u8 \<Rightarrow> CPUInfo" where
  "CPUInfo_new cpuId peciAddr i2cBusNum i2cSlaveAddress = \<lparr>uuidInterface = None, ci_id = ucast cpuId,
     ci_peciAddr = peciAddr, ci_i2cBus = i2cBusNum, ci_i2cDevice = i2cSlaveAddress, ci_sSpec = []\<rparr>"

text \<open>\<open>id - 1\<close> is an \<open>int\<close> here.\<close>

definition publishUUID :: "string \<Rightarrow> CPUInfo \<Rightarrow> CPUInfo" where
  "publishUUID uuid ci = ci\<lparr>uuidInterface :=
     Some (cpuInfo_cpuPath @ (if ci_id ci = 0 then ''-1'' else dec (unat (ci_id ci) - 1)), uuid)\<rparr>"

record CpuProperty =
  cp_object :: string
  cp_interface :: string
  cp_name :: string
  cp_value :: string

record cpu_daemon =
  cpuInfoMap :: "u64 \<Rightarrow> CPUInfo option"
  propertiesToSet :: "CpuProperty list"
  failedReads :: int
  cpuUpdatedMatch :: "u64 list"
  sentProperties :: "CpuProperty list"
  sspecTimers :: "(u64 \<times> nat) list"
  ppinTimers :: "u64 list"
  filterTimer :: bool
  configRequests :: "(string \<times> string) list"

definition daemon_start :: cpu_daemon where
  "daemon_start = \<lparr>cpuInfoMap = (\<lambda>_. None), propertiesToSet = [], failedReads = 0, cpuUpdatedMatch = [],
     sentProperties = [], sspecTimers = [], ppinTimers = [], filterTimer = False, configRequests = []\<rparr>"

definition assetInterfaceName :: string where
  "assetInterfaceName = ''xyz.openbmc_project.Inventory.Decorator.Asset''"

subsection \<open>Properties of the CPU objects\<close>

definition createCpuUpdatedMatch :: "u64 \<Rightarrow> cpu_daemon \<Rightarrow> cpu_daemon" where
  "createCpuUpdatedMatch cpu st =
     (if cpu \<in> set (cpuUpdatedMatch st) then st else st\<lparr>cpuUpdatedMatch := cpuUpdatedMatch st @ [cpu]\<rparr>)"

definition setDbusProperty :: "u64 \<Rightarrow> CpuProperty \<Rightarrow> cpu_daemon \<Rightarrow> cpu_daemon" where
  "setDbusProperty cpu newProp st =
     (let st' = createCpuUpdatedMatch cpu st in st'\<lparr>sentProperties := sentProperties st' @ [newProp]\<rparr>)"

definition setCpuProperty :: "u64 \<Rightarrow> string \<Rightarrow> string \<Rightarrow> string \<Rightarrow> cpu_daemon \<Rightarrow> cpu_daemon" where
  "setCpuProperty cpu interface propName propVal st =
     (let objectPath = cpuInfo_cpuPath @ dec (unat (cpu - 1));
          prop = \<lparr>cp_object = objectPath, cp_interface = interface, cp_name = propName, cp_value = propVal\<rparr>
      in setDbusProperty cpu prop (st\<lparr>propertiesToSet := propertiesToSet st @ [prop]\<rparr>))"

text \<open>The callback of the match of a CPU: the object and the names of the interfaces that were added.\<close>

fun resend_loop :: "u64 \<Rightarrow> string \<Rightarrow> string list \<Rightarrow> CpuProperty list \<Rightarrow> cpu_daemon \<Rightarrow> cpu_daemon" where
  "resend_loop cpu objectName interfaces [] st = st"
| "resend_loop cpu objectName interfaces (prop # props) st =
     resend_loop cpu objectName interfaces props
       (if cp_object prop = objectName \<and> cp_interface prop \<in> set interfaces then setDbusProperty cpu prop st else st)"

definition cpuUpdated_handler :: "u64 \<Rightarrow> string \<Rightarrow> string list \<Rightarrow> cpu_daemon \<Rightarrow> cpu_daemon" where
  "cpuUpdated_handler cpu objectName interfaces st = resend_loop cpu objectName interfaces (propertiesToSet st) st"

subsection \<open>Reading the specification string with retries\<close>

definition tryReadSSpec :: "'d i2c \<Rightarrow> u64 \<Rightarrow> cpu_daemon \<times> 'd \<Rightarrow> cpu_daemon \<times> 'd" where
  "tryReadSSpec B cpuIndex = (\<lambda>(st, d).
     case cpuInfoMap st cpuIndex of
       None \<Rightarrow> (st, d)
     | Some cpuInfo \<Rightarrow>
         (case readSSpec B (ci_i2cBus cpuInfo) (ci_i2cDevice cpuInfo) sspecRegAddr sspecSize d of (newSSpec, d') \<Rightarrow>
            if newSSpec = Some (ci_sSpec cpuInfo)
            then (setCpuProperty (ucast (ci_id cpuInfo)) assetInterfaceName ''Model'' (the newSSpec) st, d')
            else case newSSpec of
              Some s \<Rightarrow>
                (st\<lparr>failedReads := 0, cpuInfoMap := (cpuInfoMap st)(cpuIndex := Some (cpuInfo\<lparr>ci_sSpec := s\<rparr>)),
                   sspecTimers := sspecTimers st @ [(cpuIndex, 1)]\<rparr>, d')
            | None \<Rightarrow>
                if failedReads st + 1 > 10 then (st\<lparr>failedReads := failedReads st + 1\<rparr>, d')
                else (st\<lparr>failedReads := failedReads st + 1, sspecTimers := sspecTimers st @ [(cpuIndex, 5)]\<rparr>, d')))"

text \<open>A pending timer goes off, with an error code or without.\<close>

definition sspecTimer_handler :: "'d i2c \<Rightarrow> nat \<Rightarrow> bool \<Rightarrow> cpu_daemon \<times> 'd \<Rightarrow> cpu_daemon \<times> 'd" where
  "sspecTimer_handler B k ec = (\<lambda>(st, d).
     if k < length (sspecTimers st)
     then let st' = st\<lparr>sspecTimers := take k (sspecTimers st) @ drop (k + 1) (sspecTimers st)\<rparr>
          in if ec then (st', d) else tryReadSSpec B (fst (sspecTimers st ! k)) (st', d)
     else (st, d))"

subsection \<open>The inventory number\<close>

text \<open>\<open>std::hex\<close> without a width.\<close>

fun hex :: "nat \<Rightarrow> string" where
  "hex n = (if n < 16 then [hex_digit n] else hex (n div 16) @ [hex_digit (n mod 16)])"

declare hex.simps [simp del]

definition read_ppin :: "'d peci \<Rightarrow> u8 \<Rightarrow> 'd \<Rightarrow> u64 \<times> 'd" where
  "read_ppin L cpuAddr d =
     (case peci_RdPkgConfig L cpuAddr 19 1 d of ((ret, cc, v), d1) \<Rightarrow>
      let cpuPPIN = (if ret \<noteq> PECI_CC_SUCCESS then 0 else ucast v) in
      case peci_RdPkgConfig L cpuAddr 19 2 d1 of ((ret', cc', v'), d2) \<Rightarrow>
      let (cpuPPIN', u32PkgValue) = (if ret' \<noteq> PECI_CC_SUCCESS then (0, 0) else (cpuPPIN, v'))
      in (cpuPPIN' OR push_bit 32 (ucast u32PkgValue), d2))"

fun ppin_model :: "CPUModel \<Rightarrow> bool" where
  "ppin_model (otherModel n) \<longleftrightarrow> False"
| "ppin_model _ \<longleftrightarrow> True"

definition getPPIN :: "'d peci \<Rightarrow> HostState \<Rightarrow> u64 \<Rightarrow> cpu_daemon \<times> 'd \<Rightarrow> cpu_daemon \<times> 'd" where
  "getPPIN L hs cpu = (\<lambda>(st, d).
     case cpuInfoMap st cpu of
       None \<Rightarrow> (st, d)
     | Some cpuInfo \<Rightarrow>
         if ucast (ci_id cpuInfo) \<noteq> cpu then (st, d)
         else if hs \<noteq> postComplete then (st\<lparr>ppinTimers := ppinTimers st @ [cpu]\<rparr>, d)
         else case peci_GetCPUID L (ci_peciAddr cpuInfo) d of ((ret, cc, cmodel), d1) \<Rightarrow>
           if ret \<noteq> PECI_CC_SUCCESS then (st\<lparr>ppinTimers := ppinTimers st @ [cpu]\<rparr>, d1)
           else if \<not> ppin_model cmodel then (st, d1)
           else case read_ppin L (ci_peciAddr cpuInfo) d1 of (cpuPPIN, d2) \<Rightarrow>
             if cpuPPIN \<noteq> 0
             then (st\<lparr>cpuInfoMap := (cpuInfoMap st)(cpu := Some (publishUUID (hex (unat cpuPPIN)) cpuInfo))\<rparr>, d2)
             else (st, d2))"

definition ppinTimer_handler :: "'d peci \<Rightarrow> HostState \<Rightarrow> nat \<Rightarrow> bool \<Rightarrow> cpu_daemon \<times> 'd \<Rightarrow> cpu_daemon \<times> 'd" where
  "ppinTimer_handler L hs k ec = (\<lambda>(st, d).
     if k < length (ppinTimers st)
     then let st' = st\<lparr>ppinTimers := take k (ppinTimers st) @ drop (k + 1) (ppinTimers st)\<rparr>
          in if ec then (st', d) else getPPIN L hs (ppinTimers st ! k) (st', d)
     else (st, d))"

subsection \<open>The configuration\<close>

text \<open>A property of the configuration: a 64-bit number, or a value of another type.\<close>

datatype config_value = C_u64 u64 | C_other

record cpu_address_config =
  ca_peci :: "u8 option"
  ca_bus :: u8
  ca_device :: "u8 option"
  ca_cpu :: "u64 option"

fun address_loop :: "(string \<times> config_value) list \<Rightarrow> cpu_address_config \<Rightarrow> cpu_address_config" where
  "address_loop [] a = a"
| "address_loop ((name, C_other) # properties) a = address_loop properties a"
| "address_loop ((name, C_u64 v) # properties) a =
     address_loop properties
       (if name = ''Address'' then a\<lparr>ca_peci := Some (ucast v)\<rparr>
        else if name = ''CpuID'' then a\<lparr>ca_cpu := Some v\<rparr>
        else if name = ''PiromI2cAddress'' then a\<lparr>ca_device := Some (ucast v)\<rparr>
        else if name = ''PiromI2cBus'' then a\<lparr>ca_bus := ucast v\<rparr>
        else a)"

text \<open>The index and the object of the CPU that an answer describes, if it does.\<close>

definition described_cpu :: "(string \<times> config_value) list \<Rightarrow> (u64 \<times> CPUInfo) option" where
  "described_cpu properties =
     (let a = address_loop properties \<lparr>ca_peci = None, ca_bus = defaultI2cBus, ca_device = None, ca_cpu = None\<rparr>
      in case (ca_cpu a, ca_peci a) of
           (Some cpu, Some peciAddr) \<Rightarrow>
             let i2cDevice = (case ca_device a of Some v \<Rightarrow> v
                              | None \<Rightarrow> ucast (ucast defaultI2cSlaveAddr0 + cpu - 1))
             in Some (cpu, CPUInfo_new cpu peciAddr (ca_bus a) i2cDevice)
         | _ \<Rightarrow> None)"

text \<open>The answer to \<open>GetAll\<close>; \<^const>\<open>None\<close> is an error.\<close>

definition getCpuAddress ::
  "'d i2c \<Rightarrow> 'd peci \<Rightarrow> HostState \<Rightarrow> (string \<times> config_value) list option \<Rightarrow> cpu_daemon \<times> 'd \<Rightarrow> cpu_daemon \<times> 'd"
where
  "getCpuAddress B L hs reply = (\<lambda>(st, d).
     case reply of
       None \<Rightarrow> (st, d)
     | Some properties \<Rightarrow>
         (case described_cpu properties of
            None \<Rightarrow> (st, d)
          | Some (cpu, cpuInfo) \<Rightarrow>
              getPPIN L hs cpu (tryReadSSpec B cpu
                (st\<lparr>cpuInfoMap := (cpuInfoMap st)(cpu := Some cpuInfo)\<rparr>, d))))"

text \<open>The answer of the object mapper: one request per service of each object.\<close>

definition getCpuConfiguration :: "(string \<times> string list) list option \<Rightarrow> cpu_daemon \<Rightarrow> cpu_daemon" where
  "getCpuConfiguration subtree st = (case subtree of
     None \<Rightarrow> st
   | Some objects \<Rightarrow> st\<lparr>configRequests := configRequests st
       @ concat (map (\<lambda>(object, services). map (\<lambda>service. (service, object)) services) objects)\<rparr>)"

text \<open>A change of the configuration (re)starts the filter timer; when it expires, the mapper is asked again.\<close>

definition cpuConfigMatch_handler :: "cpu_daemon \<Rightarrow> cpu_daemon" where
  "cpuConfigMatch_handler st = st\<lparr>filterTimer := True\<rparr>"

definition filterTimer_handler :: "bool \<Rightarrow> (string \<times> string list) list option \<Rightarrow> cpu_daemon \<Rightarrow> cpu_daemon" where
  "filterTimer_handler ec subtree st =
     (let st' = st\<lparr>filterTimer := False\<rparr> in if ec then st' else getCpuConfiguration subtree st')"

end
