(* ===== verification/Cpu_Daemon.thy ===== *)
theory Cpu_Daemon
  imports Cpu_Info
begin

text \<open>
  The CPU info daemon of \<open>Cpu_Info\<close> is correct: a specification string is set only after it was confirmed, in
  every sequence of events; reading an unreadable PIROM is given up; and the published inventory number is the
  one that was read.
\<close>

unbundle bit_operations_syntax

subsection \<open>What a specification string is\<close>

definition sspec_ok :: "string \<Rightarrow> bool" where
  "sspec_ok s \<longleftrightarrow> 4 \<le> length s \<and> length s \<le> sspecSize \<and> list_all isprint_char s"

lemma isprint_char_of_byte: "isprint_byte b \<Longrightarrow> isprint_char (char_of_byte b)"
  by (simp add: isprint_char_def)

lemma sspec_loop_ok:
  assumes "sspec_loop B fd regAddr count i sspec d = (Some s, d')" and "length sspec \<le> i"
    and "length sspec \<le> count" and "list_all isprint_char sspec"
  shows "length s \<le> count \<and> list_all isprint_char s"
  using assms
proof (induction "count - i" arbitrary: i sspec d rule: less_induct)
  case less
  obtain v d1 where rd: "i2c_smbus_read_byte_data B fd (regAddr + word_of_nat i) d = (v, d1)" by fastforce
  let ?c = "char_of_byte (word_of_int v)"
  show ?case
  proof (cases "i < count")
    case True
    note run = less.prems(1) [unfolded sspec_loop.simps [of B fd regAddr count i sspec d]]
    consider (skip) "sspec_loop B fd regAddr count (i + 1) sspec d1 = (Some s, d')"
      | (jump) "i = 0" "sspec_loop B fd regAddr count 2 sspec d1 = (Some s, d')"
      | (add) "isprint_byte (word_of_int v)" "sspec_loop B fd regAddr count (i + 1) (sspec @ [?c]) d1 = (Some s, d')"
      using run True rd by (cases "v < 0"; cases "isprint_byte (word_of_int v)"; cases "i = 0 \<and> ?c \<noteq> CHR ''S''") simp_all
    then show ?thesis
    proof cases
      case skip
      show ?thesis by (rule less.hyps [OF _ skip]) (use less.prems True in simp_all)
    next
      case jump
      show ?thesis by (rule less.hyps [OF _ jump(2)]) (use less.prems True jump(1) in simp_all)
    next
      case add
      show ?thesis
        by (rule less.hyps [OF _ add(2)]) (use less.prems True isprint_char_of_byte [OF add(1)] in simp_all)
    qed
  next
    case False
    then show ?thesis using less.prems by (simp add: sspec_loop.simps [of B fd regAddr count i sspec d])
  qed
qed

lemma readSSpec_ok: "readSSpec B bus dev regAddr sspecSize d = (Some s, d') \<Longrightarrow> sspec_ok s"
  using sspec_loop_ok [where i = 0 and sspec = "[]" and count = sspecSize]
  by (fastforce simp: readSSpec_def sspec_ok_def split: prod.splits if_splits option.splits)

subsection \<open>Confirmation\<close>

text \<open>
  The history of the reads, as pairs of the index of a CPU and the result. The entries that the handlers
  add are the reads that \<open>tryReadSSpec\<close> makes.
\<close>

type_synonym sspec_log = "(u64 \<times> string option) list"

definition sspec_read :: "'d i2c \<Rightarrow> u64 \<Rightarrow> cpu_daemon \<times> 'd \<Rightarrow> sspec_log" where
  "sspec_read B k = (\<lambda>(st, d). case cpuInfoMap st k of None \<Rightarrow> []
     | Some ci \<Rightarrow> [(k, fst (readSSpec B (ci_i2cBus ci) (ci_i2cDevice ci) sspecRegAddr sspecSize d))])"

definition address_read :: "'d i2c \<Rightarrow> (string \<times> config_value) list option \<Rightarrow> cpu_daemon \<times> 'd \<Rightarrow> sspec_log" where
  "address_read B reply = (\<lambda>(st, d). case Option.bind reply described_cpu of None \<Rightarrow> []
     | Some (cpu, ci) \<Rightarrow> sspec_read B cpu (st\<lparr>cpuInfoMap := (cpuInfoMap st)(cpu := Some ci)\<rparr>, d))"

inductive daemon_step ::
  "'d i2c \<Rightarrow> 'd peci \<Rightarrow> (cpu_daemon \<times> 'd) \<times> sspec_log \<Rightarrow> (cpu_daemon \<times> 'd) \<times> sspec_log \<Rightarrow> bool"
  for B L
where
  address: "daemon_step B L (s, log) (getCpuAddress B L hs reply s, log @ address_read B reply s)"
| sspec_timer: "k < length (sspecTimers (fst s)) \<Longrightarrow>
    daemon_step B L (s, log) (sspecTimer_handler B k False s, log @ sspec_read B (fst (sspecTimers (fst s) ! k)) s)"
| sspec_timer_error: "daemon_step B L (s, log) (sspecTimer_handler B k True s, log)"
| ppin_timer: "daemon_step B L (s, log) (ppinTimer_handler L hs k ec s, log)"
| cpu_updated: "cpu \<in> set (cpuUpdatedMatch st) \<Longrightarrow>
    daemon_step B L ((st, d), log) ((cpuUpdated_handler cpu obj ifs st, d), log)"
| config_changed: "daemon_step B L ((st, d), log) ((cpuConfigMatch_handler st, d), log)"
| filter_timer: "filterTimer st \<Longrightarrow> daemon_step B L ((st, d), log) ((filterTimer_handler ec subtree st, d), log)"

definition daemon_init :: "(cpu_daemon \<times> 'd) \<times> sspec_log \<Rightarrow> bool" where
  "daemon_init s \<longleftrightarrow> fst (fst s) = daemon_start \<and> snd s = []"

definition confirmed :: "sspec_log \<Rightarrow> CpuProperty \<Rightarrow> bool" where
  "confirmed log p \<longleftrightarrow> sspec_ok (cp_value p) \<and> (\<exists>k. 2 \<le> count_list log (k, Some (cp_value p)))"

definition daemon_inv :: "(cpu_daemon \<times> 'd) \<times> sspec_log \<Rightarrow> bool" where
  "daemon_inv = (\<lambda>((st, d), log).
     (\<forall>k ci. cpuInfoMap st k = Some ci \<longrightarrow> ci_sSpec ci = [] \<or> (k, Some (ci_sSpec ci)) \<in> set log)
     \<and> list_all (confirmed log) (propertiesToSet st) \<and> set (sentProperties st) \<subseteq> set (propertiesToSet st))"

lemma confirmed_later: "confirmed log p \<Longrightarrow> confirmed (log @ extra) p"
  unfolding confirmed_def by (metis count_list_append trans_le_add1)

lemma daemon_inv_later:
  assumes "daemon_inv ((st, d), log)"
    and "\<And>k ci. cpuInfoMap st' k = Some ci \<Longrightarrow> ci_sSpec ci = [] \<or> (k, Some (ci_sSpec ci)) \<in> set (log @ extra)"
    and "propertiesToSet st' = propertiesToSet st" and "set (sentProperties st') \<subseteq> set (sentProperties st) \<union> set (propertiesToSet st)"
  shows "daemon_inv ((st', d'), log @ extra)"
  using assms confirmed_later [of log _ extra] by (auto simp: daemon_inv_def list_all_iff)

lemma set_property_fields:
  "propertiesToSet (setDbusProperty cpu p st) = propertiesToSet st"
  "sentProperties (setDbusProperty cpu p st) = sentProperties st @ [p]"
  "cpuInfoMap (setDbusProperty cpu p st) = cpuInfoMap st"
  by (simp_all add: setDbusProperty_def createCpuUpdatedMatch_def Let_def)

lemma tryReadSSpec_inv:
  assumes "daemon_inv ((st, d), log)"
  shows "daemon_inv (tryReadSSpec B k (st, d), log @ sspec_read B k (st, d))"
proof (cases "cpuInfoMap st k")
  case None
  then show ?thesis using assms by (simp add: tryReadSSpec_def sspec_read_def)
next
  case (Some ci)
  obtain r d' where rd: "readSSpec B (ci_i2cBus ci) (ci_i2cDevice ci) sspecRegAddr sspecSize d = (r, d')" by fastforce
  have log: "sspec_read B k (st, d) = [(k, r)]" using Some rd by (simp add: sspec_read_def)
  have known: "ci_sSpec ci = [] \<or> (k, Some (ci_sSpec ci)) \<in> set log"
    and others: "\<And>j cj. cpuInfoMap st j = Some cj \<Longrightarrow> ci_sSpec cj = [] \<or> (j, Some (ci_sSpec cj)) \<in> set log"
    and inv: "list_all (confirmed log) (propertiesToSet st)" "set (sentProperties st) \<subseteq> set (propertiesToSet st)"
    using assms Some by (auto simp: daemon_inv_def)
  show ?thesis
  proof (cases "r = Some (ci_sSpec ci)")
    case True
    have ok: "sspec_ok (ci_sSpec ci)" by (rule readSSpec_ok [OF rd [unfolded True]])
    then have "(k, Some (ci_sSpec ci)) \<in> set log" using known by (auto simp: sspec_ok_def)
    then have "0 < count_list log (k, Some (ci_sSpec ci))"
      using count_list_0_iff [of log "(k, Some (ci_sSpec ci))"] by linarith
    then have "2 \<le> count_list (log @ [(k, r)]) (k, Some (ci_sSpec ci))" using True by simp
    then have new: "confirmed (log @ [(k, r)]) p" if "cp_value p = ci_sSpec ci" for p
      using ok that by (auto simp: confirmed_def)
    show ?thesis
      using Some rd True others inv confirmed_later [of log _ "[(k, r)]"] new
      by (auto simp: log tryReadSSpec_def daemon_inv_def setCpuProperty_def Let_def set_property_fields list_all_iff)
  next
    case False
    show ?thesis
    proof (cases "\<exists>st'. tryReadSSpec B k (st, d) = (st', d') \<and> propertiesToSet st' = propertiesToSet st
        \<and> sentProperties st' = sentProperties st
        \<and> cpuInfoMap st' = (case r of None \<Rightarrow> cpuInfoMap st | Some s \<Rightarrow> (cpuInfoMap st)(k := Some (ci\<lparr>ci_sSpec := s\<rparr>)))")
      case True
      then obtain st' where st': "tryReadSSpec B k (st, d) = (st', d')" "propertiesToSet st' = propertiesToSet st"
        "sentProperties st' = sentProperties st"
        "cpuInfoMap st' = (case r of None \<Rightarrow> cpuInfoMap st | Some s \<Rightarrow> (cpuInfoMap st)(k := Some (ci\<lparr>ci_sSpec := s\<rparr>)))" by blast
      show ?thesis
        unfolding st'(1) log
        by (rule daemon_inv_later [OF assms]) (use st' others in \<open>auto split: option.splits if_splits\<close>)
    next
      case no: False
      then show ?thesis using Some rd False by (auto simp: tryReadSSpec_def split: option.splits if_splits)
    qed
  qed
qed

lemma getPPIN_inv:
  fixes d :: 'd
  assumes "daemon_inv ((st, d), log)"
  shows "daemon_inv (getPPIN L hs cpu (st, d), log)"
proof -
  have kept: "daemon_inv ((st\<lparr>ppinTimers := t\<rparr>, d'), log)" "daemon_inv ((st, d'), log)" for t and d' :: 'd
    using assms by (auto simp: daemon_inv_def)
  have new: "daemon_inv ((st\<lparr>cpuInfoMap := (cpuInfoMap st)(cpu := Some (publishUUID u ci))\<rparr>, d'), log)"
    if "cpuInfoMap st cpu = Some ci" for u ci and d' :: 'd
    using assms that by (auto simp: daemon_inv_def publishUUID_def)
  show ?thesis
  proof (cases "cpuInfoMap st cpu")
    case (Some ci)
    then show ?thesis using kept new [OF Some] by (simp add: getPPIN_def split: prod.splits)
  qed (use kept in \<open>simp add: getPPIN_def\<close>)
qed

lemma resend_loop_fields:
  "propertiesToSet (resend_loop cpu obj ifs ps st) = propertiesToSet st \<and> cpuInfoMap (resend_loop cpu obj ifs ps st) = cpuInfoMap st
   \<and> sentProperties (resend_loop cpu obj ifs ps st) =
       sentProperties st @ filter (\<lambda>p. cp_object p = obj \<and> cp_interface p \<in> set ifs) ps"
  by (induction cpu obj ifs ps st rule: resend_loop.induct) (auto simp: set_property_fields)

lemma daemon_step_inv: "daemon_step B L s s' \<Longrightarrow> daemon_inv s \<Longrightarrow> daemon_inv s'"
proof (induction rule: daemon_step.induct)
  case (address s log hs reply)
  obtain st d where s: "s = (st, d)" by fastforce
  show ?case
  proof (cases "Option.bind reply described_cpu")
    case None
    then show ?thesis
      using address by (cases reply) (auto simp: s getCpuAddress_def address_read_def)
  next
    case (Some ci)
    obtain cpu info where ci: "ci = (cpu, info)" by fastforce
    obtain props where props: "reply = Some props" "described_cpu props = Some (cpu, info)"
      using Some ci by (cases reply) auto
    have "ci_sSpec info = []"
      using props(2) by (auto simp: described_cpu_def Let_def CPUInfo_new_def split: option.splits)
    then have "daemon_inv ((st\<lparr>cpuInfoMap := (cpuInfoMap st)(cpu := Some info)\<rparr>, d), log)"
      using address by (auto simp: s daemon_inv_def)
    note rd = tryReadSSpec_inv [OF this, of B cpu]
    obtain st1 d1 where t: "tryReadSSpec B cpu (st\<lparr>cpuInfoMap := (cpuInfoMap st)(cpu := Some info)\<rparr>, d) = (st1, d1)" by fastforce
    show ?thesis
      using getPPIN_inv [OF rd [unfolded t]] by (simp add: s getCpuAddress_def address_read_def props t)
  qed
next
  case (sspec_timer k s log)
  obtain st d where s: "s = (st, d)" by fastforce
  define st' where "st' = st\<lparr>sspecTimers := take k (sspecTimers st) @ drop (k + 1) (sspecTimers st)\<rparr>"
  have "daemon_inv ((st', d), log)" using sspec_timer by (auto simp: s st'_def daemon_inv_def)
  from tryReadSSpec_inv [OF this, of B "fst (sspecTimers st ! k)"] show ?case
    using sspec_timer(1) by (simp add: s sspecTimer_handler_def Let_def st'_def [symmetric] sspec_read_def) (simp add: st'_def)
next
  case (sspec_timer_error s log k)
  then show ?case
    by (cases s) (auto simp: sspecTimer_handler_def Let_def daemon_inv_def)
next
  case (ppin_timer s log hs k ec)
  obtain st d where s: "s = (st, d)" by fastforce
  have kept: "daemon_inv ((st\<lparr>ppinTimers := t\<rparr>, d), log)" for t using ppin_timer by (auto simp: s daemon_inv_def)
  show ?case
    using ppin_timer kept getPPIN_inv [OF kept] by (simp add: s ppinTimer_handler_def Let_def)
next
  case (cpu_updated cpu st d log obj ifs)
  then show ?case
    using resend_loop_fields [of cpu obj ifs "propertiesToSet st" st]
    by (auto simp: cpuUpdated_handler_def daemon_inv_def)
next
  case (config_changed st d log)
  then show ?case by (auto simp: cpuConfigMatch_handler_def daemon_inv_def)
next
  case (filter_timer st d log ec subtree)
  then show ?case
    by (auto simp: filterTimer_handler_def getCpuConfiguration_def Let_def daemon_inv_def split: option.splits)
qed

interpretation daemon: machine_invariant daemon_init "daemon_step B L" daemon_inv for B L
proof
  show "daemon_inv s" if "daemon_init s" for s :: "(cpu_daemon \<times> 'a) \<times> sspec_log"
    using that by (auto simp: daemon_init_def daemon_inv_def daemon_start_def split: prod.splits)
  show "daemon_inv s'" if "daemon_inv s" and "daemon_step B L s s'" for s s'
    using that daemon_step_inv by blast
qed

text \<open>
  C25. A specification string is set on a CPU object only when it is confirmed: in every state, each
  property that was sent is one of the list to be kept set, has four to six printable characters, and was
  the result of two reads at least of the same CPU.
\<close>

theorem sspec_confirmed_by_two_reads:
  assumes "reachable daemon_init (daemon_step B L) ((st, d), log)" and "p \<in> set (sentProperties st)"
  shows "p \<in> set (propertiesToSet st) \<and> list_all isprint_char (cp_value p)
    \<and> 4 \<le> length (cp_value p) \<and> length (cp_value p) \<le> 6
    \<and> (\<exists>k. 2 \<le> count_list log (k, Some (cp_value p)))"
proof -
  have "daemon_inv ((st, d), log)" by (rule daemon.reachable_inv [OF assms(1)])
  then show ?thesis
    using assms(2) by (auto simp: daemon_inv_def list_all_iff confirmed_def sspec_ok_def sspecSize_def)
qed

text \<open>A bus with one PIROM, for examples.\<close>

definition demo_i2c :: "unit i2c" where
  "demo_i2c = \<lparr>i2c_open = (\<lambda>path d. (3, d)), i2c_funcs = (\<lambda>fd d. ((0, 1), d)), I2C_FUNC_SMBUS_READ_BYTE_DATA = 1,
     i2c_slave_force = (\<lambda>fd a d. (0, d)),
     i2c_smbus_read_byte_data = (\<lambda>fd r d. (of_char (''SRLDM1'' ! (unat r - 13)), d)), i2c_close = (\<lambda>fd d. d)\<rparr>"

definition demo_reply :: "(string \<times> config_value) list option" where
  "demo_reply = Some [(''Address'', C_u64 48), (''CpuID'', C_u64 1)]"

lemma demo_read: "readSSpec demo_i2c bus dev sspecRegAddr sspecSize () = (Some ''SRLDM1'', ())"
proof -
  have "sspec_loop demo_i2c 3 sspecRegAddr sspecSize 0 [] () = (Some ''SRLDM1'', ())" by code_simp
  then show ?thesis by (simp add: readSSpec_def demo_i2c_def)
qed

theorem sspec_confirmed_by_two_reads_witness:
  "\<forall>L. \<exists>st log p. reachable daemon_init (daemon_step demo_i2c L) ((st, ()), log) \<and> sentProperties st = [p]
     \<and> cp_value p = ''SRLDM1'' \<and> (\<exists>k. 2 \<le> count_list log (k, Some ''SRLDM1''))"
proof
  fix L
  let ?step = "daemon_step demo_i2c L"
  obtain ci where ci: "described_cpu [(''Address'', C_u64 48), (''CpuID'', C_u64 1)] = Some (1, ci)" "ci_sSpec ci = []" "ci_id ci = 1"
    by (simp add: described_cpu_def CPUInfo_new_def)
  let ?s1 = "getCpuAddress demo_i2c L host_off demo_reply (daemon_start, ())"
  have r1: "reachable daemon_init ?step (?s1, [] @ address_read demo_i2c demo_reply (daemon_start, ()))"
    by (rule reach_step [where s = "((daemon_start, ()), [])"], rule reach_init) (simp add: daemon_init_def, rule address)
  obtain st1 where st1: "?s1 = (st1, ())" "sspecTimers st1 = [(1, 1)]" "sentProperties st1 = []"
    "cpuInfoMap st1 1 = Some (ci\<lparr>ci_sSpec := ''SRLDM1''\<rparr>)"
    by (simp add: getCpuAddress_def demo_reply_def ci tryReadSSpec_def demo_read daemon_start_def getPPIN_def
        ci(3) del: One_nat_def)
  let ?log2 = "([] @ address_read demo_i2c demo_reply (daemon_start, ())) @ sspec_read demo_i2c (fst (sspecTimers (fst ?s1) ! 0)) ?s1"
  have r2: "reachable daemon_init ?step (sspecTimer_handler demo_i2c 0 False ?s1, ?log2)"
    by (rule reach_step [OF r1], rule sspec_timer) (simp add: st1)
  obtain st2 p where st2: "sspecTimer_handler demo_i2c 0 False ?s1 = (st2, ())" "sentProperties st2 = [p]" "cp_value p = ''SRLDM1''"
    by (simp add: st1 sspecTimer_handler_def tryReadSSpec_def demo_read setCpuProperty_def Let_def set_property_fields)
  have "p \<in> set (sentProperties st2)" using st2(2) by simp
  note two = sspec_confirmed_by_two_reads [OF r2 [unfolded st2(1)] this, unfolded st2(3)]
  show "\<exists>st log p. reachable daemon_init ?step ((st, ()), log) \<and> sentProperties st = [p]
     \<and> cp_value p = ''SRLDM1'' \<and> (\<exists>k. 2 \<le> count_list log (k, Some ''SRLDM1''))"
    by (rule exI, rule exI, rule exI, intro conjI, rule r2 [unfolded st2(1)], rule st2(2), rule st2(3))
      (use two in blast)
qed

subsection \<open>Giving up\<close>

definition unreadable :: "'d i2c \<Rightarrow> u64 \<Rightarrow> cpu_daemon \<Rightarrow> bool" where
  "unreadable B k st \<longleftrightarrow> (\<exists>ci. cpuInfoMap st k = Some ci
     \<and> (\<forall>d. fst (readSSpec B (ci_i2cBus ci) (ci_i2cDevice ci) sspecRegAddr sspecSize d) = None))"

lemma tryReadSSpec_fails:
  assumes "unreadable B k st"
  shows "\<exists>d'. tryReadSSpec B k (st, d) = (st\<lparr>failedReads := failedReads st + 1,
    sspecTimers := sspecTimers st @ (if failedReads st < 10 then [(k, 5)] else [])\<rparr>, d')"
proof -
  obtain ci where ci: "cpuInfoMap st k = Some ci"
    "\<And>d. fst (readSSpec B (ci_i2cBus ci) (ci_i2cDevice ci) sspecRegAddr sspecSize d) = None"
    using assms by (auto simp: unreadable_def)
  obtain d' where "readSSpec B (ci_i2cBus ci) (ci_i2cDevice ci) sspecRegAddr sspecSize d = (None, d')"
    using ci(2) [of d] by (metis prod.collapse)
  then show ?thesis using ci(1) by (auto simp: tryReadSSpec_def)
qed

lemma unreadable_update [simp]:
  "unreadable B k (st\<lparr>failedReads := n, sspecTimers := t\<rparr>) = unreadable B k st"
  by (simp add: unreadable_def)

text \<open>
  C28. Reading the PIROM of a CPU that never answers is given up: after each of the first ten failures there is
  one timer of five seconds, after the eleventh none, and no property is set. The count is kept for all CPUs
  together: a failed read of any other CPU is then not retried at all.
\<close>

theorem sspec_retries_stop:
  assumes "unreadable B k st" and "sspecTimers st = []" and "failedReads st = 0" and "n \<le> 10"
  shows "\<exists>d'. (sspecTimer_handler B 0 False ^^ n) (tryReadSSpec B k (st, d)) =
      (st\<lparr>failedReads := int n + 1, sspecTimers := (if n < 10 then [(k, 5)] else [])\<rparr>, d')
    \<and> (if n = 10 \<and> unreadable B j st
       then sspecTimers (fst (tryReadSSpec B j (st\<lparr>failedReads := int n + 1, sspecTimers := []\<rparr>, d'))) = [] else True)"
proof -
  have chain: "\<exists>d'. (sspecTimer_handler B 0 False ^^ n) (tryReadSSpec B k (st, d)) =
      (st\<lparr>failedReads := int n + 1, sspecTimers := (if n < 10 then [(k, 5)] else [])\<rparr>, d')"
    using assms(4)
  proof (induction n)
    case 0
    then show ?case using tryReadSSpec_fails [OF assms(1)] assms(2,3) by simp
  next
    case (Suc n)
    let ?s = "st\<lparr>failedReads := int n + 1, sspecTimers := [(k, 5)]\<rparr>"
    obtain d1 where d1: "(sspecTimer_handler B 0 False ^^ n) (tryReadSSpec B k (st, d)) = (?s, d1)"
      using Suc by auto
    have "unreadable B k (st\<lparr>failedReads := int n + 1, sspecTimers := []\<rparr>)" using assms(1) by simp
    from tryReadSSpec_fails [OF this, of d1] obtain d2 where
      "tryReadSSpec B k (st\<lparr>failedReads := int n + 1, sspecTimers := []\<rparr>, d1) =
       (st\<lparr>failedReads := int n + 2, sspecTimers := (if int n + 1 < 10 then [(k, 5)] else [])\<rparr>, d2)" by auto
    then show ?case using d1 by (auto simp: sspecTimer_handler_def)
  qed
  then obtain d' where d': "(sspecTimer_handler B 0 False ^^ n) (tryReadSSpec B k (st, d)) =
      (st\<lparr>failedReads := int n + 1, sspecTimers := (if n < 10 then [(k, 5)] else [])\<rparr>, d')" by blast
  have "sspecTimers (fst (tryReadSSpec B j (st\<lparr>failedReads := int n + 1, sspecTimers := []\<rparr>, d'))) = []"
    if "n = 10" "unreadable B j st"
    using tryReadSSpec_fails [of B j "st\<lparr>failedReads := int n + 1, sspecTimers := []\<rparr>" d'] that by auto
  then show ?thesis using d' by auto
qed

definition broken_i2c :: "unit i2c" where
  "broken_i2c = demo_i2c\<lparr>i2c_open := (\<lambda>path d. (- 1, d))\<rparr>"

definition two_cpus :: cpu_daemon where
  "two_cpus = daemon_start\<lparr>cpuInfoMap := [1 \<mapsto> CPUInfo_new 1 48 13 0x50, 2 \<mapsto> CPUInfo_new 2 49 13 0x51]\<rparr>"

theorem sspec_retries_stop_witness:
  "\<exists>d'. (sspecTimer_handler broken_i2c 0 False ^^ 10) (tryReadSSpec broken_i2c 1 (two_cpus, ())) =
      (two_cpus\<lparr>failedReads := 11, sspecTimers := []\<rparr>, d')
    \<and> sspecTimers (fst (tryReadSSpec broken_i2c 2 (two_cpus\<lparr>failedReads := 11, sspecTimers := []\<rparr>, d'))) = []"
proof -
  have "unreadable broken_i2c 1 two_cpus" "unreadable broken_i2c 2 two_cpus" "sspecTimers two_cpus = []" "failedReads two_cpus = 0"
    by (simp_all add: unreadable_def two_cpus_def daemon_start_def readSSpec_def broken_i2c_def)
  with sspec_retries_stop [of broken_i2c 1 two_cpus 10 "()" 2] show ?thesis by simp
qed

subsection \<open>The inventory number as text\<close>

definition hex_digit_value :: "char \<Rightarrow> nat" where
  "hex_digit_value c = (if of_char c \<le> (57 :: nat) then of_char c - 48 else of_char c - 87)"

definition hex_value :: "string \<Rightarrow> nat" where
  "hex_value s = foldl (\<lambda>a c. 16 * a + hex_digit_value c) 0 s"

lemma hex_digit_round: "d < 16 \<Longrightarrow> hex_digit_value (hex_digit d) = d"
  by (simp add: hex_digit_value_def hex_digit_def)

lemma hex_round: "hex_value (hex n) = n"
proof (induction n rule: hex.induct)
  case (1 n)
  show ?case
  proof (cases "n < 16")
    case True
    then show ?thesis by (simp add: hex.simps [of n] hex_value_def hex_digit_round)
  next
    case False
    then have "hex n = hex (n div 16) @ [hex_digit (n mod 16)]" by (simp add: hex.simps [of n])
    then show ?thesis using 1 [OF False] by (simp add: hex_value_def hex_digit_round)
  qed
qed

lemma hex_leading: "0 < n \<Longrightarrow> hd (hex n) \<noteq> CHR ''0'' \<and> hex n \<noteq> []"
proof (induction n rule: hex.induct)
  case (1 n)
  show ?case
  proof (cases "n < 16")
    case True
    have "hex_digit n \<noteq> hex_digit 0" using hex_digit_inj [of n 0] True 1(2) by simp
    moreover have "hex_digit 0 = CHR ''0''" by code_simp
    ultimately show ?thesis using True by (simp add: hex.simps [of n])
  next
    case False
    then have "hex n = hex (n div 16) @ [hex_digit (n mod 16)]" by (simp add: hex.simps [of n])
    then show ?thesis using 1(1) [OF False] False by simp
  qed
qed

lemma read_ppin_value:
  assumes "peci_RdPkgConfig L a 19 1 d1 = ((ret1, cc1, lo), d2)" and "peci_RdPkgConfig L a 19 2 d2 = ((ret2, cc2, hi), d3)"
  shows "\<exists>v. read_ppin L a d1 = (v, d3) \<and> unat v = (if ret2 \<noteq> PECI_CC_SUCCESS then 0
    else (if ret1 \<noteq> PECI_CC_SUCCESS then 0 else unat lo) + 2 ^ 32 * unat hi)"
proof -
  have "read_ppin L a d1 = ((if ret2 \<noteq> PECI_CC_SUCCESS then 0
      else two_words hi (if ret1 \<noteq> PECI_CC_SUCCESS then 0 else lo)), d3)"
    using assms by (simp add: read_ppin_def two_words_def or.commute)
  then show ?thesis by (simp add: two_words_value)
qed

text \<open>
  C37. The inventory number. After POST, for a CPU of a supported model, its two words are read; if the number is not
  zero, it is published as hexadecimal text without leading zeros, whose value it is. A failed read of the
  high word publishes nothing; a failed read of the low word publishes the high word alone.
\<close>

theorem ppin_published:
  assumes "cpuInfoMap st cpu = Some ci" and "ucast (ci_id ci) = cpu"
    and "peci_GetCPUID L (ci_peciAddr ci) d = ((PECI_CC_SUCCESS, cc, m), d1)" and "ppin_model m"
    and "peci_RdPkgConfig L (ci_peciAddr ci) 19 1 d1 = ((ret1, cc1, lo), d2)"
    and "peci_RdPkgConfig L (ci_peciAddr ci) 19 2 d2 = ((ret2, cc2, hi), d3)"
    and "v = (if ret2 \<noteq> PECI_CC_SUCCESS then 0
              else (if ret1 \<noteq> PECI_CC_SUCCESS then 0 else unat lo) + 2 ^ 32 * unat hi)"
  shows "if v = 0 then getPPIN L postComplete cpu (st, d) = (st, d3)
    else \<exists>text. hex_value text = v \<and> text \<noteq> [] \<and> hd text \<noteq> CHR ''0''
      \<and> getPPIN L postComplete cpu (st, d) =
          (st\<lparr>cpuInfoMap := (cpuInfoMap st)(cpu := Some (publishUUID text ci))\<rparr>, d3)"
proof -
  obtain w where w: "read_ppin L (ci_peciAddr ci) d1 = (w, d3)" "unat w = v"
    using read_ppin_value [OF assms(5,6)] assms(7) by blast
  have "w = 0 \<longleftrightarrow> v = 0" using w(2) by (auto simp: unat_eq_0)
  then show ?thesis
    using assms(1-4) w hex_round [of v] hex_leading [of v]
    by (auto simp: getPPIN_def intro!: exI [of _ "hex v"])
qed

theorem ppin_published_witness:
  "\<exists>text. hex_value text = 0x1234 * 2 ^ 32 + 0xABCD
     \<and> getPPIN ((demo_peci (\<lambda>w x. (0, 0, x)))\<lparr>peci_RdPkgConfig :=
           (\<lambda>a i p d. ((PECI_CC_SUCCESS, 0x40, if p = 1 then 0xABCD else 0x1234), d))\<rparr>) postComplete 1 (two_cpus, sleeping_view) =
         (two_cpus\<lparr>cpuInfoMap := (cpuInfoMap two_cpus)(1 := Some (publishUUID text (CPUInfo_new 1 48 13 0x50)))\<rparr>, sleeping_view)"
  using ppin_published [of two_cpus 1 "CPUInfo_new 1 48 13 0x50" "(demo_peci (\<lambda>w x. (0, 0, x)))\<lparr>peci_RdPkgConfig :=
           (\<lambda>a i p d. ((PECI_CC_SUCCESS, 0x40, if p = 1 then 0xABCD else 0x1234), d))\<rparr>" sleeping_view "0x40" sapphireRapids
           sleeping_view PECI_CC_SUCCESS "0x40" "0xABCD" sleeping_view PECI_CC_SUCCESS "0x40" "0x1234" sleeping_view "0x1234 * 2 ^ 32 + 0xABCD"]
  by (auto simp: two_cpus_def daemon_start_def CPUInfo_new_def demo_peci_def)

end
