(* ===== verification/Cpu_Service.thy ===== *)
theory Cpu_Service
  imports Event_Runs Cpu_Daemon Speed_Control
begin

text \<open>
  The CPU info daemon as a process: \<open>main\<close> of \<open>src/cpuinfo_main.cpp\<close>, which wires the host state, Speed
  Select and the configuration, and the event loop that runs all handlers on one state. The host state
  that the handlers read is the one that the D-Bus messages of the host have left.
\<close>

subsection \<open>Observers of the host state\<close>

text \<open>
  What a component promises that registers a callback on the host state: its world stays good. The
  lemmas carry this through every message of the host.
\<close>

locale host_observer =
  fixes callback :: "'w HostStateHandler" and good :: "'w \<Rightarrow> bool"
  assumes callback_good: "good w \<Longrightarrow> good (callback prev next w)"
begin

definition observed :: "'w host \<times> 'w \<Rightarrow> bool" where
  "observed st \<longleftrightarrow> host_ok (fst st) \<and> hostStateCallbacks (fst st) = [callback] \<and> good (snd st)"

lemma observed_update:
  assumes "observed (h, w)" and "hostStateCallbacks h' = hostStateCallbacks h"
  shows "observed (updateHostState (h', w))"
  using assms callback_good
  by (auto simp: observed_def updateHostState_def Let_def host_ok_def host_of_def)

lemma observed_handler:
  assumes "observed st" and "sub_handler E sub v st = Inr st'"
  shows "observed st'"
proof -
  obtain h w where st: "st = (h, w)" by fastforce
  show ?thesis
    using assms(2) observed_update [of h w] assms(1)
    by (cases "(E, sub, v)" rule: sub_handler.cases)
      (auto simp: st updatePowerState_def updateBiosDone_def updateOsState_def split: option.splits)
qed

lemma observed_props:
  "observed st \<Longrightarrow> commonPropHandler E sub props st = Inr st' \<Longrightarrow> observed st'"
  by (induction E sub props st rule: commonPropHandler.induct) (auto split: if_splits intro: observed_handler)

lemma observed_interfaces:
  "observed st \<Longrightarrow> changed_interfaces E sub ifs st = Inr st' \<Longrightarrow> observed st'"
  by (induction E sub ifs st rule: changed_interfaces.induct) (auto split: if_splits sum.splits intro: observed_props)

lemma observed_message: "observed st \<Longrightarrow> subscribeToProperty E ev st = Inr st' \<Longrightarrow> observed st'"
  by (cases "(E, ev, st)" rule: subscribeToProperty.cases)
    (auto split: if_splits intro: observed_handler observed_props observed_interfaces)

lemma observed_start: "good w \<Longrightarrow> observed (addHostStateCallback callback (hostStateSetup host_start), w)"
  by (simp add: observed_def hostStateSetup_def addHostStateCallback_def host_start_def host_ok_def host_of_def)

end

subsection \<open>The process\<close>

text \<open>
  The environment: the conversions of the host enumerations, I2C, PECI with Speed Select, the fuel of a
  discovery, and the host messages whose exception the bus library catches.
\<close>

record 'd cpu_platform =
  pf_enums :: host_enums
  pf_i2c :: "'d i2c"
  pf_sst :: "(SSTMailbox, 'd) sst_config"
  pf_fuel :: nat
  pf_catches :: "host_event \<Rightarrow> bool"

record 'd cpu_process =
  px_host :: "(sst_state \<times> 'd) option host"
  px_daemon :: cpu_daemon
  px_sst :: sst_state
  px_device :: 'd
  px_running :: bool

text \<open>
  \<open>main\<close>: the host state is set up, Speed Select registers its callback, and the configuration is
  asked for; the answer is an event.
\<close>

definition cpuinfo_main :: "'d cpu_platform \<Rightarrow> 'd \<Rightarrow> 'd cpu_process" where
  "cpuinfo_main P d = \<lparr>px_host = sst_init (pf_sst P) (pf_fuel P) (hostStateSetup host_start),
     px_daemon = daemon_start, px_sst = sst_start, px_device = d, px_running = True\<rparr>"

datatype cpu_event =
    HostMessage host_event
  | RetryTimer bool
  | AppliedConfigGet nat
  | PriorityEnabledGet nat
  | AppliedConfigSet nat string
  | MapperReply "(string \<times> string list) list option"
  | AddressReply "(string \<times> config_value) list option"
  | SspecTimer nat bool
  | PpinTimer nat bool
  | CpuUpdated u64 string "string list"
  | ConfigChanged
  | FilterTimer bool "(string \<times> string list) list option"

text \<open>The state of Speed Select after a handler; \<^const>\<open>None\<close> is a discovery that ran out of fuel.\<close>

definition after_sst :: "'d cpu_process \<Rightarrow> (sst_state \<times> 'd) option \<Rightarrow> 'd cpu_process checked" where
  "after_sst p w = map_option (\<lambda>(st, d). p\<lparr>px_sst := st, px_device := d\<rparr>) w"

text \<open>The state of Speed Select after an operation on its \<open>i\<close>-th object.\<close>

definition after_object ::
  "'d cpu_process \<Rightarrow> nat \<Rightarrow> (CPUConfig \<times> 'd \<Rightarrow> 'r \<times> CPUConfig \<times> 'd) \<Rightarrow> 'd cpu_process"
where
  "after_object p i f = (if i < length (sst_cpus (px_sst p))
     then (case f (sst_cpus (px_sst p) ! i, px_device p) of (r, c, d) \<Rightarrow>
       p\<lparr>px_sst := (px_sst p)\<lparr>sst_cpus := (sst_cpus (px_sst p))[i := c]\<rparr>, px_device := d\<rparr>)
     else p)"

definition after_daemon :: "'d cpu_process \<Rightarrow> cpu_daemon \<times> 'd \<Rightarrow> 'd cpu_process" where
  "after_daemon p r = p\<lparr>px_daemon := fst r, px_device := snd r\<rparr>"

fun cpu_handle :: "'d cpu_platform \<Rightarrow> cpu_event \<Rightarrow> 'd cpu_process \<Rightarrow> 'd cpu_process checked" where
  "cpu_handle P (HostMessage ev) p =
     (case subscribeToProperty (pf_enums P) ev (px_host p, Some (px_sst p, px_device p)) of
        Inl e \<Rightarrow> Some (if pf_catches P ev then p else p\<lparr>px_running := False\<rparr>)
      | Inr (h, w) \<Rightarrow> after_sst (p\<lparr>px_host := h\<rparr>) w)"
| "cpu_handle P (RetryTimer ec) p =
     (if retryArmed (px_sst p)
      then after_sst p (retryTimer_handler (pf_sst P) (pf_fuel P) ec (px_sst p, px_device p)) else Some p)"
| "cpu_handle P (AppliedConfigGet i) p =
     Some (after_object p i (appliedConfig_get (pf_sst P) (hostState (px_host p))))"
| "cpu_handle P (PriorityEnabledGet i) p =
     Some (after_object p i (baseSpeedPriorityEnabled_get (pf_sst P) (hostState (px_host p))))"
| "cpu_handle P (AppliedConfigSet i val) p =
     Some (after_object p i (appliedConfig_set (pf_sst P) (hostState (px_host p)) val))"
| "cpu_handle P (MapperReply subtree) p = Some (p\<lparr>px_daemon := getCpuConfiguration subtree (px_daemon p)\<rparr>)"
| "cpu_handle P (AddressReply reply) p = Some (after_daemon p
     (getCpuAddress (pf_i2c P) (cf_peci (pf_sst P)) (hostState (px_host p)) reply (px_daemon p, px_device p)))"
| "cpu_handle P (SspecTimer k ec) p = Some (after_daemon p
     (sspecTimer_handler (pf_i2c P) k ec (px_daemon p, px_device p)))"
| "cpu_handle P (PpinTimer k ec) p = Some (after_daemon p
     (ppinTimer_handler (cf_peci (pf_sst P)) (hostState (px_host p)) k ec (px_daemon p, px_device p)))"
| "cpu_handle P (CpuUpdated cpu obj ifs) p =
     Some (if cpu \<in> set (cpuUpdatedMatch (px_daemon p))
           then p\<lparr>px_daemon := cpuUpdated_handler cpu obj ifs (px_daemon p)\<rparr> else p)"
| "cpu_handle P ConfigChanged p = Some (p\<lparr>px_daemon := cpuConfigMatch_handler (px_daemon p)\<rparr>)"
| "cpu_handle P (FilterTimer ec subtree) p =
     Some (if filterTimer (px_daemon p)
           then p\<lparr>px_daemon := filterTimer_handler ec subtree (px_daemon p)\<rparr> else p)"

definition cpu_step :: "'d cpu_platform \<Rightarrow> cpu_event \<Rightarrow> 'd cpu_process \<Rightarrow> 'd cpu_process checked" where
  "cpu_step P ev p = (if px_running p then cpu_handle P ev p else Some p)"

subsection \<open>Well-formed states\<close>

text \<open>Speed Select on the mailbox, with the fuel that is always enough.\<close>

definition mailbox_platform ::
  "host_enums \<Rightarrow> 'd i2c \<Rightarrow> (host_event \<Rightarrow> bool) \<Rightarrow> 'd peci \<Rightarrow> ('d \<Rightarrow> HostState \<times> 'd) \<Rightarrow> u8 \<Rightarrow> u8 \<Rightarrow> 'd cpu_platform"
where
  "mailbox_platform E B catches L poll lo hi = \<lparr>pf_enums = E, pf_i2c = B, pf_sst = mailbox_config L poll lo hi,
     pf_fuel = 257, pf_catches = catches\<rparr>"

definition sst_good :: "u8 \<Rightarrow> u8 \<Rightarrow> (sst_state \<times> 'd) option \<Rightarrow> bool" where
  "sst_good lo hi w \<longleftrightarrow> (\<exists>s. w = Some s \<and> sst_inv lo hi s)"

lemma discoverOrWait_defined:
  "\<exists>s'. discoverOrWait (mailbox_config L poll lo hi) 257 s = Some s'"
proof -
  obtain st d where s: "s = (st, d)" by fastforce
  have "fst (discover_loop (mailbox_config L poll lo hi) 257 (client_addresses lo hi) [] d) \<noteq> None"
    by (rule mailbox.discover_loop_ends) simp_all
  then show ?thesis
    by (auto simp: s discoverOrWait_def discoverCPUsAndConfigs_def Let_def
        split: prod.splits option.splits sum.splits bool.splits)
qed

interpretation speed_select: host_observer "hostStateHandler (mailbox_config L poll lo hi) 257" "sst_good lo hi"
  for L :: "'d peci" and poll lo hi
proof
  fix w :: "(sst_state \<times> 'd) option" and prev "next"
  assume "sst_good lo hi w"
  then obtain s where s: "w = Some s" "sst_inv lo hi s" by (auto simp: sst_good_def)
  obtain st d where sd: "s = (st, d)" by fastforce
  obtain s' where "discoverOrWait (mailbox_config L poll lo hi) 257 s = Some s'" using discoverOrWait_defined by blast
  then show "sst_good lo hi (hostStateHandler (mailbox_config L poll lo hi) 257 prev next w)"
    using s discoverOrWait_inv [of L poll lo hi st d s'] by (cases s') (auto simp: sd hostStateHandler_def sst_good_def)
qed

definition wf_process :: "'d peci \<Rightarrow> ('d \<Rightarrow> HostState \<times> 'd) \<Rightarrow> u8 \<Rightarrow> u8 \<Rightarrow> 'd cpu_process \<Rightarrow> bool" where
  "wf_process L poll lo hi p \<longleftrightarrow> host_ok (px_host p)
     \<and> hostStateCallbacks (px_host p) = [hostStateHandler (mailbox_config L poll lo hi) 257]
     \<and> sst_inv lo hi (px_sst p, px_device p)"

lemma sst_inv_device: "sst_inv lo hi (st, d) \<Longrightarrow> sst_inv lo hi (st, d')"
  by (simp add: sst_inv_def)

lemma wf_after_object:
  assumes "wf_process L poll lo hi p"
    and "\<And>c d r c' d'. f (c, d) = (r, c', d') \<Longrightarrow>
      (object_ok lo c \<longrightarrow> object_ok lo c') \<and> cpu_address c' = cpu_address c"
  shows "wf_process L poll lo hi (after_object p i f)"
proof (cases "i < length (sst_cpus (px_sst p))")
  case True
  obtain r c d where f: "f (sst_cpus (px_sst p) ! i, px_device p) = (r, c, d)" by (rule prod_cases3)
  have "sst_inv lo hi ((px_sst p)\<lparr>sst_cpus := (sst_cpus (px_sst p))[i := c]\<rparr>, d)"
    by (rule sst_inv_object [OF _ True]) (use assms(1) assms(2) [OF f] in \<open>auto simp: wf_process_def\<close>)
  then show ?thesis using assms(1) True f by (simp add: after_object_def wf_process_def)
qed (use assms(1) in \<open>simp add: after_object_def\<close>)

lemma object_operations:
  "appliedConfig_get C hs (c, d) = (r, c', d') \<Longrightarrow>
    (object_ok lo c \<longrightarrow> object_ok lo c') \<and> cpu_address c' = cpu_address c"
  "baseSpeedPriorityEnabled_get C hs (c, d) = (q, c', d') \<Longrightarrow>
    (object_ok lo c \<longrightarrow> object_ok lo c') \<and> cpu_address c' = cpu_address c"
  "appliedConfig_set C hs val (c, d) = (w, c', d') \<Longrightarrow>
    (object_ok lo c \<longrightarrow> object_ok lo c') \<and> cpu_address c' = cpu_address c"
  by (auto dest!: objects_kept)

lemma cpu_progress:
  assumes "wf_process L poll lo hi p"
  shows "\<exists>p'. cpu_step (mailbox_platform E B catches L poll lo hi) ev p = Some p' \<and> wf_process L poll lo hi p'"
proof (cases "px_running p")
  case True
  let ?P = "mailbox_platform E B catches L poll lo hi" and ?C = "mailbox_config L poll lo hi"
  let ?w = "Some (px_sst p, px_device p)"
  have P: "pf_enums ?P = E" "pf_sst ?P = ?C" "pf_fuel ?P = 257" by (simp_all add: mailbox_platform_def)
  note w = assms [unfolded wf_process_def]
  have obs: "speed_select.observed L poll lo hi (px_host p, ?w)"
    using w by (simp add: speed_select.observed_def sst_good_def)
  have same: "wf_process L poll lo hi (p\<lparr>px_daemon := dm, px_device := d\<rparr>)" for dm d
    using w sst_inv_device by (fastforce simp: wf_process_def)
  have "\<exists>p'. cpu_handle ?P ev p = Some p' \<and> wf_process L poll lo hi p'"
  proof (cases ev)
    case (HostMessage m)
    show ?thesis
    proof (cases "subscribeToProperty E m (px_host p, ?w)")
      case (Inl e)
      then show ?thesis using assms HostMessage by (simp add: P wf_process_def)
    next
      case (Inr hw)
      obtain h w' where hw: "hw = (h, w')" by fastforce
      have "speed_select.observed L poll lo hi (h, w')"
        using speed_select.observed_message [OF obs Inr] hw by simp
      then show ?thesis
        using HostMessage Inr hw by (auto simp: P after_sst_def wf_process_def speed_select.observed_def sst_good_def)
    qed
  next
    case (RetryTimer ec)
    obtain s' where s': "retryTimer_handler ?C 257 ec (px_sst p, px_device p) = Some s'"
      using discoverOrWait_defined by (cases ec) (fastforce simp: retryTimer_handler_def)+
    have "sst_inv lo hi s'" if "retryArmed (px_sst p)"
      using sst_step_inv [OF _ sst_step.timer [OF that s']] w by blast
    then show ?thesis
      using RetryTimer s' assms by (cases s') (auto simp: P after_sst_def wf_process_def)
  next
    case (AppliedConfigGet i)
    then show ?thesis using wf_after_object [OF assms object_operations(1)] by (simp add: P)
  next
    case (PriorityEnabledGet i)
    then show ?thesis using wf_after_object [OF assms object_operations(2)] by (simp add: P)
  next
    case (AppliedConfigSet i val)
    then show ?thesis using wf_after_object [OF assms object_operations(3)] by (simp add: P)
  qed (use assms same in \<open>auto simp: after_daemon_def wf_process_def\<close>)
  then show ?thesis using True by (simp add: cpu_step_def)
qed (use assms in \<open>simp add: cpu_step_def\<close>)

interpretation cpu_daemon: typed_process "cpu_step (mailbox_platform E B catches L poll lo hi)" "\<lambda>ev. True"
  "wf_process L poll lo hi" for E B catches L poll lo hi
  by unfold_locales (rule cpu_progress)

end
