(* ===== verification/Cpu_Number.thy ===== *)
theory Cpu_Number
  imports Cpu_Service
begin

text \<open>
  The inventory number of a CPU in the life of the daemon: what each handler leaves of a CPU's entry and
  of its pending timer, and the run that leads from the first description of the CPU to the published
  number.
\<close>

subsection \<open>What a handler leaves of a CPU\<close>

text \<open>The entry of a CPU up to its specification string, and its pending timers.\<close>

definition keeps_cpu :: "u64 \<Rightarrow> cpu_daemon \<Rightarrow> cpu_daemon \<Rightarrow> bool" where
  "keeps_cpu cpu st st' \<longleftrightarrow> (\<forall>ci. cpuInfoMap st cpu = Some ci \<longrightarrow> (\<exists>s. cpuInfoMap st' cpu = Some (ci\<lparr>ci_sSpec := s\<rparr>)))
     \<and> set (ppinTimers st) \<subseteq> set (ppinTimers st')"

lemma keeps_cpuI:
  assumes "cpuInfoMap st' cpu = cpuInfoMap st cpu" and "set (ppinTimers st) \<subseteq> set (ppinTimers st')"
  shows "keeps_cpu cpu st st'"
proof -
  have "\<exists>s. ci = ci\<lparr>ci_sSpec := s\<rparr>" for ci :: CPUInfo by (rule exI [of _ "ci_sSpec ci"]) simp
  then show ?thesis using assms unfolding keeps_cpu_def by simp
qed

lemma keeps_cpu_trans:
  assumes "keeps_cpu cpu st st1" and "keeps_cpu cpu st1 st2"
  shows "keeps_cpu cpu st st2"
  using assms by (fastforce simp: keeps_cpu_def)

lemma keeps_set_property: "keeps_cpu cpu st (setDbusProperty k prop st)"
  by (rule keeps_cpuI) (simp_all add: setDbusProperty_def createCpuUpdatedMatch_def Let_def)

lemma keeps_tryReadSSpec: "keeps_cpu cpu st (fst (tryReadSSpec B k (st, d)))"
proof (cases "cpuInfoMap st k")
  case (Some ci)
  obtain r d' where rd: "readSSpec B (ci_i2cBus ci) (ci_i2cDevice ci) sspecRegAddr sspecSize d = (r, d')" by fastforce
  have same: "\<exists>s. ci' = ci'\<lparr>ci_sSpec := s\<rparr>" for ci' :: CPUInfo by (rule exI [of _ "ci_sSpec ci'"]) simp
  show ?thesis
    using Some rd same
    by (auto simp: tryReadSSpec_def keeps_cpu_def setCpuProperty_def setDbusProperty_def createCpuUpdatedMatch_def
        Let_def split: option.split)
qed (simp add: tryReadSSpec_def keeps_cpuI)

lemma keeps_getPPIN:
  assumes "k \<noteq> cpu"
  shows "keeps_cpu cpu st (fst (getPPIN L hs k (st, d)))"
  using assms by (auto simp: getPPIN_def intro!: keeps_cpuI split: option.split prod.split)

lemma keeps_resend: "keeps_cpu cpu st (resend_loop k obj ifs props st)"
  by (induction k obj ifs props st rule: resend_loop.induct)
    (auto intro: keeps_cpuI keeps_set_property keeps_cpu_trans)

lemma keeps_address:
  assumes "\<And>props ci. reply = Some props \<Longrightarrow> described_cpu props \<noteq> Some (cpu, ci)"
  shows "keeps_cpu cpu st (fst (getCpuAddress B L hs reply (st, d)))"
proof (cases "Option.bind reply described_cpu")
  case None
  then show ?thesis by (cases reply) (auto simp: getCpuAddress_def intro: keeps_cpuI)
next
  case (Some r)
  obtain k ci where r: "r = (k, ci)" by fastforce
  then obtain props where props: "reply = Some props" "described_cpu props = Some (k, ci)"
    using Some by (cases reply) auto
  have k: "k \<noteq> cpu" using assms props by blast
  let ?st = "st\<lparr>cpuInfoMap := (cpuInfoMap st)(k := Some ci)\<rparr>"
  obtain st1 d1 where t: "tryReadSSpec B k (?st, d) = (st1, d1)" by fastforce
  have "keeps_cpu cpu st ?st" using k by (intro keeps_cpuI) auto
  moreover have "keeps_cpu cpu ?st st1" using keeps_tryReadSSpec [of cpu ?st B k d] t by simp
  moreover have "keeps_cpu cpu st1 (fst (getPPIN L hs k (st1, d1)))" by (rule keeps_getPPIN [OF k])
  ultimately have "keeps_cpu cpu st (fst (getPPIN L hs k (st1, d1)))" by (blast intro: keeps_cpu_trans)
  then show ?thesis using props t by (simp add: getCpuAddress_def)
qed

subsection \<open>Waiting for the number\<close>

definition knows_cpu :: "u64 \<Rightarrow> u8 \<Rightarrow> cpu_daemon \<Rightarrow> bool" where
  "knows_cpu cpu addr st \<longleftrightarrow> (\<exists>ci. cpuInfoMap st cpu = Some ci \<and> ucast (ci_id ci) = cpu \<and> ci_peciAddr ci = addr)"

definition ppin_pending :: "u64 \<Rightarrow> u8 \<Rightarrow> cpu_daemon \<Rightarrow> bool" where
  "ppin_pending cpu addr st \<longleftrightarrow> knows_cpu cpu addr st \<and> cpu \<in> set (ppinTimers st)"

text \<open>The number is on the bus, as text that reads as it.\<close>

definition shows_number :: "u64 \<Rightarrow> u8 \<Rightarrow> nat \<Rightarrow> cpu_daemon \<Rightarrow> bool" where
  "shows_number cpu addr v st \<longleftrightarrow> (\<exists>ci path txt. cpuInfoMap st cpu = Some ci \<and> ucast (ci_id ci) = cpu
     \<and> ci_peciAddr ci = addr \<and> uuidInterface ci = Some (path, txt) \<and> hex_value txt = v)"

text \<open>PECI gives the number \<open>v\<close> of the CPU at the address whenever it is asked.\<close>

definition number_readable :: "'d peci \<Rightarrow> u8 \<Rightarrow> nat \<Rightarrow> bool" where
  "number_readable L addr v \<longleftrightarrow> 0 < v \<and> (\<forall>d. \<exists>cc m d1. peci_GetCPUID L addr d = ((PECI_CC_SUCCESS, cc, m), d1)
     \<and> ppin_model m \<and> unat (fst (read_ppin L addr d1)) = v)"

lemma keeps_pending: "keeps_cpu cpu st st' \<Longrightarrow> ppin_pending cpu addr st \<Longrightarrow> ppin_pending cpu addr st'"
  by (fastforce simp: keeps_cpu_def ppin_pending_def knows_cpu_def)

lemma keeps_number: "keeps_cpu cpu st st' \<Longrightarrow> shows_number cpu addr v st \<Longrightarrow> shows_number cpu addr v st'"
  by (fastforce simp: keeps_cpu_def shows_number_def)

lemma shows_number_knows: "shows_number cpu addr v st \<Longrightarrow> knows_cpu cpu addr st"
  by (auto simp: shows_number_def knows_cpu_def)

lemma getPPIN_before_post:
  assumes "knows_cpu cpu addr st" and "hs \<noteq> postComplete"
  shows "getPPIN L hs cpu (st, d) = (st\<lparr>ppinTimers := ppinTimers st @ [cpu]\<rparr>, d)"
  using assms by (auto simp: knows_cpu_def getPPIN_def)

lemma getPPIN_after_post:
  assumes "knows_cpu cpu addr st" and "number_readable L addr v"
  shows "shows_number cpu addr v (fst (getPPIN L postComplete cpu (st, d)))"
proof -
  obtain ci where ci: "cpuInfoMap st cpu = Some ci" "ucast (ci_id ci) = cpu" "ci_peciAddr ci = addr"
    using assms(1) by (auto simp: knows_cpu_def)
  obtain cc m d1 where g: "peci_GetCPUID L addr d = ((PECI_CC_SUCCESS, cc, m), d1)" "ppin_model m"
    "unat (fst (read_ppin L addr d1)) = v" "0 < v"
    using assms(2) unfolding number_readable_def by blast
  obtain w d2 where w: "read_ppin L addr d1 = (w, d2)" by fastforce
  have "w \<noteq> 0" "hex_value (hex (unat w)) = v" using g(3,4) w hex_round by (auto simp: unat_eq_0)
  then show ?thesis using ci g w by (auto simp: getPPIN_def shows_number_def publishUUID_def)
qed

lemma getPPIN_done:
  assumes "knows_cpu cpu addr st" and "number_readable L addr v"
  shows "ppinTimers (fst (getPPIN L postComplete cpu (st, d))) = ppinTimers st"
proof -
  obtain cc m d1 where "peci_GetCPUID L addr d = ((PECI_CC_SUCCESS, cc, m), d1)" "ppin_model m"
    using assms(2) unfolding number_readable_def by blast
  then show ?thesis using assms(1) by (auto simp: knows_cpu_def getPPIN_def split: prod.split)
qed

lemma getPPIN_waits:
  assumes "knows_cpu cpu addr st" and "number_readable L addr v"
  shows "ppin_pending cpu addr (fst (getPPIN L hs cpu (st, d))) \<or> shows_number cpu addr v (fst (getPPIN L hs cpu (st, d)))"
proof (cases "hs = postComplete")
  case True
  then show ?thesis using getPPIN_after_post [OF assms] by blast
next
  case False
  then show ?thesis
    using getPPIN_before_post [OF assms(1) False, of L d] assms(1) by (simp add: ppin_pending_def knows_cpu_def)
qed

lemma getPPIN_keeps_number:
  assumes "shows_number cpu addr v st" and "number_readable L addr v"
  shows "shows_number cpu addr v (fst (getPPIN L hs k (st, d)))"
proof (cases "k = cpu")
  case True
  show ?thesis
  proof (cases "hs = postComplete")
    case True
    then show ?thesis using getPPIN_after_post [OF shows_number_knows [OF assms(1)] assms(2)] \<open>k = cpu\<close> by blast
  next
    case False
    then show ?thesis
      using getPPIN_before_post [OF shows_number_knows [OF assms(1)] False, of L d] assms(1) \<open>k = cpu\<close>
      by (simp add: shows_number_def)
  qed
next
  case False
  show ?thesis by (rule keeps_number [OF keeps_getPPIN [OF False] assms(1)])
qed

subsection \<open>The daemon on its way to the number\<close>

text \<open>
  Events that leave the CPU to itself: no new description of it, and no timer that fails.
\<close>

fun calm :: "u64 \<Rightarrow> cpu_event \<Rightarrow> bool" where
  "calm cpu (AddressReply (Some props)) \<longleftrightarrow>
     (case described_cpu props of None \<Rightarrow> True | Some (k, ci) \<Rightarrow> k \<noteq> cpu)"
| "calm cpu (PpinTimer k ec) \<longleftrightarrow> \<not> ec"
| "calm cpu ev \<longleftrightarrow> True"

definition ppin_fires :: "u64 \<Rightarrow> cpu_event \<Rightarrow> cpu_daemon \<Rightarrow> bool" where
  "ppin_fires cpu ev st \<longleftrightarrow> (\<exists>k. ev = PpinTimer k False \<and> k < length (ppinTimers st) \<and> ppinTimers st ! k = cpu)"

lemma calm_keeps:
  assumes "cpu_handle P ev p = Some p'" and "calm cpu ev" and "\<nexists>k. ev = PpinTimer k False"
  shows "keeps_cpu cpu (px_daemon p) (px_daemon p')"
proof (cases ev)
  case (AddressReply reply)
  have "keeps_cpu cpu (px_daemon p) (fst (getCpuAddress (pf_i2c P) (cf_peci (pf_sst P)) (hostState (px_host p)) reply
      (px_daemon p, px_device p)))"
    by (rule keeps_address) (use assms(2) AddressReply in auto)
  then show ?thesis using assms(1) AddressReply by (auto simp: after_daemon_def)
next
  case (SspecTimer k ec)
  let ?ts = "sspecTimers (px_daemon p)"
  let ?st = "(px_daemon p)\<lparr>sspecTimers := take k ?ts @ drop (k + 1) ?ts\<rparr>"
  let ?r = "tryReadSSpec (pf_i2c P) (fst (?ts ! k)) (?st, px_device p)"
  have st: "keeps_cpu cpu (px_daemon p) ?st" by (rule keeps_cpuI) simp_all
  have rd: "keeps_cpu cpu (px_daemon p) (fst ?r)" by (rule keeps_cpu_trans [OF st keeps_tryReadSSpec])
  have "px_daemon p' = (if k < length ?ts then if ec then ?st else fst ?r else px_daemon p)"
    using assms(1) SspecTimer by (auto simp: after_daemon_def sspecTimer_handler_def Let_def)
  then show ?thesis using st rd keeps_cpuI [of "px_daemon p" cpu "px_daemon p"] by simp
next
  case (CpuUpdated k obj ifs)
  then show ?thesis using assms(1) keeps_resend by (auto simp: cpuUpdated_handler_def intro: keeps_cpuI)
qed (use assms in \<open>auto simp: after_sst_def after_object_def getCpuConfiguration_def cpuConfigMatch_handler_def
    filterTimer_handler_def Let_def intro!: keeps_cpuI split: sum.splits prod.splits option.splits if_splits\<close>)

lemma ppin_timer_step:
  assumes "number_readable (cf_peci (pf_sst P)) addr v" and "cpu_handle P (PpinTimer k False) p = Some p'"
  shows "ppin_pending cpu addr (px_daemon p) \<Longrightarrow>
      ppin_pending cpu addr (px_daemon p') \<or> shows_number cpu addr v (px_daemon p')"
    and "shows_number cpu addr v (px_daemon p) \<Longrightarrow> shows_number cpu addr v (px_daemon p')"
    and "ppin_pending cpu addr (px_daemon p) \<Longrightarrow> ppin_fires cpu (PpinTimer k False) (px_daemon p) \<Longrightarrow>
      hostState (px_host p) = postComplete \<Longrightarrow> shows_number cpu addr v (px_daemon p')"
proof -
  let ?ts = "ppinTimers (px_daemon p)" and ?L = "cf_peci (pf_sst P)" and ?hs = "hostState (px_host p)"
  let ?st = "(px_daemon p)\<lparr>ppinTimers := take k ?ts @ drop (k + 1) ?ts\<rparr>"
  have p': "px_daemon p' = (if k < length ?ts then fst (getPPIN ?L ?hs (?ts ! k) (?st, px_device p)) else px_daemon p)"
    using assms(2) by (auto simp: after_daemon_def ppinTimer_handler_def Let_def)
  have split: "set ?ts = insert (?ts ! k) (set (take k ?ts @ drop (k + 1) ?ts))" if "k < length ?ts"
    using that id_take_nth_drop [of k ?ts] by (metis Un_insert_right list.simps(15) set_append Suc_eq_plus1)
  have knows: "knows_cpu cpu addr ?st" if "knows_cpu cpu addr (px_daemon p)" using that by (simp add: knows_cpu_def)
  show "ppin_pending cpu addr (px_daemon p) \<Longrightarrow>
      ppin_pending cpu addr (px_daemon p') \<or> shows_number cpu addr v (px_daemon p')"
  proof (cases "k < length ?ts \<and> ?ts ! k \<noteq> cpu")
    case True
    assume "ppin_pending cpu addr (px_daemon p)"
    then have "ppin_pending cpu addr ?st" using True split knows by (auto simp: ppin_pending_def)
    then show ?thesis using True p' keeps_pending [OF keeps_getPPIN] by auto
  next
    case False
    assume "ppin_pending cpu addr (px_daemon p)"
    then show ?thesis
      using False p' getPPIN_waits [OF knows assms(1), of ?hs "px_device p"] by (auto simp: ppin_pending_def)
  qed
  show "shows_number cpu addr v (px_daemon p')" if "shows_number cpu addr v (px_daemon p)"
  proof -
    have "shows_number cpu addr v ?st" using that by (simp add: shows_number_def)
    then show ?thesis using that p' getPPIN_keeps_number [OF _ assms(1)] by auto
  qed
  show "shows_number cpu addr v (px_daemon p')"
    if "ppin_pending cpu addr (px_daemon p)" "ppin_fires cpu (PpinTimer k False) (px_daemon p)" "?hs = postComplete"
    using that p' getPPIN_after_post [OF knows assms(1)] by (auto simp: ppin_pending_def ppin_fires_def)
qed

lemma calm_step:
  assumes "number_readable (cf_peci (pf_sst P)) addr v" and "cpu_handle P ev p = Some p'" and "calm cpu ev"
  shows "ppin_pending cpu addr (px_daemon p) \<Longrightarrow>
      ppin_pending cpu addr (px_daemon p') \<or> shows_number cpu addr v (px_daemon p')"
    and "shows_number cpu addr v (px_daemon p) \<Longrightarrow> shows_number cpu addr v (px_daemon p')"
  using ppin_timer_step(1,2) [OF assms(1)] calm_keeps [OF assms(2,3)] keeps_pending keeps_number assms(2)
  by (cases "\<exists>k. ev = PpinTimer k False"; blast)+

lemma address_pending:
  assumes "number_readable (cf_peci (pf_sst P)) (ci_peciAddr ci) v"
    and "cpu_handle P (AddressReply (Some props)) p = Some p'"
    and "described_cpu props = Some (cpu, ci)" and "ucast (ci_id ci) = cpu"
  shows "ppin_pending cpu (ci_peciAddr ci) (px_daemon p') \<or> shows_number cpu (ci_peciAddr ci) v (px_daemon p')"
proof -
  let ?st = "(px_daemon p)\<lparr>cpuInfoMap := (cpuInfoMap (px_daemon p))(cpu := Some ci)\<rparr>"
  obtain st1 d1 where t: "tryReadSSpec (pf_i2c P) cpu (?st, px_device p) = (st1, d1)" by fastforce
  have "keeps_cpu cpu ?st st1" using keeps_tryReadSSpec [of cpu ?st "pf_i2c P" cpu "px_device p"] t by simp
  then have "knows_cpu cpu (ci_peciAddr ci) st1" using assms(4) by (auto simp: keeps_cpu_def knows_cpu_def)
  from getPPIN_waits [OF this assms(1), of "hostState (px_host p)" d1] show ?thesis
    using assms(2,3) t by (auto simp: getCpuAddress_def after_daemon_def)
qed

text \<open>
  C18. The number of a CPU is published in the end. Once the configuration has described a CPU, its timer runs
  until the host has completed POST; in every run of the daemon in which the host completes POST for
  good, PECI then gives the number, every pending timer of the CPU expires without an error and the
  CPU is not described anew, there is a moment from which on the number is on the bus, as
  hexadecimal text with its value.
\<close>

theorem ppin_eventually_published:
  assumes "trace (cpu_step P) ev r" and "\<forall>n. px_running (r n)"
    and "ev 0 = AddressReply (Some props)" and "described_cpu props = Some (cpu, ci)" and "ucast (ci_id ci) = cpu"
    and "number_readable (cf_peci (pf_sst P)) (ci_peciAddr ci) v"
    and "\<forall>n > 0. calm cpu (ev n)" and "\<exists>N. \<forall>n \<ge> N. hostState (px_host (r n)) = postComplete"
    and "\<forall>n. cpu \<in> set (ppinTimers (px_daemon (r n))) \<longrightarrow> (\<exists>m \<ge> n. ppin_fires cpu (ev m) (px_daemon (r m)))"
  shows "\<exists>k. \<forall>j \<ge> k. shows_number cpu (ci_peciAddr ci) v (px_daemon (r j))"
proof -
  let ?W = "\<lambda>p. ppin_pending cpu (ci_peciAddr ci) (px_daemon p)"
  let ?S = "\<lambda>p. shows_number cpu (ci_peciAddr ci) v (px_daemon p)"
  have h: "cpu_handle P (ev n) (r n) = Some (r (Suc n))" for n
    using traceD [OF assms(1), of n] assms(2) by (simp add: cpu_step_def)
  have step: "cpu_handle P (ev k) (r k) = Some s'" if "cpu_step P (ev k) (r k) = Some s'" for k s'
    using that assms(2) by (simp add: cpu_step_def)
  obtain N where N: "\<forall>n \<ge> N. hostState (px_host (r n)) = postComplete" using assms(8) by blast
  have W1: "?W (r 1) \<or> ?S (r 1)"
    using address_pending [OF assms(6) h [of 0, unfolded assms(3)] assms(4,5)] by simp
  have cs: "(?W (r k) \<longrightarrow> ?W s' \<or> ?S s') \<and> (?S (r k) \<longrightarrow> ?S s')" if "0 < k" "cpu_step P (ev k) (r k) = Some s'" for k s'
    using calm_step [OF assms(6) step [OF that(2)]] assms(7) that(1) by blast
  have WN: "?W (r (Suc N)) \<or> ?S (r (Suc N))"
    by (rule trace_stable [OF assms(1), where n = 1 and P = "\<lambda>p. ?W p \<or> ?S p"])
       (use W1 cs in \<open>auto simp: Suc_le_eq\<close>)
  have "\<exists>k \<ge> Suc N. ?S (r k)"
  proof (rule trace_leads_to [OF assms(1), where P = "\<lambda>p. ?W p \<or> ?S p"
        and trigger = "\<lambda>k. ?S (r k) \<or> ppin_fires cpu (ev k) (px_daemon (r k))"])
    show "?S s'" if k: "Suc N \<le> k" "?W (r k) \<or> ?S (r k)" "?S (r k) \<or> ppin_fires cpu (ev k) (px_daemon (r k))"
      "cpu_step P (ev k) (r k) = Some s'" for k s'
    proof (cases "?S (r k)")
      case True
      then show ?thesis using cs [OF _ k(4)] k(1) by auto
    next
      case False
      then obtain j where j: "ev k = PpinTimer j False" using k(3) by (auto simp: ppin_fires_def)
      then show ?thesis
        using False k(1-3) ppin_timer_step(3) [OF assms(6) step [OF k(4), unfolded j], of cpu] N by auto
    qed
    show "(?W s' \<or> ?S s') \<or> ?S s'" if "Suc N \<le> k" "?W (r k) \<or> ?S (r k)" "cpu_step P (ev k) (r k) = Some s'" for k s'
      using that cs [OF _ that(3)] by auto
    show "\<exists>j \<ge> Suc N. ?S (r j) \<or> ppin_fires cpu (ev j) (px_daemon (r j))"
      using WN assms(9) by (auto simp: ppin_pending_def)
  qed (rule WN)
  then obtain k where k: "Suc N \<le> k" "?S (r k)" by blast
  have pos: "0 < l" if "k \<le> l" for l using that k(1) by simp
  have "?S (r j)" if "k \<le> j" for j
    by (rule trace_stable [OF assms(1), where n = k and P = ?S]) (use k(2) that cs pos in blast)+
  then show ?thesis by blast
qed


subsection \<open>The daemon as a whole\<close>

text \<open>
  C17. Every sequence of events of the daemon is defined, whatever the host, PECI, I2C and the bus do: each
  handler returns, also a discovery that a change of the host state starts; and at every moment the host
  state is the one that its three sources determine, the callback of Speed Select is registered, and the
  published processors are complete, with none while a retry is pending.
\<close>

theorem cpu_daemon_type_safe:
  "\<exists>p. run_events (cpu_step (mailbox_platform E B catches L poll lo hi)) evs
      (cpuinfo_main (mailbox_platform E B catches L poll lo hi) d) = Some p
    \<and> hostState (px_host p) = host_of (powerState (px_host p)) (biosDone (px_host p)) (osState (px_host p))
    \<and> hostStateCallbacks (px_host p) = [hostStateHandler (mailbox_config L poll lo hi) 257]
    \<and> list_all (object_ok lo) (sst_cpus (px_sst p)) \<and> (retryArmed (px_sst p) \<longrightarrow> sst_cpus (px_sst p) = [])"
proof -
  have "wf_process L poll lo hi (cpuinfo_main (mailbox_platform E B catches L poll lo hi) d)"
    using speed_select.observed_start [of lo hi "Some (sst_start, d)" L poll]
    by (simp add: wf_process_def cpuinfo_main_def mailbox_platform_def sst_init_def speed_select.observed_def
        sst_good_def sst_inv_def sst_start_def)
  from cpu_daemon.run_good [OF this, of evs] show ?thesis
    by (fastforce simp: wf_process_def host_ok_def sst_inv_def list_all_iff)
qed

subsection \<open>An example\<close>

definition number_peci :: "unit peci" where
  "number_peci = \<lparr>PECI_DEV_CC_SUCCESS = 0x40,
     peci_WrPkgConfig = (\<lambda>a i p v d. ((PECI_CC_TIMEOUT, 0), d)),
     peci_WrEndPointPCIConfigLocal = (\<lambda>a s b dv f r w d. ((PECI_CC_TIMEOUT, 0), d)),
     peci_RdEndPointConfigPciLocal = (\<lambda>a s b dv f r d. ((PECI_CC_TIMEOUT, 0, 0), d)),
     peci_RdIAMSR = (\<lambda>a th r d. ((PECI_CC_TIMEOUT, 0, 0), d)),
     peci_GetCPUID = (\<lambda>a d. ((PECI_CC_SUCCESS, 0x40, sapphireRapids), d)),
     peci_RdPkgConfig = (\<lambda>a i p d. ((PECI_CC_SUCCESS, 0x40, if p = 1 then 0xABCD else 0), d))\<rparr>"

lemma number_peci_readable: "number_readable number_peci addr 0xABCD"
  by (auto simp: number_readable_def number_peci_def read_ppin_def)

definition demo_platform :: "host_enums \<Rightarrow> unit cpu_platform" where
  "demo_platform E = mailbox_platform E demo_i2c (\<lambda>ev. False) number_peci (\<lambda>d. (postComplete, d)) 48 55"

text \<open>A host in POST; the configuration describes a CPU, POST completes, and the timers expire.\<close>

definition demo_process :: "host_enums \<Rightarrow> unit cpu_process" where
  "demo_process E = (cpuinfo_main (demo_platform E) ())\<lparr>px_host := (px_host (cpuinfo_main (demo_platform E) ()))
     \<lparr>powerState := PowerState_other 0, hostState := postInProgress\<rparr>\<rparr>"

fun demo_events :: "nat \<Rightarrow> cpu_event" where
  "demo_events 0 = AddressReply demo_reply"
| "demo_events (Suc 0) = HostMessage (PropertiesChanged CoreBiosDone [(''CoreBiosDone'', V_bool True)])"
| "demo_events (Suc (Suc n)) = PpinTimer 0 False"

lemma demo_wf: "wf_process number_peci (\<lambda>d. (postComplete, d)) 48 55 (demo_process E)"
  by (simp add: wf_process_def demo_process_def cpuinfo_main_def demo_platform_def mailbox_platform_def sst_init_def
      addHostStateCallback_def hostStateSetup_def host_start_def host_ok_def host_of_def sst_inv_def sst_start_def)

lemma demo_described:
  "described_cpu [(''Address'', C_u64 48), (''CpuID'', C_u64 1)] = Some (1, CPUInfo_new 1 48 13 0x50)"
  by (simp add: described_cpu_def defaultI2cBus_def defaultI2cSlaveAddr0_def)

lemma demo_first:
  "\<exists>p. cpu_step (demo_platform E) (demo_events 0) (demo_process E) = Some p \<and> px_running p
    \<and> ppinTimers (px_daemon p) = [1] \<and> knows_cpu 1 48 (px_daemon p) \<and> px_host p = px_host (demo_process E)"
  by (simp add: cpu_step_def demo_process_def cpuinfo_main_def demo_platform_def mailbox_platform_def after_daemon_def
      getCpuAddress_def demo_reply_def demo_described tryReadSSpec_def CPUInfo_new_def demo_read getPPIN_def
      daemon_start_def knows_cpu_def sst_init_def addHostStateCallback_def hostStateSetup_def host_start_def)

lemma demo_second:
  assumes "px_host p = px_host (demo_process E)" and "px_running p"
    and "cpu_step (demo_platform E) (demo_events 1) p = Some p'"
  shows "px_running p' \<and> px_daemon p' = px_daemon p \<and> hostState (px_host p') = postComplete"
  using assms by (auto simp: cpu_step_def demo_process_def cpuinfo_main_def demo_platform_def mailbox_platform_def
      sst_init_def addHostStateCallback_def hostStateSetup_def host_start_def updateBiosDone_def updateHostState_def
      Let_def hostStateHandler_def after_sst_def)

lemma demo_timer:
  assumes "cpu_step (demo_platform E) (PpinTimer 0 False) p = Some p'" and "px_running p"
    and "hostState (px_host p) = postComplete"
    and "ppinTimers (px_daemon p) = [] \<or> ppinTimers (px_daemon p) = [1] \<and> knows_cpu 1 48 (px_daemon p)"
  shows "px_running p' \<and> hostState (px_host p') = postComplete \<and> ppinTimers (px_daemon p') = []"
proof -
  let ?st = "(px_daemon p)\<lparr>ppinTimers := []\<rparr>"
  have P: "cf_peci (pf_sst (demo_platform E)) = number_peci" by (simp add: demo_platform_def mailbox_platform_def)
  have "ppinTimers (fst (getPPIN number_peci postComplete 1 (?st, px_device p))) = []" if "knows_cpu 1 48 (px_daemon p)"
    using getPPIN_done [OF _ number_peci_readable, of 1 48 ?st] that by (simp add: knows_cpu_def)
  then show ?thesis
    using assms by (auto simp: P cpu_step_def after_daemon_def ppinTimer_handler_def Let_def)
qed

theorem ppin_eventually_published_witness:
  "\<forall>E. \<exists>r k. r 0 = demo_process E \<and> trace (cpu_step (demo_platform E)) demo_events r
     \<and> shows_number 1 48 0xABCD (px_daemon (r k))"
proof
  fix E
  let ?P = "demo_platform E"
  obtain r where r: "r 0 = demo_process E" "trace (cpu_step ?P) demo_events r"
    using cpu_daemon.trace_exists [OF demo_wf [of E], where ev = demo_events and E = E and B = demo_i2c
        and catches = "\<lambda>ev. False"] unfolding demo_platform_def by blast
  have 1: "px_running (r 1)" "ppinTimers (px_daemon (r 1)) = [1]" "knows_cpu 1 48 (px_daemon (r 1))"
    "px_host (r 1) = px_host (demo_process E)"
    using demo_first [of E] traceD [OF r(2), of 0] r(1) by auto
  have 2: "px_running (r 2) \<and> px_daemon (r 2) = px_daemon (r 1) \<and> hostState (px_host (r 2)) = postComplete"
    using demo_second [OF 1(4,1)] traceD [OF r(2), of 1] by (simp add: numeral_2_eq_2)
  have st: "cpu_step ?P (PpinTimer 0 False) (r (n + 2)) = Some (r (Suc (n + 2)))" for n
    using traceD [OF r(2), of "n + 2"] by simp
  have 3: "px_running (r (n + 3)) \<and> hostState (px_host (r (n + 3))) = postComplete \<and> ppinTimers (px_daemon (r (n + 3))) = []" for n
  proof (induction n)
    case 0
    then show ?case using demo_timer [OF st [of 0]] 1(2,3) 2 by (simp add: numeral_3_eq_3 numeral_2_eq_2)
  next
    case (Suc n)
    then show ?case using demo_timer [OF st [of "n + 1"]] by (simp add: add.commute [of _ 3] numeral_3_eq_3)
  qed
  have cases: "n = 0 \<or> n = 1 \<or> n = 2 \<or> (\<exists>k. n = k + 3)" for n :: nat by presburger
  have run: "\<forall>n. px_running (r n)"
  proof
    fix n
    have "px_running (r 0)" using r(1) by (simp add: demo_process_def cpuinfo_main_def)
    then show "px_running (r n)" using cases [of n] 1(1) 2 3 by auto
  qed
  have calm: "\<forall>n > 0. calm 1 (demo_events n)"
  proof (intro allI impI)
    fix n :: nat assume "0 < n"
    then show "calm 1 (demo_events n)" by (cases n rule: demo_events.cases) auto
  qed
  have post: "\<exists>N. \<forall>n \<ge> N. hostState (px_host (r n)) = postComplete"
    using 3 by (intro exI [of _ 3] allI impI) (metis add.commute le_Suc_ex)
  have fair: "\<forall>n. 1 \<in> set (ppinTimers (px_daemon (r n))) \<longrightarrow>
      (\<exists>m \<ge> n. ppin_fires 1 (demo_events m) (px_daemon (r m)))"
  proof (intro allI impI)
    fix n assume n: "1 \<in> set (ppinTimers (px_daemon (r n)))"
    then have "n \<le> 2" using 3 cases [of n] by auto
    moreover have "ppin_fires 1 (demo_events 2) (px_daemon (r 2))"
      using 1(2) 2 by (simp add: ppin_fires_def numeral_2_eq_2)
    ultimately show "\<exists>m \<ge> n. ppin_fires 1 (demo_events m) (px_daemon (r m))" by blast
  qed
  have "number_readable (cf_peci (pf_sst ?P)) (ci_peciAddr (CPUInfo_new 1 48 13 0x50)) 0xABCD"
    using number_peci_readable by (simp add: demo_platform_def mailbox_platform_def)
  moreover have "demo_events 0 = AddressReply (Some [(''Address'', C_u64 48), (''CpuID'', C_u64 1)])"
    "ucast (ci_id (CPUInfo_new 1 48 13 0x50)) = (1 :: u64)" "ci_peciAddr (CPUInfo_new 1 48 13 0x50) = 48"
    by (simp_all add: demo_reply_def CPUInfo_new_def)
  ultimately obtain k where "shows_number 1 48 0xABCD (px_daemon (r k))"
    using ppin_eventually_published [OF r(2) run _ demo_described _ _ calm post fair] by auto
  then show "\<exists>r k. r 0 = demo_process E \<and> trace (cpu_step ?P) demo_events r \<and> shows_number 1 48 0xABCD (px_daemon (r k))"
    using r by blast
qed

theorem cpu_daemon_type_safe_witness:
  "\<forall>E. \<exists>p. run_events (cpu_step (demo_platform E)) [AddressReply demo_reply, PpinTimer 0 False, RetryTimer False]
      (cpuinfo_main (demo_platform E) ()) = Some p
    \<and> hostState (px_host p) = host_of (powerState (px_host p)) (biosDone (px_host p)) (osState (px_host p))"
  using cpu_daemon_type_safe [where E = E and B = demo_i2c and catches = "\<lambda>ev. False" and L = number_peci
      and poll = "\<lambda>d. (postComplete, d)" and lo = 48 and hi = 55 and d = "()"
      and evs = "[AddressReply demo_reply, PpinTimer 0 False, RetryTimer False]" for E]
  unfolding demo_platform_def by blast

end
