(* ===== verification/Spec2Isabelle.thy ===== *)
theory Spec2Isabelle
  imports Mdrv2_Liveness Cpu_Number
begin

text \<open>
  A verification development for the SMBIOS management of an OpenBMC system (\<open>smbios-mdr\<close>).

  \<^bold>\<open>The program.\<close> A host uploads its SMBIOS table to the management controller through an IPMI
  blob handler (\<open>src/smbios-ipmi-blobs/handler.cpp\<close>): it opens the blob, writes the table in chunks
  and commits. The commit writes a header and the table to a flash file and calls the MDR V2 agent
  (\<open>src/mdrv2.cpp\<close>, \<open>include/mdrv2.hpp\<close>) over D-Bus. The agent clears its storage of 64 KiB, reads
  the file into it, checks the version and, after a delay, builds the inventory: objects for
  processors, memory devices, PCIe slots, base boards, TPM, firmware and the system
  (\<open>src/cpu.cpp\<close>, \<open>src/chassisCpu.cpp\<close>, \<open>src/dimm.cpp\<close>, \<open>src/pcieslot.cpp\<close>, \<open>include/baseboard.hpp\<close>,
  \<open>src/tpm.cpp\<close>, \<open>src/firmware.cpp\<close>, \<open>src/system.cpp\<close>), each of which finds its structure in the
  storage with the parser of \<open>include/smbios_mdrv2.hpp\<close>.

  A second daemon serves Intel processors (\<open>src/cpuinfo_main.cpp\<close>, \<open>src/cpuinfo_utils.cpp\<close>): it follows
  the state of the host, reads the specification string of a CPU over I2C and its inventory number
  over PECI, sets them on the objects of the agent, and publishes the operating configurations of
  Intel Speed Select (\<open>src/speed_select.cpp\<close>), which it reads and writes through the OS mailbox
  of the CPU (\<open>src/sst_mailbox.cpp\<close>).

  \<^bold>\<open>The theories.\<close>
  \<^item> \<open>Smbios_Prelude\<close>: machine words, a memory of bytes whose reads are checked (a read outside is
    \<open>None\<close>), pointers, little-endian encoding, substring search, decimal numbers, exceptions,
    reachable states and the locale \<open>machine_invariant\<close>.
  \<^item> \<open>Smbios_Parse\<close>: the parser, function by function. Loops are recursive functions that
    terminate on every memory; there is no fuel.
  \<^item> \<open>Smbios_Table\<close>: the abstract table, a list of structures (type, handle, body, strings), its
    encoding, and what each parser function returns on an encoded table.
  \<^item> \<open>Smbios_Safety\<close>: the parser on arbitrary bytes; the locale \<open>struct_cursor\<close> with the walk over
    structures, interpreted by the parser; memory safety, and the storage on which it fails.
  \<^item> \<open>Smbios_Lookup\<close>: tables behind an entry point; the locale \<open>structure_source\<close>, the lookup
    interface on which the inventory theories rest, interpreted by the parser; the counting loops
    of the agent; lookup properties.
  \<^item> \<open>Mdrv2_Agent\<close>: the state of the agent (directory, storage, timer) and all its methods.
    A result of type \<open>checked\<close> is \<open>None\<close> when the code would leave an array; a thrown D-Bus error is
    a value \<open>Inl\<close>.
  \<^item> \<open>Mdrv2_Sync\<close>: what a flash file means byte by byte (\<open>flash_image\<close>, \<open>announces\<close>) and the exact effect of a
    synchronisation in these terms; the agent as a state machine with its invariants, among them that the
    storage is the image of one file of the run; the properties of the directory methods.
  \<^item> \<open>Blob_Handler\<close>: the blob handler, its staging buffer against the abstract write \<open>staged\<close>, its
    state machine and invariant, and the exact outcome of a commit for any service.
  \<^item> \<open>Table_Upload\<close>: the locale \<open>sync_service\<close>, what the handler needs of the service it calls, and
    its interpretation by the agent; uploads from the host to the lookups.
  \<^item> \<open>Inventory_Dimm\<close>, \<open>Inventory_Cpu\<close>, \<open>Inventory_Pcie\<close>, \<open>Inventory_Board\<close>: the inventory objects,
    each a record with one definition per method, and what an object shows for the \<open>k\<close>-th structure
    of an encoded table.

  \<^item> \<open>Object_Tree\<close>: the interfaces each class registers, the keys under which the bus library keeps
    them, object paths, and the locale \<open>path_family\<close> for paths that end with the index of an object.
  \<^item> \<open>Mdrv2_Inventory\<close>: \<open>systemInfoUpdate\<close>, part by part, with the constructors of the objects, which
    throw when a registration is refused, and \<open>getRecordType\<close>.
  \<^item> \<open>Inventory_Safety\<close>: both stay within the storage on arbitrary bytes.
  \<^item> \<open>Inventory_Places\<close>: where the objects of an inventory are (\<open>placed\<close>, kept by every stage of the refresh),
    the interpretations of \<open>path_family\<close> by processors, their chassis, memory devices and slots, and that
    the library accepts every new object of these families.
  \<^item> \<open>Inventory_Boards\<close>: the base boards of a table and the names they give to memory devices.
  \<^item> \<open>Inventory_Refresh\<close>: what the refresh shows for an encoded table, at which paths, how a bad locator
    or two devices with one name end it, and what every refresh keeps of the inventory (\<open>steady\<close>).
  \<^item> \<open>Event_Runs\<close>: processes that run on events, their finite runs and traces; the locale \<open>typed_process\<close>
    with progress and preservation over all runs, and the rule \<open>trace_leads_to\<close> for liveness.
  \<^item> \<open>Mdrv2_Service\<close>: the agent as a process: constructor, destructor, the handler of added interfaces, the
    timer handlers and all D-Bus methods as one step function over the events of the event loop, with
    the flash file, the published BIOS version and restarts; its interpretation of \<open>typed_process\<close>.
  \<^item> \<open>Mdrv2_Liveness\<close>: an uploaded table is shown in the end and stays shown; tables that end the process
    at every start; BIOS versions that cost the table file.
  \<^item> \<open>Sst_Mailbox\<close>, \<open>Sst_Protocol\<close>: the PECI manager, the mailbox protocol with its commands, and all
    operations of the backend; the outcome of a command on a device that follows the protocol, the
    number of transactions on any device, and what the wake policy allows.
  \<^item> \<open>Cpu_Host\<close>: the host state with its sources and callbacks, and its state machine.
  \<^item> \<open>Speed_Select\<close>: the interface of the backends as a record of operations, the registry, the D-Bus
    objects, the discovery and its retries.
  \<^item> \<open>Speed_Discovery\<close>: the locales \<open>sst_levels\<close> (levels and core lists of a backend) and \<open>sst_session\<close>
    (what an object leaves behind), with the lemmas of the discovery, the setter and the getters.
  \<^item> \<open>Speed_Control\<close>: their interpretations by the mailbox and the properties of Speed Select, among them
    what the setter of the applied configuration sends to the CPU.
  \<^item> \<open>Cpu_Info\<close>, \<open>Cpu_Daemon\<close>: the handlers of the CPU info daemon on its static state, its state machine,
    and the properties of what it publishes.
  \<^item> \<open>Cpu_Service\<close>: the daemon as a process from \<open>main\<close> on; the locale \<open>host_observer\<close>, what a component
    promises that registers a callback on the host state, interpreted by Speed Select, and
    \<open>typed_process\<close>, interpreted by the whole daemon.
  \<^item> \<open>Cpu_Number\<close>: what each handler leaves of the entry of a CPU, and that its inventory number is
    published in the end.

  \<^bold>\<open>Correspondence.\<close> Methods keep their names where these are free; a prefix names the class where
  several classes have the method (\<open>cpu_set_family\<close> is \<open>Cpu::family\<close>, \<open>cc_set_model\<close> is
  \<open>chassisCpu::model\<close>). A field accessor such as \<open>mi_size\<close> reads the member of the packed structure
  \<open>MemoryInfo\<close> at its offset. D-Bus properties are fields of the record of the object. Build options
  are parameters (\<open>dimm_config\<close>, \<open>cpu_config\<close>). Logging is left out.

  \<^bold>\<open>Parameters.\<close> The flag bits of the blob framework (\<open>blob_flags\<close>; the properties assume that the
  four state flags are four different bits), \<open>boost::algorithm::trim_right\<close>, the outcome of the
  file system calls of a commit (\<open>commit_env\<close>), the contents of the flash file, and the
  indeterminate initial contents of the directory. Plain \<open>char\<close> is taken as unsigned, as on the ARM
  targets.

  Further parameters are the answers of the object mapper and the outcome of the call that publishes the BIOS
  version (\<open>bus_env\<close>, \<open>bios_bus\<close>; \<open>mapper_answers\<close> says that an answer names a service, \<open>mapper_below\<close> that
  its answers are valid paths below the inventory), whether the bus library accepts the registration
  of an object (\<open>bus_accepts\<close>; \<open>bus_registers\<close> says that it accepts a valid path where the interfaces are not in
  use, \<open>bus_refuses\<close> that it refuses an interface in use, which is what the library documents), the PECI library (the record \<open>peci\<close>), the I2C
  calls (\<open>i2c\<close>), the conversions of generated D-Bus enumerations (\<open>host_enums\<close>), and \<open>io_context::poll\<close>.
  Properties that need a law of one of them state it as a hypothesis: \<open>os_mailbox\<close> is the documented
  protocol of the mailbox, \<open>wake_clears\<close> says that disabling wake-on-PECI succeeds,
  \<open>sleep_keeps_registers\<close> that it does not change the registers of the mailbox.

  \<^bold>\<open>Fuel.\<close> Only the loop over the levels of a CPU has fuel, since a backend may raise its maximum in
  every round. With the mailbox 257 rounds are enough, because its maximum is a field of eight bits
  (\<open>discovery_terminates\<close>); all other loops are total functions.

  \<^bold>\<open>Events and runs.\<close> A process is a function from an event and a state to a state. The events of the agent
  are starts, replaced files, D-Bus calls, the timer and signals; an exception that a timer handler lets
  out ends the process, and for exceptions of signal handlers it is a parameter which of them the bus
  library catches. Liveness properties are stated for all infinite runs in which the timers expire again
  and again.

  \<^bold>\<open>What is not modelled.\<close> The objects of the event loop and bus libraries that the entry points construct;
  a discovery that is started by a handler inside \<open>io_context::poll\<close> of another discovery; the setters of
  generated D-Bus interfaces, which store their argument (a record update here); the delivery of signals
  by the bus; \<open>extendedModel\<close> and \<open>mask\<close>, which no code calls.

  This theory holds the property that spans the upload, the agent and the inventory.
\<close>

text \<open>
  C30. End to end, from the host to the inventory: after an accepted upload of a well-formed
  table the agent counts exactly the processors, memory devices and PCIe slots that the host
  sent (up to 255 of each), and the system object shows the UUID of the first system structure.
\<close>

theorem uploaded_table_inventory:
  assumes "distinct_flags F" and "flags AND of_read F = 0" and "flags AND of_write F \<noteq> 0"
    and "env_writable env" and "wf_agent a"
    and "list_all (\<lambda>c. c \<noteq> []) chunks" and "concat chunks = smbios30_file major minor maxSize ss"
    and "list_all wf_struct ss" and "length (concat chunks) + 3 \<le> smbiosTableStorageSize"
    and "\<lparr>majorVersion = major, minorVersion = minor\<rparr> \<in> set supportedSMBIOSVersions"
    and "search anchorString21 (concat chunks) = None"
    and "\<forall>x \<in> set ss. s_type x = 9 \<longrightarrow> 13 \<le> s_length x"
    and "of_type 1 ss = s # rest" and "24 \<le> s_length s"
  shows "\<exists>b' a'. upload_table F env session flags chunks f a =
      (True, Some b', Some (file_image (now env) (concat chunks)), a')
    \<and> getTotalCpuSlot (smbiosTableStorage a') (At 0) = Some (Some (min 255 (length (of_type 4 ss))))
    \<and> getTotalDimmSlot (smbiosTableStorage a') (At 0) = Some (Some (min 255 (length (of_type 17 ss))))
    \<and> getTotalPcieSlot (smbiosTableStorage a') (At 0) =
        Some (Some (min 255 (length (filter pcie_struct (of_type 9 ss)))))
    \<and> System_uuid (smbiosTableStorage a') (At 0) = Some (uuid_text s)"
proof -
  obtain b' a' where up: "upload_table F env session flags chunks f a =
      (True, Some b', Some (file_image (now env) (concat chunks)), a')"
    and tf: "table_from (smbiosTableStorage a') 0 24 ss"
    using upload_table_loaded [OF assms(1-11)] by blast
  obtain r where "from_type 1 ss = s # r" using of_type_hd [OF assms(13)] by blast
  then have "System_uuid (smbiosTableStorage a') (At 0) = Some (uuid_text s)"
    using System_uuid_table [OF tf] assms(14) by blast
  then show ?thesis
    using up count_all_from [OF tf] pcie_total_table [OF tf assms(12)]
    by (simp add: getTotalCpuSlot_def getTotalDimmSlot_def)
qed

definition example_system_upload :: "u8 list" where
  "example_system_upload = smbios30_file 3 3 50 [example_system]"

lemma example_system_upload_bytes:
  "example_system_upload = [0x5F, 0x53, 0x4D, 0x33, 0x5F, 0, 24, 3, 3, 0, 1, 0, 50, 0, 0, 0,
     24, 0, 0, 0, 0, 0, 0, 0, 1, 24, 2, 0, 1, 0, 0, 0, 0x78, 0x56, 0x34, 0x12, 0xbc, 0x9a, 0xf0, 0xde,
     1, 2, 3, 4, 5, 6, 7, 8, 77, 97, 107, 101, 114, 0, 0, 0, 0]"
  by code_simp

lemma example_system_upload_no21: "search anchorString21 example_system_upload = None"
  by (simp add: example_system_upload_bytes anchorString21_def)

theorem uploaded_table_inventory_witness:
  "\<exists>b' a'. upload_table example_flags example_env 7 2 [example_system_upload] None example_agent =
      (True, Some b', Some (file_image 5 example_system_upload), a')
    \<and> System_uuid (smbiosTableStorage a') (At 0) = Some (uuid_text example_system)"
proof -
  have "2 AND of_read example_flags = 0" "2 AND of_write example_flags \<noteq> 0" "env_writable example_env"
    by (simp_all add: example_flags_def env_writable_def example_env_def)
  moreover have "list_all (\<lambda>c. c \<noteq> []) [example_system_upload]"
    "length (concat [example_system_upload]) + 3 \<le> smbiosTableStorageSize"
    by (simp_all add: example_system_upload_bytes smbiosTableStorageSize_def)
  moreover have "concat [example_system_upload] = smbios30_file 3 3 50 [example_system]"
    by (simp add: example_system_upload_def)
  moreover have "list_all wf_struct [example_system]"
    using example_wf by (simp add: example_table_def)
  moreover have "\<lparr>majorVersion = 3, minorVersion = 3\<rparr> \<in> set supportedSMBIOSVersions"
    by (simp add: supportedSMBIOSVersions_def)
  moreover have "search anchorString21 (concat [example_system_upload]) = None"
    using example_system_upload_no21 by simp
  moreover have "\<forall>x \<in> set [example_system]. s_type x = 9 \<longrightarrow> 13 \<le> s_length x"
    "of_type 1 [example_system] = [example_system]" "24 \<le> s_length example_system"
    by (simp_all add: example_system_def s_length_def structureHeaderSize_def)
  ultimately obtain b' a' where
    "upload_table example_flags example_env 7 2 [example_system_upload] None example_agent =
      (True, Some b', Some (file_image (now example_env) (concat [example_system_upload])), a')"
    "System_uuid (smbiosTableStorage a') (At 0) = Some (uuid_text example_system)"
    using uploaded_table_inventory [OF example_flags_distinct _ _ _ example_agent_wf] by blast
  then show ?thesis by (simp add: example_env_def)
qed

end
